(* ===== verification/Prelude.thy ===== *)
theory Prelude
  imports Complex_Main "HOL-Library.AList" "HOL-Library.Sublist" "HOL-Library.Multiset"
begin

text \<open>
  Shared vocabulary of the development: Python exceptions and results, insertion-ordered
  dictionaries, Python's rounding of numbers, and the generic list lemmas that several
  components use.

  Python floats are modelled by exact rationals (\<open>rat\<close>) and Decimals likewise; binary
  rounding error, infinities and NaN are not modelled. Messages of exceptions are dropped: an
  exception is its class.
\<close>

section \<open>Exceptions and results\<close>

text \<open>
  The exception classes that the modelled code raises or lets through. Foreign code (database
  drivers, HTTP clients) raises \<open>OtherExc n\<close> for an arbitrary number \<open>n\<close>.
\<close>

datatype pyexc =
    ValueErr | KeyErr | IndexErr | TypeErr | ZeroDivErr | RuntimeErr | AttrErr
  | SessionErr | SessionNotFoundErr | SessionExpiredErr | SessionUserNotFoundErr
  | UserSessionNotFoundErr | InvalidTokenErr | InvalidResetTokenErr
  | AppNotFoundErr | ScopeNotFoundErr | AuthRequestErr | DbErr | ImportErr
  | UnboundErr | HttpStatusErr | NotImplErr
  | ValidationErr | CollectionCreationErr | CollectionNotFoundErr | CollectionRetrievalErr | CollectionUpdateErr
  | CollectionDeleteErr | SetNotFoundErr | SetRetrievalErr | SetUpdateErr | SetCreationErr | SetDeletionErr | SetInsertErr
  | CardInsertErr | CardDeletionErr | CardRetrievalErr | CardNotFoundErr | UnknownIdentifierErr
  | FileNotFoundErr | OSErr | AbortedTxErr
  | OtherExc nat

type_synonym 'a res = "pyexc + 'a"

definition bind_res :: "'a res \<Rightarrow> ('a \<Rightarrow> 'b res) \<Rightarrow> 'b res" where
  "bind_res r f = (case r of Inl e \<Rightarrow> Inl e | Inr x \<Rightarrow> f x)"

lemma bind_res_simps [simp]:
  "bind_res (Inl e) f = Inl e"
  "bind_res (Inr x) f = f x"
  by (simp_all add: bind_res_def)

lemma bind_res_eq_Inr [simp]:
  "bind_res r f = Inr y \<longleftrightarrow> (\<exists>x. r = Inr x \<and> f x = Inr y)"
  by (cases r) auto

fun is_ok :: "'a res \<Rightarrow> bool" where
  "is_ok (Inl _) = False"
| "is_ok (Inr _) = True"

lemma is_ok_iff: "is_ok r \<longleftrightarrow> (\<exists>x. r = Inr x)"
  by (cases r) auto

section \<open>Stateful code\<close>

text \<open>
  A method that reads and writes a state \<open>'s\<close>: it returns a result or an exception, and the
  state it leaves in either case.
\<close>

type_synonym ('s, 'a) prog = "'s \<Rightarrow> 'a res \<times> 's"

definition ret :: "'a \<Rightarrow> ('s, 'a) prog" where
  "ret x s = (Inr x, s)"

definition throw :: "pyexc \<Rightarrow> ('s, 'a) prog" where
  "throw e s = (Inl e, s)"

definition bindp :: "('s, 'a) prog \<Rightarrow> ('a \<Rightarrow> ('s, 'b) prog) \<Rightarrow> ('s, 'b) prog" where
  "bindp m f s = (case m s of (Inl e, s') \<Rightarrow> (Inl e, s') | (Inr x, s') \<Rightarrow> f x s')"

text \<open>\<open>try: m except Exception as e: h(e)\<close>.\<close>

definition catchp :: "('s, 'a) prog \<Rightarrow> (pyexc \<Rightarrow> ('s, 'a) prog) \<Rightarrow> ('s, 'a) prog" where
  "catchp m h s = (case m s of (Inl e, s') \<Rightarrow> h e s' | (Inr x, s') \<Rightarrow> (Inr x, s'))"

lemma ret_apply [simp]: "ret x s = (Inr x, s)"
  by (simp add: ret_def)

lemma throw_apply [simp]: "throw e s = (Inl e, s)"
  by (simp add: throw_def)

lemma bindp_ok [simp]: "m s = (Inr x, s') \<Longrightarrow> bindp m f s = f x s'"
  by (simp add: bindp_def)

lemma bindp_err [simp]: "m s = (Inl e, s') \<Longrightarrow> bindp m f s = (Inl e, s')"
  by (simp add: bindp_def)

lemma bindp_ret [simp]: "bindp (ret x) f = f x"
  by (rule ext) (simp add: bindp_def)

lemma bindp_throw [simp]: "bindp (throw e) f = throw e"
  by (rule ext) (simp add: bindp_def)

lemma bindp_Inr_iff: "bindp m f s = (Inr y, s') \<longleftrightarrow> (\<exists>x s1. m s = (Inr x, s1) \<and> f x s1 = (Inr y, s'))"
  by (auto simp: bindp_def split: prod.splits sum.splits)

text \<open>An invariant of the state that a program keeps, whatever it returns.\<close>

definition keeps :: "('s \<Rightarrow> bool) \<Rightarrow> ('s, 'a) prog \<Rightarrow> bool" where
  "keeps I m \<longleftrightarrow> (\<forall>s. I s \<longrightarrow> I (snd (m s)))"

lemma keepsI: "(\<And>s. I s \<Longrightarrow> I (snd (m s))) \<Longrightarrow> keeps I m"
  by (simp add: keeps_def)

lemma keepsD: "keeps I m \<Longrightarrow> I s \<Longrightarrow> m s = (r, s') \<Longrightarrow> I s'"
  by (auto simp: keeps_def dest: spec [of _ s])

lemma keeps_snd: "keeps I m \<Longrightarrow> I s \<Longrightarrow> I (snd (m s))"
  by (simp add: keeps_def)

lemma keeps_ret [simp, intro]: "keeps I (ret x)"
  by (simp add: keeps_def)

lemma keeps_throw [simp, intro]: "keeps I (throw e)"
  by (simp add: keeps_def)

lemma keeps_Pair [simp, intro]: "keeps I (Pair r)"
  by (simp add: keeps_def)

lemma keeps_cases:
  assumes "keeps I m" "\<And>x. keeps I (f x)" "\<And>e. keeps I (g e)"
  shows "keeps I (\<lambda>s. case m s of (Inl e, s') \<Rightarrow> g e s' | (Inr x, s') \<Rightarrow> f x s')"
proof (rule keepsI)
  fix s assume "I s"
  with assms(1) have "I (snd (m s))" by (simp add: keeps_def)
  with assms(2,3) show "I (snd (case m s of (Inl e, s') \<Rightarrow> g e s' | (Inr x, s') \<Rightarrow> f x s'))"
    by (auto simp: keeps_def split: prod.split sum.split)
qed

lemma keeps_bindp [intro]:
  assumes "keeps I m" "\<And>x. keeps I (f x)"
  shows "keeps I (bindp m f)"
  using keeps_cases [of I m f "\<lambda>e. Pair (Inl e)", OF assms] unfolding bindp_def by (simp add: keeps_def)

lemma keeps_catchp [intro]:
  assumes "keeps I m" "\<And>e. keeps I (h e)"
  shows "keeps I (catchp m h)"
  using keeps_cases [of I m "\<lambda>x. Pair (Inr x)" h] assms unfolding catchp_def by (simp add: keeps_def)

section \<open>Insertion-ordered dictionaries\<close>

text \<open>
  A Python dict whose iteration order the code relies on is an association list with distinct
  keys: assignment updates in place or appends (\<open>AList.update\<close>), lookup is \<open>map_of\<close>.
\<close>

type_synonym ('k, 'v) dict = "('k \<times> 'v) list"

abbreviation dget :: "('k, 'v) dict \<Rightarrow> 'k \<Rightarrow> 'v option" where
  "dget d k \<equiv> map_of d k"

abbreviation dset :: "'k \<Rightarrow> 'v \<Rightarrow> ('k, 'v) dict \<Rightarrow> ('k, 'v) dict" where
  "dset k v d \<equiv> AList.update k v d"

abbreviation dkeys :: "('k, 'v) dict \<Rightarrow> 'k list" where
  "dkeys d \<equiv> map fst d"

definition dict_ok :: "('k, 'v) dict \<Rightarrow> bool" where
  "dict_ok d \<longleftrightarrow> distinct (dkeys d)"

lemma dict_ok_Nil [simp, intro]: "dict_ok []"
  by (simp add: dict_ok_def)

lemma dict_ok_dset [simp, intro]: "dict_ok d \<Longrightarrow> dict_ok (dset k v d)"
  by (simp add: dict_ok_def distinct_update)

lemma dget_dset: "dget (dset k v d) k' = (if k' = k then Some v else dget d k')"
  by (simp add: update_conv')

lemma set_dkeys_dset [simp]: "set (dkeys (dset k v d)) = insert k (set (dkeys d))"
  by (induction d) auto

lemma dget_in_set: "dict_ok d \<Longrightarrow> dget d k = Some v \<longleftrightarrow> (k, v) \<in> set d"
  by (simp add: dict_ok_def)

text \<open>\<open>d.update(e)\<close>: every binding of \<open>e\<close>, in order, overrides.\<close>

definition dmerge :: "('k, 'v) dict \<Rightarrow> ('k, 'v) dict \<Rightarrow> ('k, 'v) dict" where
  "dmerge d e = fold (\<lambda>(k, v). dset k v) e d"

lemma dict_ok_dmerge: "dict_ok d \<Longrightarrow> dict_ok (dmerge d e)"
  unfolding dmerge_def by (induction e arbitrary: d) auto

lemma dget_dmerge:
  "dict_ok e \<Longrightarrow> dget (dmerge d e) k = (case dget e k of Some v \<Rightarrow> Some v | None \<Rightarrow> dget d k)"
  unfolding dmerge_def
proof (induction e arbitrary: d)
  case Nil
  then show ?case by simp
next
  case (Cons p e)
  obtain k' v where p: "p = (k', v)" by (cases p)
  have ok: "dict_ok e" and fresh: "k' \<notin> fst ` set e"
    using Cons.prems by (simp_all add: dict_ok_def p)
  have none: "dget e k' = None"
    using fresh by (auto simp: map_of_eq_None_iff)
  show ?case
    using Cons.IH [OF ok, of "dset k' v d"] none
    by (auto simp: p dget_dset split: option.splits)
qed

section \<open>Python's rounding\<close>

text \<open>\<open>round(x)\<close>: to the nearest integer, ties to the even one.\<close>

definition round_half_even :: "rat \<Rightarrow> int" where
  "round_half_even x =
     (let f = \<lfloor>x\<rfloor>; d = x - of_int f
      in if d < 1/2 then f else if d > 1/2 then f + 1 else if even f then f else f + 1)"

text \<open>\<open>round(x, 2)\<close>.\<close>

definition round2 :: "rat \<Rightarrow> rat" where
  "round2 x = of_int (round_half_even (x * 100)) / 100"

lemma round_half_even_cases:
  "round_half_even x = \<lfloor>x\<rfloor> \<and> x - of_int \<lfloor>x\<rfloor> \<le> 1/2
   \<or> round_half_even x = \<lfloor>x\<rfloor> + 1 \<and> 1/2 \<le> x - of_int \<lfloor>x\<rfloor>"
  by (auto simp: round_half_even_def Let_def)

lemma round_half_even_int [simp]: "round_half_even (of_int n) = n"
  by (simp add: round_half_even_def)

lemma round_half_even_0 [simp]: "round_half_even 0 = 0"
  using round_half_even_int [of 0] by simp

lemma round_half_even_near: "\<bar>of_int (round_half_even x) - x\<bar> \<le> 1/2"
  using round_half_even_cases [of x] of_int_floor_le [of x] floor_correct [of x] by auto

lemma round_half_even_mono:
  assumes "x \<le> y"
  shows "round_half_even x \<le> round_half_even y"
proof (cases "\<lfloor>x\<rfloor> = \<lfloor>y\<rfloor>")
  case True
  with assms show ?thesis by (auto simp: round_half_even_def Let_def)
next
  case False
  with assms have "\<lfloor>x\<rfloor> + 1 \<le> \<lfloor>y\<rfloor>"
    using floor_mono [OF assms] by linarith
  then show ?thesis
    using round_half_even_cases [of x] round_half_even_cases [of y] by linarith
qed

lemma round2_mono: "x \<le> y \<Longrightarrow> round2 x \<le> round2 y"
  by (simp add: round2_def divide_right_mono round_half_even_mono)

lemma round2_nonneg: "0 \<le> x \<Longrightarrow> 0 \<le> round2 x"
  using round2_mono [of 0 x] by (simp add: round2_def)

lemma round2_near: "\<bar>round2 x - x\<bar> \<le> 1/200"
proof -
  have "\<bar>of_int (round_half_even (x * 100)) - x * 100\<bar> \<le> 1/2"
    by (rule round_half_even_near)
  then show ?thesis by (simp add: round2_def abs_le_iff field_simps)
qed

section \<open>Lists\<close>

lemma filter_partition_mset:
  "mset (filter P xs) + mset (filter (\<lambda>x. \<not> P x) xs) = mset xs"
  by (induction xs) auto

lemma find_append:
  "find P (xs @ ys) = (case find P xs of None \<Rightarrow> find P ys | Some x \<Rightarrow> Some x)"
  by (induction xs) auto

text \<open>A stable sort by a key in decreasing order: Python's \<open>sorted(..., reverse=True)\<close>.\<close>

definition sort_desc :: "('a \<Rightarrow> 'b::linorder) \<Rightarrow> 'a list \<Rightarrow> 'a list" where
  "sort_desc f xs = rev (sort_key f (rev xs))"

lemma mset_sort_desc [simp]: "mset (sort_desc f xs) = mset xs"
  by (simp add: sort_desc_def)

lemma set_sort_desc [simp]: "set (sort_desc f xs) = set xs"
  by (simp add: sort_desc_def)

lemma sort_desc_Nil_iff [simp]: "sort_desc f xs = [] \<longleftrightarrow> xs = []"
  using set_sort_desc [of f xs] by (metis set_empty)

lemma sort_desc_ConsD: "sort_desc f xs = y # ys \<Longrightarrow> y \<in> set xs"
  using set_sort_desc [of f xs] by (metis list.set_intros(1))

lemma sorted_sort_desc: "sorted_wrt (\<lambda>x y. f x \<ge> f y) (sort_desc f xs)"
proof -
  have "sorted_wrt (\<lambda>x y. f x \<le> f y) (sort_key f (rev xs))"
    using sorted_sort_key [of f "rev xs"] by (simp add: sorted_map)
  then show ?thesis by (simp add: sort_desc_def sorted_wrt_rev)
qed

lemma sort_desc_stable: "filter (\<lambda>x. f x = k) (sort_desc f xs) = filter (\<lambda>x. f x = k) xs"
  by (simp add: sort_desc_def sort_key_stable flip: rev_filter)

text \<open>The first element with the largest key: Python's \<open>max(xs, key=f)\<close> on a non-empty list.\<close>

fun max_key :: "('a \<Rightarrow> 'b::linorder) \<Rightarrow> 'a \<Rightarrow> 'a list \<Rightarrow> 'a" where
  "max_key f b [] = b"
| "max_key f b (x # xs) = max_key f (if f b < f x then x else b) xs"

lemma max_key_in: "max_key f b xs \<in> insert b (set xs)"
proof (induction xs arbitrary: b)
  case Nil
  then show ?case by simp
next
  case (Cons x xs)
  from Cons.IH [of "if f b < f x then x else b"] show ?case by auto
qed

lemma max_key_ge: "x \<in> insert b (set xs) \<Longrightarrow> f x \<le> f (max_key f b xs)"
proof (induction xs arbitrary: b x)
  case Nil
  then show ?case by simp
next
  case (Cons y ys)
  let ?b = "if f b < f y then y else b"
  have base: "f ?b \<le> f (max_key f ?b ys)" using Cons.IH [of ?b ?b] by simp
  have step: "z \<in> set ys \<Longrightarrow> f z \<le> f (max_key f ?b ys)" for z using Cons.IH [of z ?b] by simp
  have "f b \<le> f ?b" "f y \<le> f ?b" by auto
  with base have "f b \<le> f (max_key f ?b ys)" "f y \<le> f (max_key f ?b ys)"
    by (blast intro: order_trans)+
  with step Cons.prems show ?case by auto
qed

section \<open>JSON values\<close>

datatype json =
  JNull | JBool bool | JInt int | JNum rat | JStr string | JList "json list" | JObj "(string \<times> json) list"

fun truthy :: "json \<Rightarrow> bool" where
  "truthy JNull = False"
| "truthy (JBool b) = b"
| "truthy (JInt n) = (n \<noteq> 0)"
| "truthy (JNum q) = (q \<noteq> 0)"
| "truthy (JStr s) = (s \<noteq> [])"
| "truthy (JList xs) = (xs \<noteq> [])"
| "truthy (JObj d) = (d \<noteq> [])"

text \<open>\<open>d.get(k)\<close>, with Python's \<open>None\<close> for a missing key.\<close>

definition jget :: "(string, json) dict \<Rightarrow> string \<Rightarrow> json" where
  "jget d k = (case dget d k of None \<Rightarrow> JNull | Some v \<Rightarrow> v)"

end
