(* ===== verification/Db_Session.thy ===== *)
theory Db_Session
  imports Prelude
begin

text \<open>
  A database session and the query executor on it: \<open>AsyncQueryExecutor\<close> (\<open>core/db/query_executor.py\<close>), the
  statements of \<open>AbstractRepository\<close> (\<open>abstract_repositories/AbstractDBRepository.py\<close>) and the transaction that
  \<open>ServiceManager\<close> opens around a service.

  A statement is a function on the database that answers or is refused. The session is that of PostgreSQL: in a
  transaction a refused statement aborts it, and every further statement is refused until the end of the transaction;
  outside a transaction every statement is committed at once. Faults of the server are a list of exceptions, one entry for
  each statement that reaches it.
\<close>

section \<open>The session\<close>

type_synonym ('d, 'r) statement = "'d \<Rightarrow> ('r \<times> 'd) res"

text \<open>The committed database, the open transaction with its working state and whether it is aborted, and the faults to come.\<close>

record 'd db_session =
  ss_db :: 'd
  ss_tx :: "('d \<times> bool) option"
  ss_faults :: "pyexc option list"

definition next_fault :: "'d db_session \<Rightarrow> pyexc option \<times> 'd db_session" where
  "next_fault s = (case ss_faults s of [] \<Rightarrow> (None, s) | f # fs \<Rightarrow> (f, s\<lparr>ss_faults := fs\<rparr>))"

definition run_statement :: "('d, 'r) statement \<Rightarrow> 'd \<Rightarrow> 'd db_session \<Rightarrow> ('r \<times> 'd) res \<times> 'd db_session" where
  "run_statement stmt d s =
     (case next_fault s of (Some e, s') \<Rightarrow> (Inl e, s') | (None, s') \<Rightarrow> (stmt d, s'))"

definition send_statement :: "('d, 'r) statement \<Rightarrow> ('d db_session, 'r) prog" where
  "send_statement stmt s =
     (case ss_tx s of
        None \<Rightarrow>
          (case run_statement stmt (ss_db s) s of
             (Inl e, s') \<Rightarrow> (Inl e, s')
           | (Inr (r, d), s') \<Rightarrow> (Inr r, s'\<lparr>ss_db := d\<rparr>))
      | Some (w, True) \<Rightarrow> (Inl AbortedTxErr, s)
      | Some (w, False) \<Rightarrow>
          (case run_statement stmt w s of
             (Inl e, s') \<Rightarrow> (Inl e, s'\<lparr>ss_tx := Some (w, True)\<rparr>)
           | (Inr (r, w'), s') \<Rightarrow> (Inr r, s'\<lparr>ss_tx := Some (w', False)\<rparr>)))"

definition send_rollback :: "('d db_session, unit) prog" where
  "send_rollback s = (Inr (), s\<lparr>ss_tx := None\<rparr>)"

text \<open>\<open>COMMIT\<close>: of an aborted transaction it is a rollback, and without a transaction it does nothing.\<close>

definition send_commit :: "('d db_session, unit) prog" where
  "send_commit s =
     (case ss_tx s of
        Some (w, False) \<Rightarrow> (Inr (), s\<lparr>ss_db := w, ss_tx := None\<rparr>)
      | _ \<Rightarrow> (Inr (), s\<lparr>ss_tx := None\<rparr>))"

definition in_transaction :: "('d db_session, 'a) prog \<Rightarrow> ('d db_session, 'a) prog" where
  "in_transaction body s =
     (case body (s\<lparr>ss_tx := Some (ss_db s, False)\<rparr>) of
        (Inr x, s') \<Rightarrow> (Inr x, snd (send_commit s'))
      | (Inl e, s') \<Rightarrow> (Inl e, snd (send_rollback s')))"

section \<open>The executor\<close>

text \<open>An error handler may raise an exception of its own instead.\<close>

definition handle_exception :: "(pyexc \<Rightarrow> pyexc option) \<Rightarrow> pyexc \<Rightarrow> pyexc" where
  "handle_exception handler e = (case handler e of None \<Rightarrow> e | Some e' \<Rightarrow> e')"

definition executor_command :: "(pyexc \<Rightarrow> pyexc option) \<Rightarrow> ('d, 'r) statement \<Rightarrow> ('d db_session, 'r) prog" where
  "executor_command handler stmt s =
     (case send_statement stmt s of
        (Inr r, s') \<Rightarrow> (Inr r, s')
      | (Inl e, s') \<Rightarrow>
          if e = AbortedTxErr then bindp send_rollback (\<lambda>_. send_statement stmt) s'
          else (Inl (handle_exception handler e), s'))"

text \<open>The parameters of a statement are unpacked: a tuple or a list gives them, another object cannot be.\<close>

datatype 'p params = Tuple "'p list" | Whole 'p

definition unpack :: "'p params \<Rightarrow> 'p list res" where
  "unpack p = (case p of Tuple xs \<Rightarrow> Inr xs | Whole _ \<Rightarrow> Inl TypeErr)"

definition executor_query ::
  "(pyexc \<Rightarrow> pyexc option) \<Rightarrow> ('p list \<Rightarrow> ('d, 'r) statement) \<Rightarrow> 'p params \<Rightarrow> ('d db_session, 'r) prog" where
  "executor_query handler query params =
     (case unpack params of
        Inl e \<Rightarrow> throw (handle_exception handler e)
      | Inr xs \<Rightarrow> executor_command handler (query xs))"

text \<open>A repository with an executor goes through it, one without sends its statements itself.\<close>

definition execute_command :: "(pyexc \<Rightarrow> pyexc option) option \<Rightarrow> ('d, 'r) statement \<Rightarrow> ('d db_session, 'r) prog" where
  "execute_command executor stmt = (case executor of Some handler \<Rightarrow> executor_command handler stmt | None \<Rightarrow> send_statement stmt)"

definition execute_query ::
  "(pyexc \<Rightarrow> pyexc option) option \<Rightarrow> ('p list \<Rightarrow> ('d, 'r) statement) \<Rightarrow> 'p params \<Rightarrow> ('d db_session, 'r) prog" where
  "execute_query executor query params =
     (case executor of
        Some handler \<Rightarrow> executor_query handler query params
      | None \<Rightarrow> (case unpack params of Inl e \<Rightarrow> throw e | Inr xs \<Rightarrow> send_statement (query xs)))"

section \<open>One statement\<close>

lemma next_fault_simps [simp]:
  "ss_faults s = [] \<Longrightarrow> next_fault s = (None, s)"
  "ss_faults s = f # fs \<Longrightarrow> next_fault s = (f, s\<lparr>ss_faults := fs\<rparr>)"
  by (simp_all add: next_fault_def)

lemma next_fault_frame [simp]:
  "ss_db (snd (next_fault s)) = ss_db s" "ss_tx (snd (next_fault s)) = ss_tx s"
  by (auto simp: next_fault_def split: list.split)

text \<open>While the transaction is sound, the committed database stays as it is.\<close>

definition sound_tx :: "'d db_session \<Rightarrow> bool" where
  "sound_tx s \<longleftrightarrow> (\<exists>w. ss_tx s = Some (w, False))"

lemma send_in_tx:
  assumes "sound_tx s" "send_statement stmt s = (r, s')"
  shows "ss_db s' = ss_db s" "is_ok r \<Longrightarrow> sound_tx s'" "\<not> is_ok r \<Longrightarrow> \<exists>w. ss_tx s' = Some (w, True)"
proof -
  obtain w where w: "ss_tx s = Some (w, False)" using assms(1) by (auto simp: sound_tx_def)
  obtain f t where f: "next_fault s = (f, t)" by (cases "next_fault s")
  have t: "ss_db t = ss_db s" using next_fault_frame(1) [of s] f by simp
  show "ss_db s' = ss_db s" "is_ok r \<Longrightarrow> sound_tx s'" "\<not> is_ok r \<Longrightarrow> \<exists>w. ss_tx s' = Some (w, True)"
    using assms(2) t
    by (auto simp: send_statement_def w run_statement_def f sound_tx_def split: option.splits sum.splits prod.splits)
qed

lemma executor_in_tx:
  assumes "sound_tx s" "executor_command h stmt s = (r, s')" "\<forall>e\<in>set (ss_faults s). e \<noteq> Some AbortedTxErr" "\<And>d. stmt d \<noteq> Inl AbortedTxErr"
  shows "ss_db s' = ss_db s" "is_ok r \<Longrightarrow> sound_tx s'" "\<not> is_ok r \<Longrightarrow> \<exists>w. ss_tx s' = Some (w, True)"
proof -
  obtain r1 s1 where r: "send_statement stmt s = (r1, s1)" by (cases "send_statement stmt s")
  have "r1 \<noteq> Inl AbortedTxErr"
    using r assms(1,3,4)
    by (cases "ss_faults s") (auto simp: send_statement_def sound_tx_def run_statement_def split: option.splits sum.splits prod.splits)
  then have "s' = s1" "is_ok r = is_ok r1"
    using assms(2) r by (auto simp: executor_command_def split: sum.splits)
  then show "ss_db s' = ss_db s" "is_ok r \<Longrightarrow> sound_tx s'" "\<not> is_ok r \<Longrightarrow> \<exists>w. ss_tx s' = Some (w, True)"
    using send_in_tx [OF assms(1) r] by simp_all
qed

section \<open>Services that stop at an exception, and services that go on\<close>

text \<open>Statements one after the other, up to the first exception, and with the exceptions swallowed.\<close>

fun stop_at_first :: "(pyexc \<Rightarrow> pyexc option) \<Rightarrow> ('d, 'r) statement list \<Rightarrow> ('d db_session, unit) prog" where
  "stop_at_first h [] = ret ()"
| "stop_at_first h (x # xs) = bindp (executor_command h x) (\<lambda>_. stop_at_first h xs)"

fun swallow_all :: "(pyexc \<Rightarrow> pyexc option) \<Rightarrow> ('d, 'r) statement list \<Rightarrow> ('d db_session, unit) prog" where
  "swallow_all h [] = ret ()"
| "swallow_all h (x # xs) = bindp (catchp (bindp (executor_command h x) (\<lambda>_. ret ())) (\<lambda>_. ret ())) (\<lambda>_. swallow_all h xs)"

definition plain_faults :: "'d db_session \<Rightarrow> bool" where
  "plain_faults s \<longleftrightarrow> (\<forall>e\<in>set (ss_faults s). e \<noteq> Some AbortedTxErr)"

lemma send_faults: "send_statement stmt s = (r, s') \<Longrightarrow> plain_faults s \<Longrightarrow> plain_faults s'"
  by (cases "ss_faults s")
    (auto simp: send_statement_def run_statement_def plain_faults_def split: option.splits sum.splits prod.splits bool.splits)

lemma executor_faults: "executor_command h stmt s = (r, s') \<Longrightarrow> plain_faults s \<Longrightarrow> plain_faults s'"
proof -
  assume e: "executor_command h stmt s = (r, s')" and p: "plain_faults s"
  obtain r1 s1 where r: "send_statement stmt s = (r1, s1)" by (cases "send_statement stmt s")
  have p1: "plain_faults s1" using send_faults [OF r p] .
  then have p2: "plain_faults (s1\<lparr>ss_tx := None\<rparr>)" by (simp add: plain_faults_def)
  show ?thesis
  proof (cases "r1 = Inl AbortedTxErr")
    case True
    then have "send_statement stmt (s1\<lparr>ss_tx := None\<rparr>) = (r, s')"
      using e r by (simp add: executor_command_def send_rollback_def bindp_def)
    then show ?thesis using p2 by (rule send_faults)
  next
    case False
    then show ?thesis using e r p1 by (auto simp: executor_command_def split: sum.splits)
  qed
qed

lemma stop_in_tx:
  assumes "sound_tx s" "stop_at_first h xs s = (r, s')" "plain_faults s" "\<forall>x\<in>set xs. \<forall>d. x d \<noteq> Inl AbortedTxErr"
  shows "ss_db s' = ss_db s \<and> (is_ok r \<longrightarrow> sound_tx s')"
  using assms
proof (induction xs arbitrary: s)
  case Nil
  then show ?case by simp
next
  case (Cons x xs)
  obtain r1 s1 where r: "executor_command h x s = (r1, s1)" by (cases "executor_command h x s")
  have f: "\<forall>e\<in>set (ss_faults s). e \<noteq> Some AbortedTxErr" and x: "\<And>d. x d \<noteq> Inl AbortedTxErr"
    using Cons.prems(3,4) by (auto simp: plain_faults_def)
  note s1 = executor_in_tx [OF Cons.prems(1) r f x]
  show ?case
  proof (cases r1)
    case (Inl e)
    then show ?thesis using Cons.prems(2) r s1 by auto
  next
    case (Inr y)
    then have "sound_tx s1" using s1(2) by simp
    from Cons.IH [OF this, of] show ?thesis
      using Cons.prems(2-4) r Inr s1(1) executor_faults [OF r Cons.prems(3)] by auto
  qed
qed

text \<open>A service that stops at its first exception is atomic: raising, it leaves the committed database as it was.\<close>

theorem stopping_service_atomic:
  assumes "in_transaction (stop_at_first h xs) s = (Inl e, s')" "plain_faults s" "\<forall>x\<in>set xs. \<forall>d. x d \<noteq> Inl AbortedTxErr"
  shows "ss_db s' = ss_db s \<and> ss_tx s' = None"
proof -
  let ?s = "s\<lparr>ss_tx := Some (ss_db s, False)\<rparr>"
  obtain r t where t: "stop_at_first h xs ?s = (r, t)" by (cases "stop_at_first h xs ?s")
  have "sound_tx ?s" "plain_faults ?s" using assms(2) by (simp_all add: sound_tx_def plain_faults_def)
  from stop_in_tx [OF this(1) t this(2) assms(3)] show ?thesis
    using assms(1) t by (auto simp: in_transaction_def send_rollback_def split: sum.splits)
qed

text \<open>A statement that the database never refuses.\<close>

definition writing :: "('d \<Rightarrow> 'd) \<Rightarrow> ('d, unit) statement" where
  "writing f d = Inr ((), f d)"

lemma swallow_before:
  assumes "ss_tx s = Some (w, False)" "ss_faults s = replicate (length fs) None @ es"
  shows "swallow_all h (map writing fs @ xs) s = swallow_all h xs (s\<lparr>ss_tx := Some (fold (\<lambda>f d. f d) fs w, False), ss_faults := es\<rparr>)"
  using assms
proof (induction fs arbitrary: s w)
  case Nil
  then have "s\<lparr>ss_tx := Some (w, False), ss_faults := es\<rparr> = s" by simp
  then show ?case by simp
next
  case (Cons f fs)
  have "executor_command h (writing f) s = (Inr (), s\<lparr>ss_tx := Some (f w, False), ss_faults := replicate (length fs) None @ es\<rparr>)"
    using Cons.prems by (simp add: executor_command_def send_statement_def run_statement_def next_fault_def writing_def)
  then show ?case
    using Cons.IH [of "s\<lparr>ss_tx := Some (f w, False), ss_faults := replicate (length fs) None @ es\<rparr>" "f w"]
    by (simp add: bindp_def catchp_def)
qed

lemma swallow_after:
  assumes "ss_tx s = None" "ss_faults s = []"
  shows "swallow_all h (map writing fs) s = (Inr (), s\<lparr>ss_db := fold (\<lambda>f d. f d) fs (ss_db s)\<rparr>)"
  using assms
proof (induction fs arbitrary: s)
  case (Cons f fs)
  have "executor_command h (writing f) s = (Inr (), s\<lparr>ss_db := f (ss_db s)\<rparr>)"
    using Cons.prems by (simp add: executor_command_def send_statement_def run_statement_def next_fault_def writing_def)
  then show ?case using Cons.IH [of "s\<lparr>ss_db := f (ss_db s)\<rparr>"] Cons.prems by (simp add: bindp_def catchp_def)
qed simp

lemma swallow_aborted:
  assumes "ss_tx s = Some (w, True)" "ss_faults s = []"
  shows "\<exists>tx. swallow_all h (map writing fs) s = (Inr (), s\<lparr>ss_db := fold (\<lambda>f d. f d) fs (ss_db s), ss_tx := tx\<rparr>) \<and>
    (\<forall>w. tx \<noteq> Some (w, False))"
proof (cases fs)
  case Nil
  have "s\<lparr>ss_db := ss_db s, ss_tx := Some (w, True)\<rparr> = s" using assms(1) by simp
  then show ?thesis using Nil by (intro exI [of _ "Some (w, True)"]) simp
next
  case (Cons f gs)
  have "executor_command h (writing f) s = (Inr (), s\<lparr>ss_db := f (ss_db s), ss_tx := None\<rparr>)"
    using assms by (simp add: executor_command_def send_statement_def send_rollback_def bindp_def run_statement_def next_fault_def writing_def)
  then show ?thesis
    using Cons assms swallow_after [of "s\<lparr>ss_db := f (ss_db s), ss_tx := None\<rparr>" h gs]
    by (intro exI [of _ None]) (simp add: bindp_def catchp_def)
qed

text \<open>C28. The retry of the executor breaks a transaction whose service swallows the error of a statement: the next statement
  rolls back what was written before the error and is committed by itself, as are all later ones, and no end of the
  service, a return or an exception, changes that any more.\<close>

theorem swallowed_error_splits_transaction:
  assumes "ss_faults s = replicate (length before) None @ [Some e]" "e \<noteq> AbortedTxErr"
  shows "in_transaction (bindp (swallow_all h (map writing (before @ f # after))) (\<lambda>_ t. (result, t))) s =
    (result, \<lparr>ss_db = fold (\<lambda>g d. g d) after (ss_db s), ss_tx = None, ss_faults = []\<rparr>)"
proof -
  let ?s = "s\<lparr>ss_tx := Some (ss_db s, False)\<rparr>" and ?w = "fold (\<lambda>g d. g d) before (ss_db s)"
  let ?t = "s\<lparr>ss_tx := Some (?w, True), ss_faults := []\<rparr>"
  have failed: "executor_command h (writing f) (?s\<lparr>ss_tx := Some (?w, False), ss_faults := [Some e]\<rparr>) =
      (Inl (handle_exception h e), ?t)"
    using assms(2) by (simp add: executor_command_def send_statement_def run_statement_def next_fault_def)
  have "swallow_all h (map writing before @ map writing (f # after)) ?s =
      swallow_all h (map writing (f # after)) (?s\<lparr>ss_tx := Some (?w, False), ss_faults := [Some e]\<rparr>)"
    by (rule swallow_before) (simp_all add: assms(1))
  also have "\<dots> = swallow_all h (map writing after) ?t"
    using failed by (simp add: bindp_def catchp_def)
  finally have run: "swallow_all h (map writing (before @ f # after)) ?s = swallow_all h (map writing after) ?t" by simp
  obtain tx where tx: "swallow_all h (map writing after) ?t =
      (Inr (), ?t\<lparr>ss_db := fold (\<lambda>g d. g d) after (ss_db s), ss_tx := tx\<rparr>)" "\<forall>w. tx \<noteq> Some (w, False)"
    using swallow_aborted [of ?t ?w h after] by auto
  show ?thesis
    using run tx by (cases result; cases tx)
      (auto simp: in_transaction_def bindp_def send_commit_def send_rollback_def split: option.splits prod.splits bool.splits)
qed

theorem swallowed_error_splits_transaction_witness:
  "in_transaction (bindp (swallow_all (\<lambda>_. None) (map writing [(#) 4, (#) 2, (#) (3 :: nat)])) (\<lambda>_ t. (Inl ValueErr, t)))
     \<lparr>ss_db = [], ss_tx = None, ss_faults = [None, Some DbErr]\<rparr> =
   (Inl ValueErr, \<lparr>ss_db = [3], ss_tx = None, ss_faults = []\<rparr>)"
  using swallowed_error_splits_transaction [of "\<lparr>ss_db = [], ss_tx = None, ss_faults = [None, Some DbErr]\<rparr>" "[(#) (4 :: nat)]" DbErr
      "\<lambda>_. None" "(#) 2" "[(#) 3]" "Inl ValueErr"]
  by simp

end
