(* ===== verification/Batches.thy ===== *)
theory Batches
  imports Prelude
begin

text \<open>
  Loaders that collect rows in a batch and write a batch when it is full: the loop with one and with two batches, and the
  contract of a bulk write under which the size of the batches plays no part.
\<close>

text \<open>The rows of all items, or the first exception.\<close>

fun concat_res :: "('a \<Rightarrow> 'b list res) \<Rightarrow> 'a list \<Rightarrow> 'b list res" where
  "concat_res f [] = Inr []"
| "concat_res f (x # xs) = bind_res (f x) (\<lambda>ys. bind_res (concat_res f xs) (\<lambda>zs. Inr (ys @ zs)))"

fun concat_res2 :: "('a \<Rightarrow> ('b list \<times> 'c list) res) \<Rightarrow> 'a list \<Rightarrow> ('b list \<times> 'c list) res" where
  "concat_res2 f [] = Inr ([], [])"
| "concat_res2 f (x # xs) =
     bind_res (f x) (\<lambda>(a, b). bind_res (concat_res2 f xs) (\<lambda>(c, d). Inr (a @ c, b @ d)))"

definition flush_full :: "nat \<Rightarrow> ('r list \<Rightarrow> ('s, nat) prog) \<Rightarrow> 'r list \<Rightarrow> ('s, nat \<times> 'r list) prog" where
  "flush_full N wr b = (if N \<le> length b then bindp (wr b) (\<lambda>k. ret (k, [])) else ret (0, b))"

definition flush_rest :: "('r list \<Rightarrow> ('s, nat) prog) \<Rightarrow> 'r list \<Rightarrow> ('s, nat) prog" where
  "flush_rest wr b = (if b = [] then ret 0 else wr b)"

text \<open>The loop with one batch: the answer is the number of rows that the writes report.\<close>

fun feed :: "nat \<Rightarrow> ('r list \<Rightarrow> ('s, nat) prog) \<Rightarrow> ('a \<Rightarrow> 'r list res) \<Rightarrow> 'a list \<Rightarrow> 'r list \<Rightarrow> nat \<Rightarrow> ('s, nat) prog" where
  "feed N wr rows [] b n = bindp (flush_rest wr b) (\<lambda>k. ret (n + k))"
| "feed N wr rows (x # xs) b n =
     (case rows x of
        Inl e \<Rightarrow> throw e
      | Inr rs \<Rightarrow> bindp (flush_full N wr (b @ rs)) (\<lambda>(k, c). feed N wr rows xs c (n + k)))"

text \<open>The loop with two batches.\<close>

fun feed2 ::
  "nat \<Rightarrow> ('r list \<Rightarrow> ('s, nat) prog) \<Rightarrow> ('q list \<Rightarrow> ('s, nat) prog) \<Rightarrow> ('a \<Rightarrow> ('r list \<times> 'q list) res) \<Rightarrow> 'a list \<Rightarrow>
   'r list \<times> 'q list \<Rightarrow> nat \<times> nat \<Rightarrow> ('s, nat \<times> nat) prog" where
  "feed2 N w1 w2 rows [] (b1, b2) (n1, n2) =
     bindp (flush_rest w1 b1) (\<lambda>k1. bindp (flush_rest w2 b2) (\<lambda>k2. ret (n1 + k1, n2 + k2)))"
| "feed2 N w1 w2 rows (x # xs) (b1, b2) (n1, n2) =
     (case rows x of
        Inl e \<Rightarrow> throw e
      | Inr (r1, r2) \<Rightarrow>
          bindp (flush_full N w1 (b1 @ r1)) (\<lambda>(k1, c1).
          bindp (flush_full N w2 (b2 @ r2)) (\<lambda>(k2, c2). feed2 N w1 w2 rows xs (c1, c2) (n1 + k1, n2 + k2))))"

section \<open>The contract of a bulk write\<close>

text \<open>
  Rows that fit can be written in two parts: the parts succeed one after the other and leave what one write leaves.
\<close>

locale bulk_write =
  fixes wr :: "'r list \<Rightarrow> ('s, nat) prog"
    and fits :: "'r list \<Rightarrow> 's \<Rightarrow> bool"
  assumes write_Nil: "wr [] s = (Inr 0, s)"
    and write_append: "fits (xs @ ys) s \<Longrightarrow> \<exists>m s1 n s2. wr xs s = (Inr m, s1) \<and> fits ys s1 \<and>
           wr ys s1 = (Inr n, s2) \<and> wr (xs @ ys) s = (Inr (m + n), s2)"
begin

lemma write_ok:
  assumes "fits xs s"
  obtains n s' where "wr xs s = (Inr n, s')"
  using write_append [of xs "[]" s] assms by auto

lemma flush_rest_write: "flush_rest wr b s = wr b s"
  by (cases "b = []") (simp_all add: flush_rest_def write_Nil)

text \<open>A full batch is written ahead: what is left to write completes it.\<close>

lemma flush_full_split:
  assumes "fits (b @ rs) s"
  obtains k c s1 n s2 where "flush_full N wr b s = (Inr (k, c), s1)" "fits (c @ rs) s1" "wr (c @ rs) s1 = (Inr n, s2)"
    "wr (b @ rs) s = (Inr (k + n), s2)" "N \<le> length b \<longrightarrow> wr b s = (Inr k, s1)" "\<not> N \<le> length b \<longrightarrow> s1 = s"
proof (cases "N \<le> length b")
  case True
  from write_append [OF assms] obtain m s1 n s2 where w: "wr b s = (Inr m, s1)" "fits rs s1" "wr rs s1 = (Inr n, s2)"
    "wr (b @ rs) s = (Inr (m + n), s2)" by blast
  have "flush_full N wr b s = (Inr (m, []), s1)" using w(1) True by (simp add: flush_full_def)
  from that [OF this] w True show ?thesis by simp
next
  case False
  from write_ok [OF assms] obtain n s' where "wr (b @ rs) s = (Inr n, s')" .
  with False assms show ?thesis by (intro that [of 0 b s n s']) (simp_all add: flush_full_def)
qed

theorem feed_writes_all:
  assumes "concat_res rows xs = Inr rs" "fits (b @ rs) s"
  shows "\<exists>k s'. wr (b @ rs) s = (Inr k, s') \<and> feed N wr rows xs b n s = (Inr (n + k), s')"
  using assms
proof (induction xs arbitrary: b n rs s)
  case Nil
  from Nil obtain k s' where "wr b s = (Inr k, s')" by (auto elim: write_ok)
  then show ?case using Nil by (simp add: bindp_def flush_rest_write)
next
  case (Cons x xs)
  from Cons.prems(1) obtain r rs' where r: "rows x = Inr r" "concat_res rows xs = Inr rs'" "rs = r @ rs'" by auto
  have fit: "fits ((b @ r) @ rs') s" using Cons.prems(2) r(3) by simp
  from fit obtain k c s1 m s2 where f: "flush_full N wr (b @ r) s = (Inr (k, c), s1)" "fits (c @ rs') s1"
    "wr (c @ rs') s1 = (Inr m, s2)" "wr ((b @ r) @ rs') s = (Inr (k + m), s2)" by (rule flush_full_split)
  from Cons.IH [OF r(2) f(2), of "n + k"] f(3) have "feed N wr rows xs c (n + k) s1 = (Inr (n + k + m), s2)" by simp
  then show ?case using r f(1,4) by (simp add: add.assoc)
qed

end

text \<open>Two bulk writes on different parts of the state.\<close>

locale two_writes = a: bulk_write w1 f1 + b: bulk_write w2 f2
  for w1 :: "'r list \<Rightarrow> ('s, nat) prog" and f1 :: "'r list \<Rightarrow> 's \<Rightarrow> bool"
    and w2 :: "'q list \<Rightarrow> ('s, nat) prog" and f2 :: "'q list \<Rightarrow> 's \<Rightarrow> bool" +
  assumes fits1: "f1 xs s \<Longrightarrow> w2 ys s = (Inr n, s') \<Longrightarrow> f1 xs s'"
    and fits2: "f2 ys s \<Longrightarrow> w1 xs s = (Inr m, s') \<Longrightarrow> f2 ys s'"
    and commute: "w2 ys s = (Inr n, s1) \<Longrightarrow> w1 xs s1 = (Inr m, s2) \<Longrightarrow> \<exists>t. w1 xs s = (Inr m, t) \<and> w2 ys t = (Inr n, s2)"
begin

theorem feed2_writes_all:
  assumes "concat_res2 rows xs = Inr (rs, qs)" "f1 (b1 @ rs) s" "f2 (b2 @ qs) s"
  shows "\<exists>m t n s'. w1 (b1 @ rs) s = (Inr m, t) \<and> w2 (b2 @ qs) t = (Inr n, s') \<and>
           feed2 N w1 w2 rows xs (b1, b2) (n1, n2) s = (Inr (n1 + m, n2 + n), s')"
  using assms
proof (induction xs arbitrary: b1 b2 n1 n2 rs qs s)
  case Nil
  from Nil have e: "rs = []" "qs = []" "f1 b1 s" "f2 b2 s" by simp_all
  from e(3) obtain m t where w1: "w1 b1 s = (Inr m, t)" by (rule a.write_ok)
  from fits2 [OF e(4) w1] obtain n s' where w2: "w2 b2 t = (Inr n, s')" by (rule b.write_ok)
  from w1 w2 e(1,2) show ?case by (simp add: bindp_def a.flush_rest_write b.flush_rest_write)
next
  case (Cons x xs)
  from Cons.prems(1) obtain r q rs' qs' where r: "rows x = Inr (r, q)" "concat_res2 rows xs = Inr (rs', qs')"
    "rs = r @ rs'" "qs = q @ qs'" by auto
  have fit1: "f1 ((b1 @ r) @ rs') s" and fit2: "f2 ((b2 @ q) @ qs') s" using Cons.prems(2,3) r(3,4) by simp_all
  from fit1 obtain k1 c1 s1 m1 t1 where f: "flush_full N w1 (b1 @ r) s = (Inr (k1, c1), s1)" "f1 (c1 @ rs') s1"
    "w1 (c1 @ rs') s1 = (Inr m1, t1)" "w1 ((b1 @ r) @ rs') s = (Inr (k1 + m1), t1)"
    "N \<le> length (b1 @ r) \<longrightarrow> w1 (b1 @ r) s = (Inr k1, s1)" "\<not> N \<le> length (b1 @ r) \<longrightarrow> s1 = s" by (rule a.flush_full_split [where N = N])
  have fit2': "f2 ((b2 @ q) @ qs') s1" using fit2 fits2 [OF fit2, of "b1 @ r" k1 s1] f(5,6) by (cases "N \<le> length (b1 @ r)") auto
  from fit2' obtain k2 c2 s2 m2 t2 where g: "flush_full N w2 (b2 @ q) s1 = (Inr (k2, c2), s2)" "f2 (c2 @ qs') s2"
    "w2 (c2 @ qs') s2 = (Inr m2, t2)" "w2 ((b2 @ q) @ qs') s1 = (Inr (k2 + m2), t2)"
    "N \<le> length (b2 @ q) \<longrightarrow> w2 (b2 @ q) s1 = (Inr k2, s2)" "\<not> N \<le> length (b2 @ q) \<longrightarrow> s2 = s1" by (rule b.flush_full_split [where N = N])
  have fit1': "f1 (c1 @ rs') s2" using f(2) fits1 [OF f(2), of "b2 @ q" k2 s2] g(5,6) by (cases "N \<le> length (b2 @ q)") auto
  from Cons.IH [OF r(2) fit1' g(2), of "n1 + k1" "n2 + k2"] obtain m t n s' where ih: "w1 (c1 @ rs') s2 = (Inr m, t)"
    "w2 (c2 @ qs') t = (Inr n, s')"
    "feed2 N w1 w2 rows xs (c1, c2) (n1 + k1, n2 + k2) s2 = (Inr (n1 + k1 + m, n2 + k2 + n), s')" by blast
  have run: "feed2 N w1 w2 rows (x # xs) (b1, b2) (n1, n2) s = (Inr (n1 + k1 + m, n2 + k2 + n), s')"
    using r(1) f(1) g(1) ih(3) by simp
  have fit2'': "f2 ((b2 @ q) @ qs') t1" using fits2 [OF fit2 f(4)] .
  have "w1 (c1 @ rs') s1 = (Inr m, t1) \<and> w2 ((b2 @ q) @ qs') t1 = (Inr (k2 + n), s')"
  proof (cases "N \<le> length (b2 @ q)")
    case True
    from commute [OF g(5) [rule_format, OF True] ih(1)] obtain u where u: "w1 (c1 @ rs') s1 = (Inr m, u)" "w2 (b2 @ q) u = (Inr k2, t)"
      by blast
    have c2: "c2 = []" using g(1) True g(5) by (simp add: flush_full_def)
    from b.write_append [OF fit2''] obtain a s3 b' s4 where "w2 (b2 @ q) t1 = (Inr a, s3)" "w2 qs' s3 = (Inr b', s4)"
      "w2 ((b2 @ q) @ qs') t1 = (Inr (a + b'), s4)" by blast
    then show ?thesis using u f(3) ih(2) c2 by auto
  next
    case False
    then have "s2 = s1" using g(6) by blast
    moreover have "c2 = b2 @ q" "k2 = 0" using g(1) False by (simp_all add: flush_full_def)
    ultimately show ?thesis using ih(1,2) f(3) by auto
  qed
  then show ?case using f(3,4) run r(3,4) by (simp add: add.assoc)
qed

end

end
