(* ===== verification/Ops_Runs.thy ===== *)
theory Ops_Runs
  imports Prelude
begin

text \<open>
  The bookkeeping of pipeline runs: the tables \<open>ops.ingestion_runs\<close>,
  \<open>ops.ingestion_run_steps\<close> and \<open>ops.ingestion_step_batches\<close>, the statements of
  \<open>OpsRepository\<close> on them, the \<open>track_step\<close> context manager and the services of
  \<open>pipeline_services.py\<close>.

  A timestamp is a number; \<open>now()\<close> reads \<open>ops_clock\<close>, which the environment advances.
  The columns \<open>updated_at\<close>, \<open>created_at\<close> and \<open>progress\<close>, which no modelled code reads, are
  left out. A JSON value is opaque (a string).
\<close>

section \<open>Tables\<close>

text \<open>The CHECK constraint of the schema admits these statuses; any other text is refused.\<close>

datatype status = Pending | Running | Success | Partial | Failed

definition parse_status :: "string \<Rightarrow> status option" where
  "parse_status s =
     (if s = ''pending'' then Some Pending
      else if s = ''running'' then Some Running
      else if s = ''success'' then Some Success
      else if s = ''partial'' then Some Partial
      else if s = ''failed'' then Some Failed
      else None)"

text \<open>The statuses for which \<open>update_run\<close> writes \<open>ended_at\<close> (\<open>'skipped'\<close> is refused anyway).\<close>

definition terminal :: "status \<Rightarrow> bool" where
  "terminal st \<longleftrightarrow> st = Success \<or> st = Failed \<or> st = Partial"

record run =
  run_id :: nat
  run_pipeline :: string
  run_source :: nat
  run_key :: string
  run_celery :: "string option"
  run_status :: status
  run_step :: "string option"
  run_started :: nat
  run_ended :: "nat option"
  run_error :: "string option"
  run_details :: "string option"
  run_notes :: "string option"

record step =
  step_run :: nat
  step_name :: string
  step_status :: status
  step_started :: nat
  step_ended :: "nat option"
  step_error :: "string option"
  step_details :: "string option"
  step_notes :: "string option"

record batch =
  batch_step :: "nat \<times> string"
  batch_seq :: nat
  batch_start :: int
  batch_end :: int
  batch_status :: status
  batch_ok :: int
  batch_failed :: int
  batch_bytes :: int
  batch_duration :: "rat option"
  batch_error :: "string option"
  batch_details :: "string option"

record ops =
  ops_clock :: nat
  ops_sources :: "(string \<times> nat) list"
  ops_runs :: "run list"
  ops_steps :: "step list"
  ops_batches :: "batch list"
  ops_next :: nat

definition coalesce :: "'a option \<Rightarrow> 'a option \<Rightarrow> 'a option" where
  "coalesce a b = (case a of None \<Rightarrow> b | Some x \<Rightarrow> Some x)"

lemma coalesce_simps [simp]: "coalesce None b = b" "coalesce (Some x) b = Some x"
  by (simp_all add: coalesce_def)

definition find_run :: "ops \<Rightarrow> nat \<Rightarrow> run option" where
  "find_run db i = find (\<lambda>r. run_id r = i) (ops_runs db)"

definition find_step :: "ops \<Rightarrow> nat \<Rightarrow> string \<Rightarrow> step option" where
  "find_step db i n = find (\<lambda>s. step_run s = i \<and> step_name s = n) (ops_steps db)"

definition map_run :: "nat \<Rightarrow> (run \<Rightarrow> run) \<Rightarrow> ops \<Rightarrow> ops" where
  "map_run i f db =
     db\<lparr>ops_runs := map (\<lambda>r. if run_id r = i then f r else r) (ops_runs db)\<rparr>"

text \<open>
  \<open>INSERT ... ON CONFLICT (ingestion_run_id, step_name) DO UPDATE\<close>: \<open>new\<close> is inserted
  when there is no row for the key, otherwise the row is replaced by \<open>f\<close> of it.
\<close>

definition upsert_step :: "step \<Rightarrow> (step \<Rightarrow> step) \<Rightarrow> ops \<Rightarrow> ops" where
  "upsert_step new f db =
     (case find_step db (step_run new) (step_name new) of
        None \<Rightarrow> db\<lparr>ops_steps := ops_steps db @ [new]\<rparr>
      | Some _ \<Rightarrow>
          db\<lparr>ops_steps :=
               map (\<lambda>s. if step_run s = step_run new \<and> step_name s = step_name new
                         then f s else s) (ops_steps db)\<rparr>)"

section \<open>The repository\<close>

text \<open>
  \<open>start_run\<close>: no row when the source is unknown or the run already succeeded; otherwise the
  run row is inserted or reset and the marker step \<open>start\<close> is closed. \<open>run_key\<close> is also
  UNIQUE on its own, so a key taken by another pipeline or source is an integrity error.
\<close>

definition reset_run :: "string option \<Rightarrow> string option \<Rightarrow> run \<Rightarrow> run" where
  "reset_run celery notes r =
     r\<lparr>run_status := Running, run_celery := coalesce celery (run_celery r),
       run_step := Some ''start'', run_error := None, run_details := None,
       run_ended := None, run_notes := coalesce notes (run_notes r)\<rparr>"

definition start_marker :: "nat \<Rightarrow> nat \<Rightarrow> step" where
  "start_marker i now =
     \<lparr>step_run = i, step_name = ''start'', step_status = Success, step_started = now,
      step_ended = Some now, step_error = None, step_details = None, step_notes = None\<rparr>"

definition repo_start_run ::
  "string \<Rightarrow> string \<Rightarrow> string \<Rightarrow> string option \<Rightarrow> string option \<Rightarrow> (ops, nat option) prog" where
  "repo_start_run pipeline source key celery notes db =
     (case map_of (ops_sources db) source of
        None \<Rightarrow> (Inr None, db)
      | Some src \<Rightarrow>
         (case find (\<lambda>r. run_pipeline r = pipeline \<and> run_source r = src \<and> run_key r = key)
                 (ops_runs db) of
            Some r \<Rightarrow>
              (if run_status r = Success then (Inr None, db)
               else let now = ops_clock db; i = run_id r in
                 (Inr (Some i),
                  upsert_step (start_marker i now)
                    (\<lambda>s. s\<lparr>step_status := Success, step_started := now, step_ended := Some now,
                          step_error := None, step_details := None\<rparr>)
                    ((map_run i (reset_run celery notes) db)\<lparr>ops_next := Suc (ops_next db)\<rparr>)))
          | None \<Rightarrow>
              (if key \<in> run_key ` set (ops_runs db) then (Inl DbErr, db)
               else let now = ops_clock db; i = ops_next db in
                 (Inr (Some i),
                  upsert_step (start_marker i now) id
                    (db\<lparr>ops_runs := ops_runs db @
                          [\<lparr>run_id = i, run_pipeline = pipeline, run_source = src, run_key = key,
                            run_celery = celery, run_status = Running, run_step = Some ''start'',
                            run_started = now, run_ended = None, run_error = None,
                            run_details = None, run_notes = notes\<rparr>],
                        ops_next := Suc i\<rparr>)))))"

text \<open>
  \<open>update_run\<close>: upserts the step row (a step that already succeeded is left alone) and
  advances \<open>current_step\<close> of a run that is still running. The step name defaults to the run's
  current step; without one the NOT NULL constraint refuses the row, and without a run the
  foreign key does. The result is the id of the step row that was written, here its key.
\<close>

definition advance_step ::
  "status \<Rightarrow> nat \<Rightarrow> string option \<Rightarrow> string option \<Rightarrow> string option \<Rightarrow> step \<Rightarrow> step" where
  "advance_step st now code details notes s =
     (if step_status s = Success then s
      else s\<lparr>step_status := st,
             step_error := coalesce code (step_error s),
             step_details := coalesce details (step_details s),
             step_notes := coalesce notes (step_notes s),
             step_ended := (if terminal st then coalesce (step_ended s) (Some now)
                            else step_ended s)\<rparr>)"

definition repo_update_run ::
  "nat \<Rightarrow> string option \<Rightarrow> string option \<Rightarrow> string option \<Rightarrow> string option \<Rightarrow> string option
    \<Rightarrow> (ops, (nat \<times> string) option) prog" where
  "repo_update_run i status cur code details notes db =
     (let now = ops_clock db in
      case find_run db i of
        None \<Rightarrow> (Inl DbErr, db)
      | Some r \<Rightarrow>
         (case (coalesce cur (run_step r), parse_status (the (coalesce status (Some ''running'')))) of
            (Some name, Some st) \<Rightarrow>
              (Inr (if (case find_step db i name of None \<Rightarrow> False | Some s \<Rightarrow> step_status s = Success)
                    then None else Some (i, name)),
               map_run i (\<lambda>r. if run_status r = Running then r\<lparr>run_step := Some name\<rparr> else r)
                 (upsert_step
                    \<lparr>step_run = i, step_name = name, step_status = st, step_started = now,
                     step_ended = (if terminal st then Some now else None),
                     step_error = code, step_details = details, step_notes = notes\<rparr>
                    (advance_step st now code details notes) db))
          | _ \<Rightarrow> (Inl DbErr, db)))"

text \<open>\<open>finish_run\<close> and \<open>fail_run\<close>: the only writers of a run's terminal status.\<close>

definition repo_finish_run :: "nat \<Rightarrow> string \<Rightarrow> string option \<Rightarrow> (ops, nat option) prog" where
  "repo_finish_run i status notes db =
     (if status \<noteq> ''success'' \<and> status \<noteq> ''partial'' then (Inl ValueErr, db)
      else (Inr (map_option run_id (find_run db i)),
            map_run i (\<lambda>r. r\<lparr>run_status := (if status = ''success'' then Success else Partial),
                            run_ended := Some (ops_clock db), run_step := Some ''finish'',
                            run_notes := coalesce notes (run_notes r)\<rparr>) db))"

definition repo_fail_run ::
  "nat \<Rightarrow> string \<Rightarrow> string option \<Rightarrow> string option \<Rightarrow> (ops, nat option) prog" where
  "repo_fail_run i code details notes db =
     (Inr (map_option run_id (find_run db i)),
      map_run i (\<lambda>r. r\<lparr>run_status := Failed, run_ended := Some (ops_clock db),
                      run_error := Some code, run_details := coalesce details (run_details r),
                      run_notes := coalesce notes (run_notes r)\<rparr>) db)"

text \<open>\<open>insert_batch_step\<close>: no row when the step does not exist or the batch is already there.\<close>

definition repo_insert_batch_step :: "nat \<Rightarrow> string \<Rightarrow> batch \<Rightarrow> (ops, unit) prog" where
  "repo_insert_batch_step i name b db =
     (Inr (),
      if find_step db i name = None
         \<or> (\<exists>b'\<in>set (ops_batches db). batch_step b' = (i, name) \<and> batch_seq b' = batch_seq b)
      then db
      else db\<lparr>ops_batches := ops_batches db @ [b\<lparr>batch_step := (i, name)\<rparr>]\<rparr>)"

text \<open>The queries.\<close>

definition get_run_status_for_key :: "ops \<Rightarrow> string \<Rightarrow> status option" where
  "get_run_status_for_key db key =
     (case sort_desc run_started (filter (\<lambda>r. run_key r = key) (ops_runs db)) of
        [] \<Rightarrow> None | r # _ \<Rightarrow> Some (run_status r))"

definition get_run_is_finished :: "ops \<Rightarrow> nat \<Rightarrow> bool" where
  "get_run_is_finished db i =
     (case find_run db i of None \<Rightarrow> False | Some r \<Rightarrow> run_ended r \<noteq> None)"

definition get_ingestion_run_status :: "ops \<Rightarrow> nat \<Rightarrow> status option" where
  "get_ingestion_run_status db i = map_option run_status (find_run db i)"

definition get_running_ingestion_runs :: "ops \<Rightarrow> run list" where
  "get_running_ingestion_runs db =
     sort_desc run_started (filter (\<lambda>r. run_status r = Running) (ops_runs db))"

definition fetch_steps_failed_count :: "ops \<Rightarrow> nat \<Rightarrow> nat" where
  "fetch_steps_failed_count db i =
     length (filter (\<lambda>s. step_run s = i \<and> step_status s = Failed) (ops_steps db))"

section \<open>Pipeline services\<close>

text \<open>
  \<open>track_step\<close> around a body: a no-op without a repository or a run id (\<open>None\<close> or 0);
  otherwise running on entry, success on exit, and on an exception the step and the run are
  marked failed before the exception goes on. The exception's text is \<open>msg\<close>.
\<close>

definition track_step ::
  "bool \<Rightarrow> nat option \<Rightarrow> string \<Rightarrow> string \<Rightarrow> (pyexc \<Rightarrow> string) \<Rightarrow> (ops, 'a) prog \<Rightarrow> (ops, 'a) prog" where
  "track_step has_repo run name code msg body =
     (if \<not> has_repo \<or> run = None \<or> run = Some 0 then body
      else let i = the run in
        bindp (repo_update_run i (Some ''running'') (Some name) None None None) (\<lambda>_ db.
          case body db of
            (Inr x, db') \<Rightarrow>
              bindp (repo_update_run i (Some ''success'') (Some name) None None None)
                (\<lambda>_. ret x) db'
          | (Inl e, db') \<Rightarrow>
              bindp (repo_update_run i (Some ''failed'') (Some name) (Some code) (Some (msg e)) None)
                (\<lambda>_. bindp (repo_fail_run i code (Some (msg e)) None) (\<lambda>_. throw e)) db'))"

text \<open>The same around a body that works on a state of its own, next to the run tables.\<close>

definition track_world ::
  "nat option \<Rightarrow> string \<Rightarrow> string \<Rightarrow> (pyexc \<Rightarrow> string) \<Rightarrow> ('w, 'a) prog \<Rightarrow> (ops \<times> 'w, 'a) prog" where
  "track_world run name code msg body = (\<lambda>(db, w).
     (if run = None \<or> run = Some 0 then (let (r, w') = body w in (r, (db, w')))
      else
        (case repo_update_run (the run) (Some ''running'') (Some name) None None None db of
           (Inl e, db1) \<Rightarrow> (Inl e, (db1, w))
         | (Inr _, db1) \<Rightarrow>
             (case body w of
                (Inr x, w') \<Rightarrow>
                  (case bindp (repo_update_run (the run) (Some ''success'') (Some name) None None None)
                          (\<lambda>_. ret x) db1 of (r, db2) \<Rightarrow> (r, (db2, w')))
              | (Inl e, w') \<Rightarrow>
                  (case bindp (repo_update_run (the run) (Some ''failed'') (Some name) (Some code) (Some (msg e)) None)
                          (\<lambda>_. bindp (repo_fail_run (the run) code (Some (msg e)) None) (\<lambda>_. throw e)) db1 of
                     (r, db2) \<Rightarrow> (r, (db2, w')))))))"

definition start_run ::
  "string \<Rightarrow> string \<Rightarrow> string \<Rightarrow> string option \<Rightarrow> (ops, nat option) prog" where
  "start_run key pipeline source celery = repo_start_run pipeline source key celery None"

definition finish_run :: "nat \<Rightarrow> string \<Rightarrow> string option \<Rightarrow> (ops, unit) prog" where
  "finish_run i status notes = bindp (repo_finish_run i status notes) (\<lambda>_. ret ())"

definition is_run_active :: "string \<Rightarrow> (ops, bool) prog" where
  "is_run_active key db =
     (Inr (get_run_status_for_key db key \<in> {Some Running, Some Success}), db)"

definition is_run_finished :: "nat \<Rightarrow> (ops, bool) prog" where
  "is_run_finished i db = (Inr (get_run_is_finished db i), db)"

fun fail_runs :: "run list \<Rightarrow> (ops, unit) prog" where
  "fail_runs [] = ret ()"
| "fail_runs (r # rs) =
     bindp (repo_fail_run (run_id r) ''orphaned_by_restart''
              (Some ''Worker restarted while run was in progress'') None)
       (\<lambda>_. fail_runs rs)"

definition reconcile_orphaned_runs :: "(ops, nat \<times> run list) prog" where
  "reconcile_orphaned_runs db =
     (let running = get_running_ingestion_runs db
      in bindp (fail_runs running) (\<lambda>_. ret (length running, running)) db)"

section \<open>The table invariant\<close>

text \<open>
  Ids are unique and below the sequence, run keys are unique, a run has an end time exactly when
  its status is terminal and is never pending, and step rows are keyed by run and name and belong
  to a run.
\<close>

definition run_ok :: "run \<Rightarrow> bool" where
  "run_ok r \<longleftrightarrow> (run_ended r \<noteq> None \<longleftrightarrow> terminal (run_status r)) \<and> run_status r \<noteq> Pending"

definition step_key :: "step \<Rightarrow> nat \<times> string" where
  "step_key s = (step_run s, step_name s)"

definition ops_inv :: "ops \<Rightarrow> bool" where
  "ops_inv db \<longleftrightarrow>
     distinct (map run_id (ops_runs db)) \<and>
     (\<forall>r\<in>set (ops_runs db). run_id r < ops_next db) \<and>
     distinct (map run_key (ops_runs db)) \<and>
     (\<forall>r\<in>set (ops_runs db). run_ok r) \<and>
     distinct (map step_key (ops_steps db)) \<and>
     step_run ` set (ops_steps db) \<subseteq> run_id ` set (ops_runs db)"

lemma find_run_Some:
  "find_run db i = Some r \<Longrightarrow> r \<in> set (ops_runs db) \<and> run_id r = i"
  by (auto simp: find_run_def find_Some_iff)

lemma find_run_None: "find_run db i = None \<longleftrightarrow> i \<notin> run_id ` set (ops_runs db)"
  by (auto simp: find_run_def find_None_iff)

lemma find_run_unique:
  "distinct (map run_id (ops_runs db)) \<Longrightarrow> r \<in> set (ops_runs db) \<Longrightarrow>
   find_run db (run_id r) = Some r"
  by (cases "find_run db (run_id r)")
     (auto simp: find_run_None distinct_map dest!: find_run_Some dest: inj_onD)

lemma find_step_None: "find_step db i n = None \<longleftrightarrow> (i, n) \<notin> step_key ` set (ops_steps db)"
  by (auto simp: find_step_def find_None_iff step_key_def)

lemma find_map_key:
  assumes "\<And>x. P (f x) = P x"
  shows "find P (map (\<lambda>x. if Q x then f x else x) xs) =
         map_option (\<lambda>x. if Q x then f x else x) (find P xs)"
  using assms by (induction xs) auto

lemma find_run_map_run:
  assumes "\<And>r. run_id (f r) = run_id r"
  shows "find_run (map_run i f db) j = map_option (\<lambda>r. if run_id r = i then f r else r) (find_run db j)"
  unfolding find_run_def map_run_def by (simp add: find_map_key assms)

lemma find_run_upsert_step [simp]: "find_run (upsert_step n f db) j = find_run db j"
  by (simp add: find_run_def upsert_step_def split: option.split)

lemma find_step_map_run [simp]: "find_step (map_run i f db) j n = find_step db j n"
  by (simp add: find_step_def map_run_def)

lemma find_step_upsert:
  assumes "\<And>s. step_key (f s) = step_key s"
  shows "find_step (upsert_step new f db) i n =
         (if (i, n) = step_key new
          then Some (case find_step db i n of None \<Rightarrow> new | Some s \<Rightarrow> f s)
          else find_step db i n)"
proof (cases "find_step db (step_run new) (step_name new)")
  case None
  then have "find_step (upsert_step new f db) i n =
      (case find_step db i n of
         None \<Rightarrow> if (i, n) = step_key new then Some new else None | Some s \<Rightarrow> Some s)"
    by (auto simp: upsert_step_def find_step_def find_append step_key_def split: option.split)
  with None show ?thesis by (auto simp: step_key_def split: option.split)
next
  case (Some s)
  have f: "step_run (f s) = step_run s \<and> step_name (f s) = step_name s" for s
    using assms [of s] by (simp add: step_key_def)
  have "find_step (upsert_step new f db) i n =
     map_option (\<lambda>s. if step_run s = step_run new \<and> step_name s = step_name new then f s else s)
       (find_step db i n)"
    using Some f by (simp add: upsert_step_def find_step_def find_map_key)
  moreover have "find_step db i n = Some t \<Longrightarrow> step_key t = (i, n)" for t
    by (auto simp: find_step_def find_Some_iff step_key_def)
  ultimately show ?thesis
    using Some by (cases "find_step db i n") (auto simp: step_key_def)
qed

section \<open>Every statement keeps the invariant\<close>

lemma map_run_keys [simp]:
  assumes "\<And>r. run_id (f r) = run_id r" "\<And>r. run_key (f r) = run_key r"
  shows "map run_id (ops_runs (map_run i f db)) = map run_id (ops_runs db)"
    and "map run_key (ops_runs (map_run i f db)) = map run_key (ops_runs db)"
  using assms by (auto simp: map_run_def)

lemma map_run_ids:
  assumes "\<And>r. run_id (f r) = run_id r"
  shows "run_id ` set (ops_runs (map_run i f db)) = run_id ` set (ops_runs db)"
proof -
  have "run_id (if run_id r = i then f r else r) = run_id r" for r using assms by simp
  then show ?thesis by (simp add: map_run_def image_image del: if_image_distrib)
qed

lemma map_run_sel [simp]:
  "ops_steps (map_run i f db) = ops_steps db"
  "ops_next (map_run i f db) = ops_next db"
  "ops_clock (map_run i f db) = ops_clock db"
  "ops_batches (map_run i f db) = ops_batches db"
  "ops_sources (map_run i f db) = ops_sources db"
  by (simp_all add: map_run_def)

lemma upsert_step_sel [simp]:
  "ops_runs (upsert_step n f db) = ops_runs db"
  "ops_next (upsert_step n f db) = ops_next db"
  "ops_clock (upsert_step n f db) = ops_clock db"
  "ops_batches (upsert_step n f db) = ops_batches db"
  "ops_sources (upsert_step n f db) = ops_sources db"
  by (simp_all add: upsert_step_def split: option.split)

lemma ops_inv_map_run:
  assumes "ops_inv db" "\<And>r. run_id (f r) = run_id r" "\<And>r. run_key (f r) = run_key r"
    and "\<And>r. run_ok r \<Longrightarrow> run_ok (f r)"
  shows "ops_inv (map_run i f db)"
proof -
  have ids: "run_id ` set (ops_runs (map_run i f db)) = run_id ` set (ops_runs db)"
    by (rule map_run_ids [OF assms(2)])
  have "\<forall>r\<in>set (ops_runs (map_run i f db)). run_id r < ops_next db \<and> run_ok r"
    using assms by (auto simp: map_run_def ops_inv_def)
  with assms(1-3) ids show ?thesis by (simp add: ops_inv_def)
qed

lemma set_upsert_keys:
  assumes "\<And>s. step_key (f s) = step_key s"
  shows "step_key ` set (ops_steps (upsert_step n f db)) = insert (step_key n) (step_key ` set (ops_steps db))"
    and "distinct (map step_key (ops_steps db)) \<Longrightarrow> distinct (map step_key (ops_steps (upsert_step n f db)))"
proof -
  have m: "map step_key (ops_steps (upsert_step n f db)) =
      (if step_key n \<in> step_key ` set (ops_steps db) then map step_key (ops_steps db)
       else map step_key (ops_steps db) @ [step_key n])"
  proof (cases "find_step db (step_run n) (step_name n)")
    case None
    then have "step_key n \<notin> step_key ` set (ops_steps db)"
      by (simp add: find_step_None step_key_def)
    with None show ?thesis by (simp add: upsert_step_def)
  next
    case (Some s)
    then have "step_key n \<in> step_key ` set (ops_steps db)"
      using find_step_None [of db "step_run n" "step_name n"] by (simp add: step_key_def)
    with Some show ?thesis by (simp add: upsert_step_def assms)
  qed
  have "set (map step_key (ops_steps (upsert_step n f db))) = insert (step_key n) (step_key ` set (ops_steps db))"
    unfolding m by auto
  then show "step_key ` set (ops_steps (upsert_step n f db)) = insert (step_key n) (step_key ` set (ops_steps db))"
    by simp
  show "distinct (map step_key (ops_steps (upsert_step n f db)))" if "distinct (map step_key (ops_steps db))"
    unfolding m using that by auto
qed

lemma ops_inv_upsert_step:
  assumes "ops_inv db" "\<And>s. step_key (f s) = step_key s" "step_run n \<in> run_id ` set (ops_runs db)"
  shows "ops_inv (upsert_step n f db)"
proof -
  have "step_run ` set (ops_steps (upsert_step n f db)) =
        fst ` (step_key ` set (ops_steps (upsert_step n f db)))"
    by (simp add: image_image step_key_def)
  also have "\<dots> = insert (step_run n) (step_run ` set (ops_steps db))"
    by (simp add: set_upsert_keys(1) [OF assms(2)]) (simp add: image_image step_key_def)
  finally show ?thesis
    using assms set_upsert_keys(2) [OF assms(2)] by (simp add: ops_inv_def)
qed

lemma step_key_advance [simp]: "step_key (advance_step st now c d n s) = step_key s"
  by (simp add: advance_step_def step_key_def)

lemma reset_run_key [simp]:
  "run_id (reset_run c n r) = run_id r" "run_key (reset_run c n r) = run_key r"
  by (simp_all add: reset_run_def)

lemmas find_step_upsert_advance =
  find_step_upsert [where f = "advance_step st now c d n" for st now c d n, OF step_key_advance]

lemma keeps_start_run: "keeps ops_inv (repo_start_run p src key celery notes)"
proof (rule keepsI)
  fix db
  assume inv: "ops_inv db"
  let ?up = "(\<lambda>s. s\<lparr>step_status := Success, step_started := ops_clock db,
              step_ended := Some (ops_clock db), step_error := None, step_details := None\<rparr>)"
  show "ops_inv (snd (repo_start_run p src key celery notes db))"
  proof (cases "map_of (ops_sources db) src")
    case None
    with inv show ?thesis by (simp add: repo_start_run_def)
  next
    case (Some i)
    show ?thesis
    proof (cases "find (\<lambda>r. run_pipeline r = p \<and> run_source r = i \<and> run_key r = key) (ops_runs db)")
      case None
      have fresh: "ops_next db \<notin> run_id ` set (ops_runs db)"
        using inv by (auto simp: ops_inv_def)
      have "ops_inv (db\<lparr>ops_runs := ops_runs db @ [r], ops_next := Suc (ops_next db)\<rparr>)"
        if "run_id r = ops_next db" "run_key r \<notin> run_key ` set (ops_runs db)" "run_ok r" for r
        using inv fresh that by (auto simp: ops_inv_def less_Suc_eq)
      then show ?thesis
        using inv Some None
        by (auto simp: repo_start_run_def Let_def start_marker_def run_ok_def terminal_def
            intro!: ops_inv_upsert_step)
    next
      case found: (Some r)
      then have r: "r \<in> set (ops_runs db)" by (auto simp: find_Some_iff)
      let ?db = "map_run (run_id r) (reset_run celery notes) db"
      have "ops_inv ?db"
        by (rule ops_inv_map_run [OF inv]) (auto simp: reset_run_def run_ok_def terminal_def)
      then have "ops_inv (?db\<lparr>ops_next := Suc (ops_next db)\<rparr>)"
        by (auto simp: ops_inv_def less_Suc_eq)
      moreover have "run_id ` set (ops_runs ?db) = run_id ` set (ops_runs db)"
        by (rule map_run_ids) simp
      with r have "run_id r \<in> run_id ` set (ops_runs ?db)" by blast
      ultimately show ?thesis
        using inv Some found
        by (auto simp: repo_start_run_def Let_def start_marker_def step_key_def
            intro!: ops_inv_upsert_step)
    qed
  qed
qed

lemma keeps_update_run: "keeps ops_inv (repo_update_run i status cur code details notes)"
proof (rule keepsI)
  fix db
  assume inv: "ops_inv db"
  show "ops_inv (snd (repo_update_run i status cur code details notes db))"
  proof (cases "find_run db i")
    case None
    with inv show ?thesis by (simp add: repo_update_run_def)
  next
    case (Some r)
    then have "i \<in> run_id ` set (ops_runs db)" by (auto dest: find_run_Some)
    with inv Some show ?thesis
      by (auto simp: repo_update_run_def Let_def run_ok_def split: option.split
          intro!: ops_inv_map_run ops_inv_upsert_step)
  qed
qed

lemma keeps_finish_run: "keeps ops_inv (repo_finish_run i status notes)"
  by (rule keepsI) (auto simp: repo_finish_run_def run_ok_def terminal_def intro!: ops_inv_map_run)

lemma keeps_fail_run: "keeps ops_inv (repo_fail_run i code details notes)"
  by (rule keepsI) (auto simp: repo_fail_run_def run_ok_def terminal_def intro!: ops_inv_map_run)

lemma keeps_insert_batch: "keeps ops_inv (repo_insert_batch_step i name b)"
  by (rule keepsI) (auto simp: repo_insert_batch_step_def ops_inv_def)

lemmas keeps_statements =
  keeps_start_run keeps_update_run keeps_finish_run keeps_fail_run keeps_insert_batch

lemma keeps_fail_runs: "keeps ops_inv (fail_runs rs)"
  by (induction rs) (auto intro!: keeps_bindp keeps_fail_run)

lemma keeps_reconcile: "keeps ops_inv reconcile_orphaned_runs"
proof (rule keepsI)
  fix db assume "ops_inv db"
  moreover have "keeps ops_inv (bindp (fail_runs rs) (\<lambda>_. ret x))" for rs and x :: "nat \<times> run list"
    by (auto intro!: keeps_bindp keeps_fail_runs)
  ultimately show "ops_inv (snd (reconcile_orphaned_runs db))"
    by (simp add: reconcile_orphaned_runs_def Let_def keeps_def)
qed

lemma keeps_track_step:
  assumes "keeps ops_inv body"
  shows "keeps ops_inv (track_step has run name code msg body)"
proof -
  have "keeps ops_inv (bindp (repo_update_run i (Some ''running'') (Some name) None None None)
    (\<lambda>_ db. case body db of
        (Inl e, db') \<Rightarrow>
          bindp (repo_update_run i (Some ''failed'') (Some name) (Some code) (Some (msg e)) None)
            (\<lambda>_. bindp (repo_fail_run i code (Some (msg e)) None) (\<lambda>_. throw e)) db'
      | (Inr x, db') \<Rightarrow>
          bindp (repo_update_run i (Some ''success'') (Some name) None None None)
            (\<lambda>_. ret x) db'))" for i
    by (intro keeps_bindp keeps_cases keeps_update_run keeps_fail_run assms keeps_ret keeps_throw)
  with assms show ?thesis by (simp add: track_step_def Let_def)
qed

section \<open>Reachable tables\<close>

definition empty_ops :: "(string \<times> nat) list \<Rightarrow> ops" where
  "empty_ops srcs =
     \<lparr>ops_clock = 0, ops_sources = srcs, ops_runs = [], ops_steps = [], ops_batches = [], ops_next = 1\<rparr>"

text \<open>The tables that some sequence of statements, with time passing between them, leaves.\<close>

inductive ops_reach :: "(string \<times> nat) list \<Rightarrow> ops \<Rightarrow> bool" for srcs where
  init: "ops_reach srcs (empty_ops srcs)"
| tick: "ops_reach srcs db \<Longrightarrow> ops_reach srcs (db\<lparr>ops_clock := ops_clock db + d\<rparr>)"
| start: "ops_reach srcs db \<Longrightarrow> ops_reach srcs (snd (repo_start_run p src key c n db))"
| update: "ops_reach srcs db \<Longrightarrow> ops_reach srcs (snd (repo_update_run i st cur e d n db))"
| finish: "ops_reach srcs db \<Longrightarrow> ops_reach srcs (snd (repo_finish_run i status n db))"
| fail: "ops_reach srcs db \<Longrightarrow> ops_reach srcs (snd (repo_fail_run i e d n db))"
| insert_batch: "ops_reach srcs db \<Longrightarrow> ops_reach srcs (snd (repo_insert_batch_step i name b db))"

lemma ops_inv_tick: "ops_inv (db\<lparr>ops_clock := t\<rparr>) = ops_inv db"
  by (simp add: ops_inv_def)

text \<open>What \<open>fail_runs\<close> does to the table, in one step.\<close>

definition orphan :: "nat \<Rightarrow> run \<Rightarrow> run" where
  "orphan now r =
     r\<lparr>run_status := Failed, run_ended := Some now, run_error := Some ''orphaned_by_restart'',
       run_details := Some ''Worker restarted while run was in progress''\<rparr>"

lemma fail_runs_eq:
  "fail_runs rs db =
     (Inr (), db\<lparr>ops_runs := map (\<lambda>r. if run_id r \<in> run_id ` set rs then orphan (ops_clock db) r else r)
                            (ops_runs db)\<rparr>)"
proof (induction rs arbitrary: db)
  case Nil
  then show ?case by simp
next
  case (Cons q rs)
  show ?case
    by (simp add: Cons.IH bindp_def repo_fail_run_def map_run_def orphan_def comp_def cong: if_cong)
qed

lemma running_set: "set (get_running_ingestion_runs db) = {r \<in> set (ops_runs db). run_status r = Running}"
  by (auto simp: get_running_ingestion_runs_def)

lemma key_unique_status:
  assumes "distinct (map run_key (ops_runs db))" "r \<in> set (ops_runs db)"
  shows "get_run_status_for_key db (run_key r) = Some (run_status r)"
proof -
  have "filter (\<lambda>q. run_key q = run_key r) (ops_runs db) = [r]"
    using assms
  proof (induction "ops_runs db" arbitrary: db)
    case (Cons q qs)
    from Cons.hyps(2) [symmetric] Cons.prems
    show ?case
      using Cons.hyps(1) [of "db\<lparr>ops_runs := qs\<rparr>"] by (auto simp: filter_empty_conv image_iff)
  qed simp
  then show ?thesis by (simp add: get_run_status_for_key_def sort_desc_def)
qed

section \<open>Properties\<close>

text \<open>C1. Every sequence of repository statements, with time passing between them, leaves tables in
  which run ids and run keys are unique, a run has an end time exactly when its status is terminal,
  no run is pending, and every step row has a unique key and belongs to an existing run.\<close>

theorem ops_reach_inv:
  assumes "ops_reach srcs db"
  shows "ops_inv db"
  using assms
proof induction
  case init
  then show ?case by (simp add: ops_inv_def empty_ops_def)
qed (auto simp: ops_inv_tick intro: keeps_statements [unfolded keeps_def, rule_format])

theorem ops_reach_inv_witness:
  "ops_inv (snd (repo_start_run ''p'' ''scryfall'' ''k'' None None (empty_ops [(''scryfall'', 7)])))"
  by (rule ops_reach_inv [of "[(''scryfall'', 7)]"]) (intro ops_reach.intros)

text \<open>A pipeline run that already succeeded for its key is not started again: the statement
  returns no id and changes nothing.\<close>

theorem start_run_succeeded:
  assumes "ops_inv db" "map_of (ops_sources db) source = Some src"
    and "r \<in> set (ops_runs db)" "run_pipeline r = pipeline" "run_source r = src"
    and "run_key r = key" "run_status r = Success"
  shows "start_run key pipeline source celery db = (Inr None, db)"
proof -
  have "distinct (map run_key (ops_runs db))" using assms(1) by (simp add: ops_inv_def)
  then have uniq: "q = r" if "q \<in> set (ops_runs db)" "run_key q = key" for q
    using that assms by (auto simp: distinct_map dest: inj_onD)
  have "find (\<lambda>q. run_pipeline q = pipeline \<and> run_source q = src \<and> run_key q = key) (ops_runs db) = Some r"
  proof (cases "find (\<lambda>q. run_pipeline q = pipeline \<and> run_source q = src \<and> run_key q = key) (ops_runs db)")
    case None
    then show ?thesis using assms by (auto simp: find_None_iff)
  next
    case (Some q)
    then have "q \<in> set (ops_runs db)" "run_key q = key" by (auto simp: find_Some_iff)
    with Some uniq show ?thesis by simp
  qed
  with assms show ?thesis by (simp add: start_run_def repo_start_run_def)
qed

lemma start_run_row:
  assumes "ops_inv db" "repo_start_run pipeline source key celery notes db = (Inr (Some i), db')"
  shows "\<exists>r. find_run db' i = Some r \<and> run_key r = key \<and> run_status r = Running \<and> run_ended r = None"
proof -
  from assms(2) obtain src where src: "map_of (ops_sources db) source = Some src"
    by (auto simp: repo_start_run_def split: option.splits)
  show ?thesis
  proof (cases "find (\<lambda>r. run_pipeline r = pipeline \<and> run_source r = src \<and> run_key r = key) (ops_runs db)")
    case None
    have "find (\<lambda>r. run_id r = ops_next db) (ops_runs db) = None"
      using assms(1) by (auto simp: find_None_iff ops_inv_def)
    with None src assms(2) show ?thesis
      by (auto simp: repo_start_run_def find_run_def find_append Let_def split: if_splits)
  next
    case (Some r)
    then have r: "r \<in> set (ops_runs db)" "run_key r = key" by (auto simp: find_Some_iff)
    then have "find_run db (run_id r) = Some r"
      using assms(1) by (simp add: ops_inv_def find_run_unique)
    moreover have "find_run (d\<lparr>ops_next := n\<rparr>) j = find_run d j" for d n j
      by (simp add: find_run_def)
    ultimately show ?thesis
      using Some src assms(2) r
      by (auto simp: repo_start_run_def Let_def find_run_map_run split: if_splits)
        (simp_all add: reset_run_def)
  qed
qed

text \<open>A run that was started is active: the scheduler's guard on its key says so, the run is
  listed as running, and it is not finished.\<close>

theorem started_run_is_active:
  assumes "ops_inv db" "start_run key pipeline source celery db = (Inr (Some i), db')"
  shows "is_run_active key db' = (Inr True, db') \<and> is_run_finished i db' = (Inr False, db') \<and>
         i \<in> run_id ` set (get_running_ingestion_runs db')"
proof -
  have step: "repo_start_run pipeline source key celery None db = (Inr (Some i), db')"
    using assms(2) by (simp add: start_run_def)
  obtain r where r: "find_run db' i = Some r" "run_key r = key" "run_status r = Running" "run_ended r = None"
    using start_run_row [OF assms(1) step] by blast
  have "ops_inv db'"
    using keeps_start_run assms(1) step by (rule keepsD)
  then have "get_run_status_for_key db' key = Some Running"
    using r key_unique_status [of db' r] by (auto simp: ops_inv_def dest: find_run_Some)
  with r show ?thesis
    by (auto simp: is_run_active_def is_run_finished_def get_run_is_finished_def running_set
        dest!: find_run_Some)
qed

lemma update_run_ok:
  assumes "find_run db i = Some r" "parse_status st = Some st'"
  shows "\<exists>x db'. repo_update_run i (Some st) (Some name) code det n db = (Inr x, db') \<and>
           find_run db' i = Some (if run_status r = Running then r\<lparr>run_step := Some name\<rparr> else r) \<and>
           ops_clock db' = ops_clock db \<and>
           find_step db' i name =
             Some (case find_step db i name of
                None \<Rightarrow> \<lparr>step_run = i, step_name = name, step_status = st', step_started = ops_clock db,
                     step_ended = (if terminal st' then Some (ops_clock db) else None),
                     step_error = code, step_details = det, step_notes = n\<rparr>
              | Some s \<Rightarrow> advance_step st' (ops_clock db) code det n s)"
proof -
  have "run_id r = i" using assms(1) by (auto dest: find_run_Some)
  with assms show ?thesis
    by (auto simp: repo_update_run_def Let_def find_run_map_run if_distrib [of run_id] find_step_upsert_advance
        cong: if_cong)
       (auto simp: step_key_def)
qed

lemma parse_status_simps [simp]:
  "parse_status ''running'' = Some Running" "parse_status ''success'' = Some Success"
  "parse_status ''failed'' = Some Failed" "parse_status ''partial'' = Some Partial"
  by (simp_all add: parse_status_def)

lemma track_step_fails:
  assumes "i \<noteq> 0" "find_run db i \<noteq> None"
    and body: "\<And>d. find_run d i \<noteq> None \<Longrightarrow> fst (body d) = Inl e \<and> find_run (snd (body d)) i \<noteq> None"
  shows "\<exists>db' r. track_step True (Some i) name code msg body db = (Inl e, db') \<and>
           find_run db' i = Some r \<and> run_status r = Failed \<and> run_ended r = Some (ops_clock db') \<and>
           run_error r = Some code \<and> is_run_finished i db' = (Inr True, db')"
proof -
  from assms(2) obtain r where r: "find_run db i = Some r" by auto
  obtain x db1 where db1: "repo_update_run i (Some ''running'') (Some name) None None None db = (Inr x, db1)"
      "find_run db1 i \<noteq> None"
    using update_run_ok [OF r, of "''running''" Running name None None None] by auto
  obtain db2 where db2: "body db1 = (Inl e, db2)" "find_run db2 i \<noteq> None"
    using body [OF db1(2)] by (cases "body db1") auto
  then obtain r2 where r2: "find_run db2 i = Some r2" by auto
  obtain y db3 r3 where db3:
      "repo_update_run i (Some ''failed'') (Some name) (Some code) (Some (msg e)) None db2 = (Inr y, db3)"
      "find_run db3 i = Some r3"
    using update_run_ok [OF r2, of "''failed''" Failed name "Some code" "Some (msg e)" None] by auto
  then have "run_id r3 = i" by (auto dest: find_run_Some)
  with db1(1) db2(1) db3 assms(1) show ?thesis
    by (auto simp: track_step_def Let_def bindp_def repo_fail_run_def find_run_map_run
        is_run_finished_def get_run_is_finished_def)
qed

text \<open>A body with a state of its own runs as if the tracked step had only its result.\<close>

lemma track_world_step:
  assumes "i \<noteq> 0" "find_run db i \<noteq> None"
  shows "track_world (Some i) name code msg body (db, w) =
    (case track_step True (Some i) name code msg (Pair (fst (body w))) db of (r, db') \<Rightarrow> (r, (db', snd (body w))))"
proof -
  from assms(2) obtain r where r: "find_run db i = Some r" by auto
  obtain x db1 where db1: "repo_update_run i (Some ''running'') (Some name) None None None db = (Inr x, db1)"
    using update_run_ok [OF r, of "''running''" Running name None None None] by auto
  obtain res w' where body: "body w = (res, w')" by fastforce
  show ?thesis
    using assms(1) db1 by (cases res) (simp_all add: track_world_def track_step_def body Let_def split: prod.split)
qed

lemma track_world_fails:
  fixes body :: "('w, 'a) prog"
  assumes "i \<noteq> 0" "find_run db i \<noteq> None" "body w = (Inl e, w')"
  shows "\<exists>db' r. track_world (Some i) name code msg body (db, w) = (Inl e, (db', w')) \<and>
           find_run db' i = Some r \<and> run_status r = Failed \<and> run_error r = Some code"
proof -
  obtain db' r where "track_step True (Some i) name code msg (Pair (Inl e) :: (ops, 'a) prog) db = (Inl e, db')"
    "find_run db' i = Some r" "run_status r = Failed" "run_error r = Some code"
    using track_step_fails [OF assms(1,2), of "Pair (Inl e) :: (ops, 'a) prog" e name code msg] by auto
  with assms(3) show ?thesis by (simp add: track_world_step [OF assms(1,2)])
qed

text \<open>
  C2. A tracked step whose body raises, on a run that exists, re-raises the body's exception and
  leaves the run failed with the current time as its end and the step's error code, so the run is
  finished and no longer running; the run keeps its key.
\<close>

theorem track_step_failure:
  assumes "i \<noteq> 0" "find_run db i \<noteq> None"
    and body: "\<And>d. find_run d i \<noteq> None \<Longrightarrow> fst (body d) = Inl e \<and> find_run (snd (body d)) i \<noteq> None"
  shows "\<exists>db' r. track_step True (Some i) name code msg body db = (Inl e, db') \<and>
           find_run db' i = Some r \<and> run_status r = Failed \<and> run_ended r = Some (ops_clock db') \<and>
           run_error r = Some code \<and> is_run_finished i db' = (Inr True, db')"
  using assms by (rule track_step_fails)

text \<open>
  A tracked step whose body returns hands on its value; the step's row then says \<open>success\<close>, and
  the run row is as the body left it except for its current step.
\<close>

theorem track_step_success:
  assumes "i \<noteq> 0" "find_run db i \<noteq> None"
    and body: "\<And>d. find_run d i \<noteq> None \<Longrightarrow> fst (body d) = Inr v \<and> find_run (snd (body d)) i \<noteq> None"
  shows "\<exists>db' d r s. track_step True (Some i) name code msg body db = (Inr v, db') \<and>
           find_run (snd (body d)) i = Some r \<and>
           find_run db' i = Some (if run_status r = Running then r\<lparr>run_step := Some name\<rparr> else r) \<and>
           find_step db' i name = Some s \<and> step_status s = Success"
proof -
  from assms(2) obtain r where r: "find_run db i = Some r" by auto
  obtain x db1 where db1: "repo_update_run i (Some ''running'') (Some name) None None None db = (Inr x, db1)"
      "find_run db1 i \<noteq> None"
    using update_run_ok [OF r, of "''running''" Running name None None None] by auto
  obtain db2 where db2: "body db1 = (Inr v, db2)" "find_run db2 i \<noteq> None"
    using body [OF db1(2)] by (cases "body db1") auto
  then obtain r2 where r2: "find_run db2 i = Some r2" by auto
  obtain y db3 s where db3:
      "repo_update_run i (Some ''success'') (Some name) None None None db2 = (Inr y, db3)"
      "find_run db3 i = Some (if run_status r2 = Running then r2\<lparr>run_step := Some name\<rparr> else r2)"
      "find_step db3 i name = Some s" "step_status s = Success"
    using update_run_ok [OF r2, of "''success''" Success name None None None]
    by (auto simp: advance_step_def split: option.splits if_splits)
  have "find_run (snd (body db1)) i = Some r2" using db2(1) r2 by simp
  moreover have "track_step True (Some i) name code msg body db = (Inr v, db3)"
    using db1(1) db2(1) db3(1) assms(1) by (simp add: track_step_def Let_def bindp_def)
  ultimately show ?thesis using db3(2-) by blast
qed

text \<open>
  A step that succeeded stays so: no later update of the same step changes any column of its row.
  (So a step that succeeded in an earlier attempt of a run keeps the row \<open>success\<close> when it fails in
  a retry.)
\<close>

theorem update_run_step_sticky:
  assumes "find_step db i name = Some s" "step_status s = Success"
  shows "find_step (snd (repo_update_run j st cur code det n db)) i name = Some s"
proof (cases "\<exists>r nm st'. find_run db j = Some r \<and> coalesce cur (run_step r) = Some nm \<and>
               parse_status (the (coalesce st (Some ''running''))) = Some st'")
  case True
  then show ?thesis
    using assms
    by (auto simp: repo_update_run_def Let_def find_step_upsert_advance)
      (simp_all add: step_key_def advance_step_def)
next
  case False
  then show ?thesis
    using assms(1) by (auto simp: repo_update_run_def Let_def split: option.splits)
qed

text \<open>
  Reconciling after a worker restart reports every running run, and leaves none running: those
  runs are failed as orphaned, all others are untouched.
\<close>

theorem reconcile_spec:
  "\<exists>db'. reconcile_orphaned_runs db =
       (Inr (length (get_running_ingestion_runs db), get_running_ingestion_runs db), db') \<and>
     (ops_inv db \<longrightarrow>
       get_running_ingestion_runs db' = [] \<and>
       ops_runs db' = map (\<lambda>r. if run_status r = Running then orphan (ops_clock db) r else r) (ops_runs db) \<and>
       ops_steps db' = ops_steps db)"
proof -
  let ?ids = "run_id ` set (get_running_ingestion_runs db)"
  let ?db = "db\<lparr>ops_runs := map (\<lambda>r. if run_id r \<in> ?ids then orphan (ops_clock db) r else r) (ops_runs db)\<rparr>"
  have res: "reconcile_orphaned_runs db =
      (Inr (length (get_running_ingestion_runs db), get_running_ingestion_runs db), ?db)"
    by (simp add: reconcile_orphaned_runs_def Let_def bindp_def fail_runs_eq)
  have "ops_runs ?db = map (\<lambda>r. if run_status r = Running then orphan (ops_clock db) r else r) (ops_runs db)"
    if "ops_inv db"
  proof -
    have "inj_on run_id (set (ops_runs db))"
      using that by (simp add: ops_inv_def distinct_map)
    then have "run_id r \<in> ?ids \<longleftrightarrow> run_status r = Running" if "r \<in> set (ops_runs db)" for r
      using that by (auto simp: running_set dest: inj_onD)
    then show ?thesis by simp
  qed
  moreover have "get_running_ingestion_runs db' = []"
    if "ops_runs db' = map (\<lambda>r. if run_status r = Running then orphan (ops_clock db) r else r) (ops_runs db)" for db'
    using that by (auto simp: orphan_def filter_empty_conv set_empty [symmetric] running_set simp del: set_empty)
  ultimately show ?thesis using res by auto
qed

section \<open>Sample tables\<close>

definition demo_ops :: ops where
  "demo_ops = snd (repo_start_run ''daily'' ''scryfall'' ''k1'' None None (empty_ops [(''scryfall'', 7)]))"

lemma empty_ops_inv: "ops_inv (empty_ops srcs)"
  by (simp add: ops_inv_def empty_ops_def)

lemma demo_ops_inv: "ops_inv demo_ops"
  using keeps_start_run empty_ops_inv by (simp add: demo_ops_def keeps_def)

lemmas ops_eval =
  demo_ops_def empty_ops_def repo_start_run_def repo_finish_run_def repo_fail_run_def repo_update_run_def
  map_run_def upsert_step_def find_step_def find_run_def start_marker_def advance_step_def

theorem start_run_succeeded_witness:
  "start_run ''k1'' ''daily'' ''scryfall'' None (snd (repo_finish_run 1 ''success'' None demo_ops)) =
   (Inr None, snd (repo_finish_run 1 ''success'' None demo_ops))"
proof (rule start_run_succeeded [where src = 7 and r = "the (find_run (snd (repo_finish_run 1 ''success'' None demo_ops)) 1)"])
  show "ops_inv (snd (repo_finish_run 1 ''success'' None demo_ops))"
    using keeps_finish_run demo_ops_inv by (simp add: keeps_def)
qed (simp_all add: ops_eval)

theorem started_run_is_active_witness:
  "fst (is_run_active ''k1'' demo_ops) = Inr True"
  using started_run_is_active [of "empty_ops [(''scryfall'', 7)]" "''k1''" "''daily''" "''scryfall''" None 1 demo_ops]
  by (simp add: start_run_def ops_inv_def ops_eval)

theorem track_step_failure_witness:
  "fst (track_step True (Some 1) ''load'' ''step_failed'' (\<lambda>_. ''boom'') (throw ValueErr) demo_ops) =
   (Inl ValueErr :: unit res)"
  using track_step_failure [of 1 demo_ops "throw ValueErr :: (ops, unit) prog" ValueErr
      "''load''" "''step_failed''" "\<lambda>_. ''boom''"]
  by (auto simp: ops_eval)

theorem track_step_success_witness:
  "fst (track_step True (Some 1) ''load'' ''step_failed'' (\<lambda>_. ''boom'') (ret 5) demo_ops) =
   (Inr 5 :: nat res)"
  using track_step_success [of 1 demo_ops "ret 5 :: (ops, nat) prog" 5 "''load''" "''step_failed''" "\<lambda>_. ''boom''"]
  by (auto simp: ops_eval)

theorem update_run_step_sticky_witness:
  "map_option step_status (find_step
     (snd (repo_update_run 1 (Some ''failed'') (Some ''start'') None None None demo_ops)) 1 ''start'') = Some Success"
  using update_run_step_sticky [of demo_ops 1 "''start''" "start_marker 1 0" 1 "Some ''failed''" "Some ''start''" None None None]
  by (simp add: ops_eval)

theorem reconcile_spec_witness:
  "get_running_ingestion_runs (snd (reconcile_orphaned_runs demo_ops)) = []"
  using reconcile_spec [of demo_ops] demo_ops_inv by auto

end
