(* ===== verification/Card_Sets.thy ===== *)
theory Card_Sets
  imports Db_Session Batches Ops_Runs
begin

text \<open>
  The sets of the card catalog: the services and the import of \<open>card_catalog/set_service.py\<close> with the statements of
  \<open>card_catalog/set_repository.py\<close>, on the session of \<open>Db_Session\<close>, and the procedure \<open>insert_batch_sets\<close> of
  \<open>database/SQL/schemas/core/01_set_schema.sql\<close> behind them.

  The validation by pydantic, the text of an exception and the error handler of the executor are parameters. Log lines and times
  are dropped; the tables of icons and types keep names in place of serial numbers.
\<close>

section \<open>The tables\<close>

record set_row =
  sr_id :: string
  sr_name :: string
  sr_code :: string
  sr_type :: string
  sr_released :: string
  sr_flags :: "bool \<times> bool \<times> bool"
  sr_parent :: "string option"
  sr_active :: bool

text \<open>The sets, the types, the icon of a set by its id, the ids of the sets that have cards, and the materialized view of
  these sets, from which the readers are served.\<close>

record sets_db =
  sd_sets :: "set_row list"
  sd_types :: "string list"
  sd_icons :: "(string, string) dict"
  sd_carded :: "string list"
  sd_view :: "set_row list"

text \<open>\<open>NewSet\<close>: what the procedure is sent for a set; the flags are digital, nonfoil only and foil only.\<close>

record new_set =
  ns_id :: string
  ns_name :: string
  ns_code :: string
  ns_type :: string
  ns_released :: string
  ns_flags :: "bool \<times> bool \<times> bool"
  ns_parent :: "string option"
  ns_icon :: "string option"

definition given_text :: "string option \<Rightarrow> bool" where
  "given_text t \<longleftrightarrow> t \<noteq> None \<and> t \<noteq> Some []"

definition code_owner :: "set_row list \<Rightarrow> string \<Rightarrow> string option" where
  "code_owner rows code = map_option sr_id (find (\<lambda>r. sr_code r = code) rows)"

definition parent_of :: "new_set \<Rightarrow> sets_db \<Rightarrow> string option" where
  "parent_of n d = (if given_text (ns_parent n) then code_owner (sd_sets d) (the (ns_parent n)) else None)"

text \<open>The unique constraints on name and code, against the other sets.\<close>

definition name_clash :: "new_set \<Rightarrow> sets_db \<Rightarrow> bool" where
  "name_clash n d \<longleftrightarrow> (\<exists>r\<in>set (sd_sets d). sr_id r \<noteq> ns_id n \<and> (sr_name r = ns_name n \<or> sr_code r = ns_code n))"

definition known_set :: "new_set \<Rightarrow> sets_db \<Rightarrow> bool" where
  "known_set n d \<longleftrightarrow> ns_id n \<in> sr_id ` set (sd_sets d)"

definition fill_row :: "new_set \<Rightarrow> string option \<Rightarrow> set_row \<Rightarrow> set_row" where
  "fill_row n p r = r\<lparr>sr_name := ns_name n, sr_code := ns_code n, sr_type := ns_type n, sr_released := ns_released n,
     sr_flags := ns_flags n, sr_parent := p\<rparr>"

definition blank_row :: "string \<Rightarrow> set_row" where
  "blank_row i = \<lparr>sr_id = i, sr_name = [], sr_code = [], sr_type = [], sr_released = [], sr_flags = (False, False, False),
     sr_parent = None, sr_active = True\<rparr>"

definition link_icon :: "new_set \<Rightarrow> (string, string) dict \<Rightarrow> (string, string) dict" where
  "link_icon n icons =
     (if given_text (ns_icon n) \<and> dget icons (ns_id n) = None then dset (ns_id n) (the (ns_icon n)) icons else icons)"

text \<open>
  One record of the procedure: refused with the type of a set that is too long for its column or a name or code that another
  set has, else updated or inserted; the answer says whether the set is new.
\<close>

definition insert_set :: "new_set \<Rightarrow> sets_db \<Rightarrow> (bool \<times> sets_db) res" where
  "insert_set n d =
     (if 20 < length (ns_type n) \<or> name_clash n d then Inl DbErr
      else let p = parent_of n d in
        Inr (\<not> known_set n d,
             d\<lparr>sd_sets := (if known_set n d then map (\<lambda>r. if sr_id r = ns_id n then fill_row n p r else r) (sd_sets d)
                           else sd_sets d @ [fill_row n p (blank_row (ns_id n))]),
               sd_types := (if ns_type n \<in> set (sd_types d) then sd_types d else sd_types d @ [ns_type n]),
               sd_icons := link_icon n (sd_icons d)\<rparr>))"

text \<open>The answer of the procedure: new sets, refused sets, the ids of the new ones.\<close>

record sets_answer =
  sa_total :: nat
  sa_ok :: nat
  sa_failed :: nat
  sa_ids :: "string list"
  sa_errors :: "string list"

definition count_set :: "new_set \<Rightarrow> bool res \<Rightarrow> sets_answer \<Rightarrow> sets_answer" where
  "count_set n r a =
     (case r of
        Inl _ \<Rightarrow> a\<lparr>sa_failed := Suc (sa_failed a), sa_errors := sa_errors a @ [ns_name n]\<rparr>
      | Inr True \<Rightarrow> a\<lparr>sa_ok := Suc (sa_ok a), sa_ids := sa_ids a @ [ns_id n]\<rparr>
      | Inr False \<Rightarrow> a)"

fun insert_each :: "new_set list \<Rightarrow> sets_answer \<times> sets_db \<Rightarrow> sets_answer \<times> sets_db" where
  "insert_each [] (a, d) = (a, d)"
| "insert_each (n # ns) (a, d) =
     (case insert_set n d of
        Inl e \<Rightarrow> insert_each ns (count_set n (Inl e) a, d)
      | Inr (new, d') \<Rightarrow> insert_each ns (count_set n (Inr new) a, d'))"

definition refresh_view :: "sets_db \<Rightarrow> sets_db" where
  "refresh_view d = d\<lparr>sd_view := filter (\<lambda>r. sr_id r \<in> set (sd_carded d)) (sd_sets d)\<rparr>"

definition insert_batch_sets :: "new_set list \<Rightarrow> (sets_db, sets_answer) statement" where
  "insert_batch_sets ns d =
     (case insert_each ns (\<lparr>sa_total = length ns, sa_ok = 0, sa_failed = 0, sa_ids = [], sa_errors = []\<rparr>, d) of
        (a, d') \<Rightarrow> Inr (a, refresh_view d'))"

section \<open>The repository\<close>

text \<open>
  \<open>BatchInsertResponse\<close>. The repository reads the columns \<open>total_processed\<close> and \<open>error_details\<close>, which the answer does
  not have: both are missing, and the defaults are taken.
\<close>

record set_response =
  sb_total :: nat
  sb_ok :: nat
  sb_failed :: nat
  sb_ids :: "string list"
  sb_errors :: "string list"

definition set_success_rate :: "set_response \<Rightarrow> rat" where
  "set_success_rate r = (if sb_total r > 0 then of_nat (sb_ok r) / of_nat (sb_total r) * 100 else 0)"

definition add_many_sets :: "(pyexc \<Rightarrow> pyexc option) option \<Rightarrow> new_set list \<Rightarrow> (sets_db db_session, set_response) prog" where
  "add_many_sets ex ns =
     bindp (execute_query ex (\<lambda>_. insert_batch_sets ns) (Tuple [()])) (\<lambda>a. ret
       \<lparr>sb_total = 0, sb_ok = sa_ok a, sb_failed = sa_failed a, sb_ids = sa_ids a, sb_errors = []\<rparr>)"

text \<open>\<open>delete\<close>: the tag of a command is a text such as \<open>UPDATE 1\<close>, which is never empty.\<close>

definition update_tag :: "nat \<Rightarrow> string" where
  "update_tag k = ''UPDATE '' @ (if k = 0 then ''0'' else ''1'')"

definition deactivate :: "string \<Rightarrow> (sets_db, string) statement" where
  "deactivate i d =
     Inr (update_tag (length (filter (\<lambda>r. sr_id r = i \<and> sr_active r) (sd_sets d))),
          d\<lparr>sd_sets := map (\<lambda>r. if sr_id r = i \<and> sr_active r then r\<lparr>sr_active := False\<rparr> else r) (sd_sets d)\<rparr>)"

definition delete_set_row :: "(pyexc \<Rightarrow> pyexc option) option \<Rightarrow> string \<Rightarrow> (sets_db db_session, bool) prog" where
  "delete_set_row ex i = bindp (execute_command ex (deactivate i)) (\<lambda>tag. ret (tag \<noteq> []))"

definition select_set :: "string list \<Rightarrow> (sets_db, set_row list) statement" where
  "select_set ids d = Inr (filter (\<lambda>r. [sr_id r] = ids) (sd_view d), d)"

text \<open>\<open>get\<close> passes the id itself as the parameters.\<close>

definition get_set_row :: "(pyexc \<Rightarrow> pyexc option) option \<Rightarrow> string \<Rightarrow> (sets_db db_session, set_row option) prog" where
  "get_set_row ex i =
     bindp (execute_query ex select_set (Whole i)) (\<lambda>rows. ret (case rows of [] \<Rightarrow> None | r # _ \<Rightarrow> Some r))"

definition page_of :: "nat option \<Rightarrow> nat option \<Rightarrow> 'a list \<Rightarrow> 'a list" where
  "page_of lm off xs =
     (let ys = (case off of None \<Rightarrow> xs | Some k \<Rightarrow> drop k xs) in case lm of None \<Rightarrow> ys | Some k \<Rightarrow> take k ys)"

definition select_sets :: "string list option \<Rightarrow> nat option \<Rightarrow> nat option \<Rightarrow> (sets_db, set_row list) statement" where
  "select_sets ids lm off d =
     Inr (page_of lm off (case ids of None \<Rightarrow> sd_view d | Some is \<Rightarrow> if is = [] then sd_view d
            else filter (\<lambda>r. sr_id r \<in> set is) (sd_view d)), d)"

definition list_set_rows ::
  "(pyexc \<Rightarrow> pyexc option) option \<Rightarrow> string list option \<Rightarrow> nat option \<Rightarrow> nat option \<Rightarrow> (sets_db db_session, set_row list) prog" where
  "list_set_rows ex ids lm off = execute_query ex (\<lambda>_. select_sets ids lm off) (Tuple [()])"

section \<open>The services\<close>

text \<open>\<open>except Kind: raise\<close> and \<open>except Exception: raise other\<close>.\<close>

definition wrap_errors :: "pyexc \<Rightarrow> pyexc \<Rightarrow> ('s, 'a) prog \<Rightarrow> ('s, 'a) prog" where
  "wrap_errors kept other m = catchp m (\<lambda>e. throw (if e = kept then e else other))"

definition get_set :: "(pyexc \<Rightarrow> pyexc option) option \<Rightarrow> string \<Rightarrow> (sets_db db_session, set_row) prog" where
  "get_set ex i =
     wrap_errors SetNotFoundErr SetRetrievalErr
       (bindp (get_set_row ex i) (\<lambda>r. case r of None \<Rightarrow> throw SetNotFoundErr | Some row \<Rightarrow> ret row))"

definition get_all_sets ::
  "(pyexc \<Rightarrow> pyexc option) option \<Rightarrow> nat option \<Rightarrow> nat option \<Rightarrow> string list option \<Rightarrow> (sets_db db_session, set_row list) prog" where
  "get_all_sets ex lm off ids =
     wrap_errors SetNotFoundErr SetRetrievalErr
       (bindp (list_set_rows ex ids lm off) (\<lambda>rows. if rows = [] then throw SetNotFoundErr else ret rows))"

text \<open>The request model has no method \<open>create_values\<close>, which both calls before anything else.\<close>

definition add_set :: "new_set \<Rightarrow> (sets_db db_session, bool) prog" where
  "add_set n = throw AttrErr"

definition add_sets_bulk :: "new_set list \<Rightarrow> (sets_db db_session, set_row list) prog" where
  "add_sets_bulk ns = (if ns = [] then wrap_errors SetCreationErr SetCreationErr (throw SetCreationErr) else throw AttrErr)"

text \<open>The fields are passed by position to a method that takes them by name.\<close>

definition put_set :: "string \<Rightarrow> (string \<times> json) list \<Rightarrow> (sets_db db_session, set_row) prog" where
  "put_set i upd =
     wrap_errors SetNotFoundErr SetUpdateErr
       (if filter (\<lambda>(k, v). v \<noteq> JNull) upd = [] then throw SetUpdateErr else throw TypeErr)"

definition delete_set :: "(pyexc \<Rightarrow> pyexc option) option \<Rightarrow> string \<Rightarrow> (sets_db db_session, bool) prog" where
  "delete_set ex i =
     wrap_errors SetNotFoundErr SetDeletionErr
       (bindp (delete_set_row ex i) (\<lambda>b. if b then ret True else throw SetNotFoundErr))"

section \<open>The import\<close>

record set_stats =
  zt_total :: nat
  zt_ok :: nat
  zt_failed :: nat
  zt_batches :: nat
  zt_errors :: nat

definition new_set_stats :: set_stats where
  "new_set_stats = \<lparr>zt_total = 0, zt_ok = 0, zt_failed = 0, zt_batches = 0, zt_errors = 0\<rparr>"

definition set_stats_rate :: "set_stats \<Rightarrow> rat" where
  "set_stats_rate st = (if zt_total st > 0 then of_nat (zt_ok st) / of_nat (zt_total st) * 100 else 0)"

record failed_set =
  fz_position :: nat
  fz_data :: json
  fz_error :: string

text \<open>The importer: its session, statistics and failed sets, and the files it writes to the working directory, if it can.\<close>

record set_importer =
  zi_session :: "sets_db db_session"
  zi_stats :: set_stats
  zi_failed :: "failed_set list"
  zi_disk :: bool
  zi_failed_files :: "failed_set list list"
  zi_batch_files :: "(nat \<times> string \<times> new_set list) list"

record set_conf =
  zc_executor :: "(pyexc \<Rightarrow> pyexc option) option"
  zc_validate :: "json \<Rightarrow> new_set res"
  zc_message :: "pyexc \<Rightarrow> string"
  zc_batch_size :: nat
  zc_max_retries :: nat
  zc_skip_errors :: bool
  zc_save_failed :: bool

type_synonym 'a set_imp = "(set_importer, 'a) prog"

definition on_set_stats :: "(set_stats \<Rightarrow> set_stats) \<Rightarrow> set_importer \<Rightarrow> set_importer" where
  "on_set_stats f w = w\<lparr>zi_stats := f (zi_stats w)\<rparr>"

definition save_failed_sets :: "set_importer \<Rightarrow> set_importer" where
  "save_failed_sets w =
     (if zi_failed w = [] \<or> \<not> zi_disk w then w else w\<lparr>zi_failed_files := zi_failed_files w @ [zi_failed w]\<rparr>)"

definition save_failed_set_batch :: "new_set list \<Rightarrow> nat \<Rightarrow> string \<Rightarrow> set_importer \<Rightarrow> set_importer" where
  "save_failed_set_batch batch n err w =
     (if zi_disk w then w\<lparr>zi_batch_files := zi_batch_files w @ [(n, err, batch)]\<rparr> else w)"

fun try_set_batch :: "set_conf \<Rightarrow> new_set list \<Rightarrow> nat \<Rightarrow> nat \<Rightarrow> unit set_imp" where
  "try_set_batch cf batch n retries w =
     (case add_many_sets (zc_executor cf) batch (zi_session w) of
        (Inr r, s) \<Rightarrow>
          (Inr (), on_set_stats (\<lambda>st. st\<lparr>zt_ok := zt_ok st + sb_ok r, zt_failed := zt_failed st + sb_failed r,
                                       zt_batches := Suc (zt_batches st)\<rparr>) (w\<lparr>zi_session := s\<rparr>))
      | (Inl e, s) \<Rightarrow>
          (case retries of
             Suc left \<Rightarrow> try_set_batch cf batch n left (w\<lparr>zi_session := s\<rparr>)
           | 0 \<Rightarrow> (Inl SetInsertErr,
               on_set_stats (\<lambda>st. st\<lparr>zt_failed := zt_failed st + length batch\<rparr>)
                 (save_failed_set_batch batch n (zc_message cf e) (w\<lparr>zi_session := s\<rparr>)))))"

declare try_set_batch.simps [simp del]

definition process_set_batch :: "set_conf \<Rightarrow> new_set list \<Rightarrow> nat \<Rightarrow> unit set_imp" where
  "process_set_batch cf batch n = try_set_batch cf batch n (zc_max_retries cf)"

definition set_body ::
  "set_conf \<Rightarrow> nat \<Rightarrow> json \<Rightarrow> new_set list \<times> nat \<Rightarrow> set_importer \<Rightarrow> unit res \<times> (new_set list \<times> nat) \<times> set_importer" where
  "set_body cf resume j loop w =
     (let (batch, n) = loop in
      if n < resume then (if length batch \<ge> zc_batch_size cf then (Inr (), ([], Suc n), w) else (Inr (), (batch, n), w))
      else (case zc_validate cf j of
              Inl e \<Rightarrow> (Inl e, (batch, n), w)
            | Inr z \<Rightarrow>
                let batch' = batch @ [z]; w' = on_set_stats (\<lambda>st. st\<lparr>zt_total := Suc (zt_total st)\<rparr>) w
                in if length batch' \<ge> zc_batch_size cf
                   then (case process_set_batch cf batch' (Suc n) w' of
                           (Inl e, w'') \<Rightarrow> (Inl e, (batch', n), w'')
                         | (Inr _, w'') \<Rightarrow> (Inr (), ([], Suc n), w''))
                   else (Inr (), (batch', n), w')))"

definition note_set_error :: "set_conf \<Rightarrow> json \<Rightarrow> pyexc \<Rightarrow> set_importer \<Rightarrow> set_importer" where
  "note_set_error cf j e w =
     w\<lparr>zi_stats := (zi_stats w)\<lparr>zt_errors := Suc (zt_errors (zi_stats w))\<rparr>,
       zi_failed := zi_failed w @ [\<lparr>fz_position = zt_total (zi_stats w), fz_data = j, fz_error = zc_message cf e\<rparr>]\<rparr>"

fun set_loop :: "set_conf \<Rightarrow> nat \<Rightarrow> json list \<Rightarrow> new_set list \<times> nat \<Rightarrow> (new_set list \<times> nat) set_imp" where
  "set_loop cf resume [] loop w = (Inr loop, w)"
| "set_loop cf resume (j # js) loop w =
     (case set_body cf resume j loop w of
        (Inr _, loop', w') \<Rightarrow> set_loop cf resume js loop' w'
      | (Inl e, loop', w') \<Rightarrow>
          let w'' = note_set_error cf j e w' in
          if zc_skip_errors cf then set_loop cf resume js loop' w'' else (Inl e, w''))"

text \<open>The file, if it is there: the sets the JSON reader yields, and whether it then fails.\<close>

definition process_set_stream :: "set_conf \<Rightarrow> json list \<times> pyexc option \<Rightarrow> nat \<Rightarrow> unit set_imp" where
  "process_set_stream cf f resume =
     bindp (set_loop cf resume (fst f) ([], 0)) (\<lambda>(batch, n).
       case snd f of
         Some e \<Rightarrow> throw e
       | None \<Rightarrow> if batch = [] then ret () else process_set_batch cf batch (Suc n))"

definition process_large_sets_json :: "set_conf \<Rightarrow> (json list \<times> pyexc option) option \<Rightarrow> nat \<Rightarrow> set_stats set_imp" where
  "process_large_sets_json cf f resume w =
     (case (case f of None \<Rightarrow> (Inl SetInsertErr, w) | Some g \<Rightarrow> process_set_stream cf g resume w) of
        (Inl e, w') \<Rightarrow> (Inl SetInsertErr, w')
      | (Inr _, w') \<Rightarrow>
          let w'' = (if zc_save_failed cf then save_failed_sets w' else w') in (Inr (zi_stats w''), w''))"

definition new_set_importer :: "sets_db db_session \<Rightarrow> bool \<Rightarrow> set_importer" where
  "new_set_importer s disk =
     \<lparr>zi_session = s, zi_stats = new_set_stats, zi_failed = [], zi_disk = disk, zi_failed_files = [], zi_batch_files = []\<rparr>"

text \<open>The service without a tracked run: the import in the transaction of the service manager.\<close>

definition set_import_service ::
  "set_conf \<Rightarrow> (json list \<times> pyexc option) option \<Rightarrow> nat \<Rightarrow> bool \<Rightarrow> (sets_db db_session, set_stats) prog" where
  "set_import_service cf f resume disk =
     in_transaction (\<lambda>s. case process_large_sets_json cf f resume (new_set_importer s disk) of (r, w) \<Rightarrow> (r, zi_session w))"

section \<open>The table of sets\<close>

definition sets_ok :: "sets_db \<Rightarrow> bool" where
  "sets_ok d \<longleftrightarrow> distinct (map sr_id (sd_sets d)) \<and> distinct (map sr_name (sd_sets d)) \<and> distinct (map sr_code (sd_sets d)) \<and>
     (\<forall>r\<in>set (sd_sets d). \<forall>p. sr_parent r = Some p \<longrightarrow> p \<in> sr_id ` set (sd_sets d))"

lemma fill_row_sel [simp]:
  "sr_id (fill_row n p r) = sr_id r" "sr_name (fill_row n p r) = ns_name n" "sr_code (fill_row n p r) = ns_code n"
  "sr_parent (fill_row n p r) = p" "sr_id (blank_row i) = i"
  by (simp_all add: fill_row_def blank_row_def)

lemma code_owner_id: "code_owner rows c = Some i \<Longrightarrow> i \<in> sr_id ` set rows"
  by (auto simp: code_owner_def find_Some_iff)

lemma parent_known: "parent_of n d = Some p \<Longrightarrow> p \<in> sr_id ` set (sd_sets d)"
  by (auto simp: parent_of_def split: if_splits dest: code_owner_id)

text \<open>A replacement in a list keeps a key distinct when no other entry has the new key.\<close>

lemma distinct_replaced:
  assumes "distinct (map f xs)" "distinct (map k xs)" "\<forall>x\<in>set xs. k x \<noteq> i \<longrightarrow> f x \<noteq> c"
  shows "distinct (map (\<lambda>x. if k x = i then c else f x) xs)"
  using assms by (induction xs) (auto simp: image_iff, (metis+)?)

lemma insert_set_sets:
  assumes "insert_set n d = Inr (new, d')"
  shows "sd_sets d' = (if known_set n d then map (\<lambda>r. if sr_id r = ns_id n then fill_row n (parent_of n d) r else r) (sd_sets d)
      else sd_sets d @ [fill_row n (parent_of n d) (blank_row (ns_id n))])"
    and "\<not> name_clash n d" "new \<longleftrightarrow> \<not> known_set n d"
  using assms by (auto simp: insert_set_def Let_def split: if_splits)

lemma insert_set_ids:
  assumes "insert_set n d = Inr (new, d')"
  shows "sr_id ` set (sd_sets d') = insert (ns_id n) (sr_id ` set (sd_sets d))"
proof (cases "known_set n d")
  case True
  have "map sr_id (sd_sets d') = map sr_id (sd_sets d)"
    using insert_set_sets(1) [OF assms] True by simp
  then have "sr_id ` set (sd_sets d') = sr_id ` set (sd_sets d)"
    by (metis set_map)
  then show ?thesis using True by (auto simp: known_set_def)
next
  case False
  then show ?thesis using insert_set_sets(1) [OF assms] by simp
qed

lemma insert_set_ok:
  assumes "insert_set n d = Inr (new, d')" "sets_ok d"
  shows "sets_ok d'"
proof -
  note s = insert_set_sets [OF assms(1)]
  have other: "sr_name r \<noteq> ns_name n" "sr_code r \<noteq> ns_code n" if "r \<in> set (sd_sets d)" "sr_id r \<noteq> ns_id n" for r
    using s(2) that by (auto simp: name_clash_def)
  have parents: "p \<in> sr_id ` set (sd_sets d')" if "r \<in> set (sd_sets d')" "sr_parent r = Some p" for r p
    using that s(1) assms(2) parent_known [of n d p] unfolding insert_set_ids [OF assms(1)]
    by (auto simp: sets_ok_def split: if_splits)
  show ?thesis
  proof (cases "known_set n d")
    case True
    have keys: "map sr_id (sd_sets d') = map sr_id (sd_sets d)"
      "map sr_name (sd_sets d') = map (\<lambda>r. if sr_id r = ns_id n then ns_name n else sr_name r) (sd_sets d)"
      "map sr_code (sd_sets d') = map (\<lambda>r. if sr_id r = ns_id n then ns_code n else sr_code r) (sd_sets d)"
      using s(1) True by simp_all
    have "distinct (map sr_id (sd_sets d'))" using keys(1) assms(2) by (simp add: sets_ok_def)
    moreover have "distinct (map sr_name (sd_sets d'))" "distinct (map sr_code (sd_sets d'))"
      unfolding keys(2,3) using assms(2) other by (auto simp: sets_ok_def intro!: distinct_replaced)
    ultimately show ?thesis using parents by (simp add: sets_ok_def)
  next
    case False
    then have new: "ns_id n \<notin> sr_id ` set (sd_sets d)" by (simp add: known_set_def)
    then have ids: "sr_id r \<noteq> ns_id n" if "r \<in> set (sd_sets d)" for r using that by (metis image_eqI)
    have names: "ns_name n \<notin> sr_name ` set (sd_sets d)"
      by (metis (no_types, lifting) ids imageE other(1))
    have codes: "ns_code n \<notin> sr_code ` set (sd_sets d)"
      by (metis (no_types, lifting) ids imageE other(2))
    from names codes show ?thesis
      using s(1) False assms(2) new parents by (auto simp: sets_ok_def)
  qed
qed

lemma insert_each_ok: "sets_ok d \<Longrightarrow> insert_each ns (a, d) = (a', d') \<Longrightarrow> sets_ok d'"
proof (induction ns arbitrary: a d)
  case (Cons n ns)
  show ?case
  proof (cases "insert_set n d")
    case (Inl e)
    then show ?thesis using Cons.IH [OF Cons.prems(1)] Cons.prems(2) by simp
  next
    case (Inr x)
    obtain new e where x: "x = (new, e)" by (cases x)
    from insert_set_ok [OF Inr [unfolded x] Cons.prems(1)] have "sets_ok e" .
    from Cons.IH [OF this] show ?thesis using Cons.prems(2) Inr x by simp
  qed
qed simp

lemma refresh_view_sets [simp]: "sd_sets (refresh_view d) = sd_sets d"
  by (simp add: refresh_view_def)

lemma insert_batch_ok: "sets_ok d \<Longrightarrow> insert_batch_sets ns d = Inr (a, d') \<Longrightarrow> sets_ok d'"
proof -
  assume ok: "sets_ok d" and i: "insert_batch_sets ns d = Inr (a, d')"
  then obtain e where "insert_each ns (\<lparr>sa_total = length ns, sa_ok = 0, sa_failed = 0, sa_ids = [], sa_errors = []\<rparr>, d) = (a, e)"
    "d' = refresh_view e" by (auto simp: insert_batch_sets_def split: prod.splits)
  with insert_each_ok [OF ok] show ?thesis by (simp add: sets_ok_def)
qed

section \<open>A second import links the parents\<close>

text \<open>
  The sets of a file, against a table: ids, names and codes belong together, within the file and between file and table, and the
  types fit.
\<close>

definition same_set :: "new_set \<Rightarrow> string \<Rightarrow> string \<Rightarrow> string \<Rightarrow> bool" where
  "same_set n i nm c \<longleftrightarrow> (i = ns_id n \<longleftrightarrow> c = ns_code n) \<and> (i = ns_id n \<longleftrightarrow> nm = ns_name n)"

definition sets_fit :: "new_set list \<Rightarrow> sets_db \<Rightarrow> bool" where
  "sets_fit ns d \<longleftrightarrow>
     distinct (map ns_id ns) \<and>
     (\<forall>n\<in>set ns. length (ns_type n) \<le> 20 \<and>
        (\<forall>m\<in>set ns. same_set n (ns_id m) (ns_name m) (ns_code m)) \<and>
        (\<forall>r\<in>set (sd_sets d). same_set n (sr_id r) (sr_name r) (sr_code r)))"

lemma fit_not_clash: "sets_fit ns d \<Longrightarrow> n \<in> set ns \<Longrightarrow> \<not> name_clash n d"
  by (auto simp: sets_fit_def same_set_def name_clash_def)

lemma fit_inserts:
  assumes "sets_fit ns d" "n \<in> set ns"
  obtains new d' where "insert_set n d = Inr (new, d')"
  using fit_not_clash [OF assms] assms that by (auto simp: insert_set_def sets_fit_def Let_def)

lemma insert_set_rows:
  assumes "insert_set n d = Inr (new, d')" "r \<in> set (sd_sets d')"
  shows "(sr_id r \<noteq> ns_id n \<and> r \<in> set (sd_sets d)) \<or>
    (sr_id r = ns_id n \<and> sr_name r = ns_name n \<and> sr_code r = ns_code n \<and> sr_parent r = parent_of n d)"
  using insert_set_sets(1) [OF assms(1)] assms(2)
  by (auto simp: known_set_def image_iff split: if_splits)

lemma fit_step:
  assumes "insert_set n d = Inr (new, d')" "sets_fit ns d" "n \<in> set ns"
  shows "sets_fit ns d'"
proof -
  have "same_set m (sr_id r) (sr_name r) (sr_code r)" if "m \<in> set ns" "r \<in> set (sd_sets d')" for m r
    using insert_set_rows [OF assms(1) that(2)] assms(2,3) that(1) by (auto simp: sets_fit_def)
  then show ?thesis using assms(2) by (auto simp: sets_fit_def)
qed

text \<open>The insertion of some sets of the file: all are accepted, all are then known, and the rows of the others are as before.\<close>

lemma insert_each_rows:
  assumes "sets_fit fs d" "set ns \<subseteq> set fs" "distinct (map ns_id ns)" "insert_each ns (a, d) = (a', d')"
  shows "sa_failed a' = sa_failed a \<and> sets_fit fs d' \<and> (\<forall>n\<in>set ns. known_set n d') \<and>
    (\<forall>n. known_set n d \<longrightarrow> known_set n d') \<and>
    (\<forall>r. sr_id r \<notin> ns_id ` set ns \<longrightarrow> r \<in> set (sd_sets d') \<longrightarrow> r \<in> set (sd_sets d))"
  using assms
proof (induction ns arbitrary: a d)
  case Nil
  then show ?case by simp
next
  case (Cons n ns)
  have n: "n \<in> set fs" using Cons.prems(2) by simp
  from fit_inserts [OF Cons.prems(1) n] obtain new e where i: "insert_set n d = Inr (new, e)" .
  from Cons.IH [OF fit_step [OF i Cons.prems(1) n], of "count_set n (Inr new) a"] Cons.prems(2-4) i
  have ih: "sa_failed a' = sa_failed a" "sets_fit fs d'" "\<forall>m\<in>set ns. known_set m d'" "\<forall>m. known_set m e \<longrightarrow> known_set m d'"
    "\<forall>r. sr_id r \<notin> ns_id ` set ns \<longrightarrow> r \<in> set (sd_sets d') \<longrightarrow> r \<in> set (sd_sets e)"
    by (auto simp: count_set_def split: bool.splits)
  have known: "known_set m e" if "known_set m d \<or> m = n" for m
    using insert_set_ids [OF i] that by (auto simp: known_set_def)
  have rows: "\<forall>r. sr_id r \<noteq> ns_id n \<longrightarrow> r \<in> set (sd_sets e) \<longrightarrow> r \<in> set (sd_sets d)"
    using insert_set_rows [OF i] by blast
  show ?case
    using ih known rows by auto
qed

lemma parent_found:
  assumes "sets_fit fs d" "m \<in> set fs" "known_set m d" "ns_parent n = Some (ns_code m)" "ns_code m \<noteq> []"
  shows "parent_of n d = Some (ns_id m)"
proof -
  have all: "sr_code r = ns_code m \<longleftrightarrow> sr_id r = ns_id m" if "r \<in> set (sd_sets d)" for r
    using assms(1,2) that by (auto simp: sets_fit_def same_set_def)
  obtain r where "r \<in> set (sd_sets d)" "sr_id r = ns_id m" using assms(3) by (auto simp: known_set_def)
  then obtain s where "find (\<lambda>r. sr_code r = ns_code m) (sd_sets d) = Some s"
    using all by (cases "find (\<lambda>r. sr_code r = ns_code m) (sd_sets d)") (auto simp: find_None_iff)
  moreover from this have "s \<in> set (sd_sets d)" "sr_code s = ns_code m" by (auto simp: find_Some_iff)
  ultimately show ?thesis using assms(4,5) all by (simp add: parent_of_def given_text_def code_owner_def)
qed

lemma insert_each_parent:
  assumes "sets_fit fs d" "set ns \<subseteq> set fs" "distinct (map ns_id ns)" "insert_each ns (a, d) = (a', d')"
    "\<forall>m\<in>set fs. known_set m d" "n \<in> set ns" "m \<in> set fs" "ns_parent n = Some (ns_code m)" "ns_code m \<noteq> []"
    "r \<in> set (sd_sets d')" "sr_id r = ns_id n"
  shows "sr_parent r = Some (ns_id m)"
  using assms
proof (induction ns arbitrary: a d)
  case Nil
  then show ?case by simp
next
  case (Cons k ns)
  have k: "k \<in> set fs" using Cons.prems(2) by simp
  from fit_inserts [OF Cons.prems(1) k] obtain new e where i: "insert_set k d = Inr (new, e)" .
  have fit: "sets_fit fs e" by (rule fit_step [OF i Cons.prems(1) k])
  have rest: "insert_each ns (count_set k (Inr new) a, e) = (a', d')" using Cons.prems(4) i by simp
  have sub: "set ns \<subseteq> set fs" and dist: "distinct (map ns_id ns)" using Cons.prems(2,3) by auto
  have known: "\<forall>m\<in>set fs. known_set m e"
    using Cons.prems(5) insert_set_ids [OF i] by (auto simp: known_set_def)
  show ?case
  proof (cases "n = k")
    case True
    then have "sr_id r \<notin> ns_id ` set ns" using Cons.prems(3,11) by auto
    with insert_each_rows [OF fit sub dist rest] Cons.prems(10) have "r \<in> set (sd_sets e)" by blast
    from insert_set_rows [OF i this] have "sr_parent r = parent_of k d" using Cons.prems(11) True by auto
    then show ?thesis
      using parent_found [OF Cons.prems(1,7)] Cons.prems(5,7,8,9) True by simp
  next
    case False
    then have "n \<in> set ns" using Cons.prems(6) by simp
    from Cons.IH [OF fit sub dist rest known this Cons.prems(7-11)] show ?thesis .
  qed
qed


definition demo_sets :: "new_set list" where
  "demo_sets =
     [\<lparr>ns_id = ''1'', ns_name = ''Tokens'', ns_code = ''tdom'', ns_type = ''token'', ns_released = ''2018-04-27'',
       ns_flags = (False, False, False), ns_parent = Some ''dom'', ns_icon = None\<rparr>,
      \<lparr>ns_id = ''2'', ns_name = ''Dominaria'', ns_code = ''dom'', ns_type = ''expansion'', ns_released = ''2018-04-27'',
       ns_flags = (False, False, False), ns_parent = None, ns_icon = None\<rparr>]"

definition no_sets :: sets_db where
  "no_sets = \<lparr>sd_sets = [], sd_types = [], sd_icons = [], sd_carded = [], sd_view = []\<rparr>"

definition twice_imported :: sets_db where
  "twice_imported = snd (projr (insert_batch_sets demo_sets (snd (projr (insert_batch_sets demo_sets no_sets)))))"

lemma batch_answers: "insert_batch_sets ns d = Inr (fst (projr (insert_batch_sets ns d)), snd (projr (insert_batch_sets ns d)))"
  by (simp add: insert_batch_sets_def split: prod.splits)


section \<open>A retried batch\<close>

lemma try_set_batch_ok:
  assumes "add_many_sets (zc_executor cf) b (zi_session w) = (Inr r, s)"
  shows "process_set_batch cf b n w =
    (Inr (), on_set_stats (\<lambda>st. st\<lparr>zt_ok := zt_ok st + sb_ok r, zt_failed := zt_failed st + sb_failed r,
                                zt_batches := Suc (zt_batches st)\<rparr>) (w\<lparr>zi_session := s\<rparr>))"
  using assms by (simp add: process_set_batch_def try_set_batch.simps)

text \<open>A chunk of valid sets that fills a batch.\<close>

lemma set_loop_collect:
  assumes "map (zc_validate cf) js = map Inr zs" "length b + length zs < zc_batch_size cf"
  shows "set_loop cf 0 (js @ rest) (b, n) w =
    set_loop cf 0 rest (b @ zs, n) (on_set_stats (\<lambda>st. st\<lparr>zt_total := zt_total st + length zs\<rparr>) w)"
  using assms
proof (induction js arbitrary: b w zs)
  case Nil
  then show ?case by (simp add: on_set_stats_def)
next
  case (Cons j js)
  then obtain z zs' where z: "zs = z # zs'" "zc_validate cf j = Inr z" "map (zc_validate cf) js = map Inr zs'"
    by (cases zs) auto
  have "set_body cf 0 j (b, n) w = (Inr (), (b @ [z], n), on_set_stats (\<lambda>st. st\<lparr>zt_total := Suc (zt_total st)\<rparr>) w)"
    using Cons.prems(2) z by (simp add: set_body_def)
  then show ?case
    using Cons.IH [OF z(3), of "b @ [z]" "on_set_stats (\<lambda>st. st\<lparr>zt_total := Suc (zt_total st)\<rparr>) w"] Cons.prems(2) z(1)
    by (simp add: on_set_stats_def)
qed

lemma set_loop_full:
  assumes "map (zc_validate cf) js = map Inr zs" "length zs = zc_batch_size cf" "0 < zc_batch_size cf"
    "process_set_batch cf zs (Suc n) (on_set_stats (\<lambda>st. st\<lparr>zt_total := zt_total st + length zs\<rparr>) w) = (Inr (), w')"
  shows "set_loop cf 0 (js @ rest) ([], n) w = set_loop cf 0 rest ([], Suc n) w'"
proof -
  obtain js' j where j: "js = js' @ [j]" using assms(1-3) by (cases js rule: rev_cases) auto
  obtain zs' z where z: "zs = zs' @ [z]" using assms(2,3) by (cases zs rule: rev_cases) auto
  have v: "map (zc_validate cf) js' = map Inr zs'" "zc_validate cf j = Inr z" using assms(1) j z by simp_all
  let ?w = "on_set_stats (\<lambda>st. st\<lparr>zt_total := zt_total st + length zs'\<rparr>) w"
  have "set_loop cf 0 (js @ rest) ([], n) w = set_loop cf 0 (j # rest) (zs', n) ?w"
    using set_loop_collect [OF v(1), of "[]" "j # rest" n w] assms(2) z j by simp
  moreover have "set_body cf 0 j (zs', n) ?w = (Inr (), ([], Suc n), w')"
  proof -
    have w: "on_set_stats (\<lambda>st. st\<lparr>zt_total := Suc (zt_total st)\<rparr>) ?w =
        on_set_stats (\<lambda>st. st\<lparr>zt_total := zt_total st + length zs\<rparr>) w"
      by (simp add: on_set_stats_def z)
    have sz: "zc_batch_size cf \<le> length (zs' @ [z])" using assms(2) z by simp
    show ?thesis
      using assms(4) sz unfolding set_body_def Let_def split v(2) by (simp add: w z [symmetric] del: length_append)
  qed
  ultimately show ?thesis by simp
qed

text \<open>The statement of a batch in a sound transaction, and after a fault.\<close>

lemma add_many_in_tx:
  assumes "ss_tx s = Some (d, False)" "ss_faults s = None # fs \<or> (ss_faults s = [] \<and> fs = [])"
    "insert_batch_sets b d = Inr (a, d')"
  shows "add_many_sets (Some h) b s =
    (Inr \<lparr>sb_total = 0, sb_ok = sa_ok a, sb_failed = sa_failed a, sb_ids = sa_ids a, sb_errors = []\<rparr>,
     s\<lparr>ss_tx := Some (d', False), ss_faults := fs\<rparr>)"
  using assms(2)
proof
  assume "ss_faults s = None # fs"
  then show ?thesis
    using assms(1,3) by (simp add: add_many_sets_def execute_query_def executor_query_def unpack_def executor_command_def
        send_statement_def run_statement_def next_fault_def)
next
  assume "ss_faults s = [] \<and> fs = []"
  then show ?thesis
    using assms(1,3) by (simp add: add_many_sets_def execute_query_def executor_query_def unpack_def executor_command_def
        send_statement_def run_statement_def next_fault_def)
qed

lemma add_many_fault:
  assumes "ss_tx s = Some (d, False)" "ss_faults s = Some e # fs" "e \<noteq> AbortedTxErr"
  shows "add_many_sets (Some h) b s = (Inl (handle_exception h e), s\<lparr>ss_tx := Some (d, True), ss_faults := fs\<rparr>)"
  using assms by (simp add: add_many_sets_def execute_query_def executor_query_def unpack_def executor_command_def
      send_statement_def run_statement_def next_fault_def)

lemma add_many_aborted:
  assumes "ss_tx s = Some (d, True)" "ss_faults s = []" "insert_batch_sets b (ss_db s) = Inr (a, d')"
  shows "add_many_sets (Some h) b s =
    (Inr \<lparr>sb_total = 0, sb_ok = sa_ok a, sb_failed = sa_failed a, sb_ids = sa_ids a, sb_errors = []\<rparr>,
     s\<lparr>ss_db := d', ss_tx := None\<rparr>)"
  using assms by (simp add: add_many_sets_def execute_query_def executor_query_def unpack_def executor_command_def
      send_statement_def run_statement_def next_fault_def send_rollback_def bindp_def)

text \<open>C33. An import of two batches whose second one fails once and is sent again: the retry succeeds outside the transaction, the
  first batch is rolled back, and the import still reports the sets of both.\<close>

theorem retry_loses_first_batch:
  assumes cf: "zc_executor cf = Some h" "zc_batch_size cf = k" "0 < k" "zc_max_retries cf = Suc retries"
    and js: "map (zc_validate cf) js1 = map Inr zs1" "map (zc_validate cf) js2 = map Inr zs2" "length zs1 = k" "length zs2 = k"
    and s: "ss_faults s = [None, Some e]" "e \<noteq> AbortedTxErr"
    and ins: "insert_batch_sets zs1 (ss_db s) = Inr (a1, d1)" "insert_batch_sets zs2 (ss_db s) = Inr (a2, d2)"
  shows "set_import_service cf (Some (js1 @ js2, None)) 0 disk s =
    (Inr \<lparr>zt_total = 2 * k, zt_ok = sa_ok a1 + sa_ok a2, zt_failed = sa_failed a1 + sa_failed a2, zt_batches = 2, zt_errors = 0\<rparr>,
     \<lparr>ss_db = d2, ss_tx = None, ss_faults = []\<rparr>)"
proof -
  let ?s0 = "s\<lparr>ss_tx := Some (ss_db s, False)\<rparr>"
  let ?w0 = "on_set_stats (\<lambda>st. st\<lparr>zt_total := zt_total st + k\<rparr>) (new_set_importer ?s0 disk)"
  let ?s1 = "s\<lparr>ss_tx := Some (d1, False), ss_faults := [Some e]\<rparr>"
  let ?w1 = "\<lparr>zi_session = ?s1, zi_stats = \<lparr>zt_total = k, zt_ok = sa_ok a1, zt_failed = sa_failed a1, zt_batches = 1, zt_errors = 0\<rparr>,
      zi_failed = [], zi_disk = disk, zi_failed_files = [], zi_batch_files = []\<rparr>"
  have b1: "process_set_batch cf zs1 (Suc 0) ?w0 = (Inr (), ?w1)"
    using add_many_in_tx [of ?s0 "ss_db s" "[Some e]" zs1 a1 d1 h] s ins(1) cf
    by (simp add: try_set_batch_ok on_set_stats_def new_set_importer_def new_set_stats_def)
  let ?w1' = "on_set_stats (\<lambda>st. st\<lparr>zt_total := zt_total st + k\<rparr>) ?w1"
  let ?sa = "s\<lparr>ss_tx := Some (d1, True), ss_faults := []\<rparr>"
  have f: "add_many_sets (Some h) zs2 ?s1 = (Inl (handle_exception h e), ?sa)"
    using add_many_fault [of ?s1 d1 e "[]" h zs2] s(2) by simp
  have r: "add_many_sets (Some h) zs2 ?sa =
      (Inr \<lparr>sb_total = 0, sb_ok = sa_ok a2, sb_failed = sa_failed a2, sb_ids = sa_ids a2, sb_errors = []\<rparr>,
       ?sa\<lparr>ss_db := d2, ss_tx := None\<rparr>)"
    using add_many_aborted [of ?sa d1 zs2 a2 d2 h] ins(2) by simp
  let ?w2 = "\<lparr>zi_session = \<lparr>ss_db = d2, ss_tx = None, ss_faults = []\<rparr>,
      zi_stats = \<lparr>zt_total = 2 * k, zt_ok = sa_ok a1 + sa_ok a2, zt_failed = sa_failed a1 + sa_failed a2, zt_batches = 2, zt_errors = 0\<rparr>,
      zi_failed = [], zi_disk = disk, zi_failed_files = [], zi_batch_files = []\<rparr>"
  have "\<forall>t. try_set_batch cf zs2 (Suc (Suc 0)) retries (?w1'\<lparr>zi_session := ?sa\<rparr>) = (Inr (), ?w2)"
    using r cf(1) by (simp add: try_set_batch.simps on_set_stats_def)
  then have b2: "process_set_batch cf zs2 (Suc (Suc 0)) ?w1' = (Inr (), ?w2)"
    using f cf(1,4) by (simp add: process_set_batch_def try_set_batch.simps [of cf zs2 _ "Suc retries"] on_set_stats_def)
  have loop1: "set_loop cf 0 (js1 @ js2 @ []) ([], 0) (new_set_importer ?s0 disk) = set_loop cf 0 (js2 @ []) ([], Suc 0) ?w1"
    using js(3) cf(2,3) b1 by (intro set_loop_full [OF js(1)]) simp_all
  have loop2: "set_loop cf 0 (js2 @ []) ([], Suc 0) ?w1 = set_loop cf 0 [] ([], Suc (Suc 0)) ?w2"
    using js(4) cf(2,3) b2 by (intro set_loop_full [OF js(2)]) simp_all
  have "set_loop cf 0 (js1 @ js2) ([], 0) (new_set_importer ?s0 disk) = (Inr ([], 2), ?w2)"
    using loop1 loop2 by simp
  then show ?thesis
    by (simp add: set_import_service_def in_transaction_def process_large_sets_json_def process_set_stream_def bindp_def
        save_failed_sets_def send_commit_def)
qed

definition demo_set_conf :: set_conf where
  "demo_set_conf =
     \<lparr>zc_executor = Some (\<lambda>_. None), zc_validate = (\<lambda>j. Inr (if j = JInt 1 then demo_sets ! 0 else demo_sets ! 1)),
      zc_message = (\<lambda>_. ''failed''), zc_batch_size = 1, zc_max_retries = 3, zc_skip_errors = True, zc_save_failed = True\<rparr>"

definition faulty_session :: "sets_db db_session" where
  "faulty_session = \<lparr>ss_db = no_sets, ss_tx = None, ss_faults = [None, Some DbErr]\<rparr>"

theorem retry_loses_first_batch_witness:
  "\<exists>st s'. set_import_service demo_set_conf (Some ([JInt 1, JInt 2], None)) 0 True faulty_session = (Inr st, s') \<and>
     zt_ok st = 2 \<and> map sr_id (sd_sets (ss_db s')) = [''2'']"
proof -
  have one: "insert_batch_sets [demo_sets ! 0] no_sets = Inr (a, d) \<Longrightarrow> sa_ok a = 1"
    and two: "insert_batch_sets [demo_sets ! 1] no_sets = Inr (a, d) \<Longrightarrow> sa_ok a = 1 \<and> map sr_id (sd_sets d) = [''2'']" for a d
    by (auto simp: insert_batch_sets_def demo_sets_def no_sets_def insert_set_def name_clash_def known_set_def count_set_def
        refresh_view_def Let_def)
  show ?thesis
    using retry_loses_first_batch [of demo_set_conf "\<lambda>_. None" 1 2 "[JInt 1]" "[demo_sets ! 0]" "[JInt 2]" "[demo_sets ! 1]"
        faulty_session DbErr, OF _ _ _ _ _ _ _ _ _ _ batch_answers batch_answers, of True] one [OF batch_answers] two [OF batch_answers]
    by (simp add: demo_set_conf_def faulty_session_def)
qed

section \<open>The answers of the services\<close>

text \<open>The deletion of a set that does not exist is reported as done, and no set is ever found by its id.\<close>

lemma delete_unknown_set:
  assumes "ss_tx s = None" "ss_faults s = []" "\<forall>r\<in>set (sd_sets (ss_db s)). sr_id r = i \<longrightarrow> \<not> sr_active r"
  shows "delete_set (Some h) i s = (Inr True, s)"
proof -
  have "map (\<lambda>r. if sr_id r = i \<and> sr_active r then r\<lparr>sr_active := False\<rparr> else r) (sd_sets (ss_db s)) = sd_sets (ss_db s)"
    using assms(3) by (intro map_idI) auto
  then show ?thesis
    using assms(1,2) by (simp add: delete_set_def wrap_errors_def catchp_def bindp_def delete_set_row_def execute_command_def
        executor_command_def send_statement_def run_statement_def deactivate_def update_tag_def)
qed

lemma get_set_fails: "get_set ex i s = (Inl (if (\<exists>h. ex = Some h \<and> handle_exception h TypeErr = SetNotFoundErr)
    then SetNotFoundErr else SetRetrievalErr), s)"
  by (cases ex) (auto simp: get_set_def wrap_errors_def catchp_def bindp_def get_set_row_def execute_query_def
      executor_query_def unpack_def)

lemma resume_skips_all_sets:
  "0 < resume \<Longrightarrow> 0 < zc_batch_size cf \<Longrightarrow> set_loop cf resume js ([], 0) w = (Inr ([], 0), w)"
  by (induction js) (auto simp: set_body_def)

end
