(* ===== verification/Ebay_Auth.thy ===== *)
theory Ebay_Auth
  imports Prelude
begin

text \<open>
  eBay tokens: the resolution of access tokens through Redis (\<open>ebay/_auth_context.py\<close>), the OAuth
  services (\<open>ebay/auth_services.py\<close>) and the statements of \<open>EbayAuthRepository\<close> they use.

  Redis is a map from keys to values with an expiry time; \<open>SETEX\<close> writes, and a key past its expiry is
  gone. The JSON wrapping of a cached token is left out: the cached value is the token. eBay's answers
  are parameters, and every call to eBay is logged in \<open>eb_calls\<close>.
\<close>

section \<open>State\<close>

record app =
  ap_code :: string
  ap_id :: string
  ap_env :: string
  ap_secret :: string
  ap_ru :: string
  ap_users :: "string list"
  ap_scopes :: "string list"
  ap_user_scopes :: "(string \<times> string) list"

record oauth_request =
  or_id :: nat
  or_user :: string
  or_app :: string
  or_time :: nat
  or_expires :: nat
  or_pending :: bool

datatype call =
    RefreshCall string string "string list"
  | CodeCall string string
  | AppCall string

record ebay =
  eb_clock :: nat
  eb_cache :: "(string, string \<times> nat) dict"
  eb_apps :: "app list"
  eb_refresh :: "(string \<times> string, string \<times> nat) dict"
  eb_requests :: "oauth_request list"
  eb_next :: nat
  eb_calls :: "call list"

section \<open>Redis\<close>

definition cache_get :: "string \<Rightarrow> ebay \<Rightarrow> string option" where
  "cache_get k e =
     (case dget (eb_cache e) k of
        None \<Rightarrow> None
      | Some (v, until) \<Rightarrow> if eb_clock e < until then Some v else None)"

definition cache_setex :: "string \<Rightarrow> nat \<Rightarrow> string \<Rightarrow> ebay \<Rightarrow> ebay" where
  "cache_setex k ttl v e = e\<lparr>eb_cache := dset k (v, eb_clock e + ttl) (eb_cache e)\<rparr>"

definition access_key :: "string \<Rightarrow> string \<Rightarrow> string" where
  "access_key user app_code = ''ebay:access_token:'' @ user @ '':'' @ app_code"

definition app_key :: "string \<Rightarrow> string" where
  "app_key app_id = ''ebay:app_token:'' @ app_id"

text \<open>\<open>max(expires_in - 60, 60)\<close>.\<close>

definition cache_ttl :: "int \<Rightarrow> nat" where
  "cache_ttl expires_in = nat (max (expires_in - 60) 60)"

section \<open>The repository\<close>

definition get_app_settings :: "ebay \<Rightarrow> string \<Rightarrow> string \<Rightarrow> app option" where
  "get_app_settings e user code = find (\<lambda>a. ap_code a = code \<and> user \<in> set (ap_users a)) (eb_apps e)"

definition get_app_scopes :: "ebay \<Rightarrow> string \<Rightarrow> string list" where
  "get_app_scopes e app_id =
     (case find (\<lambda>a. ap_id a = app_id) (eb_apps e) of None \<Rightarrow> [] | Some a \<Rightarrow> ap_scopes a)"

definition get_user_scopes :: "ebay \<Rightarrow> string \<Rightarrow> string \<Rightarrow> string list" where
  "get_user_scopes e user app_id =
     (let own = concat (map (\<lambda>a. map snd (filter (\<lambda>(u, _). u = user) (ap_user_scopes a)))
                  (filter (\<lambda>a. ap_id a = app_id) (eb_apps e)))
      in if own \<noteq> [] then own else get_app_scopes e app_id)"

text \<open>The refresh token of the user for the app with this code; its expiry is not looked at.\<close>

definition fetch_refresh_token :: "ebay \<Rightarrow> string \<Rightarrow> string \<Rightarrow> (string \<times> nat) option" where
  "fetch_refresh_token e user code =
     (case find (\<lambda>a. ap_code a = code \<and> dget (eb_refresh e) (user, ap_id a) \<noteq> None) (eb_apps e) of
        None \<Rightarrow> None
      | Some a \<Rightarrow> dget (eb_refresh e) (user, ap_id a))"

definition upsert_refresh_token :: "string \<Rightarrow> string \<Rightarrow> string \<Rightarrow> nat \<Rightarrow> ebay \<Rightarrow> ebay" where
  "upsert_refresh_token user app_id token expires e =
     e\<lparr>eb_refresh := dset (user, app_id) (token, expires) (eb_refresh e)\<rparr>"

definition get_environment :: "ebay \<Rightarrow> string \<Rightarrow> string option" where
  "get_environment e code = map_option ap_env (find (\<lambda>a. ap_code a = code) (eb_apps e))"

text \<open>Requests: logged as pending with an expiry set by the database; no code marks one completed.\<close>

definition log_auth_request :: "nat \<Rightarrow> string \<Rightarrow> string \<Rightarrow> ebay \<Rightarrow> nat \<times> ebay" where
  "log_auth_request lifetime user app_id e =
     (eb_next e,
      e\<lparr>eb_requests := eb_requests e @
          [\<lparr>or_id = eb_next e, or_user = user, or_app = app_id, or_time = eb_clock e,
            or_expires = eb_clock e + lifetime, or_pending = True\<rparr>],
        eb_next := Suc (eb_next e)\<rparr>)"

definition app_of_request :: "ebay \<Rightarrow> oauth_request \<Rightarrow> (string \<times> string \<times> string) option" where
  "app_of_request e r =
     map_option (\<lambda>a. (ap_id a, or_user r, ap_code a)) (find (\<lambda>a. ap_id a = or_app r) (eb_apps e))"

definition check_auth_request :: "ebay \<Rightarrow> nat \<Rightarrow> (string \<times> string \<times> string) option" where
  "check_auth_request e i =
     (case find (\<lambda>r. or_id r = i \<and> eb_clock e < or_expires r) (eb_requests e) of
        None \<Rightarrow> None | Some r \<Rightarrow> app_of_request e r)"

definition get_latest_pending_request :: "ebay \<Rightarrow> (string \<times> string \<times> string) option" where
  "get_latest_pending_request e =
     (case sort_desc or_time (filter (\<lambda>r. or_pending r \<and> app_of_request e r \<noteq> None) (eb_requests e)) of
        [] \<Rightarrow> None | r # _ \<Rightarrow> app_of_request e r)"

section \<open>Resolving tokens\<close>

record exchange =
  ex_access :: "string option"
  ex_refresh :: "string option"
  ex_refresh_expires :: "nat option"
  ex_expires :: "int option"

text \<open>A string that Python takes for true.\<close>

definition nonempty :: "string option \<Rightarrow> bool" where
  "nonempty s \<longleftrightarrow> (case s of None \<Rightarrow> False | Some t \<Rightarrow> t \<noteq> [])"

text \<open>
  The common part of \<open>resolve_token\<close> and \<open>exchange_refresh_token\<close>: exchange the refresh token, store a
  rotated one, cache the access token. \<open>api\<close> answers a refresh token.
\<close>

definition expires_at :: "nat option \<Rightarrow> nat \<Rightarrow> nat \<Rightarrow> nat" where
  "expires_at secs old now = (case secs of None \<Rightarrow> old | Some 0 \<Rightarrow> old | Some n \<Rightarrow> now + n)"

definition exchange_and_cache ::
  "(string \<Rightarrow> exchange res) \<Rightarrow> string \<Rightarrow> string \<Rightarrow> string \<times> nat \<Rightarrow> (ebay, string \<times> int) prog" where
  "exchange_and_cache api user code record e =
     (case get_app_settings e user code of
        None \<Rightarrow> (Inl TypeErr, e)
      | Some app \<Rightarrow>
          let refresh = fst record;
              e1 = e\<lparr>eb_calls := eb_calls e @ [RefreshCall (ap_id app) refresh (get_app_scopes e (ap_id app))]\<rparr>
          in case api refresh of
               Inl x \<Rightarrow> (Inl x, e1)
             | Inr r \<Rightarrow>
                 if \<not> nonempty (ex_access r) then (Inl ValueErr, e1)
                 else
                   let access = the (ex_access r);
                       expires_in = (case ex_expires r of None \<Rightarrow> 7200 | Some n \<Rightarrow> n);
                       e2 = (if nonempty (ex_refresh r) \<and> ex_refresh r \<noteq> Some refresh
                             then upsert_refresh_token user (ap_id app) (the (ex_refresh r))
                                    (expires_at (ex_refresh_expires r) (snd record) (eb_clock e1)) e1
                             else e1)
                   in (Inr (access, expires_in),
                       cache_setex (access_key user code) (cache_ttl expires_in) access e2))"

definition resolve_token :: "(string \<Rightarrow> exchange res) \<Rightarrow> string \<Rightarrow> string \<Rightarrow> (ebay, string) prog" where
  "resolve_token api user code e =
     (if code = [] then (Inl ValueErr, e)
      else case cache_get (access_key user code) e of
        Some token \<Rightarrow> (Inr token, e)
      | None \<Rightarrow>
          (case fetch_refresh_token e user code of
             None \<Rightarrow> (Inl ValueErr, e)
           | Some record \<Rightarrow> bindp (exchange_and_cache api user code record) (\<lambda>(t, _). ret t) e))"

definition exchange_refresh_token ::
  "(string \<Rightarrow> exchange res) \<Rightarrow> string \<Rightarrow> string \<Rightarrow> (ebay, string \<times> int) prog" where
  "exchange_refresh_token api user code e =
     (case fetch_refresh_token e user code of
        None \<Rightarrow> (Inl ValueErr, e)
      | Some record \<Rightarrow> exchange_and_cache api user code record e)"

definition resolve_app_token :: "(string \<Rightarrow> exchange res) \<Rightarrow> app \<Rightarrow> (ebay, string) prog" where
  "resolve_app_token api app e =
     (case cache_get (app_key (ap_id app)) e of
        Some token \<Rightarrow> (Inr token, e)
      | None \<Rightarrow>
          let e1 = e\<lparr>eb_calls := eb_calls e @ [AppCall (ap_id app)]\<rparr>
          in case api (ap_id app) of
               Inl x \<Rightarrow> (Inl x, e1)
             | Inr r \<Rightarrow>
                 if \<not> nonempty (ex_access r) then (Inl ValueErr, e1)
                 else (Inr (the (ex_access r)),
                       cache_setex (app_key (ap_id app))
                         (cache_ttl (case ex_expires r of None \<Rightarrow> 7200 | Some n \<Rightarrow> n)) (the (ex_access r)) e1))"

section \<open>The OAuth flow\<close>

text \<open>
  \<open>request_auth_code\<close>: \<open>url\<close> builds the authorization URL from the settings, the scopes and the state.
\<close>

definition request_auth_code ::
  "nat \<Rightarrow> (app \<Rightarrow> string list \<Rightarrow> nat \<Rightarrow> string res) \<Rightarrow> string \<Rightarrow> string \<Rightarrow> (ebay, string) prog" where
  "request_auth_code lifetime url code user e =
     (case get_app_settings e user code of
        None \<Rightarrow> (Inl AppNotFoundErr, e)
      | Some app \<Rightarrow>
          let scopes = get_user_scopes e user (ap_id app) in
          if scopes = [] then (Inl ScopeNotFoundErr, e)
          else (case log_auth_request lifetime user (ap_id app) e of
                  (i, e') \<Rightarrow> (url app scopes i, e')))"

text \<open>The state that comes back: a request id, or something that is not a UUID.\<close>

definition callback_request :: "nat option \<Rightarrow> ebay \<Rightarrow> (string \<times> string \<times> string) option" where
  "callback_request state e =
     (case state of
        None \<Rightarrow> get_latest_pending_request e
      | Some i \<Rightarrow>
          (case check_auth_request e i of
             None \<Rightarrow> get_latest_pending_request e
           | Some (app_id, user, code) \<Rightarrow>
               if code = [] \<or> user = [] then get_latest_pending_request e else Some (app_id, user, code)))"

definition get_environment_callback :: "nat option \<Rightarrow> ebay \<Rightarrow> string res" where
  "get_environment_callback state e =
     (let env = (case state of
          Some i \<Rightarrow>
            (case find (\<lambda>r. or_id r = i) (eb_requests e) of
               None \<Rightarrow> None
             | Some r \<Rightarrow> map_option ap_env (find (\<lambda>a. ap_id a = or_app r) (eb_apps e)))
        | None \<Rightarrow>
            (case get_latest_pending_request e of
               None \<Rightarrow> None | Some (_, _, code) \<Rightarrow> if code = [] then None else get_environment e code))
      in if nonempty env then Inr (the env) else Inl AppNotFoundErr)"

record token_response =
  tk_access :: string
  tk_refresh :: string
  tk_expires :: int
  tk_refresh_on :: "nat option"

definition handle_callback ::
  "(string \<Rightarrow> string \<Rightarrow> token_response res) \<Rightarrow> string \<Rightarrow> nat option \<Rightarrow> (ebay, string \<times> string \<times> string) prog" where
  "handle_callback api code state e =
     (case callback_request state e of
        None \<Rightarrow> (Inl ValueErr, e)
      | Some (app_id, user, app_code) \<Rightarrow>
          if app_code = [] \<or> user = [] then (Inl ValueErr, e)
          else case get_app_settings e user app_code of
            None \<Rightarrow> (Inl TypeErr, e)
          | Some app \<Rightarrow>
              let e1 = e\<lparr>eb_calls := eb_calls e @ [CodeCall (ap_id app) code]\<rparr> in
              (case api code (ap_id app) of
                 Inl x \<Rightarrow> (Inl x, e1)
               | Inr r \<Rightarrow>
                   (Inr (tk_access r, app_code, user),
                    cache_setex (access_key user app_code) (cache_ttl (tk_expires r)) (tk_access r)
                      (upsert_refresh_token user app_id (tk_refresh r)
                         (case tk_refresh_on r of None \<Rightarrow> eb_clock e1 + 548 * 24 * 3600 | Some t \<Rightarrow> t) e1))))"

section \<open>Properties\<close>

lemma cache_get_setex:
  "cache_get k (cache_setex k' ttl v e) =
     (if k = k' then if 0 < ttl then Some v else None else cache_get k e)"
  by (auto simp: cache_get_def cache_setex_def dget_dset split: option.splits)

lemma cache_ttl_pos: "60 \<le> cache_ttl n"
  by (simp add: cache_ttl_def)

lemma exchange_and_cache_ok:
  assumes "exchange_and_cache api user code record e = (Inr (t, n), e')"
  shows "eb_clock e' = eb_clock e \<and> eb_apps e' = eb_apps e \<and> length (eb_calls e') = Suc (length (eb_calls e)) \<and>
         dget (eb_cache e') (access_key user code) = Some (t, eb_clock e + cache_ttl n)"
  using assms
  by (auto simp: exchange_and_cache_def Let_def cache_setex_def upsert_refresh_token_def dget_dset
      split: option.splits sum.splits if_splits)

text \<open>
  A token resolved through eBay is served from the cache until it expires there: as long as less
  time has passed than the cached lifetime, resolving again returns the same token, without any call
  to eBay and without changing anything.
\<close>

theorem resolve_token_cached:
  assumes "code \<noteq> []" "cache_get (access_key user code) e = None" "fetch_refresh_token e user code = Some record"
    and "exchange_and_cache api user code record e = (Inr (t, n), e')" "d < cache_ttl n"
  shows "resolve_token api user code e = (Inr t, e') \<and> length (eb_calls e') = Suc (length (eb_calls e)) \<and>
         resolve_token api' user code (e'\<lparr>eb_clock := eb_clock e' + d\<rparr>) = (Inr t, e'\<lparr>eb_clock := eb_clock e' + d\<rparr>)"
proof -
  have "cache_get (access_key user code) (e'\<lparr>eb_clock := eb_clock e' + d\<rparr>) = Some t"
    using exchange_and_cache_ok [OF assms(4)] assms(5) by (simp add: cache_get_def)
  with assms(1-4) exchange_and_cache_ok [OF assms(4)] show ?thesis
    by (simp add: resolve_token_def)
qed

text \<open>
  A cached token is dropped at least a minute before eBay lets it expire, provided that eBay grants
  at least two minutes.
\<close>

theorem cache_expires_before_token:
  assumes "exchange_and_cache api user code record e = (Inr (t, n), e')" "120 \<le> n"
  shows "\<exists>until. dget (eb_cache e') (access_key user code) = Some (t, until) \<and> int until + 60 \<le> int (eb_clock e) + n"
  using exchange_and_cache_ok [OF assms(1)] assms(2) by (auto simp: cache_ttl_def)

text \<open>
  A rotated refresh token replaces the old one: when eBay's answer brings a new refresh token, the
  next exchange for the user and app presents the new one.
\<close>

theorem rotated_token_is_used:
  assumes "exchange_and_cache api user code record e = (Inr (t, n), e')"
    and "get_app_settings e user code = Some app" "api (fst record) = Inr r"
    and "nonempty (ex_refresh r)" "ex_refresh r \<noteq> Some (fst record)"
    and "\<forall>a\<in>set (eb_apps e). ap_code a = code \<longrightarrow> ap_id a = ap_id app"
  shows "map_option fst (fetch_refresh_token e' user code) = ex_refresh r"
proof -
  have app: "ap_code app = code" "app \<in> set (eb_apps e)"
    using assms(2) by (auto simp: get_app_settings_def find_Some_iff dest: nth_mem)
  obtain new where new: "ex_refresh r = Some new" using assms(4) by (auto simp: nonempty_def split: option.splits)
  have stored: "\<exists>x. dget (eb_refresh e') (user, ap_id app) = Some (new, x)" and apps: "eb_apps e' = eb_apps e"
    using assms(1-5) new
    by (auto simp: exchange_and_cache_def Let_def cache_setex_def upsert_refresh_token_def dget_dset nonempty_def
        split: option.splits sum.splits if_splits)
  show ?thesis
  proof (cases "find (\<lambda>a. ap_code a = code \<and> dget (eb_refresh e') (user, ap_id a) \<noteq> None) (eb_apps e')")
    case None
    with app stored apps show ?thesis by (auto simp: find_None_iff)
  next
    case (Some a)
    then have "ap_id a = ap_id app"
      using assms(6) apps by (auto simp: find_Some_iff)
    with Some stored new show ?thesis by (auto simp: fetch_refresh_token_def)
  qed
qed

text \<open>
  A callback without a usable state is credited to whoever started the latest authorization: when
  two users start one after the other, the tokens that eBay issues for the first user's code are
  stored and cached as the second user's.
\<close>

theorem callback_goes_to_latest:
  assumes "get_latest_pending_request e = Some (app_id, bob, app_code)" "app_code \<noteq> []" "bob \<noteq> []"
    and "get_app_settings e bob app_code = Some app" "api code (ap_id app) = Inr r"
  shows "\<exists>e'. handle_callback api code None e = (Inr (tk_access r, app_code, bob), e') \<and>
           cache_get (access_key bob app_code) e' = Some (tk_access r) \<and>
           (\<exists>x. dget (eb_refresh e') (bob, app_id) = Some (tk_refresh r, x))"
proof -
  have "0 < cache_ttl (tk_expires r)" using cache_ttl_pos [of "tk_expires r"] by simp
  with assms show ?thesis
    by (simp add: handle_callback_def callback_request_def Let_def cache_get_setex)
       (simp add: cache_setex_def upsert_refresh_token_def dget_dset)
qed

section \<open>Samples\<close>

definition demo_app :: app where
  "demo_app = \<lparr>ap_code = ''main'', ap_id = ''A1'', ap_env = ''SANDBOX'', ap_secret = ''s'', ap_ru = ''ru'',
     ap_users = [''ann'', ''bob''], ap_scopes = [''sell''], ap_user_scopes = []\<rparr>"

definition demo_ebay :: ebay where
  "demo_ebay = \<lparr>eb_clock = 1000, eb_cache = [], eb_apps = [demo_app],
     eb_refresh = [((''ann'', ''A1''), (''old'', 9000))], eb_requests =
       [\<lparr>or_id = 1, or_user = ''ann'', or_app = ''A1'', or_time = 900, or_expires = 2000, or_pending = True\<rparr>,
        \<lparr>or_id = 2, or_user = ''bob'', or_app = ''A1'', or_time = 950, or_expires = 2000, or_pending = True\<rparr>],
     eb_next = 3, eb_calls = []\<rparr>"

definition demo_exchange :: exchange where
  "demo_exchange = \<lparr>ex_access = Some ''tok'', ex_refresh = Some ''new'', ex_refresh_expires = None, ex_expires = Some 7200\<rparr>"

definition demo_after :: ebay where
  "demo_after = demo_ebay\<lparr>eb_calls := [RefreshCall ''A1'' ''old'' [''sell'']],
     eb_refresh := [((''ann'', ''A1''), (''new'', 9000))],
     eb_cache := [(access_key ''ann'' ''main'', (''tok'', 8140))]\<rparr>"

lemmas ebay_eval = demo_app_def demo_ebay_def demo_exchange_def demo_after_def

lemma demo_exchange_run:
  "exchange_and_cache (\<lambda>_. Inr demo_exchange) ''ann'' ''main'' (''old'', 9000) demo_ebay = (Inr (''tok'', 7200), demo_after)"
  by (simp add: ebay_eval exchange_and_cache_def get_app_settings_def get_app_scopes_def nonempty_def
      upsert_refresh_token_def expires_at_def cache_setex_def cache_ttl_def Let_def)

theorem resolve_token_cached_witness:
  "resolve_token (\<lambda>_. Inl ValueErr) ''ann'' ''main'' (demo_after\<lparr>eb_clock := 8000\<rparr>) =
     (Inr ''tok'', demo_after\<lparr>eb_clock := 8000\<rparr>)"
proof -
  have "cache_get (access_key ''ann'' ''main'') demo_ebay = None"
    "fetch_refresh_token demo_ebay ''ann'' ''main'' = Some (''old'', 9000)"
    by (simp_all add: ebay_eval cache_get_def fetch_refresh_token_def)
  from resolve_token_cached [OF _ this demo_exchange_run, of 7000 "\<lambda>_. Inl ValueErr"]
  show ?thesis by (simp add: cache_ttl_def) (simp add: ebay_eval)
qed

theorem cache_expires_before_token_witness:
  "\<exists>until. dget (eb_cache demo_after) (access_key ''ann'' ''main'') = Some (''tok'', until) \<and>
     int until + 60 \<le> int (eb_clock demo_ebay) + 7200"
  using cache_expires_before_token [OF demo_exchange_run] by simp

theorem rotated_token_is_used_witness:
  "map_option fst (fetch_refresh_token demo_after ''ann'' ''main'') = Some ''new''"
  using rotated_token_is_used [OF demo_exchange_run, of demo_app demo_exchange]
  by (simp add: ebay_eval get_app_settings_def nonempty_def)

theorem callback_goes_to_latest_witness:
  "\<exists>e'. handle_callback (\<lambda>_ _. Inr \<lparr>tk_access = ''tok'', tk_refresh = ''ref'', tk_expires = 7200, tk_refresh_on = None\<rparr>)
          ''code of ann'' None demo_ebay = (Inr (''tok'', ''main'', ''bob''), e')"
proof -
  have "get_latest_pending_request demo_ebay = Some (''A1'', ''bob'', ''main'')"
    by (simp add: ebay_eval get_latest_pending_request_def app_of_request_def sort_desc_def)
  from callback_goes_to_latest [OF this, of demo_app
      "\<lambda>_ _. Inr \<lparr>tk_access = ''tok'', tk_refresh = ''ref'', tk_expires = 7200, tk_refresh_on = None\<rparr>" "''code of ann''"]
  show ?thesis by (auto simp: ebay_eval get_app_settings_def)
qed

end
