(* ===== verification/Py_Text.thy ===== *)
theory Py_Text
  imports Prelude
begin

text \<open>
  Python's \<open>str\<close>: a list of Unicode code points, with the string methods the program calls.
  Case mapping and the character classes are those of Python on the range U+0000 to U+00FF, and
  white space is Python's for every code point; above U+00FF, case mapping is the identity and no
  code point counts as alphanumeric.
\<close>

type_synonym ustr = "nat list"

definition lit :: "string \<Rightarrow> ustr" where
  "lit s = map of_char s"

lemma lit_simps [simp]:
  "lit [] = []"
  "lit (c # cs) = of_char c # lit cs"
  by (simp_all add: lit_def)

lemma length_lit [simp]: "length (lit s) = length s"
  by (simp add: lit_def)

lemma lit_inject [simp]: "lit s = lit t \<longleftrightarrow> s = t"
  unfolding lit_def by (rule inj_map_eq_map) (simp add: inj_def)

section \<open>Character classes and case\<close>

definition is_space :: "nat \<Rightarrow> bool" where
  "is_space c \<longleftrightarrow>
     (9 \<le> c \<and> c \<le> 13) \<or> (28 \<le> c \<and> c \<le> 32) \<or> c = 133 \<or> c = 160 \<or> c = 5760 \<or>
     (8192 \<le> c \<and> c \<le> 8202) \<or> c = 8232 \<or> c = 8233 \<or> c = 8239 \<or> c = 8287 \<or> c = 12288"

text \<open>A code equation that tests the common range first.\<close>

lemma is_space_code [code]:
  "is_space c \<longleftrightarrow>
     (if c \<le> 32 then 9 \<le> c \<and> (c \<le> 13 \<or> 28 \<le> c)
      else if c < 133 then False
      else c = 133 \<or> c = 160 \<or> c = 5760 \<or> (8192 \<le> c \<and> c \<le> 8202) \<or> c = 8232 \<or> c = 8233 \<or> c = 8239 \<or>
        c = 8287 \<or> c = 12288)"
  by (auto simp: is_space_def)

definition is_digit :: "nat \<Rightarrow> bool" where
  "is_digit c \<longleftrightarrow> 48 \<le> c \<and> c \<le> 57"

definition is_ascii_letter :: "nat \<Rightarrow> bool" where
  "is_ascii_letter c \<longleftrightarrow> (65 \<le> c \<and> c \<le> 90) \<or> (97 \<le> c \<and> c \<le> 122)"

text \<open>\<open>\w\<close> of a str pattern: alphanumeric or underscore.\<close>

definition is_wordc :: "nat \<Rightarrow> bool" where
  "is_wordc c \<longleftrightarrow>
     is_digit c \<or> is_ascii_letter c \<or> c = 95 \<or>
     c \<in> {170, 178, 179, 181, 185, 186, 188, 189, 190} \<or>
     (192 \<le> c \<and> c \<le> 214) \<or> (216 \<le> c \<and> c \<le> 246) \<or> (248 \<le> c \<and> c \<le> 255)"

definition lower_cp :: "nat \<Rightarrow> nat" where
  "lower_cp c =
     (if (65 \<le> c \<and> c \<le> 90) \<or> (192 \<le> c \<and> c \<le> 214) \<or> (216 \<le> c \<and> c \<le> 222)
      then c + 32 else c)"

definition upper_cp :: "nat \<Rightarrow> nat list" where
  "upper_cp c =
     (if (97 \<le> c \<and> c \<le> 122) \<or> (224 \<le> c \<and> c \<le> 246) \<or> (248 \<le> c \<and> c \<le> 254)
      then [c - 32]
      else if c = 223 then [83, 83]
      else if c = 181 then [924]
      else if c = 255 then [376]
      else [c])"

definition lower :: "ustr \<Rightarrow> ustr" where
  "lower s = map lower_cp s"

definition upper :: "ustr \<Rightarrow> ustr" where
  "upper s = concat (map upper_cp s)"

lemma length_lower [simp]: "length (lower s) = length s"
  by (simp add: lower_def)

lemma lower_Nil_iff [simp]: "lower s = [] \<longleftrightarrow> s = []"
  by (simp add: lower_def)

lemma lower_append [simp]: "lower (s @ t) = lower s @ lower t"
  by (simp add: lower_def)

lemma lower_lower [simp]: "lower (lower s) = lower s"
  by (auto simp: lower_def lower_cp_def)

text \<open>\<open>s.capitalize()\<close> on code points whose upper case is a single code point.\<close>

definition capitalize :: "ustr \<Rightarrow> ustr" where
  "capitalize s = (case s of [] \<Rightarrow> [] | c # cs \<Rightarrow> upper_cp c @ lower cs)"

section \<open>Stripping, splitting, joining, replacing\<close>

definition strip :: "ustr \<Rightarrow> ustr" where
  "strip s = rev (dropWhile is_space (rev (dropWhile is_space s)))"

text \<open>\<open>s.split()\<close>: the maximal runs of non-space characters.\<close>

fun words_acc :: "ustr \<Rightarrow> ustr \<Rightarrow> ustr list" where
  "words_acc acc [] = (if acc = [] then [] else [rev acc])"
| "words_acc acc (c # cs) =
     (if is_space c
      then (if acc = [] then words_acc [] cs else rev acc # words_acc [] cs)
      else words_acc (c # acc) cs)"

definition words_of :: "ustr \<Rightarrow> ustr list" where
  "words_of s = words_acc [] s"

lemma words_acc_wf:
  "\<forall>c\<in>set acc. \<not> is_space c \<Longrightarrow> w \<in> set (words_acc acc s) \<Longrightarrow> w \<noteq> [] \<and> (\<forall>c\<in>set w. \<not> is_space c)"
proof (induction s arbitrary: acc)
  case Nil
  then show ?case by (simp split: if_split_asm)
next
  case (Cons c cs)
  consider "is_space c" "acc = []" | "is_space c" "acc \<noteq> []" | "\<not> is_space c" by blast
  then show ?case
  proof cases
    case 1
    with Cons.prems Cons.IH [of "[]"] show ?thesis by simp
  next
    case 2
    with Cons.prems have "w = rev acc \<or> w \<in> set (words_acc [] cs)" by simp
    with 2 Cons.prems(1) Cons.IH [of "[]"] show ?thesis by auto
  next
    case 3
    with Cons.prems Cons.IH [of "c # acc"] show ?thesis by simp
  qed
qed

lemma words_of_wf: "w \<in> set (words_of s) \<Longrightarrow> w \<noteq> [] \<and> (\<forall>c\<in>set w. \<not> is_space c)"
  unfolding words_of_def by (rule words_acc_wf) auto

text \<open>\<open>sep.join(xs)\<close>.\<close>

fun join :: "ustr \<Rightarrow> ustr list \<Rightarrow> ustr" where
  "join sep [] = []"
| "join sep [x] = x"
| "join sep (x # y # xs) = x @ sep @ join sep (y # xs)"

lemma length_join:
  "xs \<noteq> [] \<Longrightarrow> length (join sep xs) = sum_list (map length xs) + (length xs - 1) * length sep"
  by (induction sep xs rule: join.induct) auto

lemma join_Cons: "join sep (x # xs) = x @ (if xs = [] then [] else sep @ join sep xs)"
  by (cases xs) auto

lemma sublist_join: "x \<in> set xs \<Longrightarrow> sublist x (join sep xs)"
proof (induction sep xs rule: join.induct)
  case (3 sep x' y xs)
  have "sublist (join sep (y # xs)) (join sep (x' # y # xs))"
    using sublist_append_leftI [of "join sep (y # xs)" "x' @ sep"] by simp
  moreover have "sublist x' (join sep (x' # y # xs))"
    by simp
  ultimately show ?case
    using 3 by (auto intro: sublist_order.order.trans)
qed auto

text \<open>\<open>s.replace(old, new)\<close>, left to right without overlap.\<close>

function replace_all :: "ustr \<Rightarrow> ustr \<Rightarrow> ustr \<Rightarrow> ustr" where
  "replace_all old new [] = []"
| "replace_all old new (c # cs) =
     (if old \<noteq> [] \<and> prefix old (c # cs)
      then new @ replace_all old new (drop (length old) (c # cs))
      else c # replace_all old new cs)"
  by pat_completeness auto
termination
  by (relation "measure (\<lambda>(old, new, s). length s)") auto

text \<open>Replacing single characters, as \<open>html.escape\<close> does in five passes.\<close>

lemma replace_all_char:
  "replace_all [a] new s = concat (map (\<lambda>c. if c = a then new else [c]) s)"
  by (induction s) auto

section \<open>Numbers as text\<close>

fun str_nat :: "nat \<Rightarrow> ustr" where
  "str_nat n = (if n < 10 then [48 + n] else str_nat (n div 10) @ [48 + n mod 10])"

declare str_nat.simps [simp del]

definition str_int :: "int \<Rightarrow> ustr" where
  "str_int i = (if i < 0 then 45 # str_nat (nat (- i)) else str_nat (nat i))"

text \<open>\<open>int(s)\<close> on a non-empty string of ASCII digits.\<close>

definition nat_of_digits :: "ustr \<Rightarrow> nat" where
  "nat_of_digits s = foldl (\<lambda>n c. 10 * n + (c - 48)) 0 s"

lemma str_nat_digits: "\<forall>c\<in>set (str_nat n). is_digit c"
proof (induction n rule: str_nat.induct)
  case (1 n)
  then show ?case by (subst str_nat.simps) (auto simp: is_digit_def)
qed

lemma str_nat_ne [simp]: "str_nat n \<noteq> []"
  by (subst str_nat.simps) auto

lemma nat_of_digits_str_nat [simp]: "nat_of_digits (str_nat n) = n"
proof (induction n rule: str_nat.induct)
  case (1 n)
  show ?case
  proof (cases "n < 10")
    case True
    then show ?thesis by (subst str_nat.simps) (simp add: nat_of_digits_def)
  next
    case False
    have "nat_of_digits (str_nat n) = 10 * nat_of_digits (str_nat (n div 10)) + n mod 10"
      using False by (subst str_nat.simps) (simp add: nat_of_digits_def)
    with "1.IH" False show ?thesis by simp
  qed
qed

lemma str_nat_inject [simp]: "str_nat m = str_nat n \<longleftrightarrow> m = n"
  by (metis nat_of_digits_str_nat)

end
