(* ===== verification/Ebay_Listings.thy ===== *)
theory Ebay_Listings
  imports Ebay_Auth Py_Text
begin

text \<open>
  Listings: the idempotency stores (\<open>ebay/_idempotency.py\<close>), the cached page reads
  (\<open>utils/redis_cache.py\<close>, \<open>ebay/listings_read_service.py\<close>), the write commands
  (\<open>ebay/listings_write_service.py\<close>) and the queue of pending actions
  (\<open>ebay/listing_actions_service.py\<close>).

  The contract of the stores is the locale \<open>idempotency_store\<close>, interpreted on the in-memory store, on
  the Redis store and on the store that the accessor picks. Every request to eBay is logged in
  \<open>sh_calls\<close> with the environment of the repository that sends it; eBay's answer is a function of the
  log, the last entry being the request it answers. A cached page reads back as the page that was
  written; a page that cannot be serialised is not cached.
\<close>

section \<open>Idempotency stores\<close>

text \<open>\<open>DEFAULT_IDEMPOTENCY_TTL_SECONDS\<close>.\<close>

definition key_ttl :: nat where
  "key_ttl = 24 * 60 * 60"

type_synonym memory_store = "(string, string) dict"

record redis_store =
  rd_keys :: "(string, string \<times> nat) dict"
  rd_up :: bool

text \<open>A key of Redis that has not expired.\<close>

definition live :: "nat \<Rightarrow> ('k, 'v \<times> nat) dict \<Rightarrow> 'k \<Rightarrow> 'v option" where
  "live now d k =
     (case dget d k of None \<Rightarrow> None | Some (v, until) \<Rightarrow> if now < until then Some v else None)"

lemma live_dset:
  "live now (dset k (v, until) d) k' = (if k' = k then if now < until then Some v else None else live now d k')"
  by (auto simp: live_def dget_dset split: option.splits)

definition memory_get :: "nat \<Rightarrow> string \<Rightarrow> memory_store \<Rightarrow> string option" where
  "memory_get now k m = dget m k"

definition memory_set_if_absent :: "nat \<Rightarrow> string \<Rightarrow> string \<Rightarrow> memory_store \<Rightarrow> bool \<times> memory_store" where
  "memory_set_if_absent now k v m = (if dget m k \<noteq> None then (False, m) else (True, dset k v m))"

definition namespaced :: "string \<Rightarrow> string" where
  "namespaced k = ''ebay:idempotency:'' @ k"

text \<open>An outage of Redis reads as a missing key, and a write during it is skipped.\<close>

definition redis_get :: "nat \<Rightarrow> string \<Rightarrow> redis_store \<Rightarrow> string option" where
  "redis_get now k r = (if rd_up r then live now (rd_keys r) (namespaced k) else None)"

definition redis_set_if_absent :: "nat \<Rightarrow> string \<Rightarrow> string \<Rightarrow> redis_store \<Rightarrow> bool \<times> redis_store" where
  "redis_set_if_absent now k v r =
     (if \<not> rd_up r then (False, r)
      else if live now (rd_keys r) (namespaced k) \<noteq> None then (False, r)
      else (True, r\<lparr>rd_keys := dset (namespaced k) (v, now + key_ttl) (rd_keys r)\<rparr>))"

datatype store = Memory memory_store | Redis redis_store

fun store_get :: "nat \<Rightarrow> string \<Rightarrow> store \<Rightarrow> string option" where
  "store_get now k (Memory m) = memory_get now k m"
| "store_get now k (Redis r) = redis_get now k r"

fun store_set_if_absent :: "nat \<Rightarrow> string \<Rightarrow> string \<Rightarrow> store \<Rightarrow> bool \<times> store" where
  "store_set_if_absent now k v (Memory m) = map_prod id Memory (memory_set_if_absent now k v m)"
| "store_set_if_absent now k v (Redis r) = map_prod id Redis (redis_set_if_absent now k v r)"

fun store_up :: "store \<Rightarrow> bool" where
  "store_up (Memory m) = True"
| "store_up (Redis r) = rd_up r"

text \<open>The lazy singleton: the Redis store when its client can be built, else an empty memory store.\<close>

definition get_idempotency_store :: "redis_store res \<Rightarrow> store option \<Rightarrow> store" where
  "get_idempotency_store connect s =
     (case s of
        Some st \<Rightarrow> st
      | None \<Rightarrow> (case connect of Inl _ \<Rightarrow> Memory [] | Inr r \<Rightarrow> Redis r))"

locale idempotency_store =
  fixes get :: "nat \<Rightarrow> string \<Rightarrow> 's \<Rightarrow> string option"
    and put :: "nat \<Rightarrow> string \<Rightarrow> string \<Rightarrow> 's \<Rightarrow> bool \<times> 's"
    and up :: "'s \<Rightarrow> bool"
  assumes put_free: "up s \<Longrightarrow> get now k s = None \<Longrightarrow>
        fst (put now k v s) \<and> up (snd (put now k v s)) \<and>
        (\<forall>t. now \<le> t \<and> t < now + key_ttl \<longrightarrow> get t k (snd (put now k v s)) = Some v)"
    and put_taken: "get now k s = Some w \<Longrightarrow> put now k v s = (False, s)"
    and put_other: "k' \<noteq> k \<Longrightarrow> get t k' (snd (put now k v s)) = get t k' s"
    and outage: "\<not> up s \<Longrightarrow> get now k s = None \<and> put now k v s = (False, s)"
begin

lemma put_iff: "fst (put now k v s) \<longleftrightarrow> up s \<and> get now k s = None"
  using put_free [of s now k v] put_taken [of now k s _ v] outage [of s now k v]
  by (cases "get now k s"; cases "up s") auto

lemma get_put:
  "up s \<Longrightarrow> get now k s = None \<Longrightarrow> now \<le> t \<Longrightarrow> t < now + key_ttl \<Longrightarrow> get t k (snd (put now k v s)) = Some v"
  using put_free [of s now k v] by blast

lemma first_writer_wins:
  assumes "fst (put now k v s)" "now \<le> t" "t < now + key_ttl"
  shows "put t k w (snd (put now k v s)) = (False, snd (put now k v s)) \<and> get t k (snd (put now k v s)) = Some v"
  using assms put_iff [of now k v s] get_put [of s now k t v] put_taken by auto

end

interpretation memory: idempotency_store memory_get memory_set_if_absent "\<lambda>_. True"
  by unfold_locales (auto simp: memory_get_def memory_set_if_absent_def dget_dset)

interpretation redis: idempotency_store redis_get redis_set_if_absent rd_up
  by unfold_locales (auto simp: redis_get_def redis_set_if_absent_def live_dset namespaced_def)

interpretation st: idempotency_store store_get store_set_if_absent store_up
proof unfold_locales
  fix s :: store and now t k k' v w
  show "store_get now k s = Some w \<Longrightarrow> store_set_if_absent now k v s = (False, s)"
    by (cases s) (simp_all add: memory.put_taken redis.put_taken)
  show "k' \<noteq> k \<Longrightarrow> store_get t k' (snd (store_set_if_absent now k v s)) = store_get t k' s"
    by (cases s) (simp_all add: memory.put_other redis.put_other)
  show "\<not> store_up s \<Longrightarrow> store_get now k s = None \<and> store_set_if_absent now k v s = (False, s)"
    by (cases s) (simp_all add: redis.outage)
  show "store_up s \<Longrightarrow> store_get now k s = None \<Longrightarrow>
     fst (store_set_if_absent now k v s) \<and> store_up (snd (store_set_if_absent now k v s)) \<and>
     (\<forall>t. now \<le> t \<and> t < now + key_ttl \<longrightarrow> store_get t k (snd (store_set_if_absent now k v s)) = Some v)"
    using memory.put_free redis.put_free by (cases s) auto
qed

text \<open>
  The abstract store: a map, of which a key is written once. At each moment a store that is up is such a map,
  and one that is down is the empty map that takes no writes.
\<close>

definition first_write :: "'k \<Rightarrow> 'v \<Rightarrow> ('k \<rightharpoonup> 'v) \<Rightarrow> bool \<times> ('k \<rightharpoonup> 'v)" where
  "first_write k v m = (if m k = None then (True, m(k \<mapsto> v)) else (False, m))"

definition store_map :: "nat \<Rightarrow> store \<Rightarrow> (string \<rightharpoonup> string)" where
  "store_map now s = (\<lambda>k. store_get now k s)"

text \<open>
  C12. Both stores refine the abstract store: looking up a key is looking it up in the map, a write while the
  store is up is the abstract write of the map, and during an outage the map is empty and nothing is written.
\<close>

theorem store_refines_first_write:
  "store_get now k s = store_map now s k \<and>
   map_prod id (store_map now) (store_set_if_absent now k v s) =
     (if store_up s then first_write k v (store_map now s) else (False, Map.empty))"
proof (cases "store_up s")
  case False
  then have "store_get now k' s = None" "store_set_if_absent now k v s = (False, s)" for k'
    using st.outage [of s now k' v] st.outage [of s now k v] by simp_all
  with False show ?thesis by (auto simp: store_map_def)
next
  case up: True
  show ?thesis
  proof (cases "store_get now k s")
    case None
    have "store_map now (snd (store_set_if_absent now k v s)) = (store_map now s)(k \<mapsto> v)"
      using st.get_put [OF up None, of now v] st.put_other [of _ k now now v s]
      by (auto simp: store_map_def key_ttl_def)
    with None up st.put_iff [of now k v s] show ?thesis
      by (cases "store_set_if_absent now k v s") (simp add: first_write_def store_map_def)
  next
    case (Some w)
    with up st.put_taken [OF Some, of v] show ?thesis by (simp add: first_write_def store_map_def)
  qed
qed

section \<open>State\<close>

datatype 'i request =
    Create 'i string
  | Update 'i string
  | End_Item string string bool string
  | Active int int string
  | Upload string string

record 'i sent =
  sn_env :: string
  sn_token :: string
  sn_request :: "'i request"

record ('i, 'p) shop =
  sh_ebay :: ebay
  sh_store :: store
  sh_calls :: "'i sent list"
  sh_pages :: "(string, 'p \<times> nat) dict"
  sh_cache_up :: bool

abbreviation sh_now :: "('i, 'p) shop \<Rightarrow> nat" where
  "sh_now s \<equiv> eb_clock (sh_ebay s)"

text \<open>Resolve the token on the eBay part of the state.\<close>

definition with_token :: "(string \<Rightarrow> exchange res) \<Rightarrow> string \<Rightarrow> string \<Rightarrow> (('i, 'p) shop, string) prog" where
  "with_token exch user code s =
     (case resolve_token exch user code (sh_ebay s) of (r, e) \<Rightarrow> (r, s\<lparr>sh_ebay := e\<rparr>))"

definition transmit ::
  "('i sent list \<Rightarrow> 'r res) \<Rightarrow> string \<Rightarrow> string \<Rightarrow> 'i request \<Rightarrow> (('i, 'p) shop, 'r) prog" where
  "transmit api env token req s =
     (let calls = sh_calls s @ [\<lparr>sn_env = env, sn_token = token, sn_request = req\<rparr>]
      in (api calls, s\<lparr>sh_calls := calls\<rparr>))"

text \<open>\<open>EbaySellingRepository\<close>: a request without a token is refused, the others are sent.\<close>

definition send_request ::
  "('i sent list \<Rightarrow> 'r res) \<Rightarrow> string \<Rightarrow> string \<Rightarrow> 'i request \<Rightarrow> (('i, 'p) shop, 'r) prog" where
  "send_request api env token req s =
     (if token = [] then (Inl ValueErr, s) else transmit api env token req s)"

section \<open>The page cache\<close>

definition get_from_cache :: "string \<Rightarrow> ('i, 'p) shop \<Rightarrow> 'p option" where
  "get_from_cache k s = (if sh_cache_up s then live (sh_now s) (sh_pages s) k else None)"

definition set_to_cache :: "('p \<Rightarrow> bool) \<Rightarrow> string \<Rightarrow> 'p \<Rightarrow> nat \<Rightarrow> ('i, 'p) shop \<Rightarrow> bool \<times> ('i, 'p) shop" where
  "set_to_cache dumps k p ttl s =
     (if sh_cache_up s \<and> dumps p
      then (True, s\<lparr>sh_pages := dset k (p, sh_now s + ttl) (sh_pages s)\<rparr>) else (False, s))"

text \<open>The pattern is a prefix followed by a star; the prefixes used have no special characters.\<close>

definition invalidate_cache_pattern :: "string \<Rightarrow> ('i, 'p) shop \<Rightarrow> nat \<times> ('i, 'p) shop" where
  "invalidate_cache_pattern p s =
     (if sh_cache_up s
      then (length (filter (\<lambda>(k, x). prefix p k \<and> sh_now s < snd x) (sh_pages s)),
            s\<lparr>sh_pages := filter (\<lambda>(k, x). \<not> prefix p k) (sh_pages s)\<rparr>)
      else (0, s))"

definition active_prefix :: "string \<Rightarrow> string \<Rightarrow> string" where
  "active_prefix user code = ''ebay:active_listings:'' @ user @ '':'' @ code @ '':''"

definition show_int :: "int \<Rightarrow> string" where
  "show_int n = map char_of (str_int n)"

definition active_key :: "string \<Rightarrow> string \<Rightarrow> int \<Rightarrow> int \<Rightarrow> string" where
  "active_key user code limit page = active_prefix user code @ show_int limit @ '':'' @ show_int page"

section \<open>Commands\<close>

text \<open>The end of every command: drop the cached pages of the user and app, return the answer.\<close>

definition finish_command :: "string \<Rightarrow> string \<Rightarrow> 'r \<Rightarrow> (('i, 'p) shop, 'r) prog" where
  "finish_command user code r s = (Inr r, snd (invalidate_cache_pattern (active_prefix user code) s))"

text \<open>\<open>loads\<close> is \<open>json.loads\<close> (nothing for a text it refuses), \<open>dumps\<close> is \<open>json.dumps(default=str)\<close>.\<close>

definition cached_answer :: "(string \<Rightarrow> 'r option) \<Rightarrow> string \<Rightarrow> ('i, 'p) shop \<Rightarrow> 'r option" where
  "cached_answer loads key s =
     (case store_get (sh_now s) key (sh_store s) of None \<Rightarrow> None | Some txt \<Rightarrow> loads txt)"

definition remember :: "('r \<Rightarrow> string option) \<Rightarrow> string \<Rightarrow> 'r \<Rightarrow> ('i, 'p) shop \<Rightarrow> ('i, 'p) shop" where
  "remember dumps key r s =
     (case dumps r of
        None \<Rightarrow> s
      | Some txt \<Rightarrow> s\<lparr>sh_store := snd (store_set_if_absent (sh_now s) key txt (sh_store s))\<rparr>)"

text \<open>\<open>create_listing\<close> after a missed lookup.\<close>

definition create_missed ::
  "(string \<Rightarrow> exchange res) \<Rightarrow> ('i sent list \<Rightarrow> 'r res) \<Rightarrow> ('r \<Rightarrow> string option) \<Rightarrow> string \<Rightarrow>
   string \<Rightarrow> string \<Rightarrow> 'i \<Rightarrow> string \<Rightarrow> string \<Rightarrow> (('i, 'p) shop, 'r) prog" where
  "create_missed exch api dumps env user code item key market =
     bindp (with_token exch user code) (\<lambda>token.
     bindp (send_request api env token (Create item market)) (\<lambda>r s.
       finish_command user code r (remember dumps key r s)))"

definition create_listing ::
  "(string \<Rightarrow> exchange res) \<Rightarrow> ('i sent list \<Rightarrow> 'r res) \<Rightarrow> ('r \<Rightarrow> string option) \<Rightarrow> (string \<Rightarrow> 'r option) \<Rightarrow>
   string \<Rightarrow> string \<Rightarrow> string \<Rightarrow> 'i \<Rightarrow> string \<Rightarrow> string \<Rightarrow> (('i, 'p) shop, 'r) prog" where
  "create_listing exch api dumps loads env user code item key market s =
     (if key = [] then (Inl ValueErr, s)
      else case cached_answer loads key s of
        Some r \<Rightarrow> (Inr r, s)
      | None \<Rightarrow> create_missed exch api dumps env user code item key market s)"

definition update_listing ::
  "(string \<Rightarrow> exchange res) \<Rightarrow> ('i sent list \<Rightarrow> 'r res) \<Rightarrow> string \<Rightarrow> string \<Rightarrow> string \<Rightarrow> 'i \<Rightarrow> string \<Rightarrow>
   (('i, 'p) shop, 'r) prog" where
  "update_listing exch api env user code item market =
     bindp (with_token exch user code) (\<lambda>token.
     bindp (send_request api env token (Update item market)) (finish_command user code))"

definition end_listing ::
  "(string \<Rightarrow> exchange res) \<Rightarrow> ('i sent list \<Rightarrow> 'r res) \<Rightarrow> string \<Rightarrow> string \<Rightarrow> string \<Rightarrow> string \<Rightarrow> string \<Rightarrow>
   bool \<Rightarrow> string \<Rightarrow> (('i, 'p) shop, 'r) prog" where
  "end_listing exch api env user code item_id reason verify market =
     (if item_id = [] then throw ValueErr
      else bindp (with_token exch user code) (\<lambda>token.
           bindp (send_request api env token (End_Item item_id reason verify market)) (finish_command user code)))"

definition upload_listing_picture ::
  "(string \<Rightarrow> exchange res) \<Rightarrow> ('i sent list \<Rightarrow> 'r res) \<Rightarrow> string \<Rightarrow> string \<Rightarrow> string \<Rightarrow> string \<Rightarrow> string \<Rightarrow>
   (('i, 'p) shop, 'r) prog" where
  "upload_listing_picture exch api env user code bytes content_type =
     bindp (with_token exch user code) (\<lambda>token. transmit api env token (Upload bytes content_type))"

section \<open>Reading the active listings\<close>

record 'w listing =
  li_id :: "string option"
  li_body :: 'w
  li_finish :: "string option"
  li_condition :: "string option"
  li_card :: "string option"

text \<open>A page of listings; \<open>from_parts\<close> computes whether there are more.\<close>

record 'w page =
  pg_items :: "'w listing list"
  pg_total :: "int option"
  pg_offset :: int
  pg_limit :: int
  pg_more :: bool

definition from_parts :: "'w listing list \<Rightarrow> int option \<Rightarrow> int \<Rightarrow> int \<Rightarrow> 'w page" where
  "from_parts items n offset limit =
     \<lparr>pg_items = items, pg_total = n, pg_offset = offset, pg_limit = limit,
      pg_more = (case n of
                   Some m \<Rightarrow> offset + int (length items) < m
                 | None \<Rightarrow> limit \<le> int (length items))\<rparr>"

text \<open>
  The part of eBay's answer that is used: no item, a single one, or a list in which an entry that is
  not a dict is \<open>None\<close>; and the total as text.
\<close>

datatype 'x raw_items = No_Item | One_Item 'x | Items "'x option list"

record 'x active_answer =
  aw_items :: "'x raw_items"
  aw_total :: "ustr option"

fun item_list :: "'x raw_items \<Rightarrow> 'x list" where
  "item_list No_Item = []"
| "item_list (One_Item x) = [x]"
| "item_list (Items xs) = [x. Some x \<leftarrow> xs]"

text \<open>\<open>model_validate\<close> on every item, in order; the first failure is the result.\<close>

fun validate_all :: "('x \<Rightarrow> 'y res) \<Rightarrow> 'x list \<Rightarrow> 'y list res" where
  "validate_all v [] = Inr []"
| "validate_all v (x # xs) = bind_res (v x) (\<lambda>y. bind_res (validate_all v xs) (\<lambda>ys. Inr (y # ys)))"

text \<open>\<open>int(s)\<close> for a text of decimal digits with an optional sign and white space around it.\<close>

definition parse_int :: "ustr \<Rightarrow> int option" where
  "parse_int s =
     (let t = strip s;
          sign = (if take 1 t = [45] then - 1 else 1);
          d = (if take 1 t = [43] \<or> take 1 t = [45] then drop 1 t else t)
      in if d \<noteq> [] \<and> list_all is_digit d then Some (sign * int (nat_of_digits d)) else None)"

definition lower_str :: "string \<Rightarrow> string" where
  "lower_str s = map char_of (lower (lit s))"

text \<open>The environment of the repository is corrected to the app's one, which must be known.\<close>

definition app_environment :: "string \<Rightarrow> string \<Rightarrow> ebay \<Rightarrow> string res" where
  "app_environment env code e =
     (case get_environment e code of
        None \<Rightarrow> Inr env
      | Some raw \<Rightarrow>
          if raw = [] then Inr env
          else let new = lower_str raw in
               if new \<noteq> env \<and> new \<noteq> ''sandbox'' \<and> new \<noteq> ''production'' then Inl ValueErr else Inr new)"

text \<open>\<open>meta\<close>: finish, condition and card version of a tracked listing of the app.\<close>

definition enrich ::
  "(string \<Rightarrow> (string option \<times> string option \<times> string option) option) \<Rightarrow> 'w listing \<Rightarrow> 'w listing" where
  "enrich meta item =
     (case li_id item of
        None \<Rightarrow> item
      | Some i \<Rightarrow>
          if i = [] then item
          else case meta i of
            None \<Rightarrow> item
          | Some (f, c, v) \<Rightarrow> item\<lparr>li_finish := f, li_condition := c, li_card := v\<rparr>)"

definition page_number :: "int \<Rightarrow> int \<Rightarrow> int" where
  "page_number limit offset = (if limit \<noteq> 0 then offset div limit + 1 else 1)"

definition active_page ::
  "('x \<Rightarrow> 'w listing res) \<Rightarrow> (string \<Rightarrow> (string option \<times> string option \<times> string option) option) \<Rightarrow>
   int \<Rightarrow> int \<Rightarrow> 'x active_answer \<Rightarrow> 'w page res" where
  "active_page validate meta limit offset a =
     bind_res (validate_all validate (item_list (aw_items a))) (\<lambda>items.
       Inr (from_parts (map (enrich meta) items) (Option.bind (aw_total a) parse_int) offset limit))"

definition get_active_listings ::
  "(string \<Rightarrow> exchange res) \<Rightarrow> ('i sent list \<Rightarrow> 'x active_answer res) \<Rightarrow> ('x \<Rightarrow> 'w listing res) \<Rightarrow>
   (string \<Rightarrow> (string option \<times> string option \<times> string option) option) \<Rightarrow> ('w page \<Rightarrow> bool) \<Rightarrow>
   string \<Rightarrow> string \<Rightarrow> string \<Rightarrow> int \<Rightarrow> int \<Rightarrow> string \<Rightarrow> (('i, 'w page) shop, 'w page) prog" where
  "get_active_listings exch api validate meta dumps env user code limit offset market =
     bindp (with_token exch user code) (\<lambda>token s.
       case app_environment env code (sh_ebay s) of
         Inl x \<Rightarrow> (Inl x, s)
       | Inr env' \<Rightarrow>
           let page = page_number limit offset; key = active_key user code limit page in
           (case get_from_cache key s of
              Some p \<Rightarrow> (Inr p, s)
            | None \<Rightarrow>
                bindp (send_request api env' token (Active limit page market)) (\<lambda>a s'.
                  case active_page validate meta limit offset a of
                    Inl x \<Rightarrow> (Inl x, s')
                  | Inr p \<Rightarrow> (Inr p, snd (set_to_cache dumps key p 60 s'))) s))"

section \<open>Pending actions\<close>

datatype action_status = Pending | Processing | Done | Failed

record action =
  ac_id :: nat
  ac_item :: string
  ac_user :: string
  ac_app :: string
  ac_type :: string
  ac_strategy :: string
  ac_price :: "rat option"
  ac_status :: action_status
  ac_error :: "pyexc option"
  ac_created :: nat
  ac_executed :: "nat option"

record queue =
  aq_rows :: "action list"
  aq_next :: nat
  aq_now :: nat

definition insert_action ::
  "string \<Rightarrow> string \<Rightarrow> string \<Rightarrow> string \<Rightarrow> string \<Rightarrow> rat option \<Rightarrow> (queue, nat) prog" where
  "insert_action item user app type strategy price q =
     (if type \<notin> {''raise'', ''lower'', ''hold'', ''draft''} then (Inl DbErr, q)
      else (Inr (aq_next q),
            q\<lparr>aq_rows := aq_rows q @
                [\<lparr>ac_id = aq_next q, ac_item = item, ac_user = user, ac_app = app, ac_type = type,
                  ac_strategy = strategy, ac_price = price, ac_status = Pending, ac_error = None,
                  ac_created = aq_now q, ac_executed = None\<rparr>],
              aq_next := Suc (aq_next q)\<rparr>))"

definition get_pending :: "nat \<Rightarrow> queue \<Rightarrow> action list" where
  "get_pending limit q = take limit (sort_key ac_created (filter (\<lambda>a. ac_status a = Pending) (aq_rows q)))"

definition update_action :: "nat \<Rightarrow> (action \<Rightarrow> action) \<Rightarrow> queue \<Rightarrow> queue" where
  "update_action i f q = q\<lparr>aq_rows := map (\<lambda>a. if ac_id a = i then f a else a) (aq_rows q)\<rparr>"

definition mark_processing :: "nat \<Rightarrow> queue \<Rightarrow> queue" where
  "mark_processing i = update_action i (\<lambda>a. a\<lparr>ac_status := Processing\<rparr>)"

definition mark_done :: "nat \<Rightarrow> queue \<Rightarrow> queue" where
  "mark_done i q = update_action i (\<lambda>a. a\<lparr>ac_status := Done, ac_executed := Some (aq_now q)\<rparr>) q"

definition mark_failed :: "nat \<Rightarrow> pyexc \<Rightarrow> queue \<Rightarrow> queue" where
  "mark_failed i x = update_action i (\<lambda>a. a\<lparr>ac_status := Failed, ac_error := Some x\<rparr>)"

definition get_pending_for_item :: "string \<Rightarrow> queue \<Rightarrow> action option" where
  "get_pending_for_item item q =
     (case sort_desc ac_created
             (filter (\<lambda>a. ac_item a = item \<and> (ac_status a = Pending \<or> ac_status a = Processing)) (aq_rows q)) of
        [] \<Rightarrow> None | a # _ \<Rightarrow> Some a)"

text \<open>The id of the action and whether it was created.\<close>

definition stage_action ::
  "string \<Rightarrow> string \<Rightarrow> string \<Rightarrow> string \<Rightarrow> string \<Rightarrow> rat option \<Rightarrow> (queue, nat \<times> bool) prog" where
  "stage_action user app item type strategy price q =
     (case get_pending_for_item item q of
        Some a \<Rightarrow> (Inr (ac_id a, False), q)
      | None \<Rightarrow> bindp (insert_action item user app type strategy price) (\<lambda>i. ret (i, True)) q)"

text \<open>
  The worker: \<open>fp\<close> and \<open>fd\<close> tell for which actions the statements that mark the action processing and
  done raise. The calls to eBay are not written yet in the code.
\<close>

fun drain_rows ::
  "(nat \<Rightarrow> pyexc option) \<Rightarrow> (nat \<Rightarrow> pyexc option) \<Rightarrow> action list \<Rightarrow> queue \<Rightarrow> (nat \<times> nat) \<times> queue" where
  "drain_rows fp fd [] q = ((0, 0), q)"
| "drain_rows fp fd (a # rows) q =
     (case fp (ac_id a) of
        Some x \<Rightarrow> apfst (apsnd Suc) (drain_rows fp fd rows (mark_failed (ac_id a) x q))
      | None \<Rightarrow>
          (case fd (ac_id a) of
             Some x \<Rightarrow> apfst (apsnd Suc) (drain_rows fp fd rows (mark_failed (ac_id a) x (mark_processing (ac_id a) q)))
           | None \<Rightarrow> apfst (apfst Suc) (drain_rows fp fd rows (mark_done (ac_id a) (mark_processing (ac_id a) q)))))"

definition drain_pending_actions ::
  "(nat \<Rightarrow> pyexc option) \<Rightarrow> (nat \<Rightarrow> pyexc option) \<Rightarrow> nat \<Rightarrow> queue \<Rightarrow> (nat \<times> nat) \<times> queue" where
  "drain_pending_actions fp fd limit q = drain_rows fp fd (get_pending limit q) q"

section \<open>Properties of the commands\<close>

definition tick :: "nat \<Rightarrow> ('i, 'p) shop \<Rightarrow> ('i, 'p) shop" where
  "tick d s = s\<lparr>sh_ebay := (sh_ebay s)\<lparr>eb_clock := sh_now s + d\<rparr>\<rparr>"

lemma resolve_token_frame:
  "resolve_token exch user code e = (r, e') \<Longrightarrow> eb_clock e' = eb_clock e \<and> eb_apps e' = eb_apps e"
  by (auto simp: resolve_token_def bindp_def exchange_and_cache_def Let_def cache_setex_def upsert_refresh_token_def
      split: option.splits sum.splits if_splits prod.splits)

text \<open>The parts of the state that a command on listings leaves alone until it is finished.\<close>

lemma with_token_frame:
  assumes "with_token exch user code s = (r, s')"
  shows "sh_now s' = sh_now s \<and> eb_apps (sh_ebay s') = eb_apps (sh_ebay s) \<and> sh_store s' = sh_store s \<and>
         sh_calls s' = sh_calls s \<and> sh_pages s' = sh_pages s \<and> sh_cache_up s' = sh_cache_up s"
  using assms resolve_token_frame by (fastforce simp: with_token_def split: prod.splits)

lemma finish_command_frame [simp]:
  "sh_ebay (snd (finish_command user code r s)) = sh_ebay s"
  "sh_store (snd (finish_command user code r s)) = sh_store s"
  "sh_calls (snd (finish_command user code r s)) = sh_calls s"
  "sh_cache_up (snd (finish_command user code r s)) = sh_cache_up s"
  by (simp_all add: finish_command_def invalidate_cache_pattern_def)

lemma remember_frame [simp]:
  "sh_ebay (remember dumps key r s) = sh_ebay s"
  "sh_calls (remember dumps key r s) = sh_calls s"
  "sh_cache_up (remember dumps key r s) = sh_cache_up s"
  by (simp_all add: remember_def split: option.split)

lemma create_missed_ok:
  assumes "create_missed exch api dumps env user code item key market s = (Inr r, s')"
  obtains s1 token where "with_token exch user code s = (Inr token, s1)"
    and "s' = snd (finish_command user code r (remember dumps key r
           (s1\<lparr>sh_calls := sh_calls s @ [\<lparr>sn_env = env, sn_token = token, sn_request = Create item market\<rparr>]\<rparr>)))"
proof -
  obtain token s1 where t: "with_token exch user code s = (Inr token, s1)"
    using assms by (auto simp: create_missed_def bindp_def split: prod.splits sum.splits)
  show ?thesis
    by (rule that [OF t])
       (use assms t with_token_frame [OF t] in
         \<open>auto simp: create_missed_def bindp_def send_request_def transmit_def Let_def finish_command_def
            split: prod.splits sum.splits if_splits\<close>)
qed

lemma create_missed_calls:
  assumes "create_missed exch api dumps env user code item key market s = (Inr r, s')"
  shows "\<exists>token. sh_calls s' = sh_calls s @ [\<lparr>sn_env = env, sn_token = token, sn_request = Create item market\<rparr>]"
  using assms by (rule create_missed_ok) simp

lemma create_missed_store:
  assumes "create_missed exch api dumps env user code item key market s = (Inr r, s')"
  shows "sh_now s' = sh_now s" "eb_apps (sh_ebay s') = eb_apps (sh_ebay s)" "sh_cache_up s' = sh_cache_up s"
    and "dumps r = Some txt \<Longrightarrow> sh_store s' = snd (store_set_if_absent (sh_now s) key txt (sh_store s))"
proof -
  from assms obtain s1 token calls where t: "with_token exch user code s = (Inr token, s1)"
    and s': "s' = snd (finish_command user code r (remember dumps key r (s1\<lparr>sh_calls := calls\<rparr>)))"
    by (rule create_missed_ok)
  show "sh_now s' = sh_now s" "eb_apps (sh_ebay s') = eb_apps (sh_ebay s)" "sh_cache_up s' = sh_cache_up s"
    using with_token_frame [OF t] by (simp_all add: s')
  show "sh_store s' = snd (store_set_if_absent (sh_now s) key txt (sh_store s))" if "dumps r = Some txt"
    using with_token_frame [OF t] that by (simp add: s' remember_def)
qed

text \<open>A finished command leaves no cached page of its user and app.\<close>

lemma finish_command_pages:
  assumes "sh_cache_up s"
  shows "get_from_cache (active_key user code limit page) (snd (finish_command user code r s)) = None"
proof -
  have "dget (sh_pages (snd (finish_command user code r s))) (active_key user code limit page) = None"
    using assms
    by (auto simp: finish_command_def invalidate_cache_pattern_def active_key_def map_of_eq_None_iff)
  then show ?thesis by (simp add: get_from_cache_def live_def)
qed

lemma create_replayed:
  assumes "create_listing exch api dumps loads env user code item key market s = (Inr r, s')"
    and "store_get (sh_now s) key (sh_store s) = None" "store_up (sh_store s)"
    and "dumps r = Some txt" "loads txt = Some r'" "d < key_ttl"
  shows "create_listing exch' api' dumps' loads env' user' code' item' key market' (tick d s') = (Inr r', tick d s') \<and>
         length (sh_calls s') = Suc (length (sh_calls s))"
proof -
  have key: "key \<noteq> []" and run: "create_missed exch api dumps env user code item key market s = (Inr r, s')"
    using assms(1,2) by (auto simp: create_listing_def cached_answer_def split: if_splits)
  have "length (sh_calls s') = Suc (length (sh_calls s))"
    using create_missed_calls [OF run] by auto
  moreover have "store_get (sh_now s + d) key (sh_store s') = Some txt"
    unfolding create_missed_store(4) [OF run assms(4)]
    by (rule st.get_put) (use assms in simp_all)
  then have "cached_answer loads key (tick d s') = Some r'"
    using assms(5) create_missed_store(1) [OF run] by (simp add: cached_answer_def tick_def)
  ultimately show ?thesis using key by (simp add: create_listing_def)
qed

text \<open>
  C7. A create command with a key that is in use is answered from the store: within a day, a second
  command with the same key returns the stored answer of the first, sends nothing and changes nothing,
  whatever the item is and whoever the user is.
\<close>

theorem create_listing_replay:
  assumes "create_listing exch api dumps loads env user code item key market s = (Inr r, s')"
    and "store_get (sh_now s) key (sh_store s) = None" "store_up (sh_store s)"
    and "dumps r = Some txt" "loads txt = Some r'" "d < key_ttl"
  shows "create_listing exch' api' dumps' loads env' user' code' item' key market' (tick d s') = (Inr r', tick d s') \<and>
         length (sh_calls s') = Suc (length (sh_calls s))"
  using assms by (rule create_replayed)

text \<open>
  The store does not stop a double click: two commands with one key that have both looked the key up
  before either has stored its answer both create a listing, and only the first answer is kept.
\<close>

theorem create_listing_race:
  assumes "create_missed exch api dumps env user code item key market s = (Inr r1, s1)"
    and "create_missed exch api dumps env user code item key market s1 = (Inr r2, s2)"
    and "store_get (sh_now s) key (sh_store s) = None" "store_up (sh_store s)" "dumps r1 = Some txt" "dumps r2 \<noteq> None"
  shows "map sn_request (sh_calls s2) = map sn_request (sh_calls s) @ [Create item market, Create item market] \<and>
         cached_answer loads key s2 = loads txt"
proof -
  have "map sn_request (sh_calls s1) = map sn_request (sh_calls s) @ [Create item market]"
    using create_missed_calls [OF assms(1)] by auto
  moreover have "map sn_request (sh_calls s2) = map sn_request (sh_calls s1) @ [Create item market]"
    using create_missed_calls [OF assms(2)] by auto
  moreover obtain txt2 where txt2: "dumps r2 = Some txt2" using assms(6) by blast
  have s1: "sh_store s1 = snd (store_set_if_absent (sh_now s) key txt (sh_store s))"
    by (rule create_missed_store(4) [OF assms(1,5)])
  have "store_get (sh_now s) key (sh_store s1) = Some txt"
    unfolding s1 by (rule st.get_put) (use assms in \<open>simp_all add: key_ttl_def\<close>)
  with txt2 have "store_get (sh_now s2) key (sh_store s2) = Some txt"
    using create_missed_store(4) [OF assms(2) txt2] create_missed_store(1) [OF assms(1)]
      create_missed_store(1) [OF assms(2)] st.put_taken by simp
  ultimately show ?thesis by (simp add: cached_answer_def)
qed

text \<open>
  What a seller with a production app creates is sent to eBay's sandbox, the environment that the
  service manager gives a repository by default, while the page of active listings that is read next,
  which no cached page hides, is asked from production.
\<close>

theorem created_listing_in_sandbox:
  assumes "create_missed exch api dumps ''sandbox'' user code item key market s = (Inr r, s1)"
    and "sh_cache_up s" "get_environment (sh_ebay s) code = Some ''PRODUCTION''"
    and "get_active_listings exch' api' validate meta fits ''sandbox'' user code limit offset market s1 = (Inr p, s2)"
  shows "sn_env (last (sh_calls s1)) = ''sandbox'' \<and> sn_env (last (sh_calls s2)) = ''production'' \<and>
         length (sh_calls s2) = length (sh_calls s) + 2"
proof -
  from create_missed_calls [OF assms(1)] obtain token
    where calls: "sh_calls s1 = sh_calls s @ [\<lparr>sn_env = ''sandbox'', sn_token = token, sn_request = Create item market\<rparr>]"
    by blast
  note keep = create_missed_store [OF assms(1)]
  obtain token' s1' where t: "with_token exch' user code s1 = (Inr token', s1')"
    using assms(4) by (auto simp: get_active_listings_def bindp_def split: prod.splits sum.splits)
  note frame = with_token_frame [OF t]
  have env: "app_environment ''sandbox'' code (sh_ebay s1') = Inr ''production''"
  proof -
    have "get_environment (sh_ebay s1') code = Some ''PRODUCTION''"
      using assms(3) frame keep(2) by (simp add: get_environment_def)
    then show ?thesis
      by (simp add: app_environment_def lower_str_def lower_def lower_cp_def char_of_eq_iff)
  qed
  have "get_from_cache (active_key user code limit (page_number limit offset)) s1 = None"
    using assms(1) by (rule create_missed_ok)
      (use with_token_frame assms(2) in \<open>fastforce intro: finish_command_pages\<close>)
  then have miss: "get_from_cache (active_key user code limit (page_number limit offset)) s1' = None"
    using frame by (simp add: get_from_cache_def split: if_splits)
  have "sh_calls s2 = sh_calls s1 @ [\<lparr>sn_env = ''production'', sn_token = token', sn_request = Active limit (page_number limit offset) market\<rparr>]"
    using assms(4) t env miss frame
    by (auto simp: get_active_listings_def bindp_def Let_def send_request_def transmit_def set_to_cache_def
        split: prod.splits sum.splits if_splits)
  with calls show ?thesis by simp
qed

section \<open>Properties of the queue\<close>

abbreviation is_open :: "action \<Rightarrow> bool" where
  "is_open a \<equiv> ac_status a = Pending \<or> ac_status a = Processing"

definition queue_ok :: "queue \<Rightarrow> bool" where
  "queue_ok q \<longleftrightarrow>
     distinct (map ac_id (aq_rows q)) \<and> (\<forall>a\<in>set (aq_rows q). ac_id a < aq_next q) \<and>
     (\<forall>a\<in>set (aq_rows q). \<forall>b\<in>set (aq_rows q). is_open a \<and> is_open b \<and> ac_item a = ac_item b \<longrightarrow> a = b)"

lemma get_pending_for_item_None:
  "get_pending_for_item item q = None \<longleftrightarrow> (\<forall>a\<in>set (aq_rows q). ac_item a = item \<longrightarrow> \<not> is_open a)"
  unfolding get_pending_for_item_def by (auto simp: filter_empty_conv split: list.split dest!: sort_desc_ConsD)

lemma get_pending_for_item_Some:
  "get_pending_for_item item q = Some a \<Longrightarrow> a \<in> set (aq_rows q) \<and> ac_item a = item \<and> is_open a"
  unfolding get_pending_for_item_def by (auto split: list.splits dest!: sort_desc_ConsD)

lemma mark_done_processing:
  "mark_done i (mark_processing i q) = update_action i (\<lambda>a. a\<lparr>ac_status := Done, ac_executed := Some (aq_now q)\<rparr>) q"
  by (simp add: mark_done_def mark_processing_def update_action_def o_def if_distrib [of ac_id] cong: if_cong)

lemma drain_rows_ok:
  assumes "\<forall>a\<in>set rows. fp (ac_id a) = None \<and> fd (ac_id a) = None"
  shows "drain_rows fp fd rows q =
    ((length rows, 0),
     q\<lparr>aq_rows := map (\<lambda>a. if ac_id a \<in> ac_id ` set rows then a\<lparr>ac_status := Done, ac_executed := Some (aq_now q)\<rparr> else a)
                    (aq_rows q)\<rparr>)"
  using assms
proof (induction rows arbitrary: q)
  case Nil
  then show ?case by simp
next
  case (Cons b rows)
  then show ?case
    by (simp add: mark_done_processing) (auto simp: update_action_def)
qed

lemma get_pending_mem: "a \<in> set (get_pending limit q) \<Longrightarrow> a \<in> set (aq_rows q) \<and> ac_status a = Pending"
  unfolding get_pending_def by (drule in_set_takeD) simp

lemma drain_rows_other:
  "a \<in> set (aq_rows q) \<Longrightarrow> ac_id a \<notin> ac_id ` set rows \<Longrightarrow> a \<in> set (aq_rows (snd (drain_rows fp fd rows q)))"
proof (induction rows arbitrary: q)
  case Nil
  then show ?case by simp
next
  case (Cons b rows)
  have keep: "a \<in> set (aq_rows p) \<Longrightarrow> a \<in> set (aq_rows (update_action (ac_id b) f p))" for f p
    using Cons.prems(2) by (force simp: update_action_def)
  then show ?case
    using Cons by (auto simp: mark_done_def mark_processing_def mark_failed_def split: option.split)
qed

text \<open>
  Staging never queues two actions for one listing: when nothing is open for the item a new pending
  action is queued, and staging again hands back its id without a change.
\<close>

theorem stage_action_once:
  assumes "queue_ok q" "stage_action user app item type strategy price q = (Inr (i, new), q')"
  shows "queue_ok q' \<and> stage_action user' app' item type' strategy' price' q' = (Inr (i, False), q') \<and>
         length (aq_rows q') = length (aq_rows q) + (if new then 1 else 0)"
proof (cases "get_pending_for_item item q")
  case (Some a)
  with assms show ?thesis by (auto simp: stage_action_def)
next
  case None
  let ?a = "\<lparr>ac_id = aq_next q, ac_item = item, ac_user = user, ac_app = app, ac_type = type, ac_strategy = strategy,
             ac_price = price, ac_status = Pending, ac_error = None, ac_created = aq_now q, ac_executed = None\<rparr>"
  have q': "q' = q\<lparr>aq_rows := aq_rows q @ [?a], aq_next := Suc (aq_next q)\<rparr>" and i: "i = aq_next q" "new"
    using assms(2) None by (auto simp: stage_action_def insert_action_def bindp_def split: if_splits)
  have none: "ac_item a = item \<Longrightarrow> \<not> is_open a" if "a \<in> set (aq_rows q)" for a
    using None that get_pending_for_item_None by blast
  have "queue_ok q'"
    using assms(1) none by (auto simp: q' queue_ok_def less_Suc_eq)
  moreover have "get_pending_for_item item q' \<noteq> None"
    by (simp add: get_pending_for_item_None q')
  then obtain b where b: "get_pending_for_item item q' = Some b" by blast
  with none have "b = ?a" using get_pending_for_item_Some [OF b] by (auto simp: q')
  ultimately show ?thesis using b i by (simp add: stage_action_def q')
qed

text \<open>
  An action that was left in processing, as by a worker that died between the two marks, is stuck:
  no drain touches it again, and staging an action for its listing is answered with an existing one.
\<close>

theorem processing_action_stuck:
  assumes "queue_ok q" "a \<in> set (aq_rows q)" "ac_status a = Processing"
  shows "a \<in> set (aq_rows (snd (drain_pending_actions fp fd limit q))) \<and>
         (\<exists>i. stage_action user app (ac_item a) type strategy price (snd (drain_pending_actions fp fd limit q)) =
                (Inr (i, False), snd (drain_pending_actions fp fd limit q)))"
proof -
  let ?q = "snd (drain_pending_actions fp fd limit q)"
  have "ac_id a \<notin> ac_id ` set (get_pending limit q)"
  proof
    assume "ac_id a \<in> ac_id ` set (get_pending limit q)"
    then obtain b where "b \<in> set (get_pending limit q)" "ac_id b = ac_id a" by auto
    with get_pending_mem assms have "b = a" by (auto simp: queue_ok_def distinct_map dest: inj_onD)
    with assms(3) get_pending_mem \<open>b \<in> set (get_pending limit q)\<close> show False by fastforce
  qed
  then have mem: "a \<in> set (aq_rows ?q)"
    using drain_rows_other [OF assms(2)] by (simp add: drain_pending_actions_def)
  with assms(3) have "get_pending_for_item (ac_item a) ?q \<noteq> None"
    by (auto simp: get_pending_for_item_None)
  with mem show ?thesis by (auto simp: stage_action_def)
qed

text \<open>
  A drain whose statements do not fail executes exactly the oldest pending actions, up to the
  limit, and leaves every other row as it was.
\<close>

theorem drain_spec:
  assumes "\<forall>i. fp i = None \<and> fd i = None"
  shows "drain_pending_actions fp fd limit q =
    ((length (get_pending limit q), 0),
     q\<lparr>aq_rows := map (\<lambda>a. if ac_id a \<in> ac_id ` set (get_pending limit q)
                              then a\<lparr>ac_status := Done, ac_executed := Some (aq_now q)\<rparr> else a) (aq_rows q)\<rparr>)"
  unfolding drain_pending_actions_def by (rule drain_rows_ok) (simp add: assms)

section \<open>Samples\<close>

text \<open>A production app, with an access token in the cache for seven thousand seconds.\<close>

definition demo_prod :: ebay where
  "demo_prod = demo_ebay\<lparr>eb_apps := [demo_app\<lparr>ap_env := ''PRODUCTION''\<rparr>],
     eb_cache := [(access_key ''ann'' ''main'', (''tok'', 8000))]\<rparr>"

definition demo_shop :: "(nat, nat page) shop" where
  "demo_shop = \<lparr>sh_ebay = demo_prod, sh_store = Redis \<lparr>rd_keys = [], rd_up = True\<rparr>, sh_calls = [], sh_pages = [],
     sh_cache_up = True\<rparr>"

definition demo_created :: "nat \<Rightarrow> (nat, nat page) shop" where
  "demo_created n = demo_shop\<lparr>
     sh_store := Redis \<lparr>rd_keys = [(''ebay:idempotency:k1'', (''{}'', 1000 + key_ttl))], rd_up = True\<rparr>,
     sh_calls := replicate n \<lparr>sn_env = ''sandbox'', sn_token = ''tok'', sn_request = Create 7 ''15''\<rparr>\<rparr>"

lemmas shop_eval = demo_shop_def demo_created_def demo_prod_def ebay_eval

lemma demo_token:
  "sh_ebay s = demo_prod \<Longrightarrow> with_token exch ''ann'' ''main'' s = (Inr ''tok'', s)"
  by (cases s) (simp add: with_token_def resolve_token_def cache_get_def shop_eval)

abbreviation "demo_create \<equiv> create_missed (\<lambda>_. Inl ValueErr) (\<lambda>_. Inr (5 :: nat)) (\<lambda>_. Some ''{}'') ''sandbox'' ''ann'' ''main''
  (7 :: nat) ''k1'' ''15''"

lemma demo_first: "demo_create demo_shop = (Inr 5, demo_created 1)"
proof -
  have "sh_ebay demo_shop = demo_prod" by (simp add: demo_shop_def)
  then show ?thesis
    by (simp add: create_missed_def demo_token bindp_def send_request_def transmit_def finish_command_def
        invalidate_cache_pattern_def remember_def)
       (simp add: shop_eval redis_set_if_absent_def namespaced_def live_def)
qed

lemma demo_second: "demo_create (demo_created 1) = (Inr 5, demo_created 2)"
proof -
  have "sh_ebay (demo_created 1) = demo_prod" by (simp add: shop_eval)
  then show ?thesis
    by (simp add: create_missed_def demo_token bindp_def send_request_def transmit_def finish_command_def
        invalidate_cache_pattern_def remember_def)
       (simp add: shop_eval redis_set_if_absent_def namespaced_def live_def key_ttl_def numeral_2_eq_2)
qed

lemma demo_free: "store_get (sh_now demo_shop) ''k1'' (sh_store demo_shop) = None" "store_up (sh_store demo_shop)"
  by (simp_all add: shop_eval redis_get_def live_def)

theorem create_listing_replay_witness:
  "create_listing (\<lambda>_. Inl ValueErr) (\<lambda>_. Inl ValueErr) (\<lambda>_. None) (\<lambda>_. Some (6 :: nat)) ''sandbox'' ''bob'' ''main'' 8 ''k1'' ''15''
     (tick 600 (demo_created 1)) = (Inr 6, tick 600 (demo_created 1))"
proof -
  have "create_listing (\<lambda>_. Inl ValueErr) (\<lambda>_. Inr (5 :: nat)) (\<lambda>_. Some ''{}'') (\<lambda>_. Some (6 :: nat)) ''sandbox'' ''ann'' ''main''
     7 ''k1'' ''15'' demo_shop = (Inr 5, demo_created 1)"
    by (simp add: create_listing_def cached_answer_def demo_free demo_first)
  from create_listing_replay [OF this demo_free, of "''{}''" 6 600 "\<lambda>_. Inl ValueErr" "\<lambda>_. Inl ValueErr" "\<lambda>_. None"
      "''sandbox''" "''bob''" "''main''" 8 "''15''"]
  show ?thesis by (simp add: key_ttl_def)
qed

theorem create_listing_race_witness:
  "map sn_request (sh_calls (demo_created 2)) = [Create 7 ''15'', Create 7 ''15'']"
proof -
  have "map sn_request (sh_calls (demo_created 2)) = map sn_request (sh_calls demo_shop) @ [Create 7 ''15'', Create 7 ''15'']"
    by (rule create_listing_race [OF demo_first demo_second demo_free, of "''{}''" "\<lambda>_. None", THEN conjunct1]) simp_all
  then show ?thesis by (simp add: demo_shop_def)
qed

theorem created_listing_in_sandbox_witness:
  "\<exists>s2. get_active_listings (\<lambda>_. Inl ValueErr) (\<lambda>_. Inr \<lparr>aw_items = No_Item :: nat raw_items, aw_total = None\<rparr>) (\<lambda>_. Inl ValueErr) (\<lambda>_. None)
     (\<lambda>_. True) ''sandbox'' ''ann'' ''main'' 10 0 ''15'' (demo_created 1) = (Inr (from_parts [] None 0 10), s2) \<and>
   sn_env (last (sh_calls (demo_created 1))) = ''sandbox'' \<and> sn_env (last (sh_calls s2)) = ''production''"
proof -
  let ?read = "get_active_listings (\<lambda>_. Inl ValueErr) (\<lambda>_. Inr \<lparr>aw_items = No_Item :: nat raw_items, aw_total = None\<rparr>) (\<lambda>_. Inl ValueErr) (\<lambda>_. None)
     (\<lambda>_. True) ''sandbox'' ''ann'' ''main'' 10 0 ''15'' (demo_created 1)"
  have eb: "sh_ebay (demo_created n) = demo_prod" "get_from_cache k (demo_created n) = None" for n k
    by (simp_all add: shop_eval get_from_cache_def live_def)
  have "app_environment ''sandbox'' ''main'' demo_prod = Inr ''production''"
    by (simp add: app_environment_def get_environment_def shop_eval lower_str_def lower_def lower_cp_def char_of_eq_iff)
  then have "fst ?read = Inr (from_parts [] None 0 10)"
    by (simp add: get_active_listings_def demo_token [OF eb(1)] bindp_def eb Let_def send_request_def transmit_def active_page_def)
  then obtain s2 where run: "?read = (Inr (from_parts [] None 0 10), s2)" by (metis prod.collapse)
  have "sh_cache_up demo_shop" "get_environment (sh_ebay demo_shop) ''main'' = Some ''PRODUCTION''"
    by (simp_all add: shop_eval get_environment_def)
  from created_listing_in_sandbox [OF demo_first this run] run show ?thesis by blast
qed

definition demo_queue :: queue where
  "demo_queue = \<lparr>aq_rows =
     [\<lparr>ac_id = 1, ac_item = ''i1'', ac_user = ''ann'', ac_app = ''main'', ac_type = ''lower'', ac_strategy = ''quick'',
       ac_price = None, ac_status = Processing, ac_error = None, ac_created = 5, ac_executed = None\<rparr>], aq_next = 2, aq_now = 9\<rparr>"

lemma demo_queue_ok: "queue_ok demo_queue"
  by (simp add: queue_ok_def demo_queue_def)

theorem stage_action_once_witness:
  "\<exists>q. stage_action ''ann'' ''main'' ''i2'' ''raise'' ''max'' None demo_queue = (Inr (2, True), q) \<and>
     stage_action ''ann'' ''main'' ''i2'' ''lower'' ''quick'' None q = (Inr (2, False), q)"
proof -
  have "\<exists>q. stage_action ''ann'' ''main'' ''i2'' ''raise'' ''max'' None demo_queue = (Inr (2, True), q)"
    by (simp add: stage_action_def get_pending_for_item_def demo_queue_def insert_action_def bindp_def sort_desc_def)
  then obtain q where "stage_action ''ann'' ''main'' ''i2'' ''raise'' ''max'' None demo_queue = (Inr (2, True), q)" ..
  with stage_action_once [OF demo_queue_ok this, of "''ann''" "''main''" "''lower''" "''quick''" None] show ?thesis by blast
qed

theorem processing_action_stuck_witness:
  "\<exists>i. stage_action ''ann'' ''main'' ''i1'' ''raise'' ''max'' None (snd (drain_pending_actions (\<lambda>_. None) (\<lambda>_. None) 50 demo_queue)) =
     (Inr (i, False), snd (drain_pending_actions (\<lambda>_. None) (\<lambda>_. None) 50 demo_queue))"
  using processing_action_stuck [OF demo_queue_ok, of "hd (aq_rows demo_queue)" "\<lambda>_. None" "\<lambda>_. None" 50]
  by (simp add: demo_queue_def)

theorem drain_spec_witness:
  "fst (drain_pending_actions (\<lambda>_. None) (\<lambda>_. None) 50 demo_queue) = (0, 0)"
  using drain_spec [of "\<lambda>_. None" "\<lambda>_. None" 50 demo_queue] by (simp add: get_pending_def demo_queue_def)

end
