(* ===== verification/Listing_Builder.thy ===== *)
theory Listing_Builder
  imports Ebay_Listings Py_Text
begin

text \<open>
  The listing builder (\<open>ebay/listing_builder.py\<close>), its inputs (\<open>models/ebay/listing_inputs.py\<close>) and the service
  that builds a listing and sends it (\<open>ebay/listing_build_service.py\<close>).

  Texts are lists of code points. Decimals are their canonical text, which a parameter computes; \<open>uuid5\<close> is a
  parameter.
\<close>

section \<open>Inputs\<close>

datatype card_condition = NM | LP | MP | HP | DMG

datatype description_mode = Minimal | Full

fun condition_value :: "card_condition \<Rightarrow> ustr" where
  "condition_value NM = lit ''NM''"
| "condition_value LP = lit ''LP''"
| "condition_value MP = lit ''MP''"
| "condition_value HP = lit ''HP''"
| "condition_value DMG = lit ''DMG''"

text \<open>\<open>Condition(s)\<close> and \<open>DescriptionMode(s)\<close>: the member with that value, or a ValueError.\<close>

definition parse_condition :: "ustr \<Rightarrow> card_condition res" where
  "parse_condition s =
     (case find (\<lambda>c. condition_value c = s) [NM, LP, MP, HP, DMG] of None \<Rightarrow> Inl ValueErr | Some c \<Rightarrow> Inr c)"

definition parse_mode :: "ustr \<Rightarrow> description_mode res" where
  "parse_mode s = (if s = lit ''minimal'' then Inr Minimal else if s = lit ''full'' then Inr Full else Inl ValueErr)"

record card_data =
  cd_version :: ustr
  cd_name :: ustr
  cd_set_name :: ustr
  cd_set_code :: ustr
  cd_number :: ustr
  cd_mana :: "ustr option"
  cd_oracle :: "ustr option"
  cd_type :: "ustr option"
  cd_rarity :: ustr
  cd_colors :: "ustr list"
  cd_power :: "ustr option"
  cd_toughness :: "ustr option"
  cd_loyalty :: "ustr option"
  cd_image :: "ustr option"
  cd_flavor :: "ustr option"
  cd_scryfall :: "ustr option"

record seller_input =
  si_condition :: card_condition
  si_quantity :: int
  si_foil :: bool
  si_lang :: ustr
  si_price :: ustr
  si_shipping :: ustr
  si_note :: "ustr option"
  si_mode :: description_mode

record brand =
  bc_tagline :: ustr
  bc_accent :: ustr
  bc_header :: ustr
  bc_footer :: ustr
  bc_return_policy :: ustr
  bc_dispatch :: int
  bc_postcode :: ustr
  bc_location :: ustr
  bc_shipping_profile :: "int option"
  bc_return_profile :: "int option"
  bc_payment_profile :: "int option"

text \<open>An optional text counts when it is there and not empty.\<close>

definition given :: "ustr option \<Rightarrow> bool" where
  "given x \<longleftrightarrow> x \<noteq> None \<and> x \<noteq> Some []"

definition text_of :: "ustr option \<Rightarrow> ustr" where
  "text_of x = (case x of None \<Rightarrow> [] | Some s \<Rightarrow> s)"

section \<open>Title, SKU, subtitle\<close>

definition title_tokens :: "bool \<Rightarrow> card_data \<Rightarrow> seller_input \<Rightarrow> ustr list" where
  "title_tokens numbered cd seller =
     [cd_name cd, upper (cd_set_code cd)] @ (if numbered then [cd_number cd] else []) @
     (if si_foil seller then [lit ''FOIL''] else []) @
     (if si_lang seller \<noteq> lit ''en'' then [upper (si_lang seller)] else []) @
     [condition_value (si_condition seller), lit ''MTG'']"

definition build_title :: "card_data \<Rightarrow> seller_input \<Rightarrow> ustr" where
  "build_title cd seller =
     (let title = join [32] (title_tokens True cd seller)
      in if length title \<le> 80 then title
         else let title = join [32] (title_tokens False cd seller)
              in if length title \<le> 80 then title else take 77 title @ lit ''...'')"

definition build_sku :: "card_data \<Rightarrow> seller_input \<Rightarrow> ustr" where
  "build_sku cd seller =
     (if given (cd_scryfall cd) then text_of (cd_scryfall cd) else cd_version cd) @ lit ''-'' @
     condition_value (si_condition seller) @ lit ''-'' @ (if si_foil seller then lit ''F'' else lit ''N'')"

text \<open>\<open>card.type_line.split(U+2014)[0].strip()\<close>.\<close>

definition type_short :: "card_data \<Rightarrow> ustr" where
  "type_short cd = (if given (cd_type cd) then strip (takeWhile (\<lambda>c. c \<noteq> 8212) (text_of (cd_type cd))) else [])"

definition rarity_map :: "(ustr, ustr) dict" where
  "rarity_map =
     [(lit ''common'', lit ''Common''), (lit ''uncommon'', lit ''Uncommon''), (lit ''rare'', lit ''Rare''),
      (lit ''mythic'', lit ''Mythic Rare''), (lit ''special'', lit ''Special''), (lit ''bonus'', lit ''Special'')]"

definition build_subtitle :: "card_data \<Rightarrow> brand \<Rightarrow> ustr option" where
  "build_subtitle cd brand =
     (if cd_rarity cd \<noteq> lit ''rare'' \<and> cd_rarity cd \<noteq> lit ''mythic'' then None
      else let rarity = (case dget rarity_map (cd_rarity cd) of None \<Rightarrow> capitalize (cd_rarity cd) | Some r \<Rightarrow> r);
               tagline = (if bc_tagline brand \<noteq> [] then bc_tagline brand else lit ''Fast AU Shipping'');
               parts = [cd_set_name cd, rarity] @ (if type_short cd \<noteq> [] then [type_short cd] else []) @ [tagline]
           in Some (take 55 (join [32, 183, 32] parts)))"

section \<open>Mappings\<close>

fun map_condition_to_ebay_id :: "card_condition \<Rightarrow> int" where
  "map_condition_to_ebay_id NM = 3000"
| "map_condition_to_ebay_id LP = 4000"
| "map_condition_to_ebay_id MP = 5000"
| "map_condition_to_ebay_id HP = 6000"
| "map_condition_to_ebay_id DMG = 7000"

fun condition_description :: "card_condition \<Rightarrow> ustr" where
  "condition_description NM = lit ''Card is Near Mint. No visible play wear. Stored in sleeve from opening.''"
| "condition_description LP = lit ''Card is Lightly Played. Minimal edge wear or light surface scratches. Does not affect gameplay.''"
| "condition_description MP = lit ''Card is Moderately Played. Noticeable wear on edges or surface. Fully playable.''"
| "condition_description HP = lit ''Card is Heavily Played. Significant wear. Suitable for casual play or proxy use.''"
| "condition_description DMG = lit ''Card is Damaged. Creases, tears, or markings present. Sold as-is.''"

fun condition_label :: "card_condition \<Rightarrow> ustr" where
  "condition_label NM = lit ''Near Mint (NM)''"
| "condition_label LP = lit ''Lightly Played (LP)''"
| "condition_label MP = lit ''Moderately Played (MP)''"
| "condition_label HP = lit ''Heavily Played (HP)''"
| "condition_label DMG = lit ''Damaged (DMG)''"

text \<open>\<open>html.escape\<close>: five replacements, one after the other, the ampersand first.\<close>

definition esc :: "ustr \<Rightarrow> ustr" where
  "esc s =
     replace_all [39] (lit ''&#x27;'') (replace_all [34] (lit ''&quot;'')
       (replace_all [62] (lit ''&gt;'') (replace_all [60] (lit ''&lt;'') (replace_all [38] (lit ''&amp;'') s))))"

definition build_condition_description :: "card_condition \<Rightarrow> ustr option \<Rightarrow> ustr" where
  "build_condition_description c note =
     condition_description c @ (if given note then lit '' Seller note: '' @ esc (text_of note) else [])"

definition map_rarity_to_ebay :: "ustr \<Rightarrow> ustr" where
  "map_rarity_to_ebay r = (case dget rarity_map r of None \<Rightarrow> lit ''Special'' | Some x \<Rightarrow> x)"

definition lang_map :: "(ustr, ustr) dict" where
  "lang_map =
     [(lit ''en'', lit ''English''), (lit ''ja'', lit ''Japanese''), (lit ''de'', lit ''German''), (lit ''fr'', lit ''French''),
      (lit ''it'', lit ''Italian''), (lit ''es'', lit ''Spanish''), (lit ''pt'', lit ''Portuguese''), (lit ''ru'', lit ''Russian''),
      (lit ''ko'', lit ''Korean''), (lit ''zhs'', lit ''Chinese Simplified''), (lit ''zht'', lit ''Chinese Traditional''),
      (lit ''he'', lit ''Hebrew''), (lit ''ar'', lit ''Arabic''), (lit ''grc'', lit ''Ancient Greek''), (lit ''la'', lit ''Latin'')]"

definition map_lang_to_ebay :: "ustr \<Rightarrow> ustr" where
  "map_lang_to_ebay l = (case dget lang_map l of None \<Rightarrow> lit ''Other'' | Some x \<Rightarrow> x)"

definition color_map :: "(ustr, ustr) dict" where
  "color_map =
     [(lit ''W'', lit ''White''), (lit ''U'', lit ''Blue''), (lit ''B'', lit ''Black''), (lit ''R'', lit ''Red''), (lit ''G'', lit ''Green'')]"

definition map_color_to_ebay :: "ustr list \<Rightarrow> ustr" where
  "map_color_to_ebay cs =
     (case cs of
        [] \<Rightarrow> lit ''Colorless''
      | [c] \<Rightarrow> (case find (\<lambda>(code, name). upper c = code \<or> c = name) color_map of
                   None \<Rightarrow> c | Some (code, name) \<Rightarrow> name)
      | _ \<Rightarrow> lit ''Multi-Color'')"

definition build_item_specifics :: "card_data \<Rightarrow> seller_input \<Rightarrow> (ustr \<times> ustr) list" where
  "build_item_specifics cd seller =
     [(lit ''Game'', lit ''Magic: The Gathering''), (lit ''Card Name'', cd_name cd), (lit ''Set'', cd_set_name cd),
      (lit ''Rarity'', map_rarity_to_ebay (cd_rarity cd)), (lit ''Language'', map_lang_to_ebay (si_lang seller)),
      (lit ''Finish'', if si_foil seller then lit ''Foil'' else lit ''Regular''), (lit ''Graded'', lit ''No''),
      (lit ''Card Number'', cd_number cd), (lit ''Colour'', map_color_to_ebay (cd_colors cd))] @
     (if type_short cd \<noteq> [] then [(lit ''Type'', type_short cd)] else []) @
     (if given (cd_mana cd) then [(lit ''Mana Cost'', text_of (cd_mana cd))] else [])"

section \<open>The description\<close>

definition oracle_to_html :: "ustr option \<Rightarrow> ustr" where
  "oracle_to_html t = (if given t then replace_all [10] (lit ''<br/>'') (esc (text_of t)) else [])"

definition minimal_html :: "card_data \<Rightarrow> seller_input \<Rightarrow> ustr" where
  \<open>minimal_html cd seller =
     lit ''<div style="font-family:Arial,sans-serif;font-size:14px;color:#333;">'' @
     lit ''<h2>'' @ esc (cd_name cd) @ lit ''</h2>'' @
     lit ''<p><strong>Set:</strong> '' @ esc (cd_set_name cd) @ lit '' ('' @ esc (upper (cd_set_code cd)) @ lit '')</p>'' @
     lit ''<p><strong>Condition:</strong> '' @ condition_label (si_condition seller) @ [32, 8212, 32] @
       build_condition_description (si_condition seller) (si_note seller) @ lit ''</p>'' @
     lit ''<p><strong>Language:</strong> '' @ map_lang_to_ebay (si_lang seller) @ lit ''</p>'' @
     (if si_foil seller then lit ''<p><strong>Finish:</strong> Foil</p>'' else []) @
     lit ''<hr/>'' @
     lit ''<p><em>'' @ oracle_to_html (cd_oracle cd) @ lit ''</em></p>'' @
     lit ''</div>''\<close>

definition flavor_block :: "card_data \<Rightarrow> ustr" where
  \<open>flavor_block cd =
     (if given (cd_flavor cd)
      then lit ''<p style="font-style:italic;color:#777;">'' @ esc (text_of (cd_flavor cd)) @ lit ''</p>'' else [])\<close>

definition stats_block :: "card_data \<Rightarrow> ustr" where
  \<open>stats_block cd =
     (if given (cd_power cd) \<and> given (cd_toughness cd)
      then lit ''<p><strong>P/T:</strong> '' @ esc (text_of (cd_power cd)) @ lit ''/'' @ esc (text_of (cd_toughness cd)) @ lit ''</p>''
      else if given (cd_loyalty cd)
      then lit ''<p><strong>Loyalty:</strong> '' @ esc (text_of (cd_loyalty cd)) @ lit ''</p>'' else [])\<close>

definition note_block :: "seller_input \<Rightarrow> ustr" where
  \<open>note_block seller =
     (if given (si_note seller)
      then lit ''<br/><em>Seller note: '' @ esc (text_of (si_note seller)) @ lit ''</em>'' else [])\<close>

definition image_block :: "card_data \<Rightarrow> ustr" where
  \<open>image_block cd =
     (if given (cd_image cd)
      then lit ''<div style="text-align:center;margin-bottom:16px;">'' @
           lit ''<img src="'' @ esc (text_of (cd_image cd)) @ lit ''" alt="'' @ esc (cd_name cd) @ lit ''" '' @
           lit ''style="max-width:260px;border-radius:8px;"/>'' @ lit ''</div>'' else [])\<close>

definition table_row :: "bool \<Rightarrow> ustr \<Rightarrow> ustr \<Rightarrow> ustr" where
  \<open>table_row shaded name val =
     (if shaded then lit ''<tr style="background:#f9f9f9;">'' else lit ''<tr>'') @
     lit ''<td style="padding:4px 8px;font-weight:bold;">'' @ name @ lit ''</td>'' @
     lit ''<td style="padding:4px 8px;">'' @ val @ lit ''</td></tr>''\<close>

definition full_html :: "card_data \<Rightarrow> seller_input \<Rightarrow> brand \<Rightarrow> ustr" where
  \<open>full_html cd seller brand =
     bc_header brand @
     lit ''<div style="font-family:Arial,sans-serif;font-size:14px;color:#333;'' @ lit ''max-width:640px;margin:0 auto;">'' @
     image_block cd @
     lit ''<h2 style="color:'' @ esc (bc_accent brand) @ lit '';">'' @ esc (cd_name cd) @ lit ''</h2>'' @
     lit ''<table style="width:100%;border-collapse:collapse;margin-bottom:12px;">'' @
     table_row False (lit ''Set'') (esc (cd_set_name cd) @ lit '' ('' @ esc (upper (cd_set_code cd)) @ lit '') #'' @ esc (cd_number cd)) @
     table_row True (lit ''Type'') (esc (text_of (cd_type cd))) @
     table_row False (lit ''Rarity'') (map_rarity_to_ebay (cd_rarity cd)) @
     table_row True (lit ''Language'') (map_lang_to_ebay (si_lang seller)) @
     table_row False (lit ''Finish'') (if si_foil seller then lit ''Foil'' else lit ''Non-Foil'') @
     table_row True (lit ''Condition'') (condition_label (si_condition seller)) @
     lit ''</table>'' @
     lit ''<div style="border-left:3px solid '' @ esc (bc_accent brand) @ lit '';padding-left:12px;margin-bottom:12px;">'' @
     lit ''<p style="margin:0;"><em>'' @ oracle_to_html (cd_oracle cd) @ lit ''</em></p>'' @
     lit ''</div>'' @
     flavor_block cd @ stats_block cd @
     lit ''<div style="background:#fff8e1;border:1px solid #ffe082;border-radius:4px;'' @ lit ''padding:10px;margin-bottom:12px;">'' @
     lit ''<strong>Condition:</strong> '' @ condition_label (si_condition seller) @ lit ''<br/>'' @
     build_condition_description (si_condition seller) None @ note_block seller @
     lit ''</div>'' @
     lit ''<div style="font-size:12px;color:#666;border-top:1px solid #eee;padding-top:10px;">'' @
     bc_footer brand @ lit ''</div>'' @ lit ''</div>''\<close>

definition build_description_html :: "card_data \<Rightarrow> seller_input \<Rightarrow> brand \<Rightarrow> description_mode \<Rightarrow> ustr" where
  "build_description_html cd seller brand mode =
     (case mode of Minimal \<Rightarrow> minimal_html cd seller | Full \<Rightarrow> full_html cd seller brand)"

section \<open>The item\<close>

record profiles =
  pf_shipping :: int
  pf_return :: "int option"
  pf_payment :: "int option"

record item_model =
  it_title :: ustr
  it_subtitle :: "ustr option"
  it_sku :: ustr
  it_quantity :: int
  it_price :: "ustr \<times> ustr"
  it_condition_id :: int
  it_condition_description :: ustr
  it_description :: ustr
  it_specifics :: "(ustr \<times> ustr) list"
  it_category :: ustr
  it_shipping_cost :: "ustr \<times> ustr"
  it_return_policy :: "ustr option"
  it_profiles :: "profiles option"
  it_dispatch :: int
  it_postcode :: "ustr option"
  it_location :: "ustr option"

text \<open>The constant fields (listing type and duration, country, site, services) are left out.\<close>

definition build_mtg_listing :: "card_data \<Rightarrow> seller_input \<Rightarrow> brand \<Rightarrow> ustr \<Rightarrow> ustr \<Rightarrow> item_model" where
  "build_mtg_listing cd seller brand price shipping =
     \<lparr>it_title = build_title cd seller, it_subtitle = build_subtitle cd brand, it_sku = build_sku cd seller,
      it_quantity = si_quantity seller, it_price = (lit ''AUD'', price),
      it_condition_id = map_condition_to_ebay_id (si_condition seller),
      it_condition_description = build_condition_description (si_condition seller) (si_note seller),
      it_description = build_description_html cd seller brand (si_mode seller),
      it_specifics = build_item_specifics cd seller, it_category = lit ''38292'',
      it_shipping_cost = (lit ''AUD'', shipping),
      it_return_policy = (if bc_shipping_profile brand = None then Some (bc_return_policy brand) else None),
      it_profiles = (case bc_shipping_profile brand of
          None \<Rightarrow> None
        | Some p \<Rightarrow> Some \<lparr>pf_shipping = p, pf_return = bc_return_profile brand, pf_payment = bc_payment_profile brand\<rparr>),
      it_dispatch = bc_dispatch brand,
      it_postcode = (if bc_postcode brand = [] then None else Some (bc_postcode brand)),
      it_location = (if bc_location brand = [] then None else Some (bc_location brand))\<rparr>"

section \<open>The service\<close>

text \<open>The arguments of a request; the idempotency key may be missing.\<close>

record build_request =
  bq_user :: string
  bq_app :: string
  bq_card :: ustr
  bq_condition :: ustr
  bq_quantity :: int
  bq_price :: ustr
  bq_foil :: bool
  bq_lang :: ustr
  bq_shipping :: ustr
  bq_note :: "ustr option"
  bq_mode :: ustr
  bq_key :: "string option"
  bq_market :: string

definition fallback_text :: "build_request \<Rightarrow> ustr" where
  "fallback_text q =
     lit (bq_user q) @ lit '':'' @ bq_card q @ lit '':'' @ bq_condition q @ lit '':'' @
     (if bq_foil q then lit ''True'' else lit ''False'')"

definition request_key :: "(ustr \<Rightarrow> string) \<Rightarrow> build_request \<Rightarrow> string" where
  "request_key uuid5 q =
     (case bq_key q of None \<Rightarrow> uuid5 (fallback_text q) | Some k \<Rightarrow> if k = [] then uuid5 (fallback_text q) else k)"

definition built_item ::
  "(ustr \<Rightarrow> card_data option) \<Rightarrow> (ustr \<Rightarrow> ustr res) \<Rightarrow> brand \<Rightarrow> build_request \<Rightarrow> item_model res" where
  "built_item fetch decimal brand q =
     (case fetch (bq_card q) of
        None \<Rightarrow> Inl ValueErr
      | Some cd \<Rightarrow>
          bind_res (parse_condition (upper (bq_condition q))) (\<lambda>c.
          bind_res (decimal (bq_price q)) (\<lambda>price.
          bind_res (decimal (bq_shipping q)) (\<lambda>shipping.
          bind_res (parse_mode (bq_mode q)) (\<lambda>mode.
            Inr (build_mtg_listing cd
              \<lparr>si_condition = c, si_quantity = bq_quantity q, si_foil = bq_foil q, si_lang = bq_lang q,
               si_price = price, si_shipping = shipping, si_note = bq_note q, si_mode = mode\<rparr>
              brand price shipping))))))"

definition build_and_create_listing ::
  "(ustr \<Rightarrow> card_data option) \<Rightarrow> (ustr \<Rightarrow> ustr res) \<Rightarrow> (ustr \<Rightarrow> string) \<Rightarrow> brand \<Rightarrow>
   (string \<Rightarrow> exchange res) \<Rightarrow> (item_model sent list \<Rightarrow> 'r res) \<Rightarrow> ('r \<Rightarrow> string option) \<Rightarrow> (string \<Rightarrow> 'r option) \<Rightarrow>
   string \<Rightarrow> build_request \<Rightarrow> ((item_model, 'p) shop, 'r) prog" where
  "build_and_create_listing fetch decimal uuid5 brand exch api dumps loads env q s =
     (case built_item fetch decimal brand q of
        Inl e \<Rightarrow> (Inl e, s)
      | Inr item \<Rightarrow>
          create_listing exch api dumps loads env (bq_user q) (bq_app q) item (request_key uuid5 q) (bq_market q) s)"

section \<open>Lengths\<close>

lemma title_starts: "prefix (cd_name cd) (join [32] (title_tokens b cd seller))"
  by (simp add: title_tokens_def join_Cons)

lemma prefix_take: "prefix p xs \<Longrightarrow> length p \<le> n \<Longrightarrow> prefix p (take n xs @ ys)"
  by (auto elim!: prefixE simp: prefix_def take_append)

text \<open>
  A title has at most 80 characters and a subtitle at most 55, as eBay demands; a title that is cut still
  starts with the whole card name when the name has at most 77 characters.
\<close>

theorem listing_texts_bounded:
  "length (it_title (build_mtg_listing cd seller brand price shipping)) \<le> 80 \<and>
   (\<forall>t. it_subtitle (build_mtg_listing cd seller brand price shipping) = Some t \<longrightarrow> length t \<le> 55) \<and>
   (length (cd_name cd) \<le> 77 \<longrightarrow> prefix (cd_name cd) (it_title (build_mtg_listing cd seller brand price shipping)))"
  by (auto simp: build_mtg_listing_def build_title_def build_subtitle_def Let_def title_starts prefix_take
      split: option.split)

section \<open>Escaping\<close>

definition esc_char :: "nat \<Rightarrow> ustr" where
  "esc_char c =
     (if c = 38 then lit ''&amp;'' else if c = 60 then lit ''&lt;'' else if c = 62 then lit ''&gt;''
      else if c = 34 then lit ''&quot;'' else if c = 39 then lit ''&#x27;'' else [c])"

lemma replace_all_append [simp]: "replace_all [a] new (s @ t) = replace_all [a] new s @ replace_all [a] new t"
  by (simp add: replace_all_char)

lemma esc_Cons: "esc (c # s) = esc_char c @ esc s"
  by (simp add: esc_def esc_char_def replace_all_char)

lemma esc_Nil [simp]: "esc [] = []"
  by (simp add: esc_def)

lemma esc_append [simp]: "esc (s @ t) = esc s @ esc t"
  by (simp add: esc_def)

text \<open>What a reader of the HTML makes of the five entities.\<close>

function unescape :: "ustr \<Rightarrow> ustr" where
  "unescape s =
     (if s = [] then []
      else if prefix (lit ''&amp;'') s then 38 # unescape (drop 5 s)
      else if prefix (lit ''&lt;'') s then 60 # unescape (drop 4 s)
      else if prefix (lit ''&gt;'') s then 62 # unescape (drop 4 s)
      else if prefix (lit ''&quot;'') s then 34 # unescape (drop 6 s)
      else if prefix (lit ''&#x27;'') s then 39 # unescape (drop 6 s)
      else hd s # unescape (tl s))"
  by pat_completeness auto
termination
  by (relation "measure length") auto

declare unescape.simps [simp del]

lemma unescape_esc_char: "unescape (esc_char c @ s) = c # unescape s"
  by (subst unescape.simps) (auto simp: esc_char_def)

text \<open>Escaping loses nothing: a reader who decodes the entities gets the text back.\<close>

theorem unescape_esc: "unescape (esc s) = s"
  by (induction s) (simp_all add: esc_Cons unescape_esc_char unescape.simps [of "[]"])

section \<open>No text adds a tag\<close>

definition tags :: "ustr \<Rightarrow> nat" where
  "tags s = count_list s 60"

lemma tags_simps [simp]: "tags [] = 0" "tags (c # s) = (if c = 60 then Suc (tags s) else tags s)"
  by (simp_all add: tags_def)

lemma tags_append [simp]: "tags (s @ t) = tags s + tags t"
  by (simp add: tags_def)

lemma tags_esc [simp]: "tags (esc s) = 0"
  by (induction s) (auto simp: esc_Cons esc_char_def)

definition newlines :: "ustr option \<Rightarrow> nat" where
  "newlines t = count_list (text_of t) 10"

lemma tags_breaks [simp]: "tags (replace_all [10] [60, 98, 114, 47, 62] s) = tags s + count_list s 10"
  by (induction s) (auto simp: replace_all_char)

lemma newlines_esc: "count_list (esc s) 10 = count_list s 10"
  by (induction s) (auto simp: esc_Cons esc_char_def)

lemma tags_oracle [simp]: "tags (oracle_to_html t) = newlines t"
  by (cases t) (auto simp: oracle_to_html_def given_def newlines_def text_of_def newlines_esc)

lemma tags_dget:
  assumes "\<forall>(k, v) \<in> set d. tags v = 0" "tags e = 0"
  shows "tags (case dget d x of None \<Rightarrow> e | Some v \<Rightarrow> v) = 0"
  using assms by (auto split: option.split dest!: map_of_SomeD)

lemma tags_fixed [simp]:
  "tags (condition_label c) = 0" "tags (condition_description c) = 0"
  "tags (map_lang_to_ebay l) = 0" "tags (map_rarity_to_ebay r) = 0"
proof -
  show "tags (condition_label c) = 0" "tags (condition_description c) = 0" by (cases c; simp)+
  show "tags (map_lang_to_ebay l) = 0" unfolding map_lang_to_ebay_def by (rule tags_dget) (simp_all add: lang_map_def)
  show "tags (map_rarity_to_ebay r) = 0" unfolding map_rarity_to_ebay_def by (rule tags_dget) (simp_all add: rarity_map_def)
qed

lemma tags_condition [simp]: "tags (build_condition_description c n) = 0"
  by (simp add: build_condition_description_def)

lemma tags_minimal: "tags (minimal_html cd seller) = 21 + (if si_foil seller then 4 else 0) + newlines (cd_oracle cd)"
  by (simp add: minimal_html_def)

lemma tags_blocks [simp]:
  "tags (flavor_block cd) = (if given (cd_flavor cd) then 2 else 0)"
  "tags (stats_block cd) = (if given (cd_power cd) \<and> given (cd_toughness cd) \<or> given (cd_loyalty cd) then 4 else 0)"
  "tags (note_block seller) = (if given (si_note seller) then 3 else 0)"
  "tags (image_block cd) = (if given (cd_image cd) then 3 else 0)"
  "tags (table_row b n v) = 6 + tags n + tags v"
  by (simp_all add: flavor_block_def stats_block_def note_block_def image_block_def table_row_def)

lemma tags_full:
  "tags (full_html cd seller brand) =
     55 + tags (bc_header brand) + tags (bc_footer brand) + newlines (cd_oracle cd) + tags (image_block cd) +
     tags (flavor_block cd) + tags (stats_block cd) + tags (note_block seller)"
  by (simp add: full_html_def)

text \<open>
  C13. No text of the card or of the seller adds a tag to the description: the number of tags depends on the
  mode, on which optional texts there are, and on the line breaks of the rules text only; of the brand, only
  the header and the footer add their own.
\<close>

theorem description_tags:
  "tags (build_description_html cd seller brand mode) =
     (case mode of
        Minimal \<Rightarrow> 21 + (if si_foil seller then 4 else 0) + newlines (cd_oracle cd)
      | Full \<Rightarrow> 55 + tags (bc_header brand) + tags (bc_footer brand) + newlines (cd_oracle cd) +
          (if given (cd_image cd) then 3 else 0) + (if given (cd_flavor cd) then 2 else 0) +
          (if given (cd_power cd) \<and> given (cd_toughness cd) \<or> given (cd_loyalty cd) then 4 else 0) +
          (if given (si_note seller) then 3 else 0))"
  by (cases mode) (simp_all add: build_description_html_def tags_minimal tags_full)

section \<open>Two listings, one key\<close>

lemma request_key_fallback:
  "bq_key q = None \<Longrightarrow> bq_key q' = None \<Longrightarrow> bq_user q' = bq_user q \<Longrightarrow> bq_card q' = bq_card q \<Longrightarrow>
   bq_condition q' = bq_condition q \<Longrightarrow> bq_foil q' = bq_foil q \<Longrightarrow> request_key uuid5 q' = request_key uuid5 q"
  by (simp add: request_key_def fallback_text_def)

text \<open>
  Without an idempotency key of the caller, a second listing of the same card, condition and finish is
  never created within a day, even in another language, quantity or at another price: the service answers it
  with the answer of the first one and sends nothing to eBay.
\<close>

theorem build_and_create_collides:
  assumes "build_and_create_listing fetch decimal uuid5 brand exch api dumps loads env q s = (Inr r, s')"
    and "store_get (sh_now s) (request_key uuid5 q) (sh_store s) = None" "store_up (sh_store s)"
    and "dumps r = Some answer" "loads answer = Some r'" "d < key_ttl"
    and "bq_key q = None" "bq_key q' = None" "bq_user q' = bq_user q" "bq_card q' = bq_card q"
      "bq_condition q' = bq_condition q" "bq_foil q' = bq_foil q"
    and "is_ok (built_item fetch decimal brand q')"
  shows "build_and_create_listing fetch decimal uuid5 brand exch api dumps loads env q' (tick d s') = (Inr r', tick d s')"
proof -
  from assms(1) obtain item where "create_listing exch api dumps loads env (bq_user q) (bq_app q) item
      (request_key uuid5 q) (bq_market q) s = (Inr r, s')"
    by (auto simp: build_and_create_listing_def split: sum.splits)
  from create_replayed [OF this assms(2-6)]
  have replay: "create_listing exch api dumps loads env user code item' (request_key uuid5 q) market (tick d s') = (Inr r', tick d s')"
    for user code item' market by blast
  from assms(13) obtain item' where "built_item fetch decimal brand q' = Inr item'" by (auto simp: is_ok_iff)
  with replay request_key_fallback [of q q' uuid5] assms(7-12) show ?thesis
    by (simp add: build_and_create_listing_def)
qed

section \<open>Samples\<close>

definition demo_card :: card_data where
  "demo_card =
     \<lparr>cd_version = lit ''v1'', cd_name = lit ''Black Lotus'', cd_set_name = lit ''Alpha'', cd_set_code = lit ''lea'',
      cd_number = lit ''232'', cd_mana = None, cd_oracle = None, cd_type = Some (lit ''Artifact''), cd_rarity = lit ''rare'',
      cd_colors = [], cd_power = None, cd_toughness = None, cd_loyalty = None, cd_image = None, cd_flavor = None,
      cd_scryfall = None\<rparr>"

definition demo_brand :: brand where
  "demo_brand =
     \<lparr>bc_tagline = [], bc_accent = [], bc_header = [], bc_footer = [], bc_return_policy = [], bc_dispatch = 3,
      bc_postcode = [], bc_location = [], bc_shipping_profile = None, bc_return_profile = None, bc_payment_profile = None\<rparr>"

definition demo_seller :: seller_input where
  "demo_seller =
     \<lparr>si_condition = NM, si_quantity = 1, si_foil = False, si_lang = lit ''ja'', si_price = lit ''9'', si_shipping = lit ''0'',
      si_note = None, si_mode = Minimal\<rparr>"

theorem listing_texts_bounded_witness:
  "build_title demo_card demo_seller = lit ''Black Lotus LEA 232 JA NM MTG'' \<and>
   prefix (lit ''Black Lotus'') (it_title (build_mtg_listing demo_card demo_seller demo_brand [] []))"
proof -
  have "build_title demo_card demo_seller = lit ''Black Lotus LEA 232 JA NM MTG''" by code_simp
  moreover have "prefix (lit ''Black Lotus'') (it_title (build_mtg_listing demo_card demo_seller demo_brand [] []))"
    using listing_texts_bounded [of demo_card demo_seller demo_brand "[]" "[]"] by (simp add: demo_card_def)
  ultimately show ?thesis by blast
qed

definition demo_request :: "ustr \<Rightarrow> ustr \<Rightarrow> build_request" where
  "demo_request lang price =
     \<lparr>bq_user = ''ann'', bq_app = ''main'', bq_card = lit ''v1'', bq_condition = lit ''nm'', bq_quantity = 1, bq_price = price,
      bq_foil = False, bq_lang = lang, bq_shipping = lit ''0.00'', bq_note = None, bq_mode = lit ''minimal'', bq_key = None,
      bq_market = ''15''\<rparr>"

definition build_shop :: "(item_model, nat page) shop" where
  "build_shop = \<lparr>sh_ebay = demo_prod, sh_store = Redis \<lparr>rd_keys = [], rd_up = True\<rparr>, sh_calls = [], sh_pages = [],
     sh_cache_up = True\<rparr>"

abbreviation "demo_build \<equiv> build_and_create_listing (\<lambda>_. Some demo_card) Inr (\<lambda>_. ''k1'') demo_brand (\<lambda>_. Inl ValueErr)
  (\<lambda>_. Inr (5 :: nat)) (\<lambda>_. Some ''{}'') (\<lambda>_. Some (6 :: nat)) ''sandbox''"

lemma demo_built: "is_ok (built_item (\<lambda>_. Some demo_card) Inr demo_brand (demo_request lang price))"
proof -
  have "parse_condition (upper (lit ''nm'')) = Inr NM" "parse_mode (lit ''minimal'') = Inr Minimal" by code_simp+
  then show ?thesis by (simp add: built_item_def demo_request_def)
qed

lemma demo_build_first: "\<exists>s'. demo_build (demo_request (lit ''en'') (lit ''9'')) build_shop = (Inr 5, s')"
proof -
  let ?q = "demo_request (lit ''en'') (lit ''9'')"
  obtain item where item: "built_item (\<lambda>_. Some demo_card) Inr demo_brand ?q = Inr item"
    using demo_built by (auto simp: is_ok_iff)
  have "sh_ebay build_shop = demo_prod" by (simp add: build_shop_def)
  then have "\<exists>s'. create_missed (\<lambda>_. Inl ValueErr) (\<lambda>_. Inr (5 :: nat)) (\<lambda>_. Some ''{}'') ''sandbox'' ''ann'' ''main''
      item ''k1'' ''15'' build_shop = (Inr 5, s')"
    by (simp add: create_missed_def demo_token bindp_def send_request_def transmit_def finish_command_def)
  moreover have "cached_answer (\<lambda>_. Some (6 :: nat)) ''k1'' build_shop = None"
    by (simp add: cached_answer_def build_shop_def redis_get_def live_def)
  ultimately show ?thesis
    using item by (simp add: build_and_create_listing_def create_listing_def request_key_def demo_request_def)
qed

theorem build_and_create_collides_witness:
  "\<exists>s'. demo_build (demo_request (lit ''en'') (lit ''9'')) build_shop = (Inr 5, s') \<and>
     demo_build (demo_request (lit ''ja'') (lit ''700'')) (tick 60 s') = (Inr 6, tick 60 s')"
proof -
  obtain s' where s': "demo_build (demo_request (lit ''en'') (lit ''9'')) build_shop = (Inr 5, s')"
    using demo_build_first by blast
  have "demo_build (demo_request (lit ''ja'') (lit ''700'')) (tick 60 s') = (Inr 6, tick 60 s')"
    by (rule build_and_create_collides [OF s', where answer = "''{}''"])
      (use demo_built in \<open>simp_all add: demo_request_def build_shop_def request_key_def redis_get_def live_def key_ttl_def\<close>)
  with s' show ?thesis by blast
qed

end
