(* ===== verification/Trading_Xml.thy ===== *)
theory Trading_Xml
  imports Listing_Builder
begin

text \<open>
  The XML requests of eBay's Trading API: the conversion of an item's fields to elements and the generators of
  requests (\<open>ebay/xml_utils.py\<close>), the older builder (\<open>schemas/ebay/EbayXmlBuilder.py\<close>), the text that
  \<open>xml.etree.ElementTree\<close> writes for them, and the requests of \<open>EbaySellingRepository\<close> with their headers.

  The dump of an item is the list of its fields, as \<open>model_dump(exclude_none=True)\<close> gives them; a nested model is
  dumped to its fields. \<open>str\<close> of a list or a dictionary is a parameter.
\<close>

section \<open>Values and elements\<close>

text \<open>A number is given by its \<open>str\<close>.\<close>

datatype py_value =
    Missing
  | Flag bool
  | Scalar ustr
  | Items "py_value list"
  | Fields "(ustr \<times> py_value) list"

type_synonym item_dump = "(ustr \<times> py_value) list"

text \<open>An element with its name, its text (empty when it has none) and its children; no element but the root has attributes.\<close>

datatype xml = Elem ustr ustr "xml list"

fun to_xml_element :: "ustr \<Rightarrow> py_value \<Rightarrow> xml list" where
  "to_xml_element n Missing = []"
| "to_xml_element n (Fields kvs) = [Elem n [] (concat (map (\<lambda>kv. to_xml_element (fst kv) (snd kv)) kvs))]"
| "to_xml_element n (Items vs) = concat (map (to_xml_element n) vs)"
| "to_xml_element n (Flag b) = [Elem n (if b then lit ''True'' else lit ''False'') []]"
| "to_xml_element n (Scalar s) = [Elem n s []]"

definition item_elements :: "item_dump \<Rightarrow> xml list" where
  "item_elements item = concat (map (\<lambda>kv. to_xml_element (fst kv) (snd kv)) item)"

section \<open>The text of a tree\<close>

text \<open>\<open>_escape_cdata\<close>: the ampersand first.\<close>

definition escape_cdata :: "ustr \<Rightarrow> ustr" where
  "escape_cdata s =
     replace_all [62] (lit ''&gt;'') (replace_all [60] (lit ''&lt;'') (replace_all [38] (lit ''&amp;'') s))"

fun write_xml :: "ustr \<Rightarrow> xml \<Rightarrow> ustr" where
  "write_xml attrs (Elem n t cs) =
     [60] @ n @ attrs @
     (if t = [] \<and> cs = [] then lit '' />''
      else [62] @ escape_cdata t @ concat (map (write_xml []) cs) @ [60, 47] @ n @ [62])"

definition xmlns :: ustr where
  "xmlns = lit ''urn:ebay:apis:eBLBaseComponents''"

definition root_attrs :: ustr where
  "root_attrs = lit '' xmlns='' @ [34] @ xmlns @ [34]"

definition tostring :: "ustr \<Rightarrow> xml list \<Rightarrow> ustr" where
  "tostring n cs = write_xml root_attrs (Elem n [] cs)"

definition xml_declaration :: ustr where
  "xml_declaration = lit ''<?xml version='' @ [34] @ lit ''1.0'' @ [34] @ lit '' encoding='' @ [34] @ lit ''utf-8'' @ [34] @ lit ''?>''"

section \<open>The generators\<close>

definition sub :: "string \<Rightarrow> ustr \<Rightarrow> xml" where
  "sub n t = Elem (lit n) t []"

definition standard_elements :: "xml list" where
  "standard_elements = [sub ''ErrorLanguage'' (lit ''en_US''), sub ''WarningLevel'' (lit ''High'')]"

definition generate_add_fixed_price_item_request_xml :: "item_dump \<Rightarrow> ustr" where
  "generate_add_fixed_price_item_request_xml item =
     tostring (lit ''AddFixedPriceItemRequest'') (standard_elements @ [Elem (lit ''Item'') [] (item_elements item)])"

definition has_item_id :: "item_dump \<Rightarrow> bool" where
  "has_item_id item \<longleftrightarrow> (case map_of item (lit ''ItemID'') of Some (Scalar s) \<Rightarrow> s \<noteq> [] | _ \<Rightarrow> False)"

definition generate_revise_item_request_xml :: "item_dump \<Rightarrow> ustr res" where
  "generate_revise_item_request_xml item =
     (if \<not> has_item_id item then Inl ValueErr
      else Inr (tostring (lit ''ReviseItemRequest'')
                  (standard_elements @ [Elem (lit ''Item'') [] (item_elements item)])))"

definition generate_end_item_request_xml :: "ustr \<Rightarrow> ustr \<Rightarrow> ustr" where
  "generate_end_item_request_xml item_id reason =
     tostring (lit ''EndItemRequest'')
       (standard_elements @ [sub ''ItemID'' item_id, sub ''EndingReason'' reason])"

definition generate_get_item_request_xml :: "ustr \<Rightarrow> ustr" where
  "generate_get_item_request_xml item_id =
     tostring (lit ''GetItemRequest'') (standard_elements @ [sub ''ItemID'' item_id])"

definition output_selectors :: "ustr list" where
  "output_selectors =
     map (\<lambda>s. lit ''ActiveList.'' @ lit s)
       [''ItemArray.Item.ItemID'', ''ItemArray.Item.Title'', ''ItemArray.Item.BuyItNowPrice'',
        ''ItemArray.Item.SellingStatus'', ''ItemArray.Item.ConditionID'', ''ItemArray.Item.ConditionDisplayName'',
        ''ItemArray.Item.PictureDetails'', ''ItemArray.Item.ItemSpecifics'', ''ItemArray.Item.ListingDetails'',
        ''ItemArray.Item.WatchCount'', ''PaginationResult'']"

definition generate_get_my_ebay_selling_request_xml :: "int \<Rightarrow> int \<Rightarrow> ustr" where
  "generate_get_my_ebay_selling_request_xml per_page page =
     xml_declaration @ tostring (lit ''GetMyeBaySellingRequest'')
       (standard_elements @ map (sub ''OutputSelector'') output_selectors @
        [Elem (lit ''ActiveList'') []
           [sub ''Sort'' (lit ''TimeLeft''),
            Elem (lit ''Pagination'') []
              [sub ''EntriesPerPage'' (str_int per_page), sub ''PageNumber'' (str_int (max page 1))]]])"

definition generate_upload_site_hosted_pictures_request_xml :: ustr where
  "generate_upload_site_hosted_pictures_request_xml =
     tostring (lit ''UploadSiteHostedPicturesRequest'')
       [sub ''PictureSystemVersion'' (lit ''2''), sub ''PictureSet'' (lit ''Supersize'')]"

section \<open>The requests of the repository\<close>

definition trading_headers :: "string \<Rightarrow> string \<Rightarrow> string \<Rightarrow> (string, string) dict" where
  "trading_headers token marketplace_id call_name =
     [(''X-EBAY-API-SITEID'', marketplace_id), (''X-EBAY-API-COMPATIBILITY-LEVEL'', ''1421''),
      (''X-EBAY-API-CALL-NAME'', call_name), (''X-EBAY-API-IAF-TOKEN'', token)]"

definition xml_headers :: "string \<Rightarrow> string \<Rightarrow> string \<Rightarrow> (string, string) dict" where
  "xml_headers token marketplace_id call_name =
     trading_headers token marketplace_id call_name @ [(''Content-Type'', ''text/xml'')]"

text \<open>The headers and the XML of a request; of an upload, the XML part of the form.\<close>

fun posted :: "string \<Rightarrow> item_dump request \<Rightarrow> ((string, string) dict \<times> ustr) res" where
  "posted token (Create item market) =
     Inr (xml_headers token market ''AddFixedPriceItem'', generate_add_fixed_price_item_request_xml item)"
| "posted token (Update item market) =
     bind_res (generate_revise_item_request_xml item) (\<lambda>body. Inr (xml_headers token market ''ReviseItem'', body))"
| "posted token (End_Item item_id reason verify market) =
     (if item_id = [] then Inl ValueErr
      else Inr (xml_headers token market (if verify then ''VerifyEndItem'' else ''EndItem''),
                generate_end_item_request_xml (lit item_id) (lit reason)))"
| "posted token (Active per_page page market) =
     Inr (xml_headers token market ''GetMyeBaySelling'', generate_get_my_ebay_selling_request_xml per_page page)"
| "posted token (Upload bytes content_type) =
     Inr (trading_headers token ''15'' ''UploadSiteHostedPictures'', generate_upload_site_hosted_pictures_request_xml)"

section \<open>The older builder\<close>

type_synonym xml_builder = "ustr \<times> xml list"

definition new_xml_builder :: "ustr \<Rightarrow> xml_builder" where
  "new_xml_builder request = (request, standard_elements)"

definition py_str :: "(py_value \<Rightarrow> ustr) \<Rightarrow> py_value \<Rightarrow> ustr" where
  "py_str show v =
     (case v of Missing \<Rightarrow> lit ''None'' | Flag b \<Rightarrow> if b then lit ''True'' else lit ''False'' | Scalar s \<Rightarrow> s | _ \<Rightarrow> show v)"

definition add_element :: "(py_value \<Rightarrow> ustr) \<Rightarrow> ustr \<Rightarrow> py_value \<Rightarrow> xml_builder \<Rightarrow> xml_builder" where
  "add_element show n v b =
     (if v = Missing then b else (fst b, snd b @ [Elem n (py_str show v) []]))"

definition add_nested_element :: "(py_value \<Rightarrow> ustr) \<Rightarrow> ustr \<Rightarrow> item_dump \<Rightarrow> xml_builder \<Rightarrow> xml_builder" where
  "add_nested_element show n kvs b =
     (fst b, snd b @ [Elem n [] (map (\<lambda>(k, v). Elem k (py_str show v) []) (filter (\<lambda>(k, v). v \<noteq> Missing) kvs))])"

text \<open>The elements of one entry of a dictionary, and those of a member of a list.\<close>

fun entry_xml :: "(py_value \<Rightarrow> ustr) \<Rightarrow> bool \<Rightarrow> ustr \<Rightarrow> py_value \<Rightarrow> xml list" where
  "entry_xml show member k Missing = (if member then [Elem k (lit ''None'') []] else [])"
| "entry_xml show member k (Fields d) = [Elem k [] (concat (map (\<lambda>kv. entry_xml show False (fst kv) (snd kv)) d))]"
| "entry_xml show member k (Items vs) =
     (if member then [Elem k (show (Items vs)) []] else concat (map (entry_xml show True k) vs))"
| "entry_xml show member k (Flag b) = [Elem k (if b then lit ''True'' else lit ''False'') []]"
| "entry_xml show member k (Scalar s) = [Elem k s []]"

definition dict_to_xml :: "(py_value \<Rightarrow> ustr) \<Rightarrow> ustr \<Rightarrow> item_dump \<Rightarrow> xml" where
  "dict_to_xml show n data = Elem n [] (concat (map (\<lambda>kv. entry_xml show False (fst kv) (snd kv)) data))"

definition add_item :: "(py_value \<Rightarrow> ustr) \<Rightarrow> item_dump \<Rightarrow> xml_builder \<Rightarrow> xml_builder" where
  "add_item show item b = (fst b, snd b @ [dict_to_xml show (lit ''Item'') item])"

definition to_string :: "xml_builder \<Rightarrow> ustr" where
  "to_string b = xml_declaration @ [10] @ tostring (fst b) (snd b)"

definition create_get_item_request :: "(py_value \<Rightarrow> ustr) \<Rightarrow> ustr \<Rightarrow> ustr" where
  "create_get_item_request show item_id =
     to_string (add_element show (lit ''ItemID'') (Scalar item_id) (new_xml_builder (lit ''GetItemRequest'')))"

definition create_add_item_request :: "(py_value \<Rightarrow> ustr) \<Rightarrow> item_dump \<Rightarrow> ustr" where
  "create_add_item_request show item = to_string (add_item show item (new_xml_builder (lit ''AddItemRequest'')))"

definition create_revise_item_request :: "(py_value \<Rightarrow> ustr) \<Rightarrow> item_dump \<Rightarrow> ustr res" where
  "create_revise_item_request show item =
     (if \<not> has_item_id item then Inl ValueErr
      else Inr (to_string (add_item show item (new_xml_builder (lit ''ReviseItemRequest'')))))"

definition create_end_item_request :: "(py_value \<Rightarrow> ustr) \<Rightarrow> ustr \<Rightarrow> ustr \<Rightarrow> ustr" where
  "create_end_item_request show item_id reason =
     to_string (add_element show (lit ''EndingReason'') (Scalar reason)
       (add_element show (lit ''ItemID'') (Scalar item_id) (new_xml_builder (lit ''EndItemRequest''))))"

definition page_fields :: "int \<Rightarrow> int \<Rightarrow> py_value" where
  "page_fields per_page page =
     Fields [(lit ''EntriesPerPage'', Scalar (str_int per_page)), (lit ''PageNumber'', Scalar (str_int page))]"

definition create_get_items_request :: "(py_value \<Rightarrow> ustr) \<Rightarrow> int list \<Rightarrow> int \<Rightarrow> int \<Rightarrow> ustr" where
  "create_get_items_request show ids per_page page =
     to_string (add_element show (lit ''Pagination'') (page_fields per_page page)
       (fold (\<lambda>i. add_element show (lit ''ItemID'') (Scalar (str_int i))) ids (new_xml_builder (lit ''GetItemRequest''))))"

definition create_get_all_items_request :: "(py_value \<Rightarrow> ustr) \<Rightarrow> int \<Rightarrow> int \<Rightarrow> ustr" where
  "create_get_all_items_request show per_page page =
     to_string (add_element show (lit ''Pagination'') (page_fields per_page page) (new_xml_builder (lit ''GetItemRequest'')))"

section \<open>What a reader of the XML gets\<close>

text \<open>
  The characters that XML 1.0 allows in a document, and those of the names the program uses; the end of a line is
  read as a line feed.
\<close>

definition xml_char :: "nat \<Rightarrow> bool" where
  "xml_char c \<longleftrightarrow>
     c = 9 \<or> c = 10 \<or> c = 13 \<or> (32 \<le> c \<and> c \<le> 55295) \<or> (57344 \<le> c \<and> c \<le> 65533) \<or> (65536 \<le> c \<and> c \<le> 1114111)"

definition name_char :: "nat \<Rightarrow> bool" where
  "name_char c \<longleftrightarrow>
     (48 \<le> c \<and> c \<le> 57) \<or> (65 \<le> c \<and> c \<le> 90) \<or> (97 \<le> c \<and> c \<le> 122) \<or> c = 45 \<or> c = 46 \<or> c = 95"

fun line_ends :: "ustr \<Rightarrow> ustr" where
  "line_ends [] = []"
| "line_ends [c] = [if c = 13 then 10 else c]"
| "line_ends (c # d # s) =
     (if c = 13 then 10 # (if d = 10 then line_ends s else line_ends (d # s)) else c # line_ends (d # s))"

text \<open>An element after its name and attributes, and a list of elements up to an end tag.\<close>

fun read_body :: "nat \<Rightarrow> ustr \<Rightarrow> ustr \<Rightarrow> (xml \<times> ustr) option"
  and read_elems :: "nat \<Rightarrow> ustr \<Rightarrow> (xml list \<times> ustr) option" where
  "read_body 0 n s = None"
| "read_body (Suc k) n s =
     (if prefix (lit '' />'') s then Some (Elem n [] [], drop 3 s)
      else if prefix [62] s then
        (case read_elems k (dropWhile (\<lambda>c. c \<noteq> 60) (drop 1 s)) of
           None \<Rightarrow> None
         | Some (cs, r) \<Rightarrow>
             if prefix ([60, 47] @ n @ [62]) r
             then Some (Elem n (unescape (takeWhile (\<lambda>c. c \<noteq> 60) (drop 1 s))) cs, drop (3 + length n) r)
             else None)
      else None)"
| "read_elems 0 s = None"
| "read_elems (Suc k) s =
     (if prefix [60, 47] s then Some ([], s)
      else if prefix [60] s then
        (case read_body k (takeWhile name_char (drop 1 s)) (dropWhile name_char (drop 1 s)) of
           None \<Rightarrow> None
         | Some (x, r) \<Rightarrow> (case read_elems k r of None \<Rightarrow> None | Some (xs, r') \<Rightarrow> Some (x # xs, r')))
      else None)"

definition read_root :: "ustr \<Rightarrow> (ustr \<times> xml) option" where
  "read_root s =
     (let n = takeWhile name_char (drop 1 s); r = dropWhile name_char (drop 1 s) in
      if prefix [60] s \<and> prefix (lit '' xmlns='' @ [34]) r then
        let ns = takeWhile (\<lambda>c. c \<noteq> 34) (drop 8 r); r' = drop 1 (dropWhile (\<lambda>c. c \<noteq> 34) (drop 8 r)) in
        (case read_body (length s) n r' of Some (x, []) \<Rightarrow> Some (ns, x) | _ \<Rightarrow> None)
      else None)"

definition skip_declaration :: "ustr \<Rightarrow> ustr" where
  "skip_declaration s =
     (if prefix xml_declaration s then dropWhile (\<lambda>c. c = 10) (drop (length xml_declaration) s) else s)"

definition read_document :: "ustr \<Rightarrow> (ustr \<times> xml) option" where
  "read_document s = (if list_all xml_char s then read_root (skip_declaration (line_ends s)) else None)"

section \<open>Writing and reading\<close>

definition cdata_char :: "nat \<Rightarrow> ustr" where
  "cdata_char c = (if c = 38 then lit ''&amp;'' else if c = 60 then lit ''&lt;'' else if c = 62 then lit ''&gt;'' else [c])"

lemma escape_cdata_Cons: "escape_cdata (c # s) = cdata_char c @ escape_cdata s"
  by (simp add: escape_cdata_def cdata_char_def replace_all_char)

lemma escape_cdata_Nil [simp]: "escape_cdata [] = []"
  by (simp add: escape_cdata_def)

lemma unescape_cdata_char: "unescape (cdata_char c @ s) = c # unescape s"
  by (subst unescape.simps) (auto simp: cdata_char_def)

lemma unescape_cdata [simp]: "unescape (escape_cdata s) = s"
  by (induction s) (simp_all add: escape_cdata_Cons unescape_cdata_char unescape.simps [of "[]"])

lemma cdata_no_tag: "60 \<notin> set (escape_cdata s)"
  by (induction s) (simp_all add: escape_cdata_Cons cdata_char_def)

lemma escape_cdata_Nil_iff [simp]: "escape_cdata s = [] \<longleftrightarrow> s = []"
  by (cases s) (simp_all add: escape_cdata_Cons cdata_char_def)

definition xml_name :: "ustr \<Rightarrow> bool" where
  "xml_name n \<longleftrightarrow> n \<noteq> [] \<and> list_all name_char n"

definition plain_text :: "ustr \<Rightarrow> bool" where
  "plain_text s \<longleftrightarrow> list_all (\<lambda>c. xml_char c \<and> c \<noteq> 13) s"

fun well_formed :: "xml \<Rightarrow> bool" where
  "well_formed (Elem n t cs) \<longleftrightarrow> xml_name n \<and> plain_text t \<and> list_all well_formed cs"

fun reading_fuel :: "xml \<Rightarrow> nat" where
  "reading_fuel (Elem n t cs) = Suc (Suc (sum_list (map (\<lambda>c. Suc (reading_fuel c)) cs)))"

definition inner_xml :: "xml \<Rightarrow> ustr" where
  "inner_xml x = (case x of Elem n t cs \<Rightarrow>
     if t = [] \<and> cs = [] then lit '' />''
     else [62] @ escape_cdata t @ concat (map (write_xml []) cs) @ [60, 47] @ n @ [62])"

fun tag_of :: "xml \<Rightarrow> ustr" where
  "tag_of (Elem n t cs) = n"

lemma write_inner: "write_xml a x = 60 # tag_of x @ a @ inner_xml x"
  by (cases x) (simp add: inner_xml_def)

lemma inner_ends_name: "inner_xml x = c # s \<Longrightarrow> \<not> name_char c"
  by (cases x) (auto simp: inner_xml_def name_char_def split: if_splits)

lemma inner_not_Nil: "inner_xml x \<noteq> []"
  by (cases x) (simp add: inner_xml_def)

lemma read_name:
  assumes "xml_name n"
  shows "takeWhile name_char (n @ inner_xml x @ r) = n" "dropWhile name_char (n @ inner_xml x @ r) = inner_xml x @ r"
proof -
  obtain c s where "inner_xml x = c # s" "\<not> name_char c"
    using inner_not_Nil [of x] inner_ends_name [of x] by (cases "inner_xml x") auto
  then show "takeWhile name_char (n @ inner_xml x @ r) = n" "dropWhile name_char (n @ inner_xml x @ r) = inner_xml x @ r"
    using assms by (auto simp: xml_name_def list_all_iff takeWhile_append dropWhile_append)
qed

lemma name_starts: "xml_name n \<Longrightarrow> \<not> prefix [47] (n @ s)"
  by (cases n) (auto simp: xml_name_def name_char_def)

definition reads_back :: "xml \<Rightarrow> bool" where
  "reads_back x \<longleftrightarrow> (\<forall>k r. reading_fuel x \<le> k \<longrightarrow> read_body k (tag_of x) (inner_xml x @ r) = Some (x, r))"

lemma well_formed_tag: "well_formed x \<Longrightarrow> xml_name (tag_of x)"
  by (cases x) simp

lemma read_children:
  assumes "list_all well_formed cs" "list_all reads_back cs" "Suc (sum_list (map (\<lambda>c. Suc (reading_fuel c)) cs)) \<le> k"
  shows "read_elems k (concat (map (write_xml []) cs) @ 60 # 47 # r) = Some (cs, 60 # 47 # r)"
  using assms
proof (induction cs arbitrary: k)
  case Nil
  then show ?case by (cases k) simp_all
next
  case (Cons x xs)
  then obtain j where k: "k = Suc j" by (cases k) simp_all
  have n: "xml_name (tag_of x)" using Cons.prems(1) by (simp add: well_formed_tag)
  let ?r = "concat (map (write_xml []) xs) @ 60 # 47 # r"
  have x: "read_body j (tag_of x) (inner_xml x @ ?r) = Some (x, ?r)"
    using Cons.prems k by (simp add: reads_back_def)
  have xs: "read_elems j ?r = Some (xs, 60 # 47 # r)"
    using Cons.prems k by (intro Cons.IH) simp_all
  show ?case
    using name_starts [OF n, of "inner_xml x @ ?r"] read_name [OF n, of x ?r] x xs
    by (simp add: k write_inner [of "[]" x])
qed

lemma takeWhile_cdata:
  "takeWhile (\<lambda>c. c \<noteq> 60) (escape_cdata t @ 60 # s) = escape_cdata t"
  "dropWhile (\<lambda>c. c \<noteq> 60) (escape_cdata t @ 60 # s) = 60 # s"
  using cdata_no_tag [of t] by (induction "escape_cdata t" arbitrary: t) (auto simp: takeWhile_append dropWhile_append)

lemma read_written: "well_formed x \<Longrightarrow> reads_back x"
proof (induction x)
  case (Elem n t cs)
  have wf: "list_all well_formed cs" and rb: "list_all reads_back cs"
    using Elem by (auto simp: list_all_iff)
  have "read_body k n (inner_xml (Elem n t cs) @ r) = Some (Elem n t cs, r)" if fuel: "reading_fuel (Elem n t cs) \<le> k" for k r
  proof (cases "t = [] \<and> cs = []")
    case True
    then show ?thesis using fuel by (cases k) (simp_all add: inner_xml_def)
  next
    case False
    let ?rest = "concat (map (write_xml []) cs) @ 60 # 47 # n @ 62 # r"
    obtain j where k: "k = Suc j" using fuel by (cases k) simp_all
    have e: "inner_xml (Elem n t cs) @ r = 62 # escape_cdata t @ ?rest" using False by (auto simp: inner_xml_def)
    have c: "read_elems j ?rest = Some (cs, 60 # 47 # n @ 62 # r)"
      using read_children [OF wf rb, of j "n @ 62 # r"] fuel k by simp
    obtain s where s: "?rest = 60 # s"
      by (cases cs) (auto simp: write_inner)
    show ?thesis
      using c by (simp add: e k s takeWhile_cdata numeral_3_eq_3)
  qed
  then show ?case by (simp add: reads_back_def)
qed

section \<open>Documents\<close>

lemma fuel_of_text: "Suc (reading_fuel x) \<le> length (write_xml a x)"
proof (induction x arbitrary: a)
  case (Elem n t cs)
  have "(\<Sum>c\<leftarrow>cs. Suc (reading_fuel c)) \<le> (\<Sum>c\<leftarrow>cs. length (write_xml [] c))"
    using Elem by (intro sum_list_mono) simp
  then show ?case
    by (simp add: length_concat o_def)
qed

lemma list_all_cdata [simp]: "list_all xml_char (escape_cdata s) \<longleftrightarrow> list_all xml_char s"
  by (induction s) (simp_all add: escape_cdata_Cons cdata_char_def, auto simp: xml_char_def)

lemma cr_cdata [simp]: "13 \<in> set (escape_cdata s) \<longleftrightarrow> 13 \<in> set s"
  by (induction s) (simp_all add: escape_cdata_Cons cdata_char_def)

lemma plain_cdata [simp]: "plain_text (escape_cdata s) \<longleftrightarrow> plain_text s"
proof -
  have eq: "plain_text u \<longleftrightarrow> list_all xml_char u \<and> 13 \<notin> set u" for u
    by (auto simp: plain_text_def list_all_iff)
  show ?thesis by (simp add: eq)
qed

lemma plain_simps [simp]:
  "plain_text []" "plain_text (c # s) \<longleftrightarrow> xml_char c \<and> c \<noteq> 13 \<and> plain_text s"
  "plain_text (s @ t) \<longleftrightarrow> plain_text s \<and> plain_text t"
  by (auto simp: plain_text_def)

lemma name_plain: "xml_name n \<Longrightarrow> plain_text n"
  by (auto simp: xml_name_def plain_text_def list_all_iff name_char_def xml_char_def)

lemma plain_concat: "list_all plain_text xs \<Longrightarrow> plain_text (concat xs)"
  by (induction xs) simp_all

lemma plain_tree: "well_formed x \<Longrightarrow> plain_text a \<Longrightarrow> plain_text (write_xml a x)"
proof (induction x arbitrary: a)
  case (Elem n t cs)
  have "list_all plain_text (map (write_xml []) cs)"
    using Elem by (auto simp: list_all_iff)
  then show ?case
    using Elem.prems by (simp add: name_plain plain_concat) (simp add: xml_char_def)
qed

lemma line_ends_plain: "plain_text s \<Longrightarrow> line_ends s = s"
  by (induction s rule: line_ends.induct) simp_all

lemma plain_legal: "plain_text s \<Longrightarrow> list_all xml_char s"
  by (simp add: plain_text_def list_all_iff)

lemma root_attrs_read:
  "prefix (lit '' xmlns='' @ [34]) (root_attrs @ z) \<longleftrightarrow> True"
  "takeWhile (\<lambda>c. c \<noteq> 34) (drop 8 (root_attrs @ z)) = xmlns"
  "drop 1 (dropWhile (\<lambda>c. c \<noteq> 34) (drop 8 (root_attrs @ z))) = z"
  by (simp_all add: root_attrs_def xmlns_def)

lemma tostring_inner: "tostring n cs = 60 # n @ root_attrs @ inner_xml (Elem n [] cs)"
  by (simp add: tostring_def write_inner)

lemma root_reads_back:
  assumes "well_formed (Elem n [] cs)"
  shows "read_root (tostring n cs) = Some (xmlns, Elem n [] cs)"
proof -
  let ?x = "Elem n [] cs" and ?s = "tostring n cs"
  have at: "takeWhile name_char (n @ root_attrs @ inner_xml ?x) = n"
    "dropWhile name_char (n @ root_attrs @ inner_xml ?x) = root_attrs @ inner_xml ?x"
    using assms by (auto simp: xml_name_def list_all_iff takeWhile_append dropWhile_append root_attrs_def name_char_def)
  have "reading_fuel ?x \<le> length ?s"
    using fuel_of_text [of ?x root_attrs] unfolding tostring_def by (rule Suc_leD)
  then have "read_body (length ?s) (tag_of ?x) (inner_xml ?x @ []) = Some (?x, [])"
    using read_written [OF assms] unfolding reads_back_def by blast
  then have b: "read_body (length ?s) n (inner_xml ?x) = Some (?x, [])"
    by (simp only: tag_of.simps append_Nil2)
  have d: "drop 1 ?s = n @ root_attrs @ inner_xml ?x" and h: "prefix [60] ?s \<longleftrightarrow> True"
    by (simp_all add: tostring_inner)
  show ?thesis
    unfolding read_root_def Let_def d at root_attrs_read h b by simp
qed

lemma tostring_plain: "well_formed (Elem n [] cs) \<Longrightarrow> plain_text (tostring n cs)"
  unfolding tostring_def by (erule plain_tree) (simp add: root_attrs_def xmlns_def plain_text_def xml_char_def)

lemma document_reads_back:
  assumes "well_formed (Elem n [] cs)"
  shows "read_document (tostring n cs) = Some (xmlns, Elem n [] cs)"
proof -
  have "\<not> prefix xml_declaration (60 # n @ z)" for z :: ustr
    by (cases n) (use assms in \<open>auto simp: xml_declaration_def xml_name_def name_char_def\<close>)
  then have "skip_declaration (tostring n cs) = tostring n cs"
    by (simp add: tostring_inner skip_declaration_def)
  then show ?thesis
    using tostring_plain [OF assms] root_reads_back [OF assms]
    by (simp add: read_document_def plain_legal line_ends_plain)
qed

lemma declared_reads_back:
  assumes "well_formed (Elem n [] cs)" "list_all (\<lambda>c. c = 10) gap"
  shows "read_document (xml_declaration @ gap @ tostring n cs) = Some (xmlns, Elem n [] cs)"
proof -
  have d: "plain_text xml_declaration" by (simp add: xml_declaration_def xml_char_def)
  have g: "plain_text gap" using assms(2) by (auto simp: plain_text_def list_all_iff xml_char_def)
  have "dropWhile (\<lambda>c. c = 10) (gap @ tostring n cs) = tostring n cs"
    using assms(2) by (simp add: dropWhile_append list_all_iff tostring_inner)
  then have "skip_declaration (xml_declaration @ gap @ tostring n cs) = tostring n cs"
    by (simp add: skip_declaration_def)
  then show ?thesis
    using d g tostring_plain [OF assms(1)] root_reads_back [OF assms(1)]
    by (simp add: read_document_def plain_legal line_ends_plain)
qed

section \<open>Requests\<close>

text \<open>A value whose names are names of XML and whose texts hold only characters of XML other than a carriage return.\<close>

fun clean_value :: "py_value \<Rightarrow> bool" where
  "clean_value Missing \<longleftrightarrow> True"
| "clean_value (Flag b) \<longleftrightarrow> True"
| "clean_value (Scalar s) \<longleftrightarrow> plain_text s"
| "clean_value (Items vs) \<longleftrightarrow> list_all clean_value vs"
| "clean_value (Fields kvs) \<longleftrightarrow> list_all (\<lambda>kv. xml_name (fst kv) \<and> clean_value (snd kv)) kvs"

lemma list_all_concat_map: "list_all P (concat (map f xs)) \<longleftrightarrow> list_all (\<lambda>x. list_all P (f x)) xs"
  by (induction xs) simp_all

lemma elements_well_formed: "xml_name n \<Longrightarrow> clean_value v \<Longrightarrow> list_all well_formed (to_xml_element n v)"
proof (induction n v rule: to_xml_element.induct)
  case (2 n kvs)
  then show ?case by (auto simp: list_all_concat_map list_all_iff)
next
  case (3 n vs)
  then show ?case by (auto simp: list_all_concat_map list_all_iff)
qed (simp_all add: plain_text_def xml_char_def)

lemma item_well_formed: "clean_value (Fields item) \<Longrightarrow> list_all well_formed (item_elements item)"
  by (auto simp: item_elements_def list_all_concat_map list_all_iff dest: elements_well_formed [unfolded list_all_iff])

lemma lit_name: "list_all (name_char \<circ> of_char) s \<Longrightarrow> s \<noteq> [] \<Longrightarrow> xml_name (lit s)"
  by (simp add: xml_name_def lit_def list_all_iff)

lemma sub_well_formed: "well_formed (sub n t) \<longleftrightarrow> xml_name (lit n) \<and> plain_text t"
  by (simp add: sub_def)

lemma standard_well_formed [simp]: "list_all well_formed standard_elements"
  by (simp add: standard_elements_def sub_well_formed xml_name_def name_char_def xml_char_def)

text \<open>The tree that a request stands for.\<close>

definition item_tree :: "string \<Rightarrow> item_dump \<Rightarrow> xml" where
  "item_tree request item = Elem (lit request) [] (standard_elements @ [Elem (lit ''Item'') [] (item_elements item)])"

fun request_tree :: "item_dump request \<Rightarrow> xml" where
  "request_tree (Create item market) = item_tree ''AddFixedPriceItemRequest'' item"
| "request_tree (Update item market) = item_tree ''ReviseItemRequest'' item"
| "request_tree (End_Item item_id reason verify market) =
     Elem (lit ''EndItemRequest'') []
       (standard_elements @ [sub ''ItemID'' (lit item_id), sub ''EndingReason'' (lit reason)])"
| "request_tree (Active per_page page market) =
     Elem (lit ''GetMyeBaySellingRequest'') []
       (standard_elements @ map (sub ''OutputSelector'') output_selectors @
        [Elem (lit ''ActiveList'') []
           [sub ''Sort'' (lit ''TimeLeft''),
            Elem (lit ''Pagination'') []
              [sub ''EntriesPerPage'' (str_int per_page), sub ''PageNumber'' (str_int (max page 1))]]])"
| "request_tree (Upload bytes content_type) =
     Elem (lit ''UploadSiteHostedPicturesRequest'') []
       [sub ''PictureSystemVersion'' (lit ''2''), sub ''PictureSet'' (lit ''Supersize'')]"

fun clean_request :: "item_dump request \<Rightarrow> bool" where
  "clean_request (Create item market) \<longleftrightarrow> clean_value (Fields item)"
| "clean_request (Update item market) \<longleftrightarrow> clean_value (Fields item)"
| "clean_request (End_Item item_id reason verify market) \<longleftrightarrow> plain_text (lit item_id) \<and> plain_text (lit reason)"
| "clean_request r \<longleftrightarrow> True"


lemma plain_int [simp]: "plain_text (str_int i)"
proof -
  have "plain_text (str_nat k)" for k
    using str_nat_digits [of k] by (auto simp: plain_text_def list_all_iff is_digit_def xml_char_def)
  then show ?thesis by (simp add: str_int_def xml_char_def)
qed

lemma item_tree_well_formed:
  "clean_value (Fields item) \<Longrightarrow> xml_name (lit n) \<Longrightarrow> well_formed (item_tree n item)"
  by (simp add: item_tree_def item_well_formed del: clean_value.simps) (simp add: xml_name_def name_char_def)

lemma selectors_well_formed: "list_all well_formed (map (sub ''OutputSelector'') output_selectors)"
  by (simp add: output_selectors_def sub_well_formed xml_name_def name_char_def xml_char_def)

lemma request_tree_well_formed: "clean_request r \<Longrightarrow> well_formed (request_tree r)"
proof (cases r)
  case (Create item market)
  then show "clean_request r \<Longrightarrow> ?thesis"
    using item_tree_well_formed [of item "''AddFixedPriceItemRequest''"] by (simp add: xml_name_def name_char_def)
next
  case (Update item market)
  then show "clean_request r \<Longrightarrow> ?thesis"
    using item_tree_well_formed [of item "''ReviseItemRequest''"] by (simp add: xml_name_def name_char_def)
qed (use selectors_well_formed in \<open>simp_all add: sub_well_formed xml_name_def name_char_def xml_char_def\<close>)

lemma posted_document:
  assumes "posted token r = Inr (h, body)"
  obtains n cs where "request_tree r = Elem n [] cs"
    and "body = (case r of Active per_page page market \<Rightarrow> xml_declaration | _ \<Rightarrow> []) @ tostring n cs"
  using assms
  by (cases r) (auto simp: item_tree_def generate_add_fixed_price_item_request_xml_def
      generate_revise_item_request_xml_def generate_end_item_request_xml_def bind_res_def
      generate_get_my_ebay_selling_request_xml_def generate_upload_site_hosted_pictures_request_xml_def split: if_splits)


definition demo_dump :: item_dump where
  "demo_dump =
     [(lit ''Title'', Scalar (lit ''<b>Fire & Ice</b></Title><Title>'')), (lit ''AutoPay'', Flag True),
      (lit ''Location'', Missing), (lit ''Specifics'', Items [Fields [(lit ''Name'', Scalar (lit ''Set''))], Scalar []])]"


section \<open>Characters that are not checked\<close>

fun texts_of :: "xml \<Rightarrow> ustr set" where
  "texts_of (Elem n t cs) = insert t (\<Union>c\<in>set cs. texts_of c)"

lemma texts_written: "list_all xml_char (write_xml a x) \<Longrightarrow> t \<in> texts_of x \<Longrightarrow> list_all xml_char t"
proof (induction x arbitrary: a)
  case (Elem n u cs)
  show ?case
  proof (cases "t = u")
    case True
    then show ?thesis using Elem.prems(1) by (simp split: if_splits)
  next
    case False
    then obtain c where c: "c \<in> set cs" "t \<in> texts_of c" using Elem.prems(2) by auto
    then have "list_all (list_all xml_char) (map (write_xml []) cs)"
      using Elem.prems(1) by (auto simp: list_all_iff split: if_splits)
    then have "list_all xml_char (write_xml [] c)" using c(1) by (simp add: list_all_iff)
    then show ?thesis using Elem.IH c by blast
  qed
qed

text \<open>The generator never refuses an item: one with a control character in a text becomes a request that is no XML.\<close>

theorem control_character_sent:
  assumes "(n, Scalar s) \<in> set item" "\<not> list_all xml_char s"
  shows "read_document (generate_add_fixed_price_item_request_xml item) = None"
proof -
  have "Elem n s [] \<in> set (item_elements item)"
    using assms(1) by (force simp: item_elements_def)
  then have "s \<in> texts_of (item_tree ''AddFixedPriceItemRequest'' item)"
    by (force simp: item_tree_def)
  then have "\<not> list_all xml_char (write_xml root_attrs (item_tree ''AddFixedPriceItemRequest'' item))"
    using assms(2) texts_written by blast
  then have "\<not> list_all xml_char (generate_add_fixed_price_item_request_xml item)"
    by (simp only: generate_add_fixed_price_item_request_xml_def tostring_def item_tree_def not_False_eq_True)
  then show ?thesis
    by (simp only: read_document_def if_False)
qed

section \<open>The builder agrees with the generators\<close>

text \<open>Lists whose members are texts, flags or dictionaries.\<close>

fun flat_lists :: "bool \<Rightarrow> py_value \<Rightarrow> bool" where
  "flat_lists member Missing \<longleftrightarrow> \<not> member"
| "flat_lists member (Items vs) \<longleftrightarrow> \<not> member \<and> list_all (flat_lists True) vs"
| "flat_lists member (Fields kvs) \<longleftrightarrow> list_all (\<lambda>kv. flat_lists False (snd kv)) kvs"
| "flat_lists member v \<longleftrightarrow> True"

lemma entry_agrees: "flat_lists m v \<Longrightarrow> entry_xml show m k v = to_xml_element k v"
proof (induction m v arbitrary: k rule: flat_lists.induct)
  case (2 m vs)
  then have "concat (map (entry_xml show True k) vs) = concat (map (to_xml_element k) vs)"
    by (intro arg_cong [where f = concat] map_cong) (auto simp: list_all_iff)
  then show ?case using 2 by simp
next
  case (3 m kvs)
  then have "concat (map (\<lambda>kv. entry_xml show False (fst kv) (snd kv)) kvs) =
      concat (map (\<lambda>kv. to_xml_element (fst kv) (snd kv)) kvs)"
    by (intro arg_cong [where f = concat] map_cong) (auto simp: list_all_iff)
  then show ?case by simp
qed simp_all

theorem builder_agrees:
  assumes "flat_lists False (Fields item)"
  shows "create_add_item_request show item =
    xml_declaration @ [10] @ tostring (lit ''AddItemRequest'') (standard_elements @ [Elem (lit ''Item'') [] (item_elements item)])"
proof -
  have "concat (map (\<lambda>kv. entry_xml show False (fst kv) (snd kv)) item) =
      concat (map (\<lambda>kv. to_xml_element (fst kv) (snd kv)) item)"
    using assms by (intro arg_cong [where f = concat] map_cong) (auto simp: list_all_iff entry_agrees)
  then show ?thesis
    by (simp add: create_add_item_request_def to_string_def add_item_def dict_to_xml_def new_xml_builder_def item_elements_def)
qed

text \<open>The page of the older requests is written as the text of a dictionary, not as elements.\<close>

lemma pagination_is_text:
  "create_get_all_items_request show per_page page =
     to_string (lit ''GetItemRequest'', standard_elements @ [sub ''Pagination'' (show (page_fields per_page page))])"
  by (simp add: create_get_all_items_request_def add_element_def py_str_def page_fields_def new_xml_builder_def sub_def)

section \<open>The request of a built listing\<close>

text \<open>\<open>model_dump\<close> of a price: its fields under their aliases.\<close>

definition cost_dump :: "ustr \<times> ustr \<Rightarrow> py_value" where
  "cost_dump p = Fields [(lit ''currency'', Scalar (fst p)), (lit ''value'', Scalar (snd p))]"

definition opt_value :: "('a \<Rightarrow> ustr) \<Rightarrow> 'a option \<Rightarrow> py_value" where
  "opt_value f x = (case x of None \<Rightarrow> Missing | Some y \<Rightarrow> Scalar (f y))"

definition fixed_text :: "string \<Rightarrow> py_value" where
  "fixed_text s = Scalar (lit s)"

definition shipping_dump :: "item_model \<Rightarrow> py_value" where
  "shipping_dump m = Fields [(lit ''ShippingType'', fixed_text ''Flat''), (lit ''ShippingServiceOptions'', Fields
     [(lit ''ShippingService'', fixed_text ''AU_StandardDelivery''), (lit ''ShippingServiceCost'', cost_dump (it_shipping_cost m)),
      (lit ''ShippingServicePriority'', fixed_text ''1''), (lit ''ExpeditedService'', Flag False)])]"

definition return_dump :: "item_model \<Rightarrow> py_value" where
  "return_dump m = (case it_return_policy m of None \<Rightarrow> Missing | Some d \<Rightarrow> Fields
     [(lit ''Description'', Scalar d), (lit ''RefundOption'', fixed_text ''MoneyBack''),
      (lit ''ReturnsAcceptedOption'', fixed_text ''ReturnsAccepted''), (lit ''ReturnsWithinOption'', fixed_text ''Days_30''),
      (lit ''ShippingCostPaidByOption'', fixed_text ''Buyer'')])"

definition profiles_dump :: "item_model \<Rightarrow> py_value" where
  "profiles_dump m = (case it_profiles m of None \<Rightarrow> Missing | Some p \<Rightarrow> Fields
     [(lit ''SellerShippingProfileID'', Scalar (str_int (pf_shipping p))),
      (lit ''SellerReturnProfileID'', opt_value str_int (pf_return p)),
      (lit ''SellerPaymentProfileID'', opt_value str_int (pf_payment p))])"

text \<open>The fields of a listing of the builder, its constant fields included, in the order in which \<open>ItemModel\<close> declares them.\<close>

definition listing_dump :: "item_model \<Rightarrow> item_dump" where
  "listing_dump m =
     [(lit ''Title'', Scalar (it_title m)), (lit ''Description'', Scalar (it_description m)), (lit ''AutoPay'', Flag True),
      (lit ''ConditionDescription'', Scalar (it_condition_description m)),
      (lit ''ConditionID'', Scalar (str_int (it_condition_id m))), (lit ''Country'', fixed_text ''AU''),
      (lit ''Currency'', fixed_text ''AUD''), (lit ''DispatchTimeMax'', Scalar (str_int (it_dispatch m))),
      (lit ''ItemSpecifics'', Fields [(lit ''NameValueList'', Items
         (map (\<lambda>(k, v). Fields [(lit ''Name'', Scalar k), (lit ''Value'', Scalar v)]) (it_specifics m)))]),
      (lit ''ListingDuration'', fixed_text ''GTC''), (lit ''ListingType'', fixed_text ''FixedPriceItem''),
      (lit ''Location'', opt_value id (it_location m)), (lit ''PostalCode'', opt_value id (it_postcode m)),
      (lit ''PrimaryCategory'', Fields [(lit ''CategoryID'', Scalar (it_category m))]),
      (lit ''Quantity'', Scalar (str_int (it_quantity m))), (lit ''ReturnPolicy'', return_dump m),
      (lit ''SellerProfiles'', profiles_dump m), (lit ''ShippingDetails'', shipping_dump m),
      (lit ''ShipToLocations'', fixed_text ''AU''), (lit ''Site'', fixed_text ''Australia''), (lit ''SKU'', Scalar (it_sku m)),
      (lit ''StartPrice'', cost_dump (it_price m)), (lit ''SubTitle'', opt_value id (it_subtitle m))]"

text \<open>The price of a listing is sent as two elements inside \<open>StartPrice\<close>, with no amount as its text and no currency as its
  attribute.\<close>

theorem price_sent_as_elements:
  "filter (\<lambda>x. tag_of x = lit ''StartPrice'') (item_elements (listing_dump m)) =
     [Elem (lit ''StartPrice'') [] [sub ''currency'' (fst (it_price m)), sub ''value'' (snd (it_price m))]]"
  by (simp add: item_elements_def listing_dump_def cost_dump_def opt_value_def fixed_text_def sub_def
      return_dump_def profiles_dump_def shipping_dump_def split: option.split)

definition plain_listing :: "item_model \<Rightarrow> bool" where
  "plain_listing m \<longleftrightarrow>
     list_all plain_text
       ([it_title m, it_description m, it_condition_description m, it_category m, it_sku m, fst (it_price m),
         snd (it_price m), fst (it_shipping_cost m), snd (it_shipping_cost m)] @
        concat (map (\<lambda>(k, v). [k, v]) (it_specifics m)) @
        concat (map (\<lambda>x. case x of None \<Rightarrow> [] | Some s \<Rightarrow> [s])
          [it_subtitle m, it_return_policy m, it_postcode m, it_location m]))"

lemma plain_lit: "plain_text (lit s) \<longleftrightarrow> list_all (\<lambda>c. xml_char (of_char c) \<and> of_char c \<noteq> (13 :: nat)) s"
  by (simp add: plain_text_def lit_def list_all_iff)

lemma opt_clean: "clean_value (opt_value f x) \<longleftrightarrow> (\<forall>y. x = Some y \<longrightarrow> plain_text (f y))"
  by (simp add: opt_value_def split: option.split)

lemma listing_clean:
  assumes "plain_listing m"
  shows "clean_value (Fields (listing_dump m))"
proof -
  have specifics: "\<forall>(k, v)\<in>set (it_specifics m). plain_text k \<and> plain_text v"
    using assms by (fastforce simp: plain_listing_def list_all_iff)
  show ?thesis
    using assms specifics
    by (auto simp: listing_dump_def plain_listing_def cost_dump_def fixed_text_def shipping_dump_def return_dump_def
        profiles_dump_def opt_clean xml_name_def name_char_def xml_char_def list_all_iff split: option.splits)
qed

text \<open>A listing that the builder made and that is created arrives as it was built.\<close>

theorem created_listing_arrives:
  assumes "plain_listing m"
  shows "\<exists>headers body. posted token (Create (listing_dump m) market) = Inr (headers, body)
    \<and> read_document body = Some (xmlns, item_tree ''AddFixedPriceItemRequest'' (listing_dump m))"
  using document_reads_back [OF item_tree_well_formed [OF listing_clean [OF assms], of "''AddFixedPriceItemRequest''",
      unfolded item_tree_def]]
  by (simp add: generate_add_fixed_price_item_request_xml_def item_tree_def xml_name_def name_char_def)

end
