(* ===== verification/Storage.thy ===== *)
theory Storage
  imports Prelude
begin

text \<open>
  The file storage (\<open>core/storage/storage.py\<close>): the local backend with its confinement to a root directory, the
  service on top of a backend, and the stream of a compressed file, whose producer thread and consumer share a bounded
  queue.

  The file system has no symbolic links and does not run out of space or permissions. A JSON file is kept as the value
  that was written; the bytes of its text and the parser of other bytes are parameters.
\<close>

section \<open>Paths\<close>

record place =
  pl_abs :: bool
  pl_parts :: "string list"

fun segments :: "string \<Rightarrow> string list" where
  "segments [] = [[]]"
| "segments (c # s) =
     (if c = CHR ''/'' then [] # segments s
      else (case segments s of [] \<Rightarrow> [[c]] | w # ws \<Rightarrow> (c # w) # ws))"

text \<open>\<open>Path(s)\<close>: empty and single-dot components are dropped, double dots are kept.\<close>

definition parse_path :: "string \<Rightarrow> place" where
  "parse_path s = \<lparr>pl_abs = (take 1 s = ''/''), pl_parts = filter (\<lambda>p. p \<noteq> [] \<and> p \<noteq> ''.'') (segments s)\<rparr>"

text \<open>\<open>b / p\<close> and \<open>p.resolve()\<close> in the working directory \<open>cwd\<close>.\<close>

definition join_path :: "place \<Rightarrow> place \<Rightarrow> place" where
  "join_path b p = (if pl_abs p then p else \<lparr>pl_abs = pl_abs b, pl_parts = pl_parts b @ pl_parts p\<rparr>)"

definition walk :: "string list \<Rightarrow> string list" where
  "walk ps = fold (\<lambda>p acc. if p = ''..'' then butlast acc else acc @ [p]) ps []"

definition resolve_place :: "string list \<Rightarrow> place \<Rightarrow> string list" where
  "resolve_place cwd p = walk ((if pl_abs p then [] else cwd) @ pl_parts p)"

definition show_path :: "string list \<Rightarrow> string" where
  "show_path ps = (if ps = [] then ''/'' else concat (map (\<lambda>p. CHR ''/'' # p) ps))"

text \<open>\<open>_get_full_path\<close>: the resolved path must be relative to the root, as the root was given.\<close>

definition get_full_path :: "string list \<Rightarrow> place \<Rightarrow> string \<Rightarrow> string list res" where
  "get_full_path cwd base path =
     (let full = resolve_place cwd (join_path base (parse_path path)) in
      if pl_abs base \<and> prefix (pl_parts base) full then Inr full else Inl ValueErr)"

section \<open>The file system\<close>

datatype payload = P_Json json | P_Bytes "nat list"

record fs =
  fs_files :: "(string list, payload) dict"
  fs_dirs :: "string list list"

definition is_dir :: "fs \<Rightarrow> string list \<Rightarrow> bool" where
  "is_dir s p \<longleftrightarrow> p = [] \<or> p \<in> set (fs_dirs s)"

definition on_disk :: "fs \<Rightarrow> string list \<Rightarrow> bool" where
  "on_disk s p \<longleftrightarrow> dget (fs_files s) p \<noteq> None \<or> is_dir s p"

text \<open>\<open>d.mkdir(parents=True, exist_ok=True)\<close>.\<close>

definition mkdir_parents :: "string list \<Rightarrow> (fs, unit) prog" where
  "mkdir_parents d s =
     (if list_ex (\<lambda>p. dget (fs_files s) p \<noteq> None) (prefixes d) then (Inl OSErr, s)
      else (Inr (), s\<lparr>fs_dirs := fs_dirs s @ filter (\<lambda>p. \<not> is_dir s p) (prefixes d)\<rparr>))"

definition write_file :: "string list \<Rightarrow> payload \<Rightarrow> (fs, unit) prog" where
  "write_file p c s = (if is_dir s p then (Inl OSErr, s) else (Inr (), s\<lparr>fs_files := dset p c (fs_files s)\<rparr>))"

definition read_file :: "string list \<Rightarrow> fs \<Rightarrow> payload res" where
  "read_file p s =
     (case dget (fs_files s) p of Some c \<Rightarrow> Inr c | None \<Rightarrow> Inl (if is_dir s p then OSErr else FileNotFoundErr))"

section \<open>The local backend\<close>

text \<open>The bytes of a JSON text, and the value of bytes that are read as JSON.\<close>

record codec =
  cd_dump :: "json \<Rightarrow> nat list"
  cd_parse :: "nat list \<Rightarrow> json option"

definition local_save ::
  "string list \<Rightarrow> place \<Rightarrow> string \<Rightarrow> payload \<Rightarrow> string \<Rightarrow> (fs, string) prog" where
  "local_save cwd base path data fmt s =
     (case get_full_path cwd base path of
        Inl e \<Rightarrow> (Inl e, s)
      | Inr full \<Rightarrow>
          bindp (mkdir_parents (butlast full)) (\<lambda>_.
            if fmt = ''json''
            then (case data of P_Bytes _ \<Rightarrow> throw TypeErr | P_Json _ \<Rightarrow> bindp (write_file full data) (\<lambda>_. ret (show_path full)))
            else if fmt = ''xz''
            then (case data of P_Json _ \<Rightarrow> throw TypeErr | P_Bytes _ \<Rightarrow> bindp (write_file full data) (\<lambda>_. ret (show_path full)))
            else throw ValueErr) s)"

definition as_json :: "codec \<Rightarrow> payload \<Rightarrow> payload res" where
  "as_json cd c = (case c of P_Json j \<Rightarrow> Inr (P_Json j)
                   | P_Bytes b \<Rightarrow> (case cd_parse cd b of None \<Rightarrow> Inl ValueErr | Some j \<Rightarrow> Inr (P_Json j)))"

definition as_bytes :: "codec \<Rightarrow> payload \<Rightarrow> payload" where
  "as_bytes cd c = (case c of P_Json j \<Rightarrow> P_Bytes (cd_dump cd j) | P_Bytes b \<Rightarrow> P_Bytes b)"

definition local_load :: "codec \<Rightarrow> string list \<Rightarrow> place \<Rightarrow> string \<Rightarrow> string \<Rightarrow> fs \<Rightarrow> payload res" where
  "local_load cd cwd base path fmt s =
     bind_res (get_full_path cwd base path) (\<lambda>full.
       if \<not> on_disk s full then Inl FileNotFoundErr
       else if fmt = ''json'' then bind_res (read_file full s) (as_json cd)
       else if fmt = ''xz'' \<or> fmt = ''raw'' then bind_res (read_file full s) (\<lambda>c. Inr (as_bytes cd c))
       else Inl ValueErr)"

definition local_exists :: "string list \<Rightarrow> place \<Rightarrow> string \<Rightarrow> fs \<Rightarrow> bool" where
  "local_exists cwd base path s =
     (case get_full_path cwd base path of Inl _ \<Rightarrow> False | Inr full \<Rightarrow> on_disk s full)"

definition local_delete :: "string list \<Rightarrow> place \<Rightarrow> string \<Rightarrow> (fs, bool) prog" where
  "local_delete cwd base path s =
     (case get_full_path cwd base path of
        Inl e \<Rightarrow> (Inl e, s)
      | Inr full \<Rightarrow>
          if \<not> on_disk s full then (Inr False, s)
          else if is_dir s full then (Inl OSErr, s)
          else (Inr True, s\<lparr>fs_files := AList.delete full (fs_files s)\<rparr>))"

text \<open>\<open>list_files\<close>, with \<open>fnmatch\<close> as the parameter \<open>matches\<close>.\<close>

definition local_list ::
  "(string \<Rightarrow> string \<Rightarrow> bool) \<Rightarrow> string list \<Rightarrow> place \<Rightarrow> string \<Rightarrow> string \<Rightarrow> fs \<Rightarrow> string list res" where
  "local_list matches cwd base dir pattern s =
     bind_res (get_full_path cwd base dir) (\<lambda>full.
       if \<not> on_disk s full then Inr []
       else if \<not> is_dir s full then Inl OSErr
       else Inr (filter (\<lambda>n. matches n pattern)
              (map last (filter (\<lambda>p. p \<noteq> [] \<and> butlast p = full) (dkeys (fs_files s))))))"

definition local_file_size :: "codec \<Rightarrow> (string list \<Rightarrow> nat) \<Rightarrow> string list \<Rightarrow> place \<Rightarrow> string \<Rightarrow> fs \<Rightarrow> nat res" where
  "local_file_size cd dir_size cwd base path s =
     bind_res (get_full_path cwd base path) (\<lambda>full.
       if \<not> on_disk s full then Inl FileNotFoundErr
       else (case dget (fs_files s) full of
               None \<Rightarrow> Inr (dir_size full)
             | Some (P_Json j) \<Rightarrow> Inr (length (cd_dump cd j))
             | Some (P_Bytes b) \<Rightarrow> Inr (length b)))"

datatype open_mode = Mode_Read | Mode_Write | Mode_Append

text \<open>\<open>open_stream\<close> up to the open file; the parent directories are made in every mode.\<close>

definition local_open :: "string list \<Rightarrow> place \<Rightarrow> string \<Rightarrow> open_mode \<Rightarrow> (fs, payload) prog" where
  "local_open cwd base path mode s =
     (case get_full_path cwd base path of
        Inl e \<Rightarrow> (Inl e, s)
      | Inr full \<Rightarrow>
          bindp (mkdir_parents (butlast full)) (\<lambda>_ s'.
            case mode of
              Mode_Read \<Rightarrow> (read_file full s', s')
            | Mode_Write \<Rightarrow> bindp (write_file full (P_Bytes [])) (\<lambda>_. ret (P_Bytes [])) s'
            | Mode_Append \<Rightarrow>
                (case dget (fs_files s') full of
                   Some c \<Rightarrow> (Inr c, s')
                 | None \<Rightarrow> bindp (write_file full (P_Bytes [])) (\<lambda>_. ret (P_Bytes [])) s')) s)"
section \<open>The storage service\<close>

text \<open>The interface of a backend that the service uses.\<close>

record 's backend =
  be_save :: "string \<Rightarrow> payload \<Rightarrow> string \<Rightarrow> ('s, string) prog"
  be_load :: "string \<Rightarrow> string \<Rightarrow> 's \<Rightarrow> payload res"
  be_exists :: "string \<Rightarrow> 's \<Rightarrow> bool"
  be_delete :: "string \<Rightarrow> ('s, bool) prog"

definition local_backend :: "codec \<Rightarrow> string list \<Rightarrow> place \<Rightarrow> fs backend" where
  "local_backend cd cwd base =
     \<lparr>be_save = local_save cwd base, be_load = local_load cd cwd base, be_exists = local_exists cwd base,
      be_delete = local_delete cwd base\<rparr>"

definition save_json :: "'s backend \<Rightarrow> string \<Rightarrow> json \<Rightarrow> ('s, string) prog" where
  "save_json B name j = be_save B name (P_Json j) ''json''"

definition load_json :: "'s backend \<Rightarrow> string \<Rightarrow> 's \<Rightarrow> payload res" where
  "load_json B name = be_load B name ''json''"

definition save_binary :: "'s backend \<Rightarrow> string \<Rightarrow> nat list \<Rightarrow> string \<Rightarrow> ('s, string) prog" where
  "save_binary B name b fmt = be_save B name (P_Bytes b) fmt"

definition load_binary :: "'s backend \<Rightarrow> string \<Rightarrow> 's \<Rightarrow> payload res" where
  "load_binary B name = be_load B name ''raw''"

text \<open>\<open>name.rsplit(".", 1)\<close>: the part before the last dot and the one after it.\<close>

fun last_dot :: "string \<Rightarrow> (string \<times> string) option" where
  "last_dot [] = None"
| "last_dot (c # s) =
     (case last_dot s of
        Some (a, b) \<Rightarrow> Some (c # a, b)
      | None \<Rightarrow> if c = CHR ''.'' then Some ([], s) else None)"

definition build_timestamped_name :: "string \<Rightarrow> string \<Rightarrow> string" where
  "build_timestamped_name name ts =
     (if suffix ''.json.xz'' name then take (length name - 8) name @ ''_'' @ ts @ ''.json.xz''
      else (case last_dot name of
              None \<Rightarrow> name @ ''_'' @ ts
            | Some (a, ext) \<Rightarrow> if ext = [] then a @ ''_'' @ ts else a @ ''_'' @ ts @ ''.'' @ ext))"

definition save_with_timestamp :: "'s backend \<Rightarrow> string \<Rightarrow> string \<Rightarrow> payload \<Rightarrow> string \<Rightarrow> ('s, string) prog" where
  "save_with_timestamp B ts name data fmt =
     (if fmt = ''json'' then be_save B (build_timestamped_name name ts) data ''json''
      else if fmt = ''xz'' then be_save B (build_timestamped_name name ts) data ''xz''
      else throw ValueErr)"

definition file_exists :: "'s backend \<Rightarrow> string \<Rightarrow> 's \<Rightarrow> bool" where
  "file_exists B name = be_exists B name"

definition delete_file :: "'s backend \<Rightarrow> string \<Rightarrow> ('s, bool) prog" where
  "delete_file B name = be_delete B name"

text \<open>\<open>delete_files\<close>: a deletion that raises counts as not done, and the last of two equal names wins.\<close>

fun delete_all :: "'s backend \<Rightarrow> string list \<Rightarrow> 's \<Rightarrow> bool list \<times> 's" where
  "delete_all B [] s = ([], s)"
| "delete_all B (n # ns) s =
     (case delete_file B n s of (r, s') \<Rightarrow>
        case delete_all B ns s' of (rs, s'') \<Rightarrow> ((r = Inr True) # rs, s''))"

lemma delete_all_step:
  "fst (delete_all B (n # ns) s) = (fst (delete_file B n s) = Inr True) # fst (delete_all B ns (snd (delete_file B n s)))"
  "snd (delete_all B (n # ns) s) = snd (delete_all B ns (snd (delete_file B n s)))"
  by (simp_all add: case_prod_beta)

declare delete_all.simps(2) [simp del]

definition delete_files :: "'s backend \<Rightarrow> string list \<Rightarrow> 's \<Rightarrow> (string, bool) dict \<times> 's" where
  "delete_files B ns s = (case delete_all B ns s of (rs, s') \<Rightarrow> (fold (\<lambda>(n, r). dset n r) (zip ns rs) [], s'))"

subsection \<open>The contract of a backend\<close>

locale storage_backend =
  fixes B :: "'s backend"
    and ok :: "'s \<Rightarrow> bool"
  assumes save_keeps_ok: "ok s \<Longrightarrow> ok (snd (be_save B n d f s))"
    and delete_keeps_ok: "ok s \<Longrightarrow> ok (snd (be_delete B n s))"
    and save_load: "ok s \<Longrightarrow> be_save B n d f s = (Inr x, s') \<Longrightarrow> be_load B n f s' = Inr d"
    and xz_raw: "be_load B n ''xz'' s = be_load B n ''raw'' s"
    and deleted: "ok s \<Longrightarrow> be_delete B n s = (Inr b, s') \<Longrightarrow> \<not> be_exists B n s'"
    and delete_absent: "\<not> be_exists B m s \<Longrightarrow> \<not> be_exists B m (snd (be_delete B n s))"
begin

lemma json_roundtrip: "ok s \<Longrightarrow> save_json B n j s = (Inr x, s') \<Longrightarrow> load_json B n s' = Inr (P_Json j)"
  unfolding save_json_def load_json_def by (rule save_load)

lemma binary_roundtrip: "ok s \<Longrightarrow> save_binary B n b ''xz'' s = (Inr x, s') \<Longrightarrow> load_binary B n s' = Inr (P_Bytes b)"
  unfolding save_binary_def load_binary_def xz_raw [symmetric] by (rule save_load)

lemma delete_all_absent: "\<not> be_exists B m s \<Longrightarrow> \<not> be_exists B m (snd (delete_all B ns s))"
proof (induction ns arbitrary: s)
  case (Cons n ns)
  have "\<not> be_exists B m (snd (delete_file B n s))" using delete_absent [OF Cons.prems] by (simp add: delete_file_def)
  from Cons.IH [OF this] show ?case by (simp add: delete_all_step)
qed simp

lemma delete_all_done:
  "ok s \<Longrightarrow> (n, True) \<in> set (zip ns (fst (delete_all B ns s))) \<Longrightarrow> \<not> be_exists B n (snd (delete_all B ns s))"
proof (induction ns arbitrary: s)
  case (Cons m ns)
  obtain r s' where d: "delete_file B m s = (r, s')" by fastforce
  have ok: "ok s'" using delete_keeps_ok [OF Cons.prems(1), of m] d by (simp add: delete_file_def)
  have gone: "\<not> be_exists B m s'" if "r = Inr True"
    using deleted [OF Cons.prems(1)] d that by (simp add: delete_file_def)
  from Cons.prems(2) d consider "n = m" "r = Inr True" | "(n, True) \<in> set (zip ns (fst (delete_all B ns s')))"
    by (auto simp: delete_all_step)
  then show ?case
  proof cases
    case 1
    with gone delete_all_absent [of m s' ns] d show ?thesis by (simp add: delete_all_step)
  next
    case 2
    from Cons.IH [OF ok 2] d show ?thesis by (simp add: delete_all_step)
  qed
qed simp

lemma delete_files_done:
  assumes "ok s" "delete_files B ns s = (res, s')" "dget res n = Some True"
  shows "\<not> be_exists B n s'"
proof -
  have dget: "dget (fold (\<lambda>(n, r). dset n r) ps d) k = Some v \<Longrightarrow> (k, v) \<in> set ps \<or> dget d k = Some v"
    for ps :: "(string \<times> bool) list" and d k v
    by (induction ps arbitrary: d) (fastforce simp: dget_dset split: if_splits)+
  from assms show ?thesis
    using dget [of "zip ns (fst (delete_all B ns s))" "[]" n True] delete_all_done [OF assms(1), of n ns]
    by (auto simp: delete_files_def split: prod.splits)
qed

end

subsection \<open>The local backend keeps the contract\<close>

definition fs_ok :: "fs \<Rightarrow> bool" where
  "fs_ok s \<longleftrightarrow> (\<forall>p. dget (fs_files s) p \<noteq> None \<longrightarrow> \<not> is_dir s p)"

lemma is_dir_mkdir:
  "mkdir_parents d s = (Inr u, s') \<Longrightarrow> is_dir s' p \<longleftrightarrow> is_dir s p \<or> prefix p d"
  by (auto simp: mkdir_parents_def is_dir_def split: if_splits)

lemma mkdir_files [simp]: "fs_files (snd (mkdir_parents d s)) = fs_files s"
  by (simp add: mkdir_parents_def)

lemma fs_ok_mkdir: "fs_ok s \<Longrightarrow> fs_ok (snd (mkdir_parents d s))"
  by (auto simp: fs_ok_def mkdir_parents_def is_dir_def list_ex_iff)

lemma fs_ok_write: "fs_ok s \<Longrightarrow> fs_ok (snd (write_file p c s))"
  by (auto simp: fs_ok_def write_file_def is_dir_def dget_dset)

lemmas local_save_parts = local_save_def bindp_def ret_def throw_def

lemma local_save_cases:
  obtains (same) e where "local_save cwd base path data fmt s = (Inl e, s)"
  | (made) e full where "get_full_path cwd base path = Inr full"
      "local_save cwd base path data fmt s = (Inl e, snd (mkdir_parents (butlast full) s))"
  | (written) full where "get_full_path cwd base path = Inr full"
      "fst (mkdir_parents (butlast full) s) = Inr ()"
      "\<not> is_dir (snd (mkdir_parents (butlast full) s)) full"
      "fmt = ''json'' \<and> (\<exists>j. data = P_Json j) \<or> fmt = ''xz'' \<and> (\<exists>b. data = P_Bytes b)"
      "local_save cwd base path data fmt s =
         (Inr (show_path full), snd (write_file full data (snd (mkdir_parents (butlast full) s))))"
proof (cases "get_full_path cwd base path")
  case (Inl e)
  then show ?thesis using same by (simp add: local_save_def)
next
  case (Inr full)
  obtain r s1 where mk: "mkdir_parents (butlast full) s = (r, s1)" by fastforce
  show ?thesis
  proof (cases r)
    case (Inl e)
    with mk have "s1 = s" by (auto simp: mkdir_parents_def split: if_splits)
    with mk Inl Inr show ?thesis using same by (simp add: local_save_parts)
  next
    case R: (Inr u)
    show ?thesis
    proof (cases "\<not> is_dir s1 full \<and> (fmt = ''json'' \<and> (\<exists>j. data = P_Json j) \<or> fmt = ''xz'' \<and> (\<exists>b. data = P_Bytes b))")
      case True
      with mk Inr R have "local_save cwd base path data fmt s =
         (Inr (show_path full), snd (write_file full data (snd (mkdir_parents (butlast full) s))))"
        by (auto simp: local_save_parts write_file_def)
      with True mk R Inr show ?thesis using written [of full] by auto
    next
      case False
      have "\<exists>e. local_save cwd base path data fmt s = (Inl e, snd (mkdir_parents (butlast full) s))"
        using False mk Inr R by (cases data) (auto simp: local_save_parts write_file_def)
      with Inr show ?thesis using made by blast
    qed
  qed
qed

lemma fs_ok_save: "fs_ok s \<Longrightarrow> fs_ok (snd (local_save cwd base path data fmt s))"
  by (cases rule: local_save_cases [of cwd base path data fmt s]) (simp_all add: fs_ok_mkdir fs_ok_write)

lemma fs_ok_delete: "fs_ok s \<Longrightarrow> fs_ok (snd (local_delete cwd base path s))"
  by (auto simp: local_delete_def fs_ok_def is_dir_def delete_conv' split: sum.split)

interpretation local_storage: storage_backend "local_backend cd cwd base" fs_ok
  for cd cwd base
proof unfold_locales
  let ?B = "local_backend cd cwd base"
  fix s s' :: fs and n m d f x b
  assume ok: "fs_ok s"
  from ok show "fs_ok (snd (be_save ?B n d f s))" "fs_ok (snd (be_delete ?B n s))"
    by (simp_all add: local_backend_def fs_ok_save fs_ok_delete)
  show "be_load ?B n f s' = Inr d" if "be_save ?B n d f s = (Inr x, s')"
    using that unfolding local_backend_def backend.simps
    by (cases rule: local_save_cases [of cwd base n d f s])
      (auto simp: local_load_def on_disk_def read_file_def write_file_def dget_dset as_json_def as_bytes_def)
  show "\<not> be_exists ?B n s'" if "be_delete ?B n s = (Inr b, s')"
    using that by (auto simp: local_backend_def local_delete_def local_exists_def on_disk_def is_dir_def delete_conv'
        split: sum.splits if_splits)
next
  let ?B = "local_backend cd cwd base"
  fix s :: fs and n m
  show "be_load ?B n ''xz'' s = be_load ?B n ''raw'' s"
    by (cases "get_full_path cwd base n") (simp_all add: local_backend_def local_load_def)
  show "\<not> be_exists ?B m (snd (be_delete ?B n s))" if "\<not> be_exists ?B m s"
    using that by (auto simp: local_backend_def local_delete_def local_exists_def on_disk_def is_dir_def delete_conv'
        split: sum.splits)
qed

section \<open>Properties of the files\<close>

text \<open>
  What was saved as JSON is what is loaded again under the same name, wherever the storage root is and whatever the
  file system held before.
\<close>

theorem saved_json_loads:
  assumes "fs_ok s" "save_json (local_backend cd cwd base) n j s = (Inr x, s')"
  shows "load_json (local_backend cd cwd base) n s' = Inr (P_Json j)"
  using assms by (rule local_storage.json_roundtrip)

definition demo_base :: place where
  "demo_base = parse_path ''/data''"

definition demo_codec :: codec where
  "demo_codec = \<lparr>cd_dump = (\<lambda>_. []), cd_parse = (\<lambda>_. None)\<rparr>"

definition no_files :: fs where
  "no_files = \<lparr>fs_files = [], fs_dirs = []\<rparr>"

lemma no_files_ok: "fs_ok no_files"
  by (simp add: fs_ok_def no_files_def)

lemma saved_json_loads_witness:
  "load_json (local_backend demo_codec [] demo_base) ''a/../b.json''
     (snd (save_json (local_backend demo_codec [] demo_base) ''a/../b.json'' (JInt 1) no_files)) = Inr (P_Json (JInt 1))"
proof -
  have "save_json (local_backend demo_codec [] demo_base) ''a/../b.json'' (JInt 1) no_files =
    (Inr ''/data/b.json'', snd (save_json (local_backend demo_codec [] demo_base) ''a/../b.json'' (JInt 1) no_files))"
    by code_simp
  then show ?thesis by (rule saved_json_loads [OF no_files_ok])
qed

lemma full_path_inside:
  "get_full_path cwd base path = Inr full \<Longrightarrow> pl_abs base \<and> prefix (pl_parts base) full"
  by (auto simp: get_full_path_def Let_def split: if_splits)

text \<open>
  C23. The storage is confined to its root: whatever name a caller passes (absolute, or with double dots), saving,
  deleting and opening change no file outside of the root; with a relative root they change no file at all.
\<close>

theorem storage_confined:
  assumes "\<not> pl_abs base \<or> \<not> prefix (pl_parts base) q"
  shows "dget (fs_files (snd (local_save cwd base path data fmt s))) q = dget (fs_files s) q
       \<and> dget (fs_files (snd (local_delete cwd base path s))) q = dget (fs_files s) q
       \<and> dget (fs_files (snd (local_open cwd base path mode s))) q = dget (fs_files s) q"
proof -
  have out: "q \<noteq> full" if "get_full_path cwd base path = Inr full" for full
    using full_path_inside [OF that] assms by auto
  have "dget (fs_files (snd (local_save cwd base path data fmt s))) q = dget (fs_files s) q"
    by (cases rule: local_save_cases [of cwd base path data fmt s]) (simp_all add: write_file_def dget_dset out)
  moreover have "dget (fs_files (snd (local_delete cwd base path s))) q = dget (fs_files s) q"
    using out by (auto simp: local_delete_def delete_conv' split: sum.split)
  moreover have "dget (fs_files (snd (local_open cwd base path mode s))) q = dget (fs_files s) q"
  proof (cases "get_full_path cwd base path")
    case (Inl e)
    then show ?thesis by (simp add: local_open_def)
  next
    case (Inr full)
    obtain r s1 where mk: "mkdir_parents (butlast full) s = (r, s1)" by fastforce
    have "fs_files s1 = fs_files s" using mkdir_files [of "butlast full" s] mk by simp
    with Inr mk out [OF Inr] show ?thesis
      by (cases r) (auto simp: local_open_def bindp_def ret_def write_file_def dget_dset split: open_mode.split option.split)
  qed
  ultimately show ?thesis by blast
qed

lemma storage_confined_witness:
  "dget (fs_files (snd (local_delete [] demo_base ''../etc/passwd'' (no_files\<lparr>fs_files := [([''etc'', ''passwd''], P_Bytes [1])]\<rparr>))))
     [''etc'', ''passwd''] = Some (P_Bytes [1])"
proof -
  have "\<not> prefix (pl_parts demo_base) [''etc'', ''passwd'']" by code_simp
  then show ?thesis
    using storage_confined [of demo_base "[''etc'', ''passwd'']" "[]" "''../etc/passwd''"] by simp
qed

lemma relative_root_refuses:
  assumes "\<not> pl_abs base"
  shows "local_save cwd base path data fmt s = (Inl ValueErr, s)" "local_load cd cwd base path fmt s = Inl ValueErr"
    "\<not> local_exists cwd base path s" "local_delete cwd base path s = (Inl ValueErr, s)"
  using assms
  by (simp_all add: local_save_def local_load_def local_exists_def local_delete_def get_full_path_def Let_def)

end
