(* ===== verification/Mtgjson.thy ===== *)
theory Mtgjson
  imports Ops_Runs Storage Batches "HOL-Library.List_Lexorder" "HOL-Library.Char_ord"
begin

text \<open>
  The MTGJson pipeline (\<open>mtgjson/data_loader.py\<close>, \<open>mtgjson/pipeline.py\<close> and \<open>mtgjson_repository.py\<close>): the mapping of
  MTGJson ids to cards, the fan-out of a price file into staging rows, the batched load, and the retention of raw files.

  Parsing of dates and of numbers in texts are parameters; a day is a number. Promotion is a database procedure and is
  not modelled. A price file is the pairs that \<open>iter_xz_json_kvitems\<close> yields and the exception it may end with.
\<close>

section \<open>JSON as Python reads it\<close>

text \<open>The bindings of a dict; a value of any other shape is skipped by the loops of this module.\<close>

fun bindings :: "json \<Rightarrow> (string, json) dict" where
  "bindings (JObj d) = d"
| "bindings _ = []"

text \<open>\<open>j.get(k, default)\<close>.\<close>

definition get_default :: "json \<Rightarrow> string \<Rightarrow> json \<Rightarrow> json res" where
  "get_default j k dflt = (case j of JObj d \<Rightarrow> Inr (case dget d k of None \<Rightarrow> dflt | Some v \<Rightarrow> v) | _ \<Rightarrow> Inl AttrErr)"

text \<open>\<open>for x in j\<close>: a dict gives its keys, a text its characters.\<close>

fun iterate :: "json \<Rightarrow> json list res" where
  "iterate (JList xs) = Inr xs"
| "iterate (JObj d) = Inr (map (\<lambda>(k, _). JStr k) d)"
| "iterate (JStr s) = Inr (map (\<lambda>c. JStr [c]) s)"
| "iterate _ = Inl TypeErr"

section \<open>Mapping ids to cards\<close>

text \<open>The ids of the cards: the Scryfall id and the MTGJson id of a card version, and further MTGJson ids.\<close>

record id_tables =
  it_scryfall :: "(nat, string) dict"
  it_mtgjson :: "(nat, string) dict"
  it_alias :: "(string, nat) dict"

definition scryfall_of :: "json \<Rightarrow> json res" where
  "scryfall_of crd = bind_res (get_default crd ''identifiers'' (JObj [])) (\<lambda>i. get_default i ''scryfallId'' JNull)"

definition foreign_pair :: "json \<Rightarrow> (json \<times> json) list res" where
  "foreign_pair fd =
     bind_res (get_default fd ''uuid'' JNull) (\<lambda>u.
     bind_res (scryfall_of fd) (\<lambda>s. Inr (if truthy u \<and> truthy s then [(u, s)] else [])))"

definition card_pairs :: "string \<times> json \<Rightarrow> (json \<times> json) list res" where
  "card_pairs = (\<lambda>(uuid, crd).
     bind_res (scryfall_of crd) (\<lambda>s.
     bind_res (bind_res (get_default crd ''foreignData'' (JList [])) iterate) (\<lambda>fds.
     bind_res (concat_res foreign_pair fds) (\<lambda>ps.
       Inr ((if truthy s then [(JStr uuid, s)] else []) @ ps)))))"

text \<open>The loop of \<open>sync_uuid_mappings\<close> over the file; the data may be under a key of its own or the file itself.\<close>

definition uuid_pairs :: "json \<Rightarrow> (json \<times> json) list res" where
  "uuid_pairs raw =
     bind_res (get_default raw ''data'' raw) (\<lambda>data.
       case data of JObj d \<Rightarrow> concat_res card_pairs d | _ \<Rightarrow> Inl AttrErr)"

text \<open>A query parameter of type \<open>text[]\<close>.\<close>

fun text_pairs :: "(json \<times> json) list \<Rightarrow> (string \<times> string) list res" where
  "text_pairs [] = Inr []"
| "text_pairs ((JStr u, JStr s) # ps) = bind_res (text_pairs ps) (\<lambda>qs. Inr ((u, s) # qs))"
| "text_pairs (_ # ps) = Inl DbErr"

definition versions_with :: "id_tables \<Rightarrow> string \<Rightarrow> nat list" where
  "versions_with t s = map fst (filter (\<lambda>(_, s'). s' = s) (it_scryfall t))"

text \<open>The join of the pairs with the Scryfall ids, and \<open>INSERT ... ON CONFLICT DO NOTHING\<close>.\<close>

definition joined :: "id_tables \<Rightarrow> (string \<times> string) list \<Rightarrow> (nat \<times> string) list" where
  "joined t ps = concat (map (\<lambda>(u, s). map (\<lambda>cv. (cv, u)) (versions_with t s)) ps)"

definition insert_new :: "'k \<Rightarrow> 'v \<Rightarrow> ('k, 'v) dict \<Rightarrow> ('k, 'v) dict" where
  "insert_new k v d = (if dget d k \<noteq> None then d else d @ [(k, v)])"

definition add_primary :: "(nat \<times> string) list \<Rightarrow> (nat, string) dict \<Rightarrow> (nat, string) dict" where
  "add_primary js d = fold (\<lambda>(cv, u). insert_new cv u) js d"

definition add_aliases :: "(nat, string) dict \<Rightarrow> (nat \<times> string) list \<Rightarrow> (string, nat) dict \<Rightarrow> (string, nat) dict" where
  "add_aliases prim js d = fold (\<lambda>(cv, u). if u \<in> snd ` set prim then id else insert_new u cv) js d"

definition upsert_mtgjson_id_mappings :: "(json \<times> json) list \<Rightarrow> (id_tables, nat) prog" where
  "upsert_mtgjson_id_mappings ps t =
     (if ps = [] then (Inr 0, t)
      else (case text_pairs ps of
              Inl e \<Rightarrow> (Inl e, t)
            | Inr qs \<Rightarrow>
                (let prim = add_primary (joined t qs) (it_mtgjson t) in
                 (Inr (length prim - length (it_mtgjson t)),
                  t\<lparr>it_mtgjson := prim, it_alias := add_aliases prim (joined t qs) (it_alias t)\<rparr>))))"

text \<open>\<open>sync_uuid_mappings\<close> for the loaded file, or the exception that loading it raised.\<close>

definition sync_body :: "json res \<Rightarrow> (id_tables, nat) prog" where
  "sync_body loaded t =
     (case bind_res loaded uuid_pairs of Inl e \<Rightarrow> (Inl e, t) | Inr ps \<Rightarrow> upsert_mtgjson_id_mappings ps t)"

definition sync_uuid_mappings ::
  "json res \<Rightarrow> (pyexc \<Rightarrow> string) \<Rightarrow> nat option \<Rightarrow> (ops \<times> id_tables, nat) prog" where
  "sync_uuid_mappings loaded msg run = track_world run ''sync_uuid_mappings'' ''sync_uuid_failed'' msg (sync_body loaded)"

text \<open>The card that a staged price with this id is promoted to: its own or by an alias.\<close>

definition resolves :: "id_tables \<Rightarrow> string \<Rightarrow> nat \<Rightarrow> bool" where
  "resolves t u cv \<longleftrightarrow> (cv, u) \<in> set (it_mtgjson t) \<or> (u, cv) \<in> set (it_alias t)"

section \<open>Price rows\<close>

record price_env =
  pe_day :: "string \<Rightarrow> int option"
  pe_num :: "string \<Rightarrow> rat option"

text \<open>\<open>float(v)\<close>; nothing where it raises \<open>TypeError\<close> or \<open>ValueError\<close>.\<close>

fun to_float :: "price_env \<Rightarrow> json \<Rightarrow> rat option" where
  "to_float env (JInt n) = Some (of_int n)"
| "to_float env (JNum q) = Some q"
| "to_float env (JBool b) = Some (if b then 1 else 0)"
| "to_float env (JStr s) = pe_num env s"
| "to_float env _ = None"

record card_price =
  cp_uuid :: string
  cp_source :: string
  cp_type :: string
  cp_finish :: string
  cp_currency :: json
  cp_value :: rat
  cp_day :: int

record sealed_price =
  sp_uuid :: string
  sp_source :: string
  sp_type :: string
  sp_currency :: json
  sp_value :: rat
  sp_day :: int

definition price_cells :: "price_env \<Rightarrow> json \<Rightarrow> (rat \<times> int) list" where
  "price_cells env dates =
     List.map_filter (\<lambda>(d, v). case (pe_day env d, to_float env v) of
                                 (Some day, Some q) \<Rightarrow> Some (q, day) | _ \<Rightarrow> None) (bindings dates)"

definition currency_of :: "json \<Rightarrow> json" where
  "currency_of sv = (let c = jget (bindings sv) ''currency'' in if truthy c then c else JStr ''USD'')"

text \<open>The nested loops: every source, price type and finish of the paper prices with its dates.\<close>

definition finish_cells :: "json \<Rightarrow> (string \<times> json \<times> string \<times> string \<times> json) list" where
  "finish_cells crd =
     concat (map (\<lambda>(src, sv). concat (map (\<lambda>(ty, fins).
         if ty = ''currency'' then [] else map (\<lambda>(fin, dates). (src, currency_of sv, ty, fin, dates)) (bindings fins))
       (bindings sv))) (bindings (jget (bindings crd) ''paper'')))"

definition iter_card_rows :: "price_env \<Rightarrow> string \<Rightarrow> json \<Rightarrow> card_price list" where
  "iter_card_rows env u crd =
     concat (map (\<lambda>(src, cur, ty, fin, dates). map (\<lambda>(q, day).
         \<lparr>cp_uuid = u, cp_source = src, cp_type = ty, cp_finish = fin, cp_currency = cur, cp_value = q, cp_day = day\<rparr>)
       (price_cells env dates)) (finish_cells crd))"

text \<open>One row per finish: the loop over the dates breaks after the first row.\<close>

definition iter_sealed_rows :: "price_env \<Rightarrow> string \<Rightarrow> json \<Rightarrow> sealed_price list" where
  "iter_sealed_rows env u entry =
     concat (map (\<lambda>(src, cur, ty, fin, dates). map (\<lambda>(q, day).
         \<lparr>sp_uuid = u, sp_source = src, sp_type = ty, sp_currency = cur, sp_value = q, sp_day = day\<rparr>)
       (take 1 (price_cells env dates))) (finish_cells entry))"

section \<open>The load\<close>

record staging_tables =
  mt_cards :: "card_price list"
  mt_sealed :: "sealed_price list"

definition is_text :: "json \<Rightarrow> bool" where
  "is_text j \<longleftrightarrow> (case j of JStr _ \<Rightarrow> True | _ \<Rightarrow> False)"

text \<open>\<open>COPY\<close> of a batch: all rows or none; the currency column takes texts only.\<close>

definition copy_staging_batch :: "card_price list \<Rightarrow> (staging_tables, nat) prog" where
  "copy_staging_batch rows t =
     (if list_all (\<lambda>r. is_text (cp_currency r)) rows
      then (Inr (length rows), t\<lparr>mt_cards := mt_cards t @ rows\<rparr>) else (Inl DbErr, t))"

definition copy_sealed_staging_batch :: "sealed_price list \<Rightarrow> (staging_tables, nat) prog" where
  "copy_sealed_staging_batch rows t =
     (if list_all (\<lambda>r. is_text (sp_currency r)) rows
      then (Inr (length rows), t\<lparr>mt_sealed := mt_sealed t @ rows\<rparr>) else (Inl DbErr, t))"

record load_state =
  ls_batch :: "card_price list"
  ls_sealed :: "sealed_price list"
  ls_rows :: nat
  ls_sealed_rows :: nat
  ls_seen :: nat

definition flush_cards :: "load_state \<Rightarrow> (staging_tables, load_state) prog" where
  "flush_cards l = bindp (copy_staging_batch (ls_batch l)) (\<lambda>n. ret (l\<lparr>ls_rows := ls_rows l + n, ls_batch := []\<rparr>))"

definition flush_sealed :: "load_state \<Rightarrow> (staging_tables, load_state) prog" where
  "flush_sealed l =
     bindp (copy_sealed_staging_batch (ls_sealed l)) (\<lambda>n. ret (l\<lparr>ls_sealed_rows := ls_sealed_rows l + n, ls_sealed := []\<rparr>))"

text \<open>One pair of the stream: its rows join the batch of its table, and a full batch is copied.\<close>

definition load_item :: "nat \<Rightarrow> price_env \<Rightarrow> string set \<Rightarrow> string \<times> json \<Rightarrow> load_state \<Rightarrow> (staging_tables, load_state) prog" where
  "load_item bsize env sealed = (\<lambda>(u, v) l.
     if u \<in> sealed
     then (let l' = l\<lparr>ls_seen := Suc (ls_seen l), ls_sealed := ls_sealed l @ iter_sealed_rows env u v\<rparr> in
           if bsize \<le> length (ls_sealed l') then flush_sealed l' else ret l')
     else (let l' = l\<lparr>ls_seen := Suc (ls_seen l), ls_batch := ls_batch l @ iter_card_rows env u v\<rparr> in
           if bsize \<le> length (ls_batch l') then flush_cards l' else ret l'))"

fun load_items ::
  "nat \<Rightarrow> price_env \<Rightarrow> string set \<Rightarrow> (string \<times> json) list \<Rightarrow> load_state \<Rightarrow> (staging_tables, load_state) prog" where
  "load_items bsize env sealed [] l = ret l"
| "load_items bsize env sealed (kv # kvs) l = bindp (load_item bsize env sealed kv l) (load_items bsize env sealed kvs)"

record load_answer =
  la_rows :: nat
  la_seen :: nat
  la_sealed_rows :: nat

definition copy_batch_size :: nat where
  "copy_batch_size = 10000"

definition new_load :: load_state where
  "new_load = \<lparr>ls_batch = [], ls_sealed = [], ls_rows = 0, ls_sealed_rows = 0, ls_seen = 0\<rparr>"

definition finish_load :: "load_state \<Rightarrow> (staging_tables, load_answer) prog" where
  "finish_load l =
     bindp (if ls_batch l = [] then ret l else flush_cards l) (\<lambda>l.
     bindp (if ls_sealed l = [] then ret l else flush_sealed l) (\<lambda>l.
       ret \<lparr>la_rows = ls_rows l, la_seen = ls_seen l, la_sealed_rows = ls_sealed_rows l\<rparr>))"

text \<open>The pairs that the stream yields before it ends, normally or with the exception of the parser.\<close>

definition stream_body ::
  "price_env \<Rightarrow> string set \<Rightarrow> (string \<times> json) list \<Rightarrow> pyexc option \<Rightarrow> (staging_tables, load_answer) prog" where
  "stream_body env sealed kvs fault =
     bindp (load_items copy_batch_size env sealed kvs new_load) (\<lambda>l.
       case fault of Some e \<Rightarrow> throw e | None \<Rightarrow> finish_load l)"

definition stream_to_staging ::
  "price_env \<Rightarrow> string set \<Rightarrow> (string \<times> json) list \<Rightarrow> pyexc option \<Rightarrow> (pyexc \<Rightarrow> string) \<Rightarrow> nat option \<Rightarrow>
   (ops \<times> staging_tables, load_answer) prog" where
  "stream_to_staging env sealed kvs fault msg run =
     track_world run ''stream_to_staging'' ''stream_to_staging_failed'' msg (stream_body env sealed kvs fault)"

definition truncate_staging_after_promotion :: "(staging_tables, nat) prog" where
  "truncate_staging_after_promotion t = (Inr (length (mt_cards t)), t\<lparr>mt_cards := []\<rparr>)"

definition cleanup_staging_db :: "(pyexc \<Rightarrow> string) \<Rightarrow> nat option \<Rightarrow> (ops \<times> staging_tables, nat) prog" where
  "cleanup_staging_db msg run =
     track_world run ''cleanup_staging_db'' ''cleanup_staging_failed'' msg truncate_staging_after_promotion"

section \<open>Downloads, the version gate and old files\<close>

text \<open>The downloads: where the file goes and what the step hands on; the transfer is a parameter.\<close>

definition download_to ::
  "string list \<Rightarrow> place \<Rightarrow> (string list \<Rightarrow> (fs, unit) prog) \<Rightarrow> string \<Rightarrow> (fs, string) prog" where
  "download_to cwd base fetch name s =
     (case get_full_path cwd base name of
        Inl e \<Rightarrow> (Inl e, s)
      | Inr full \<Rightarrow> bindp (fetch full) (\<lambda>_. ret (show_path full)) s)"

definition download_mtgjson_data_last_90 ::
  "string list \<Rightarrow> place \<Rightarrow> (string list \<Rightarrow> (fs, unit) prog) \<Rightarrow> string \<Rightarrow> (pyexc \<Rightarrow> string) \<Rightarrow> nat option \<Rightarrow> (ops \<times> fs, string) prog" where
  "download_mtgjson_data_last_90 cwd base fetch ts msg run =
     track_world run ''download_90day_prices'' ''download_90day_failed'' msg
       (download_to cwd base fetch (build_timestamped_name ''AllPrices.json.xz'' ts))"

definition stage_mtgjson_data ::
  "string list \<Rightarrow> place \<Rightarrow> (string list \<Rightarrow> (fs, unit) prog) \<Rightarrow> string \<Rightarrow> (pyexc \<Rightarrow> string) \<Rightarrow> nat option \<Rightarrow> (ops \<times> fs, string) prog" where
  "stage_mtgjson_data cwd base fetch ts msg run =
     track_world run ''download_today_prices'' ''download_today_failed'' msg
       (download_to cwd base fetch (build_timestamped_name ''AllPricesToday.json.xz'' ts))"

definition download_all_identifiers ::
  "string list \<Rightarrow> place \<Rightarrow> (string list \<Rightarrow> (fs, unit) prog) \<Rightarrow> (pyexc \<Rightarrow> string) \<Rightarrow> nat option \<Rightarrow> (ops \<times> fs, string) prog" where
  "download_all_identifiers cwd base fetch msg run =
     bindp (track_world run ''download_all_identifiers'' ''download_identifiers_failed'' msg
              (download_to cwd base fetch ''AllIdentifiers.json'')) (\<lambda>_. ret ''AllIdentifiers.json'')"

text \<open>The resource row of the catalog: its version, where it exists; an update of a missing row changes nothing.\<close>

definition upsert_mtgjson_resource_version :: "json \<Rightarrow> json option \<Rightarrow> json option" where
  "upsert_mtgjson_resource_version v row = (case row of None \<Rightarrow> None | Some _ \<Rightarrow> Some v)"

text \<open>\<open>j[k]\<close>.\<close>

definition index_json :: "json \<Rightarrow> string \<Rightarrow> json res" where
  "index_json j k = (case j of JObj d \<Rightarrow> (case dget d k of None \<Rightarrow> Inl KeyErr | Some v \<Rightarrow> Inr v) | _ \<Rightarrow> Inl TypeErr)"

definition check_version_body :: "json res \<Rightarrow> (string \<Rightarrow> int option) \<Rightarrow> (json option, bool \<times> json) prog" where
  "check_version_body meta day_of row =
     (case bind_res (bind_res meta (\<lambda>m. index_json m ''data'')) (\<lambda>d.
             bind_res (index_json d ''version'') (\<lambda>v. bind_res (index_json d ''date'') (\<lambda>dt. Inr (v, dt)))) of
        Inl e \<Rightarrow> (Inl e, row)
      | Inr (v, dt) \<Rightarrow>
          if (case row of None \<Rightarrow> JNull | Some w \<Rightarrow> w) = v then (Inr (False, v), row)
          else (case dt of
                  JStr t \<Rightarrow> (if day_of t = None then (Inl ValueErr, row)
                             else if \<not> is_text v then (Inl DbErr, row)
                             else (Inr (True, v), upsert_mtgjson_resource_version v row))
                | _ \<Rightarrow> (Inl DbErr, row)))"

definition check_version ::
  "json res \<Rightarrow> (string \<Rightarrow> int option) \<Rightarrow> (pyexc \<Rightarrow> string) \<Rightarrow> nat option \<Rightarrow> (ops \<times> json option, bool \<times> json) prog" where
  "check_version meta day_of msg run =
     track_world run ''check_version'' ''check_version_failed'' msg (check_version_body meta day_of)"

text \<open>\<open>xs[:-r]\<close>.\<close>

definition drop_last :: "int \<Rightarrow> 'a list \<Rightarrow> 'a list" where
  "drop_last r xs = (if 0 < r then take (length xs - nat r) xs else take (nat (- r)) xs)"

definition raw_files_to_delete :: "int \<Rightarrow> string list \<Rightarrow> string list" where
  "raw_files_to_delete retention files =
     (let dailies = sort (filter (prefix ''AllPricesToday_'') files);
          bulks = filter (\<lambda>f. prefix ''AllPrices_'' f \<and> \<not> prefix ''AllPricesToday_'' f) files
      in if bulks \<noteq> [] then dailies
         else if retention < int (length dailies) then drop_last retention dailies else [])"

text \<open>A file that cannot be deleted is passed over.\<close>

fun delete_each :: "'s backend \<Rightarrow> string list \<Rightarrow> 's \<Rightarrow> nat \<times> 's" where
  "delete_each B [] s = (0, s)"
| "delete_each B (n # ns) s =
     (case delete_file B n s of (r, s') \<Rightarrow>
        case delete_each B ns s' of (k, s'') \<Rightarrow> ((if r = Inr True then Suc k else k), s''))"

definition cleanup_body ::
  "(string \<Rightarrow> string \<Rightarrow> bool) \<Rightarrow> codec \<Rightarrow> string list \<Rightarrow> place \<Rightarrow> int \<Rightarrow> (fs, nat) prog" where
  "cleanup_body matches cd cwd base retention s =
     (case local_list matches cwd base '''' ''*.json.xz'' s of
        Inl e \<Rightarrow> (Inl e, s)
      | Inr files \<Rightarrow>
          (case delete_each (local_backend cd cwd base) (raw_files_to_delete retention files) s of (k, s') \<Rightarrow> (Inr k, s')))"

definition cleanup_raw_files ::
  "(string \<Rightarrow> string \<Rightarrow> bool) \<Rightarrow> codec \<Rightarrow> string list \<Rightarrow> place \<Rightarrow> int \<Rightarrow> (pyexc \<Rightarrow> string) \<Rightarrow> nat option \<Rightarrow> (ops \<times> fs, nat) prog" where
  "cleanup_raw_files matches cd cwd base retention msg run =
     track_world run ''cleanup_raw_files'' ''cleanup_raw_failed'' msg (cleanup_body matches cd cwd base retention)"

section \<open>A load stages every row once\<close>

definition card_rows :: "price_env \<Rightarrow> string set \<Rightarrow> (string \<times> json) list \<Rightarrow> card_price list" where
  "card_rows env sealed kvs = concat (map (\<lambda>(u, v). if u \<in> sealed then [] else iter_card_rows env u v) kvs)"

definition sealed_rows :: "price_env \<Rightarrow> string set \<Rightarrow> (string \<times> json) list \<Rightarrow> sealed_price list" where
  "sealed_rows env sealed kvs = concat (map (\<lambda>(u, v). if u \<in> sealed then iter_sealed_rows env u v else []) kvs)"

definition copyable :: "card_price list \<Rightarrow> sealed_price list \<Rightarrow> bool" where
  "copyable cs ss \<longleftrightarrow> list_all (\<lambda>r. is_text (cp_currency r)) cs \<and> list_all (\<lambda>r. is_text (sp_currency r)) ss"

text \<open>What a load has staged and still holds, from the tables it began with.\<close>

definition loaded_rel :: "staging_tables \<Rightarrow> card_price list \<Rightarrow> sealed_price list \<Rightarrow> nat \<Rightarrow> load_state \<Rightarrow> staging_tables \<Rightarrow> bool" where
  "loaded_rel t0 cs ss n l t \<longleftrightarrow>
     (\<exists>cs' ss'. cs = cs' @ ls_batch l \<and> ss = ss' @ ls_sealed l \<and> ls_rows l = length cs' \<and> ls_sealed_rows l = length ss' \<and>
        t = t0\<lparr>mt_cards := mt_cards t0 @ cs', mt_sealed := mt_sealed t0 @ ss'\<rparr>) \<and> ls_seen l = n"

lemma flush_cards_rel:
  assumes "loaded_rel t0 cs ss n l t" "copyable cs ss"
  obtains l' t' where "flush_cards l t = (Inr l', t')" "loaded_rel t0 cs ss n l' t'" "ls_batch l' = []" "ls_sealed l' = ls_sealed l"
proof
  from assms obtain cs' ss' where d: "cs = cs' @ ls_batch l" "ss = ss' @ ls_sealed l" "ls_rows l = length cs'"
    "ls_sealed_rows l = length ss'" "t = t0\<lparr>mt_cards := mt_cards t0 @ cs', mt_sealed := mt_sealed t0 @ ss'\<rparr>" "ls_seen l = n"
    by (auto simp: loaded_rel_def)
  have ok: "list_all (\<lambda>r. is_text (cp_currency r)) (ls_batch l)" using assms(2) d(1) by (simp add: copyable_def)
  let ?l = "l\<lparr>ls_rows := ls_rows l + length (ls_batch l), ls_batch := []\<rparr>"
  let ?t = "t\<lparr>mt_cards := mt_cards t @ ls_batch l\<rparr>"
  show "flush_cards l t = (Inr ?l, ?t)" using ok by (simp add: flush_cards_def bindp_def copy_staging_batch_def)
  show "loaded_rel t0 cs ss n ?l ?t" unfolding loaded_rel_def
    using d by (intro conjI exI [of _ cs] exI [of _ ss']) simp_all
qed simp_all

lemma flush_sealed_rel:
  assumes "loaded_rel t0 cs ss n l t" "copyable cs ss"
  obtains l' t' where "flush_sealed l t = (Inr l', t')" "loaded_rel t0 cs ss n l' t'" "ls_sealed l' = []" "ls_batch l' = ls_batch l"
proof
  from assms obtain cs' ss' where d: "cs = cs' @ ls_batch l" "ss = ss' @ ls_sealed l" "ls_rows l = length cs'"
    "ls_sealed_rows l = length ss'" "t = t0\<lparr>mt_cards := mt_cards t0 @ cs', mt_sealed := mt_sealed t0 @ ss'\<rparr>" "ls_seen l = n"
    by (auto simp: loaded_rel_def)
  have ok: "list_all (\<lambda>r. is_text (sp_currency r)) (ls_sealed l)" using assms(2) d(2) by (simp add: copyable_def)
  let ?l = "l\<lparr>ls_sealed_rows := ls_sealed_rows l + length (ls_sealed l), ls_sealed := []\<rparr>"
  let ?t = "t\<lparr>mt_sealed := mt_sealed t @ ls_sealed l\<rparr>"
  show "flush_sealed l t = (Inr ?l, ?t)" using ok by (simp add: flush_sealed_def bindp_def copy_sealed_staging_batch_def)
  show "loaded_rel t0 cs ss n ?l ?t" unfolding loaded_rel_def
    using d by (intro conjI exI [of _ cs'] exI [of _ ss]) simp_all
qed simp_all

lemma loaded_rel_more:
  assumes "loaded_rel t0 cs ss n l t"
  shows "loaded_rel t0 (cs @ xs) ss (Suc n) (l\<lparr>ls_seen := Suc (ls_seen l), ls_batch := ls_batch l @ xs\<rparr>) t"
    and "loaded_rel t0 cs (ss @ ys) (Suc n) (l\<lparr>ls_seen := Suc (ls_seen l), ls_sealed := ls_sealed l @ ys\<rparr>) t"
  using assms by (auto simp: loaded_rel_def)

lemma load_item_rel:
  assumes "loaded_rel t0 cs ss n l t"
    and "copyable (cs @ card_rows env sealed [kv]) (ss @ sealed_rows env sealed [kv])"
  obtains l' t' where "load_item bsize env sealed kv l t = (Inr l', t')"
    "loaded_rel t0 (cs @ card_rows env sealed [kv]) (ss @ sealed_rows env sealed [kv]) (Suc n) l' t'"
proof (cases kv)
  case (Pair u v)
  show ?thesis
  proof (cases "u \<in> sealed")
    case True
    let ?l = "l\<lparr>ls_seen := Suc (ls_seen l), ls_sealed := ls_sealed l @ iter_sealed_rows env u v\<rparr>"
    have rows: "card_rows env sealed [kv] = []" "sealed_rows env sealed [kv] = iter_sealed_rows env u v"
      using True by (simp_all add: Pair card_rows_def sealed_rows_def)
    have rel: "loaded_rel t0 cs (ss @ iter_sealed_rows env u v) (Suc n) ?l t" by (rule loaded_rel_more(2) [OF assms(1)])
    have step: "load_item bsize env sealed kv l = (if bsize \<le> length (ls_sealed ?l) then flush_sealed ?l else ret ?l)"
      using True by (simp add: load_item_def Pair Let_def)
    show ?thesis
    proof (cases "bsize \<le> length (ls_sealed ?l)")
      case True
      with flush_sealed_rel [OF rel] assms(2) step that show ?thesis unfolding rows by (metis append_Nil2)
    next
      case False
      with step have "load_item bsize env sealed kv l t = (Inr ?l, t)" by simp
      from that [OF this] rel show ?thesis unfolding rows by simp
    qed
  next
    case False
    let ?l = "l\<lparr>ls_seen := Suc (ls_seen l), ls_batch := ls_batch l @ iter_card_rows env u v\<rparr>"
    have rows: "card_rows env sealed [kv] = iter_card_rows env u v" "sealed_rows env sealed [kv] = []"
      using False by (simp_all add: Pair card_rows_def sealed_rows_def)
    have rel: "loaded_rel t0 (cs @ iter_card_rows env u v) ss (Suc n) ?l t" by (rule loaded_rel_more(1) [OF assms(1)])
    have step: "load_item bsize env sealed kv l = (if bsize \<le> length (ls_batch ?l) then flush_cards ?l else ret ?l)"
      using False by (simp add: load_item_def Pair Let_def)
    show ?thesis
    proof (cases "bsize \<le> length (ls_batch ?l)")
      case True
      with flush_cards_rel [OF rel] assms(2) step that show ?thesis unfolding rows by (metis append_Nil2)
    next
      case False
      with step have "load_item bsize env sealed kv l t = (Inr ?l, t)" by simp
      from that [OF this] rel show ?thesis unfolding rows by simp
    qed
  qed
qed

lemma rows_Cons:
  "card_rows env sealed (kv # kvs) = card_rows env sealed [kv] @ card_rows env sealed kvs"
  "sealed_rows env sealed (kv # kvs) = sealed_rows env sealed [kv] @ sealed_rows env sealed kvs"
  by (simp_all add: card_rows_def sealed_rows_def)

lemma copyable_append: "copyable (a @ b) (c @ d) \<longleftrightarrow> copyable a c \<and> copyable b d"
  by (auto simp: copyable_def)

lemma load_items_rel:
  assumes "loaded_rel t0 cs ss n l t" "copyable (cs @ card_rows env sealed kvs) (ss @ sealed_rows env sealed kvs)"
  shows "\<exists>l' t'. load_items bsize env sealed kvs l t = (Inr l', t') \<and>
           loaded_rel t0 (cs @ card_rows env sealed kvs) (ss @ sealed_rows env sealed kvs) (n + length kvs) l' t'"
  using assms
proof (induction kvs arbitrary: cs ss n l t)
  case Nil
  then show ?case by (simp add: card_rows_def sealed_rows_def)
next
  case (Cons kv kvs)
  have "copyable (cs @ card_rows env sealed [kv]) (ss @ sealed_rows env sealed [kv])"
    using Cons.prems(2) by (simp only: rows_Cons [of _ _ kv kvs] append_assoc [symmetric] copyable_append)
  from load_item_rel [OF Cons.prems(1) this] obtain l1 t1 where one: "load_item bsize env sealed kv l t = (Inr l1, t1)"
    "loaded_rel t0 (cs @ card_rows env sealed [kv]) (ss @ sealed_rows env sealed [kv]) (Suc n) l1 t1" by metis
  from Cons.IH [OF one(2)] Cons.prems(2) show ?case
    using one(1) by (simp add: rows_Cons [of _ _ kv kvs])
qed

text \<open>
  C30. A load whose rows have textual currencies stages every row of the file exactly once and in order, whatever the
  batches: card prices in one table, prices of known sealed products in the other, with the right counts.
\<close>

theorem load_stages_all:
  assumes "copyable (card_rows env sealed kvs) (sealed_rows env sealed kvs)"
  shows "stream_body env sealed kvs None t =
           (Inr \<lparr>la_rows = length (card_rows env sealed kvs), la_seen = length kvs,
                 la_sealed_rows = length (sealed_rows env sealed kvs)\<rparr>,
            t\<lparr>mt_cards := mt_cards t @ card_rows env sealed kvs, mt_sealed := mt_sealed t @ sealed_rows env sealed kvs\<rparr>)"
proof -
  let ?cs = "card_rows env sealed kvs" and ?ss = "sealed_rows env sealed kvs"
  have "loaded_rel t [] [] 0 new_load t" by (simp add: loaded_rel_def new_load_def)
  from load_items_rel [OF this] assms obtain l1 t1 where
    run: "load_items copy_batch_size env sealed kvs new_load t = (Inr l1, t1)" and rel1: "loaded_rel t ?cs ?ss (length kvs) l1 t1"
    by fastforce
  obtain l2 t2 where two: "(if ls_batch l1 = [] then ret l1 else flush_cards l1) t1 = (Inr l2, t2)"
    "loaded_rel t ?cs ?ss (length kvs) l2 t2" "ls_batch l2 = []"
  proof (cases "ls_batch l1 = []")
    case True
    with rel1 that [of l1 t1] show ?thesis by simp
  next
    case False
    obtain l' t' where f: "flush_cards l1 t1 = (Inr l', t')" "loaded_rel t ?cs ?ss (length kvs) l' t'" "ls_batch l' = []"
      by (rule flush_cards_rel [OF rel1 assms])
    from that [of l' t'] f False show ?thesis by simp
  qed
  obtain l3 t3 where three: "(if ls_sealed l2 = [] then ret l2 else flush_sealed l2) t2 = (Inr l3, t3)"
    "loaded_rel t ?cs ?ss (length kvs) l3 t3" "ls_batch l3 = []" "ls_sealed l3 = []"
  proof (cases "ls_sealed l2 = []")
    case True
    with two that [of l2 t2] show ?thesis by simp
  next
    case False
    obtain l' t' where f: "flush_sealed l2 t2 = (Inr l', t')" "loaded_rel t ?cs ?ss (length kvs) l' t'" "ls_sealed l' = []"
        "ls_batch l' = ls_batch l2"
      by (rule flush_sealed_rel [OF two(2) assms])
    from that [of l' t'] f False two(3) show ?thesis by simp
  qed
  have "finish_load l1 t1 = (Inr \<lparr>la_rows = ls_rows l3, la_seen = ls_seen l3, la_sealed_rows = ls_sealed_rows l3\<rparr>, t3)"
    using two(1) three(1) by (simp add: finish_load_def bindp_def)
  then have body: "stream_body env sealed kvs None t =
      (Inr \<lparr>la_rows = ls_rows l3, la_seen = ls_seen l3, la_sealed_rows = ls_sealed_rows l3\<rparr>, t3)"
    using run by (simp add: stream_body_def)
  obtain cs' ss' where "?cs = cs'" "?ss = ss'" "ls_rows l3 = length cs'" "ls_sealed_rows l3 = length ss'"
    "t3 = t\<lparr>mt_cards := mt_cards t @ cs', mt_sealed := mt_sealed t @ ss'\<rparr>" "ls_seen l3 = length kvs"
    using three(2) unfolding loaded_rel_def three(3,4) append_Nil2 by blast
  then show ?thesis unfolding body by simp
qed

definition demo_prices :: price_env where
  "demo_prices = \<lparr>pe_day = (\<lambda>s. if s = ''d1'' then Some 1 else if s = ''d2'' then Some 2 else None), pe_num = (\<lambda>_. None)\<rparr>"

definition demo_entry :: json where
  "demo_entry = JObj [(''paper'', JObj [(''tcgplayer'', JObj [(''retail'',
     JObj [(''normal'', JObj [(''d1'', JNum (1/2)), (''?'', JInt 3), (''d2'', JInt 4)])])])])]"

lemma demo_rows:
  "card_rows demo_prices {''s''} [(''c'', demo_entry), (''s'', demo_entry)] =
     [\<lparr>cp_uuid = ''c'', cp_source = ''tcgplayer'', cp_type = ''retail'', cp_finish = ''normal'', cp_currency = JStr ''USD'',
       cp_value = 1/2, cp_day = 1\<rparr>,
      \<lparr>cp_uuid = ''c'', cp_source = ''tcgplayer'', cp_type = ''retail'', cp_finish = ''normal'', cp_currency = JStr ''USD'',
       cp_value = 4, cp_day = 2\<rparr>]"
  "sealed_rows demo_prices {''s''} [(''c'', demo_entry), (''s'', demo_entry)] =
     [\<lparr>sp_uuid = ''s'', sp_source = ''tcgplayer'', sp_type = ''retail'', sp_currency = JStr ''USD'', sp_value = 1/2, sp_day = 1\<rparr>]"
  by (simp_all add: card_rows_def sealed_rows_def iter_card_rows_def iter_sealed_rows_def finish_cells_def price_cells_def
      currency_of_def demo_entry_def demo_prices_def jget_def map_filter_simps)

theorem load_stages_all_witness:
  "fst (stream_body demo_prices {''s''} [(''c'', demo_entry), (''s'', demo_entry)] None \<lparr>mt_cards = [], mt_sealed = []\<rparr>) =
     Inr \<lparr>la_rows = 2, la_seen = 2, la_sealed_rows = 1\<rparr>"
proof -
  have "copyable (card_rows demo_prices {''s''} [(''c'', demo_entry), (''s'', demo_entry)])
          (sealed_rows demo_prices {''s''} [(''c'', demo_entry), (''s'', demo_entry)])"
    unfolding demo_rows by (simp add: copyable_def is_text_def)
  from load_stages_all [OF this] show ?thesis unfolding demo_rows by simp
qed

text \<open>
  The comment says that the most recent price of a sealed product wins; with the dates in ascending order, as the files
  have them, the row has the earliest day.
\<close>

lemma sealed_cell_is_first:
  assumes "take 1 (price_cells env dates) = [(q, day)]" "sorted (map snd (price_cells env dates))"
  shows "\<forall>c \<in> set (price_cells env dates). day \<le> snd c"
  using assms by (cases "price_cells env dates") auto

section \<open>Every id resolves\<close>

lemma dget_insert_new: "dget (insert_new k v d) k' = (case dget d k' of Some w \<Rightarrow> Some w | None \<Rightarrow> if k' = k then Some v else None)"
  by (auto simp: insert_new_def map_add_def split: option.splits)

lemma insert_new_append: "\<exists>e. insert_new k v d = d @ e"
  by (auto simp: insert_new_def)

lemma insert_new_known [simp]: "dget d k \<noteq> None \<Longrightarrow> insert_new k v d = d"
  by (simp add: insert_new_def)

lemma add_primary_append: "\<exists>e. add_primary js d = d @ e"
  unfolding add_primary_def
proof (induction js arbitrary: d)
  case (Cons j js)
  obtain cv u where j: "j = (cv, u)" by (cases j)
  obtain e1 where e1: "insert_new cv u d = d @ e1" using insert_new_append [of cv u d] by blast
  from Cons.IH [of "d @ e1"] show ?case using e1 by (auto simp: j)
qed simp

lemma add_primary_known:
  "dget (add_primary js d) cv \<noteq> None \<longleftrightarrow> dget d cv \<noteq> None \<or> cv \<in> fst ` set js"
  unfolding add_primary_def
proof (induction js arbitrary: d)
  case (Cons j js)
  obtain cv' u where j: "j = (cv', u)" by (cases j)
  show ?case using Cons.IH [of "insert_new cv' u d"] by (auto simp: j dget_insert_new split: option.splits)
qed simp

lemma add_primary_idem:
  "list_all (\<lambda>(cv, _). dget d cv \<noteq> None) js \<Longrightarrow> add_primary js d = d"
  unfolding add_primary_def by (induction js) (auto simp: insert_new_known)

lemma add_aliases_append: "\<exists>e. add_aliases prim js d = d @ e"
  unfolding add_aliases_def
proof (induction js arbitrary: d)
  case (Cons j js)
  obtain cv u where j: "j = (cv, u)" by (cases j)
  have "\<exists>e1. (if u \<in> snd ` set prim then id else insert_new u cv) d = d @ e1" using insert_new_append [of u cv d] by simp
  then obtain e1 where e1: "(if u \<in> snd ` set prim then id else insert_new u cv) d = d @ e1" by blast
  from Cons.IH [of "d @ e1"] show ?case using e1 by (auto simp: j)
qed simp

lemma add_aliases_known:
  "dget (add_aliases prim js d) u \<noteq> None \<longleftrightarrow> dget d u \<noteq> None \<or> u \<in> snd ` set js - snd ` set prim"
  unfolding add_aliases_def
proof (induction js arbitrary: d)
  case (Cons j js)
  obtain cv u' where j: "j = (cv, u')" by (cases j)
  show ?case
  proof (cases "u' \<in> snd ` set prim")
    case True
    then show ?thesis using Cons.IH [of d] by (auto simp: j)
  next
    case False
    then show ?thesis using Cons.IH [of "insert_new u' cv d"] by (auto simp: j dget_insert_new split: option.splits)
  qed
qed simp

lemma add_aliases_idem:
  "list_all (\<lambda>(_, u). u \<in> snd ` set prim \<or> dget d u \<noteq> None) js \<Longrightarrow> add_aliases prim js d = d"
  unfolding add_aliases_def
proof (induction js)
  case (Cons j js)
  then show ?case by (cases j; cases "snd j \<in> snd ` set prim") simp_all
qed simp

lemma joined_cong: "it_scryfall t' = it_scryfall t \<Longrightarrow> joined t' ps = joined t ps"
  by (simp add: joined_def versions_with_def)

text \<open>
  C31. After the sync every MTGJson id of the file whose card is in the catalog resolves to a card, directly or by an
  alias, every such card has an id, nothing that resolved before is lost, and running the sync again changes nothing.
\<close>

theorem sync_resolves:
  assumes pairs: "text_pairs ps = Inr qs" and run: "upsert_mtgjson_id_mappings ps t = (Inr n, t')"
  shows "list_all (\<lambda>(cv, u). (\<exists>cv'. resolves t' u cv') \<and> dget (it_mtgjson t') cv \<noteq> None) (joined t qs) \<and>
         (\<forall>u cv. resolves t u cv \<longrightarrow> resolves t' u cv) \<and> upsert_mtgjson_id_mappings ps t' = (Inr 0, t')"
proof (cases "ps = []")
  case True
  then show ?thesis using run pairs by (auto simp: upsert_mtgjson_id_mappings_def joined_def)
next
  case False
  let ?js = "joined t qs" and ?prim = "add_primary (joined t qs) (it_mtgjson t)"
  let ?al = "add_aliases ?prim ?js (it_alias t)"
  have t': "t' = t\<lparr>it_mtgjson := ?prim, it_alias := ?al\<rparr>"
    using run pairs False by (simp add: upsert_mtgjson_id_mappings_def Let_def)
  have js: "joined t' qs = ?js" by (rule joined_cong) (simp add: t')
  have known: "dget ?prim cv \<noteq> None" "u \<in> snd ` set ?prim \<or> dget ?al u \<noteq> None" if "(cv, u) \<in> set ?js" for cv u
  proof -
    show "dget ?prim cv \<noteq> None" unfolding add_primary_known using that by force
    have "u \<in> snd ` set ?js" using that by force
    then show "u \<in> snd ` set ?prim \<or> dget ?al u \<noteq> None" unfolding add_aliases_known by blast
  qed
  have res: "\<exists>cv'. resolves t' u cv'" if "(cv, u) \<in> set ?js" for cv u
  proof -
    from known(2) [OF that] consider "u \<in> snd ` set ?prim" | cv' where "dget ?al u = Some cv'" by blast
    then show ?thesis
    proof cases
      case 1
      then show ?thesis by (force simp: resolves_def t')
    next
      case 2
      from map_of_SomeD [OF this] show ?thesis by (auto simp: resolves_def t')
    qed
  qed
  obtain e1 e2 where app: "?prim = it_mtgjson t @ e1" "?al = it_alias t @ e2"
    using add_primary_append add_aliases_append by metis
  have again: "add_primary ?js ?prim = ?prim" "add_aliases ?prim ?js ?al = ?al"
    by (rule add_primary_idem, use known(1) in \<open>auto simp: list_all_iff\<close>)
      (rule add_aliases_idem, use known(2) in \<open>simp only: list_all_iff case_prod_beta prod.collapse, blast intro: prod.collapse\<close>)
  have "upsert_mtgjson_id_mappings ps t' = (Inr 0, t')"
    using False pairs by (simp add: upsert_mtgjson_id_mappings_def Let_def js) (simp add: t' again)
  moreover have "list_all (\<lambda>(cv, u). (\<exists>cv'. resolves t' u cv') \<and> dget (it_mtgjson t') cv \<noteq> None) ?js"
    using known(1) res by (auto simp: list_all_iff t')
  moreover have "\<forall>u cv. resolves t u cv \<longrightarrow> resolves t' u cv"
    unfolding resolves_def using app by (auto simp: t')
  ultimately show ?thesis by blast
qed

definition demo_ids :: id_tables where
  "demo_ids = \<lparr>it_scryfall = [(1, ''s1''), (2, ''s2'')], it_mtgjson = [], it_alias = []\<rparr>"

definition demo_pairs :: "(json \<times> json) list" where
  "demo_pairs = [(JStr ''front'', JStr ''s1''), (JStr ''back'', JStr ''s1'')]"

theorem sync_resolves_witness:
  "resolves (snd (upsert_mtgjson_id_mappings demo_pairs demo_ids)) ''back'' 1 \<and>
   upsert_mtgjson_id_mappings demo_pairs (snd (upsert_mtgjson_id_mappings demo_pairs demo_ids)) =
     (Inr 0, snd (upsert_mtgjson_id_mappings demo_pairs demo_ids))"
proof -
  have p: "text_pairs demo_pairs = Inr [(''front'', ''s1''), (''back'', ''s1'')]" by (simp add: demo_pairs_def)
  have r: "upsert_mtgjson_id_mappings demo_pairs demo_ids = (Inr 1, snd (upsert_mtgjson_id_mappings demo_pairs demo_ids))"
    by code_simp
  have "resolves (snd (upsert_mtgjson_id_mappings demo_pairs demo_ids)) ''back'' 1" by code_simp
  with sync_resolves [OF p r] show ?thesis by blast
qed

text \<open>
  The version gate stores the version it saw before anything was downloaded: asked again it says that nothing has changed,
  whatever became of the steps behind it.
\<close>

lemma version_gate_forgets:
  assumes "check_version_body meta day_of row = (Inr (True, v), row')" "row \<noteq> None"
  shows "check_version_body meta day_of row' = (Inr (False, v), row')"
proof -
  let ?m = "bind_res (bind_res meta (\<lambda>m. index_json m ''data'')) (\<lambda>d.
      bind_res (index_json d ''version'') (\<lambda>v. bind_res (index_json d ''date'') (\<lambda>dt. Inr (v, dt))))"
  obtain u dt where m: "?m = Inr (u, dt)" using assms(1) by (cases ?m) (auto simp: check_version_body_def)
  note body = check_version_body_def [of meta day_of, unfolded m sum.case prod.case]
  from assms have "u = v" "row' = Some v"
    by (auto simp: body upsert_mtgjson_resource_version_def split: json.splits if_splits)
  then show ?thesis by (simp add: body)
qed

section \<open>Retention\<close>

text \<open>
  Without a bulk file the cleanup with a positive retention selects all but the newest daily files, as many as the
  retention says, and nothing else.
\<close>

theorem retention_keeps_newest:
  assumes "0 < retention" "\<not> list_ex (prefix ''AllPrices_'') files"
  shows "\<exists>kept. sort (filter (prefix ''AllPricesToday_'') files) = raw_files_to_delete retention files @ kept \<and>
           int (length kept) = min retention (int (length (filter (prefix ''AllPricesToday_'') files))) \<and>
           list_all (\<lambda>d. list_all (\<lambda>k. d \<le> k) kept) (raw_files_to_delete retention files)"
proof -
  let ?d = "sort (filter (prefix ''AllPricesToday_'') files)"
  have "filter (\<lambda>f. prefix ''AllPrices_'' f \<and> \<not> prefix ''AllPricesToday_'' f) files = []"
    using assms(2) by (auto simp: filter_empty_conv list_ex_iff)
  then have del: "raw_files_to_delete retention files = take (length ?d - nat retention) ?d"
    using assms(1) by (auto simp: raw_files_to_delete_def drop_last_def)
  let ?k = "drop (length ?d - nat retention) ?d"
  have "?d = raw_files_to_delete retention files @ ?k" unfolding del by (rule append_take_drop_id [symmetric])
  moreover from this have "sorted (raw_files_to_delete retention files @ ?k)" by (metis sorted_sort)
  moreover from \<open>sorted (raw_files_to_delete retention files @ ?k)\<close>
  have "\<forall>d \<in> set (raw_files_to_delete retention files). \<forall>k \<in> set ?k. d \<le> k" unfolding sorted_append by blast
  moreover have "int (length ?k) = min retention (int (length (filter (prefix ''AllPricesToday_'') files)))"
    using assms(1) by simp
  ultimately show ?thesis unfolding list_all_iff by blast
qed

theorem retention_keeps_newest_witness:
  "raw_files_to_delete 1 [''AllPricesToday_2'', ''x'', ''AllPricesToday_1''] = [''AllPricesToday_1'']"
proof -
  obtain kept where k: "sort (filter (prefix ''AllPricesToday_'') [''AllPricesToday_2'', ''x'', ''AllPricesToday_1'']) =
      raw_files_to_delete 1 [''AllPricesToday_2'', ''x'', ''AllPricesToday_1''] @ kept" "length kept = 1"
    using retention_keeps_newest [of 1 "[''AllPricesToday_2'', ''x'', ''AllPricesToday_1'']"] by auto
  have "sort (filter (prefix ''AllPricesToday_'') [''AllPricesToday_2'', ''x'', ''AllPricesToday_1'']) =
    [''AllPricesToday_1'', ''AllPricesToday_2'']" by code_simp
  with k show ?thesis by (cases kept) (auto simp: append_eq_Cons_conv Cons_eq_append_conv)
qed

text \<open>A retention of zero keeps everything: \<open>dailies[:-0]\<close> is empty.\<close>

lemma retention_zero: "\<not> list_ex (prefix ''AllPrices_'') files \<Longrightarrow> raw_files_to_delete 0 files = []"
  by (auto simp: raw_files_to_delete_def drop_last_def filter_empty_conv list_ex_iff Let_def)

end
