(* ===== verification/Sealed_Catalog.thy ===== *)
theory Sealed_Catalog
  imports Mtgjson
begin

text \<open>
  The catalog of sealed products (\<open>sealed_pricing_service.py\<close> and \<open>sealed_pricing_repository.py\<close>): the products of a set
  are written with their types, identifiers and price products, and the price load asks which ids are sealed.

  The identifiers of a product are written in the order of the list; the code iterates over a set, in no fixed order.
  The set code is compared without case by the parameter \<open>sk_set_of\<close>; \<open>str\<close> of a JSON value that is no text and the
  parsing of dates are parameters. The read queries for the API are not modelled.
\<close>

section \<open>Tables\<close>

record sealed_product =
  sk_set :: "nat option"
  sk_game :: nat
  sk_type :: nat
  sk_subtype :: "nat option"
  sk_language :: nat
  sk_name :: string
  sk_release :: "int option"

text \<open>
  \<open>sk_interim\<close> is \<open>pricing.sealed_products\<close>, by MTGJson id; the other tables are those of the catalog and
  \<open>pricing.mtg_sealed_products\<close>, here from a sealed product to its price product.
\<close>

record sealed_db =
  sk_types :: "(string, nat) dict"
  sk_subtypes :: "(string, nat) dict"
  sk_idrefs :: "string list"
  sk_games :: "(string, nat) dict"
  sk_languages :: "(string, nat) dict"
  sk_products :: "(nat, sealed_product) dict"
  sk_idents :: "(nat \<times> string, string) dict"
  sk_priced :: "(nat, nat) dict"
  sk_interim :: "(string, string \<times> string \<times> nat option) dict"
  sk_next :: nat

text \<open>A product as the service hands it to the repository.\<close>

record new_sealed =
  ns_uuid :: json
  ns_name :: json
  ns_type :: json
  ns_subtype :: json
  ns_release :: "int option"
  ns_ids :: "(string, json) dict"

section \<open>Writing a product\<close>

text \<open>A value that is looked up in a dict and otherwise becomes a query parameter of type text.\<close>

fun key_arg :: "json \<Rightarrow> string res" where
  "key_arg (JStr s) = Inr s"
| "key_arg (JList _) = Inl TypeErr"
| "key_arg (JObj _) = Inl TypeErr"
| "key_arg _ = Inl DbErr"

definition text_arg :: "json \<Rightarrow> string res" where
  "text_arg j = (case j of JStr s \<Rightarrow> Inr s | _ \<Rightarrow> Inl DbErr)"

definition type_ref :: "json \<Rightarrow> (sealed_db, nat) prog" where
  "type_ref j s =
     (case key_arg j of
        Inl e \<Rightarrow> (Inl e, s)
      | Inr c \<Rightarrow> (case dget (sk_types s) c of
                    Some i \<Rightarrow> (Inr i, s)
                  | None \<Rightarrow> (Inr (sk_next s), s\<lparr>sk_types := sk_types s @ [(c, sk_next s)], sk_next := Suc (sk_next s)\<rparr>)))"

definition subtype_ref :: "json \<Rightarrow> (sealed_db, nat option) prog" where
  "subtype_ref j s =
     (if \<not> truthy j then (Inr None, s)
      else (case key_arg j of
              Inl e \<Rightarrow> (Inl e, s)
            | Inr c \<Rightarrow> (case dget (sk_subtypes s) c of
                          Some i \<Rightarrow> (Inr (Some i), s)
                        | None \<Rightarrow> (Inr (Some (sk_next s)),
                                  s\<lparr>sk_subtypes := sk_subtypes s @ [(c, sk_next s)], sk_next := Suc (sk_next s)\<rparr>))))"

definition uuid_name :: string where
  "uuid_name = ''mtgjson_uuid''"

definition owners :: "string \<Rightarrow> string \<Rightarrow> sealed_db \<Rightarrow> nat list" where
  "owners name v s = map (fst \<circ> fst) (filter (\<lambda>((_, n), w). n = name \<and> w = v) (sk_idents s))"

definition fetch_sealed_product_id_by_mtgjson_uuid :: "string \<Rightarrow> sealed_db \<Rightarrow> nat option" where
  "fetch_sealed_product_id_by_mtgjson_uuid u s = (case owners uuid_name u s of [] \<Rightarrow> None | i # _ \<Rightarrow> Some i)"

definition fetch_sealed_product_id_by_tcgplayer_id :: "string \<Rightarrow> sealed_db \<Rightarrow> nat option" where
  "fetch_sealed_product_id_by_tcgplayer_id u s = (case owners ''tcgplayer_product_id'' u s of [] \<Rightarrow> None | i # _ \<Rightarrow> Some i)"

text \<open>The insert finds game and language by sub-selects; a missing one violates the column. A missing set is allowed.\<close>

definition insert_product :: "nat option \<Rightarrow> nat \<Rightarrow> nat option \<Rightarrow> new_sealed \<Rightarrow> (sealed_db, nat) prog" where
  "insert_product set_id ty sub p s =
     (case (text_arg (ns_name p), dget (sk_games s) ''mtg'', dget (sk_languages s) ''en'') of
        (Inr name, Some g, Some l) \<Rightarrow>
          (Inr (sk_next s),
           s\<lparr>sk_products := sk_products s @ [(sk_next s, \<lparr>sk_set = set_id, sk_game = g, sk_type = ty, sk_subtype = sub,
               sk_language = l, sk_name = name, sk_release = ns_release p\<rparr>)], sk_next := Suc (sk_next s)\<rparr>)
      | _ \<Rightarrow> (Inl DbErr, s))"

definition update_product :: "nat \<Rightarrow> nat option \<Rightarrow> nat \<Rightarrow> nat option \<Rightarrow> new_sealed \<Rightarrow> (sealed_db, nat) prog" where
  "update_product i set_id ty sub p s =
     (case text_arg (ns_name p) of
        Inl e \<Rightarrow> (Inl e, s)
      | Inr name \<Rightarrow>
          (Inr i, s\<lparr>sk_products := map (\<lambda>(j, r). if j = i
             then (j, r\<lparr>sk_name := name, sk_set := set_id, sk_type := ty, sk_subtype := sub, sk_release := ns_release p\<rparr>)
             else (j, r)) (sk_products s)\<rparr>))"

text \<open>An identifier of another product violates the unique constraint.\<close>

definition upsert_external_id :: "string \<Rightarrow> nat \<Rightarrow> string \<Rightarrow> (sealed_db, unit) prog" where
  "upsert_external_id name i v s =
     (if list_ex (\<lambda>j. j \<noteq> i) (owners name v s) then (Inl DbErr, s)
      else (Inr (), s\<lparr>sk_idents := dset (i, name) v (sk_idents s)\<rparr>))"

text \<open>\<open>str(v)\<close>.\<close>

definition str_of :: "(json \<Rightarrow> string) \<Rightarrow> json \<Rightarrow> string" where
  "str_of str v = (case v of JStr s \<Rightarrow> s | _ \<Rightarrow> str v)"

fun upsert_ids :: "(json \<Rightarrow> string) \<Rightarrow> nat \<Rightarrow> (string \<times> json) list \<Rightarrow> (sealed_db, unit) prog" where
  "upsert_ids str i [] = ret ()"
| "upsert_ids str i ((name, v) # vs) =
     bindp (\<lambda>s. if truthy v \<and> name \<in> set (sk_idrefs s) then upsert_external_id name i (str_of str v) s else (Inr (), s)) (\<lambda>_.
       upsert_ids str i vs)"

definition ensure_priced :: "nat \<Rightarrow> (sealed_db, unit) prog" where
  "ensure_priced i s =
     (if dget (sk_priced s) i \<noteq> None then (Inr (), s)
      else if dget (sk_games s) ''mtg'' = None then (Inl DbErr, s)
      else (Inr (), s\<lparr>sk_priced := sk_priced s @ [(i, sk_next s)], sk_next := Suc (sk_next s)\<rparr>))"

definition upsert_one :: "(string \<Rightarrow> nat option) \<Rightarrow> (json \<Rightarrow> string) \<Rightarrow> string \<Rightarrow> new_sealed \<Rightarrow> (sealed_db, unit) prog" where
  "upsert_one set_of str code p =
     bindp (type_ref (ns_type p)) (\<lambda>ty.
     bindp (subtype_ref (ns_subtype p)) (\<lambda>sub.
     bindp (\<lambda>s. (text_arg (ns_uuid p), s)) (\<lambda>u.
     bindp (\<lambda>s. case fetch_sealed_product_id_by_mtgjson_uuid u s of
                  None \<Rightarrow> insert_product (set_of code) ty sub p s
                | Some i \<Rightarrow> update_product i (set_of code) ty sub p s) (\<lambda>i.
     bindp (upsert_ids str i ((uuid_name, ns_uuid p) # ns_ids p)) (\<lambda>_.
       ensure_priced i)))))"

fun upsert_each :: "(string \<Rightarrow> nat option) \<Rightarrow> (json \<Rightarrow> string) \<Rightarrow> string \<Rightarrow> new_sealed list \<Rightarrow> (sealed_db, unit) prog" where
  "upsert_each set_of str code [] = ret ()"
| "upsert_each set_of str code (p # ps) = bindp (upsert_one set_of str code p) (\<lambda>_. upsert_each set_of str code ps)"

definition upsert_sealed_catalog ::
  "(string \<Rightarrow> nat option) \<Rightarrow> (json \<Rightarrow> string) \<Rightarrow> string \<Rightarrow> new_sealed list \<Rightarrow> (sealed_db, nat) prog" where
  "upsert_sealed_catalog set_of str code ps = bindp (upsert_each set_of str code ps) (\<lambda>_. ret (length ps))"

text \<open>\<open>upsert_sealed_products\<close> writes the interim table; no service calls it.\<close>

definition upsert_sealed_products :: "(string \<Rightarrow> nat option) \<Rightarrow> (string \<times> string \<times> string \<times> string) list \<Rightarrow> (sealed_db, nat) prog" where
  "upsert_sealed_products set_of ps s =
     (Inr (length ps), s\<lparr>sk_interim := fold (\<lambda>(u, n, t, c) d.
         if dget d u = None \<and> dget (sk_games s) ''mtg'' = None then d else dset u (n, t, set_of c) d) ps (sk_interim s)\<rparr>)"

definition fetch_all_sealed_uuids :: "sealed_db \<Rightarrow> string set" where
  "fetch_all_sealed_uuids s = set (dkeys (sk_interim s))"

section \<open>The products of a set file\<close>

definition identifier_map :: "(string \<times> string) list" where
  "identifier_map =
     [(''tcgplayer_product_id'', ''tcgplayerProductId''), (''cardkingdom_id'', ''cardKingdomId''), (''mcm_id'', ''mcmId''),
      (''scg_id'', ''scgId''), (''abu_id'', ''abuId'')]"

definition external_ids :: "(string, json) dict \<Rightarrow> (string \<times> json) list" where
  "external_ids i =
     List.map_filter (\<lambda>(ours, theirs). if truthy (jget i theirs) then Some (ours, jget i theirs) else None) identifier_map"

definition parse_date :: "(string \<Rightarrow> int option) \<Rightarrow> json \<Rightarrow> int option" where
  "parse_date day j = (case j of JStr s \<Rightarrow> if s = [] then None else day s | _ \<Rightarrow> None)"

definition read_product :: "(string \<Rightarrow> int option) \<Rightarrow> json \<Rightarrow> new_sealed option res" where
  "read_product day raw =
     (case raw of
        JObj d \<Rightarrow>
          if \<not> truthy (jget d ''uuid'') then Inr None
          else (let ids = (if truthy (jget d ''identifiers'') then jget d ''identifiers'' else JObj []) in
                case ids of
                  JObj i \<Rightarrow> Inr (Some \<lparr>ns_uuid = jget d ''uuid'', ns_name = (case dget d ''name'' of None \<Rightarrow> JStr '''' | Some v \<Rightarrow> v),
                      ns_type = (case dget d ''category'' of None \<Rightarrow> JStr '''' | Some v \<Rightarrow> v), ns_subtype = jget d ''subtype'',
                      ns_release = parse_date day (jget d ''releaseDate''),
                      ns_ids = external_ids i\<rparr>)
                | _ \<Rightarrow> Inl AttrErr)
      | _ \<Rightarrow> Inl AttrErr)"

definition read_products :: "(string \<Rightarrow> int option) \<Rightarrow> json \<Rightarrow> (nat \<times> new_sealed list) res" where
  "read_products day raws =
     bind_res (iterate raws) (\<lambda>xs.
     bind_res (concat_res (\<lambda>x. bind_res (read_product day x) (\<lambda>p. Inr (case p of None \<Rightarrow> [] | Some q \<Rightarrow> [q]))) xs) (\<lambda>ps.
       Inr (length xs, ps)))"

record bootstrap_answer =
  ba_total :: nat
  ba_upserted :: nat
  ba_skipped :: nat

definition bootstrap_sealed_catalog_from_set ::
  "(string \<Rightarrow> nat option) \<Rightarrow> (json \<Rightarrow> string) \<Rightarrow> (string \<Rightarrow> int option) \<Rightarrow> json res \<Rightarrow> string \<Rightarrow> (sealed_db, bootstrap_answer) prog" where
  "bootstrap_sealed_catalog_from_set set_of str day fetched code s =
     (case bind_res fetched (\<lambda>raw. bind_res (get_default raw ''data'' (JObj [])) (\<lambda>d. get_default d ''sealedProduct'' (JList []))) of
        Inl e \<Rightarrow> (Inl e, s)
      | Inr raws \<Rightarrow>
          if \<not> truthy raws then (Inr \<lparr>ba_total = 0, ba_upserted = 0, ba_skipped = 0\<rparr>, s)
          else (case read_products day raws of
                  Inl e \<Rightarrow> (Inl e, s)
                | Inr (n, ps) \<Rightarrow> bindp (upsert_sealed_catalog set_of str code ps) (\<lambda>k.
                    ret \<lparr>ba_total = n, ba_upserted = k, ba_skipped = n - length ps\<rparr>) s))"

section \<open>The staging table after promotion\<close>

definition truncate_sealed_staging :: "(staging_tables, nat) prog" where
  "truncate_sealed_staging t = (Inr (length (mt_sealed t)), t\<lparr>mt_sealed := []\<rparr>)"

definition cleanup_sealed_staging :: "(staging_tables, nat) prog" where
  "cleanup_sealed_staging = truncate_sealed_staging"

section \<open>What the catalog guarantees\<close>

text \<open>Identifiers are keyed by product and name, belong to issued ids, and no two products share one.\<close>

definition sealed_ok :: "sealed_db \<Rightarrow> bool" where
  "sealed_ok s \<longleftrightarrow> dict_ok (sk_idents s) \<and> (\<forall>i n v. dget (sk_idents s) (i, n) = Some v \<longrightarrow> i < sk_next s) \<and>
     (\<forall>i j n v. dget (sk_idents s) (i, n) = Some v \<longrightarrow> dget (sk_idents s) (j, n) = Some v \<longrightarrow> i = j)"

definition frame :: "sealed_db \<Rightarrow> sealed_db \<Rightarrow> bool" where
  "frame s s' \<longleftrightarrow> sk_idrefs s' = sk_idrefs s \<and> sk_interim s' = sk_interim s \<and> sk_next s \<le> sk_next s' \<and>
     (\<forall>i. dget (sk_priced s) i \<noteq> None \<longrightarrow> dget (sk_priced s') i \<noteq> None)"

lemma frame_refl [simp, intro]: "frame s s" by (simp add: frame_def)

lemma frame_trans [trans]: "frame s t \<Longrightarrow> frame t u \<Longrightarrow> frame s u" by (auto simp: frame_def)

text \<open>A product id is known when a sealed product has it and has a price product.\<close>

definition uuid_known :: "string \<Rightarrow> sealed_db \<Rightarrow> bool" where
  "uuid_known u s \<longleftrightarrow> (\<exists>i. dget (sk_idents s) (i, uuid_name) = Some u \<and> dget (sk_priced s) i \<noteq> None)"

lemma owners_iff: "dict_ok (sk_idents s) \<Longrightarrow> i \<in> set (owners n v s) \<longleftrightarrow> dget (sk_idents s) (i, n) = Some v"
  by (force simp: owners_def dget_in_set)

lemma fetch_Some:
  "sealed_ok s \<Longrightarrow> fetch_sealed_product_id_by_mtgjson_uuid u s = Some i \<Longrightarrow> dget (sk_idents s) (i, uuid_name) = Some u"
  using owners_iff [of s i uuid_name u] by (auto simp: fetch_sealed_product_id_by_mtgjson_uuid_def sealed_ok_def split: list.splits)

lemma known_fetch:
  assumes "sealed_ok s"
  shows "uuid_known u s \<longleftrightarrow> (\<exists>i. fetch_sealed_product_id_by_mtgjson_uuid u s = Some i \<and> dget (sk_priced s) i \<noteq> None)"
proof
  assume "uuid_known u s"
  then obtain i where i: "dget (sk_idents s) (i, uuid_name) = Some u" "dget (sk_priced s) i \<noteq> None" by (auto simp: uuid_known_def)
  then have "i \<in> set (owners uuid_name u s)" using assms by (simp add: owners_iff sealed_ok_def)
  then obtain j js where "owners uuid_name u s = j # js" by (cases "owners uuid_name u s") auto
  then have j: "fetch_sealed_product_id_by_mtgjson_uuid u s = Some j" by (simp add: fetch_sealed_product_id_by_mtgjson_uuid_def)
  with fetch_Some [OF assms this] i(1) assms have "j = i" by (auto simp: sealed_ok_def)
  with i j show "\<exists>i. fetch_sealed_product_id_by_mtgjson_uuid u s = Some i \<and> dget (sk_priced s) i \<noteq> None" by blast
next
  assume "\<exists>i. fetch_sealed_product_id_by_mtgjson_uuid u s = Some i \<and> dget (sk_priced s) i \<noteq> None"
  then show "uuid_known u s" using fetch_Some [OF assms] by (auto simp: uuid_known_def)
qed

text \<open>Steps that leave the identifiers alone.\<close>

lemma refs_frame:
  "type_ref j s = (Inr x, s') \<Longrightarrow> frame s s' \<and> sk_idents s' = sk_idents s"
  "subtype_ref j s = (Inr y, s') \<Longrightarrow> frame s s' \<and> sk_idents s' = sk_idents s"
  "insert_product a b c p s = (Inr i, s') \<Longrightarrow> frame s s' \<and> sk_idents s' = sk_idents s \<and> i = sk_next s \<and> sk_next s' = Suc (sk_next s)"
  "update_product i a b c p s = (Inr k, s') \<Longrightarrow> frame s s' \<and> sk_idents s' = sk_idents s \<and> k = i"
  "ensure_priced i s = (Inr (), s') \<Longrightarrow> frame s s' \<and> sk_idents s' = sk_idents s \<and> dget (sk_priced s') i \<noteq> None"
  by (auto simp: type_ref_def subtype_ref_def insert_product_def update_product_def ensure_priced_def frame_def map_add_def
      split: sum.splits option.splits if_splits)

lemma sealed_ok_frame: "sealed_ok s \<Longrightarrow> frame s s' \<Longrightarrow> sk_idents s' = sk_idents s \<Longrightarrow> sealed_ok s'"
  by (auto simp: sealed_ok_def frame_def intro: less_le_trans)

lemma upsert_external_id_ok:
  assumes "sealed_ok s" "i < sk_next s" "upsert_external_id n i v s = (Inr (), s')"
  shows "sealed_ok s' \<and> frame s s' \<and> s' = s\<lparr>sk_idents := dset (i, n) v (sk_idents s)\<rparr>"
proof -
  have s': "s' = s\<lparr>sk_idents := dset (i, n) v (sk_idents s)\<rparr>" and "\<not> list_ex (\<lambda>j. j \<noteq> i) (owners n v s)"
    using assms(3) by (auto simp: upsert_external_id_def split: if_splits)
  then have only: "dget (sk_idents s) (j, n) = Some v \<Longrightarrow> j = i" for j
    using assms(1) owners_iff [of s j n v] by (auto simp: sealed_ok_def list_ex_iff)
  have "sealed_ok s'" unfolding sealed_ok_def s'
  proof (intro conjI allI impI)
    show "dict_ok (sk_idents (s\<lparr>sk_idents := dset (i, n) v (sk_idents s)\<rparr>))" using assms(1) by (simp add: sealed_ok_def)
  next
    fix j m w assume "dget (sk_idents (s\<lparr>sk_idents := dset (i, n) v (sk_idents s)\<rparr>)) (j, m) = Some w"
    then show "j < sk_next (s\<lparr>sk_idents := dset (i, n) v (sk_idents s)\<rparr>)"
      using assms(1,2) by (auto simp: dget_dset sealed_ok_def split: if_splits)
  next
    fix j k m w
    assume "dget (sk_idents (s\<lparr>sk_idents := dset (i, n) v (sk_idents s)\<rparr>)) (j, m) = Some w"
      "dget (sk_idents (s\<lparr>sk_idents := dset (i, n) v (sk_idents s)\<rparr>)) (k, m) = Some w"
    then show "j = k" using assms(1) only by (auto simp: dget_dset sealed_ok_def split: if_splits)
  qed
  then show ?thesis by (simp add: s' frame_def)
qed

lemma upsert_ids_ok:
  assumes "sealed_ok s" "i < sk_next s" "upsert_ids str i vs s = (Inr (), s')"
  shows "sealed_ok s' \<and> frame s s' \<and> sk_next s' = sk_next s \<and>
         (\<forall>j n. j \<noteq> i \<or> n \<notin> fst ` set vs \<longrightarrow> dget (sk_idents s') (j, n) = dget (sk_idents s) (j, n))"
  using assms
proof (induction vs arbitrary: s)
  case (Cons nv vs)
  obtain n v where nv: "nv = (n, v)" by (cases nv)
  from Cons.prems(3) obtain s1 where
    one: "(if truthy v \<and> n \<in> set (sk_idrefs s) then upsert_external_id n i (str_of str v) s else (Inr (), s)) = (Inr (), s1)"
    and rest: "upsert_ids str i vs s1 = (Inr (), s')" by (auto simp: nv bindp_Inr_iff)
  have s1: "sealed_ok s1 \<and> frame s s1 \<and> sk_next s1 = sk_next s \<and>
      (\<forall>j m. (j, m) \<noteq> (i, n) \<longrightarrow> dget (sk_idents s1) (j, m) = dget (sk_idents s) (j, m))"
  proof (cases "truthy v \<and> n \<in> set (sk_idrefs s)")
    case True
    with one have "upsert_external_id n i (str_of str v) s = (Inr (), s1)" by simp
    from upsert_external_id_ok [OF Cons.prems(1,2) this] show ?thesis by (auto simp: dget_dset)
  next
    case False
    with one Cons.prems(1) show ?thesis by (simp only: if_False prod.inject) simp
  qed
  with Cons.IH [of s1] rest Cons.prems(2) have "sealed_ok s'" "frame s1 s'" "sk_next s' = sk_next s"
    "\<forall>j n. j \<noteq> i \<or> n \<notin> fst ` set vs \<longrightarrow> dget (sk_idents s') (j, n) = dget (sk_idents s1) (j, n)" by auto
  with s1 frame_trans [of s s1 s'] show ?case by (auto simp: nv)
qed auto

text \<open>The pairs of a product begin with its MTGJson id and have no other one.\<close>

lemma upsert_ids_uuid:
  assumes "sealed_ok s" "i < sk_next s" "uuid_name \<in> set (sk_idrefs s)" "u \<noteq> []" "uuid_name \<notin> fst ` set vs"
    and "upsert_ids str i ((uuid_name, JStr u) # vs) s = (Inr (), s')"
  shows "dget (sk_idents s') (i, uuid_name) = Some u"
proof -
  from assms(3,4,6) obtain s1 where one: "upsert_external_id uuid_name i u s = (Inr (), s1)"
    and rest: "upsert_ids str i vs s1 = (Inr (), s')" by (auto simp: bindp_Inr_iff str_of_def)
  note s1 = upsert_external_id_ok [OF assms(1,2) one]
  then have "sealed_ok s1" "i < sk_next s1" using assms(2) by auto
  from upsert_ids_ok [OF this rest] assms(5) s1 show ?thesis by (simp add: dget_dset)
qed

definition well_named :: "new_sealed \<Rightarrow> bool" where
  "well_named p \<longleftrightarrow> truthy (ns_uuid p) \<and> uuid_name \<notin> fst ` set (ns_ids p)"

lemma upsert_one_ok:
  assumes ok: "sealed_ok s" "uuid_name \<in> set (sk_idrefs s)" "well_named p"
    and run: "upsert_one set_of str code p s = (Inr (), s')"
  shows "sealed_ok s' \<and> frame s s' \<and> (\<forall>u. uuid_known u s \<longrightarrow> uuid_known u s') \<and> (\<exists>u. ns_uuid p = JStr u \<and> uuid_known u s')"
proof -
  from run obtain ty s1 sub s2 u s3 i s4 s5 where steps: "type_ref (ns_type p) s = (Inr ty, s1)"
    "subtype_ref (ns_subtype p) s1 = (Inr sub, s2)" and u: "text_arg (ns_uuid p) = Inr u"
    and put: "(case fetch_sealed_product_id_by_mtgjson_uuid u s2 of None \<Rightarrow> insert_product (set_of code) ty sub p s2
                | Some i \<Rightarrow> update_product i (set_of code) ty sub p s2) = (Inr i, s4)"
    and ids: "upsert_ids str i ((uuid_name, ns_uuid p) # ns_ids p) s4 = (Inr (), s5)" and priced: "ensure_priced i s5 = (Inr (), s')"
    unfolding upsert_one_def bindp_Inr_iff by auto
  have u': "ns_uuid p = JStr u" "u \<noteq> []" using u ok(3) by (auto simp: text_arg_def well_named_def split: json.splits)
  have s2: "frame s s2" "sk_idents s2 = sk_idents s"
    using refs_frame(1) [OF steps(1)] refs_frame(2) [OF steps(2)] frame_trans by auto
  then have ok2: "sealed_ok s2" using sealed_ok_frame ok(1) by blast
  have s4: "frame s2 s4 \<and> sk_idents s4 = sk_idents s2 \<and> i < sk_next s4 \<and>
      (\<forall>v. dget (sk_idents s2) (i, uuid_name) = Some v \<longrightarrow> v = u)"
  proof (cases "fetch_sealed_product_id_by_mtgjson_uuid u s2")
    case None
    with put have "insert_product (set_of code) ty sub p s2 = (Inr i, s4)" by simp
    from refs_frame(3) [OF this] ok2 show ?thesis by (auto simp: sealed_ok_def)
  next
    case (Some j)
    with put have "update_product j (set_of code) ty sub p s2 = (Inr i, s4)" by simp
    from refs_frame(4) [OF this] fetch_Some [OF ok2 Some] ok2 show ?thesis
      by (auto simp: sealed_ok_def frame_def intro: less_le_trans)
  qed
  then have ok4: "sealed_ok s4" using sealed_ok_frame ok2 by blast
  have i4: "i < sk_next s4" using s4 by blast
  note s5 = upsert_ids_ok [OF ok4 i4 ids]
  have ref4: "uuid_name \<in> set (sk_idrefs s4)" using ok(2) s2(1) s4 by (simp add: frame_def)
  have new: "dget (sk_idents s5) (i, uuid_name) = Some u"
    using upsert_ids_uuid [OF ok4 i4 ref4 u'(2), of "ns_ids p" str] ids ok(3) u'(1) by (simp add: well_named_def)
  note s' = refs_frame(5) [OF priced]
  have fr: "frame s s'" using s2(1) s4 s5 s' frame_trans by blast
  have "sealed_ok s'" using s5 s' sealed_ok_frame by blast
  moreover have "uuid_known u s'" using new s' by (auto simp: uuid_known_def)
  moreover have "uuid_known v s'" if "uuid_known v s" for v
  proof -
    from that obtain k where k: "dget (sk_idents s) (k, uuid_name) = Some v" "dget (sk_priced s) k \<noteq> None" by (auto simp: uuid_known_def)
    have "dget (sk_idents s5) (k, uuid_name) = Some v"
    proof (cases "k = i")
      case True
      with k(1) s2(2) s4 new show ?thesis by auto
    next
      case False
      with k(1) s2(2) s4 s5 show ?thesis by simp
    qed
    with s' k(2) fr show ?thesis unfolding uuid_known_def frame_def by metis
  qed
  ultimately show ?thesis using fr u'(1) by blast
qed

lemma upsert_each_ok:
  assumes "sealed_ok s" "uuid_name \<in> set (sk_idrefs s)" "list_all well_named ps"
    and "upsert_each set_of str code ps s = (Inr (), s')"
  shows "sealed_ok s' \<and> frame s s' \<and> (\<forall>u. uuid_known u s \<longrightarrow> uuid_known u s') \<and>
         list_all (\<lambda>p. \<exists>u. ns_uuid p = JStr u \<and> uuid_known u s') ps"
  using assms
proof (induction ps arbitrary: s)
  case (Cons p ps)
  from Cons.prems(4) obtain s1 where one: "upsert_one set_of str code p s = (Inr (), s1)"
    and rest: "upsert_each set_of str code ps s1 = (Inr (), s')" by (auto simp: bindp_Inr_iff)
  from Cons.prems(3) have wp: "well_named p" "list_all well_named ps" by simp_all
  note s1 = upsert_one_ok [OF Cons.prems(1,2) wp(1) one]
  have "uuid_name \<in> set (sk_idrefs s1)" using s1 Cons.prems(2) by (auto simp: frame_def)
  with Cons.IH [of s1] s1 rest wp(2) have "sealed_ok s'" "frame s1 s'" "\<forall>u. uuid_known u s1 \<longrightarrow> uuid_known u s'"
    "list_all (\<lambda>p. \<exists>u. ns_uuid p = JStr u \<and> uuid_known u s') ps" by auto
  with s1 frame_trans [of s s1 s'] show ?case by auto
qed auto

lemma in_set_map_filter: "x \<in> set (List.map_filter f xs) \<Longrightarrow> \<exists>y \<in> set xs. f y = Some x"
  by (induction xs) (auto simp: map_filter_simps split: option.splits)

lemma external_ids_uuid: "uuid_name \<notin> fst ` set (external_ids i)"
proof
  assume "uuid_name \<in> fst ` set (external_ids i)"
  then obtain v where "(uuid_name, v) \<in> set (external_ids i)" by auto
  from in_set_map_filter [OF this [unfolded external_ids_def]] have "uuid_name \<in> fst ` set identifier_map"
    by (force split: if_splits)
  then show False by (simp add: uuid_name_def identifier_map_def)
qed

lemma read_product_named:
  assumes "read_product day raw = Inr (Some p)"
  shows "well_named p"
proof (cases raw)
  case (JObj d)
  show ?thesis
  proof (cases "truthy (jget d ''uuid'')")
    case True
    with assms JObj obtain i where "ns_uuid p = jget d ''uuid''" "ns_ids p = external_ids i"
      by (auto simp: read_product_def Let_def split: json.splits)
    with True show ?thesis by (simp add: well_named_def external_ids_uuid)
  qed (use assms JObj in \<open>simp add: read_product_def\<close>)
qed (use assms in \<open>simp_all add: read_product_def\<close>)

lemma concat_res_set: "concat_res f xs = Inr ys \<Longrightarrow> y \<in> set ys \<Longrightarrow> \<exists>x zs. f x = Inr zs \<and> y \<in> set zs"
  by (induction xs arbitrary: ys) (auto, blast)

lemma read_products_named: "read_products day raws = Inr (n, ps) \<Longrightarrow> list_all well_named ps"
proof -
  assume "read_products day raws = Inr (n, ps)"
  then obtain xs where "concat_res (\<lambda>x. bind_res (read_product day x) (\<lambda>p. Inr (case p of None \<Rightarrow> [] | Some q \<Rightarrow> [q]))) xs = Inr ps"
    by (auto simp: read_products_def)
  from concat_res_set [OF this] have "\<exists>x. read_product day x = Inr (Some p)" if "p \<in> set ps" for p
    using that by (fastforce split: option.splits)
  then show ?thesis using read_product_named unfolding list_all_iff by blast
qed


lemma load_item_cards:
  assumes "load_item bsize env {} kv l t = (r, t')" "ls_sealed l = []"
  shows "mt_sealed t' = mt_sealed t \<and> (\<forall>l'. r = Inr l' \<longrightarrow> ls_sealed l' = [])"
  using assms
  by (cases kv) (fastforce simp: load_item_def Let_def flush_cards_def bindp_def copy_staging_batch_def split: if_splits)

lemma load_items_cards:
  assumes "load_items bsize env {} kvs l t = (r, t')" "ls_sealed l = []"
  shows "mt_sealed t' = mt_sealed t \<and> (\<forall>l'. r = Inr l' \<longrightarrow> ls_sealed l' = [])"
  using assms
proof (induction kvs arbitrary: l t)
  case (Cons kv kvs)
  obtain r1 t1 where one: "load_item bsize env {} kv l t = (r1, t1)" by (cases "load_item bsize env {} kv l t")
  note st = load_item_cards [OF one Cons.prems(2)]
  show ?case
  proof (cases r1)
    case (Inl e)
    then show ?thesis using Cons.prems(1) one st by simp
  next
    case (Inr l1)
    with Cons.IH [of l1 t1] Cons.prems(1) one st show ?thesis by simp
  qed
qed auto

lemma stream_body_cards: "mt_sealed (snd (stream_body env {} kvs fault t)) = mt_sealed t"
proof -
  obtain r t1 where items: "load_items copy_batch_size env {} kvs new_load t = (r, t1)"
    by (cases "load_items copy_batch_size env {} kvs new_load t")
  note st = load_items_cards [OF items]
  have fin: "mt_sealed (snd (finish_load l t1)) = mt_sealed t1" if "ls_sealed l = []" for l
    using that by (auto simp: finish_load_def bindp_def flush_cards_def copy_staging_batch_def split: if_splits)
  show ?thesis
  proof (cases r)
    case (Inl e)
    then show ?thesis using items st by (simp add: stream_body_def new_load_def)
  next
    case (Inr l)
    then show ?thesis using items st fin [of l] by (cases fault) (simp_all add: stream_body_def new_load_def)
  qed
qed

text \<open>
  C35. The load asks the interim table which ids are sealed, and the catalog never writes it: after any set file, written
  or not, the load knows no more sealed ids than before, and with an empty interim table it stages no sealed price at
  all, whatever the price file holds.
\<close>

theorem sealed_prices_never_staged:
  assumes ok: "sealed_ok s" "uuid_name \<in> set (sk_idrefs s)"
    and run: "bootstrap_sealed_catalog_from_set set_of str day fetched code s = (Inr a, s')" and new: "sk_interim s = []"
  shows "mt_sealed (snd (stream_body env (fetch_all_sealed_uuids s') kvs fault t)) = mt_sealed t"
proof -
  have "sk_interim s' = sk_interim s"
  proof -
    from run consider "s' = s" | n ps raws where "upsert_each set_of str code ps s = (Inr (), s')" "read_products day raws = Inr (n, ps)"
      by (auto simp: bootstrap_sealed_catalog_from_set_def upsert_sealed_catalog_def bindp_Inr_iff split: sum.splits if_splits)
    then show ?thesis
    proof cases
      case 2
      from upsert_each_ok [OF ok read_products_named [OF 2(2)] 2(1)] show ?thesis by (simp add: frame_def)
    qed simp
  qed
  then have "fetch_all_sealed_uuids s' = {}" using new by (simp add: fetch_all_sealed_uuids_def)
  then show ?thesis by (simp add: stream_body_cards)
qed

definition demo_sealed :: sealed_db where
  "demo_sealed = \<lparr>sk_types = [], sk_subtypes = [], sk_idrefs = [uuid_name], sk_games = [(''mtg'', 1)], sk_languages = [(''en'', 1)],
     sk_products = [], sk_idents = [], sk_priced = [], sk_interim = [], sk_next = 2\<rparr>"

definition demo_box :: json where
  "demo_box = JObj [(''uuid'', JStr ''b1''), (''name'', JStr ''Box''), (''category'', JStr ''booster_box'')]"

definition demo_set_file :: json where
  "demo_set_file = JObj [(''data'', JObj [(''sealedProduct'', JList [demo_box, JObj []])])]"

definition demo_boot :: "bootstrap_answer res \<times> sealed_db" where
  "demo_boot = bootstrap_sealed_catalog_from_set (\<lambda>_. None) (\<lambda>_. []) (\<lambda>_. None) (Inr demo_set_file) ''TST'' demo_sealed"

lemma demo_boot_ok: "demo_boot = (Inr \<lparr>ba_total = 2, ba_upserted = 1, ba_skipped = 1\<rparr>, snd demo_boot)"
  by code_simp

lemma demo_sealed_ok: "sealed_ok demo_sealed" "uuid_name \<in> set (sk_idrefs demo_sealed)"
  by (simp_all add: sealed_ok_def demo_sealed_def)

lemma demo_read:
  "read_products (\<lambda>_. None) (JList [demo_box, JObj []]) =
     Inr (2, [\<lparr>ns_uuid = JStr ''b1'', ns_name = JStr ''Box'', ns_type = JStr ''booster_box'', ns_subtype = JNull, ns_release = None, ns_ids = []\<rparr>])"
  by (simp add: read_products_def read_product_def demo_box_def jget_def parse_date_def external_ids_def identifier_map_def map_filter_simps)


theorem sealed_prices_never_staged_witness:
  "mt_sealed (snd (stream_body demo_prices (fetch_all_sealed_uuids (snd demo_boot)) [(''b1'', demo_entry)] None
     \<lparr>mt_cards = [], mt_sealed = []\<rparr>)) = []"
proof -
  have "bootstrap_sealed_catalog_from_set (\<lambda>_. None) (\<lambda>_. []) (\<lambda>_. None) (Inr demo_set_file) ''TST'' demo_sealed =
      (Inr \<lparr>ba_total = 2, ba_upserted = 1, ba_skipped = 1\<rparr>, snd demo_boot)"
    using demo_boot_ok by (simp add: demo_boot_def)
  from sealed_prices_never_staged [OF demo_sealed_ok this] show ?thesis by (simp add: demo_sealed_def)
qed

end
