(* ===== verification/Price_Load.thy ===== *)
theory Price_Load
  imports Sealed_Catalog
begin

text \<open>
  The daily price loads: Scryfall's bulk file (\<open>scryfall/price_loader.py\<close>) and the SKUs of the Open TCG API
  (\<open>open_tcg/data_loader.py\<close>, \<open>ApiOpenTCG_repository.py\<close>), with the batch statements of \<open>pricing/price_repository.py\<close>
  and \<open>update_purchase_uris_batch\<close> of \<open>card_repository.py\<close>.

  A price product is named by its card version and a source product by card version and source, as their unique
  constraints allow; the reference rows of the game and of the kind of transaction exist. The parsing of numbers in texts
  is a parameter, as is \<open>str\<close> of a JSON value that is no text.
\<close>

section \<open>Observations\<close>

record load_key =
  ob_day :: int
  ob_version :: nat
  ob_source :: string
  ob_finish :: string
  ob_condition :: string
  ob_language :: string
  ob_provider :: string

record obs_price =
  op_avg :: int
  op_low :: "int option"
  op_count :: "int option"

record price_db =
  pd_scryfall :: "(string \<times> nat) list"
  pd_tcgplayer :: "(string \<times> nat) list"
  pd_sources :: "string list"
  pd_finishes :: "string list"
  pd_conditions :: "string list"
  pd_languages :: "string list"
  pd_providers :: "string list"
  pd_linked :: "nat list"
  pd_sps :: "(nat \<times> string) list"
  pd_obs :: "(load_key, obs_price) dict"
  pd_uris :: "(nat, json) dict"

text \<open>A row of a batch with the id as text.\<close>

record load_row =
  pw_id :: string
  pw_source :: string
  pw_finish :: string
  pw_condition :: string
  pw_language :: string
  pw_avg :: int
  pw_low :: "int option"
  pw_count :: "json option"

text \<open>The card of an id: a later row of the identifier table overrides an earlier one.\<close>

definition version_of :: "(string \<times> nat) list \<Rightarrow> string \<Rightarrow> nat option" where
  "version_of tbl i = map_of (rev tbl) i"

definition resolved_rows :: "(string \<times> nat) list \<Rightarrow> load_row list \<Rightarrow> (nat \<times> load_row) list" where
  "resolved_rows tbl rows = List.map_filter (\<lambda>r. map_option (\<lambda>cv. (cv, r)) (version_of tbl (pw_id r))) rows"

definition insert_absent :: "'a \<Rightarrow> 'a list \<Rightarrow> 'a list" where
  "insert_absent x xs = (if x \<in> set xs then xs else xs @ [x])"

definition int4 :: "int \<Rightarrow> bool" where
  "int4 n \<longleftrightarrow> - (2 ^ 31) \<le> n \<and> n < 2 ^ 31"

definition sent_rows :: "price_db \<Rightarrow> (nat \<times> load_row) list \<Rightarrow> (nat \<times> load_row) list" where
  "sent_rows s rs = filter (\<lambda>(_, r). pw_source r \<in> set (pd_sources s)) rs"

text \<open>The joins with the reference tables drop the rows whose codes are unknown.\<close>

definition obs_rows :: "price_db \<Rightarrow> int \<Rightarrow> string \<Rightarrow> (nat \<times> load_row) list \<Rightarrow> (load_key \<times> load_row) list" where
  "obs_rows s day provider rs =
     (if provider \<notin> set (pd_providers s) then []
      else map (\<lambda>(cv, r). (\<lparr>ob_day = day, ob_version = cv, ob_source = pw_source r, ob_finish = pw_finish r,
               ob_condition = pw_condition r, ob_language = pw_language r, ob_provider = provider\<rparr>, r))
           (filter (\<lambda>(_, r). pw_finish r \<in> set (pd_finishes s) \<and> pw_condition r \<in> set (pd_conditions s) \<and>
                             pw_language r \<in> set (pd_languages s)) rs))"

text \<open>A query parameter of type \<open>int\<close>.\<close>

fun int_arg :: "json \<Rightarrow> int option" where
  "int_arg (JInt n) = Some n"
| "int_arg (JBool b) = Some (if b then 1 else 0)"
| "int_arg _ = None"

definition row_in_range :: "load_row \<Rightarrow> bool" where
  "row_in_range r \<longleftrightarrow> int4 (pw_avg r) \<and> (case pw_low r of None \<Rightarrow> True | Some n \<Rightarrow> int4 n) \<and>
     (case pw_count r of None \<Rightarrow> True | Some j \<Rightarrow> (case int_arg j of None \<Rightarrow> False | Some n \<Rightarrow> int4 n))"

definition row_nonneg :: "load_row \<Rightarrow> bool" where
  "row_nonneg r \<longleftrightarrow> 0 \<le> pw_avg r \<and> (case pw_low r of None \<Rightarrow> True | Some n \<Rightarrow> 0 \<le> n)"

definition link_cards :: "(nat \<times> load_row) list \<Rightarrow> price_db \<Rightarrow> price_db" where
  "link_cards rs s = s\<lparr>pd_linked := fold insert_absent (map fst rs) (pd_linked s)\<rparr>"

definition ensure_sources :: "(nat \<times> load_row) list \<Rightarrow> price_db \<Rightarrow> price_db" where
  "ensure_sources rs s = s\<lparr>pd_sps := fold insert_absent (map (\<lambda>(cv, r). (cv, pw_source r)) (sent_rows s rs)) (pd_sps s)\<rparr>"

definition store_obs ::
  "(load_row \<Rightarrow> obs_price option \<Rightarrow> obs_price) \<Rightarrow> (load_key \<times> load_row) list \<Rightarrow> (load_key, obs_price) dict \<Rightarrow> (load_key, obs_price) dict" where
  "store_obs upd kvs d = fold (\<lambda>(k, r) d. dset k (upd r (dget d k)) d) kvs d"

text \<open>
  The steps both batch methods share. The last statement refuses numbers that are no \<open>int4\<close>, negative prices, and two
  rows with one key, which \<open>ON CONFLICT DO UPDATE\<close> cannot write.
\<close>

definition upsert_prices ::
  "(string \<times> nat) list \<Rightarrow> string \<Rightarrow> (load_row \<Rightarrow> obs_price option \<Rightarrow> obs_price) \<Rightarrow> int \<Rightarrow> load_row list \<Rightarrow> (price_db, nat) prog" where
  "upsert_prices tbl provider upd day rows s =
     (let rs = resolved_rows tbl rows; s2 = ensure_sources rs (link_cards rs s);
          sent = sent_rows s rs; obs = obs_rows s day provider sent
      in if sent = [] then (Inr 0, s2)
         else if \<not> list_all (row_in_range \<circ> snd) sent \<or> \<not> distinct (map fst obs) \<or> \<not> list_all (row_nonneg \<circ> snd) obs
         then (Inl DbErr, s2)
         else (Inr (length obs), s2\<lparr>pd_obs := store_obs upd obs (pd_obs s2)\<rparr>))"

section \<open>Scryfall\<close>

record scry_row =
  sy_id :: json
  sy_source :: string
  sy_finish :: string
  sy_cents :: int

definition price_key_map :: "(string \<times> string \<times> string) list" where
  "price_key_map =
     [(''usd'', ''tcg'', ''NONFOIL''), (''usd_foil'', ''tcg'', ''FOIL''), (''usd_etched'', ''tcg'', ''ETCHED''),
      (''eur'', ''cardmarket'', ''NONFOIL''), (''eur_foil'', ''cardmarket'', ''FOIL''), (''tix'', ''cardhoarder'', ''NONFOIL'')]"

definition scry_price_row :: "scry_row \<Rightarrow> load_row res" where
  "scry_price_row r = bind_res (key_arg (sy_id r)) (\<lambda>i.
     Inr \<lparr>pw_id = i, pw_source = sy_source r, pw_finish = sy_finish r, pw_condition = ''NM'', pw_language = ''en'',
          pw_avg = sy_cents r, pw_low = None, pw_count = None\<rparr>)"

text \<open>On conflict only the average is updated.\<close>

definition set_avg :: "load_row \<Rightarrow> obs_price option \<Rightarrow> obs_price" where
  "set_avg r old = (case old of None \<Rightarrow> \<lparr>op_avg = pw_avg r, op_low = None, op_count = None\<rparr> | Some p \<Rightarrow> p\<lparr>op_avg := pw_avg r\<rparr>)"

definition upsert_scryfall_price_batch :: "int \<Rightarrow> scry_row list \<Rightarrow> (price_db, nat) prog" where
  "upsert_scryfall_price_batch day rows s =
     (case concat_res (\<lambda>r. map_sum id (\<lambda>x. [x]) (scry_price_row r)) rows of
        Inl e \<Rightarrow> (Inl e, s)
      | Inr prs \<Rightarrow> upsert_prices (pd_scryfall s) ''scryfall'' set_avg day prs s)"

text \<open>\<open>json.dumps\<close> refuses the decimals that the parser makes of numbers with a fraction.\<close>

fun has_decimal :: "json \<Rightarrow> bool" where
  "has_decimal (JNum _) \<longleftrightarrow> True"
| "has_decimal (JList xs) \<longleftrightarrow> list_ex has_decimal xs"
| "has_decimal (JObj d) \<longleftrightarrow> list_ex (\<lambda>(_, v). has_decimal v) d"
| "has_decimal _ \<longleftrightarrow> False"

definition uri_pairs :: "price_db \<Rightarrow> (string \<times> json) list \<Rightarrow> (nat \<times> json) list" where
  "uri_pairs s rows = concat (map (\<lambda>(i, u). map (\<lambda>cv. (cv, u)) (map snd (filter (\<lambda>(v, _). v = i) (pd_scryfall s)))) rows)"

definition uri_row :: "json \<times> json \<Rightarrow> (string \<times> json) list res" where
  "uri_row = (\<lambda>(i, u). bind_res (text_arg i) (\<lambda>t. Inr [(t, u)]))"

definition update_purchase_uris_batch :: "(json \<times> json) list \<Rightarrow> (price_db, nat) prog" where
  "update_purchase_uris_batch rows s =
     (if list_ex (\<lambda>(_, u). has_decimal u) rows then (Inl TypeErr, s)
      else (case concat_res uri_row rows of
              Inl e \<Rightarrow> (Inl e, s)
            | Inr us \<Rightarrow> (Inr (length (remdups (map fst (uri_pairs s us)))),
                         s\<lparr>pd_uris := fold (\<lambda>(cv, u). dset cv u) (uri_pairs s us) (pd_uris s)\<rparr>)))"

text \<open>The rows of a card of the bulk file.\<close>

definition scry_rows :: "price_env \<Rightarrow> json \<Rightarrow> (scry_row list \<times> (json \<times> json) list) res" where
  "scry_rows env crd =
     (case crd of
        JObj d \<Rightarrow>
          (let i = jget d ''id''; ps = (if truthy (jget d ''prices'') then jget d ''prices'' else JObj []); us = jget d ''purchase_uris'' in
           if \<not> truthy i then Inr ([], [])
           else (case ps of
                   JObj p \<Rightarrow> Inr (List.map_filter (\<lambda>(key, src, fin). map_option (\<lambda>q.
                       \<lparr>sy_id = i, sy_source = src, sy_finish = fin, sy_cents = round_half_even (q * 100)\<rparr>)
                         (to_float env (jget p key))) price_key_map, if truthy us then [(i, us)] else [])
                 | _ \<Rightarrow> Inl AttrErr))
      | _ \<Rightarrow> Inl AttrErr)"

definition scry_batch_size :: nat where
  "scry_batch_size = 500"

text \<open>The items that the parser yields, each a card or the exception it raises.\<close>

definition scry_body :: "price_env \<Rightarrow> int \<Rightarrow> json res list res \<Rightarrow> (price_db, nat) prog" where
  "scry_body env day opened s =
     (case opened of
        Inl e \<Rightarrow> (Inl e, s)
      | Inr items \<Rightarrow> bindp (feed2 scry_batch_size (upsert_scryfall_price_batch day) update_purchase_uris_batch
                             (\<lambda>x. bind_res x (scry_rows env)) items ([], []) (0, 0)) (\<lambda>(n, _). ret n) s)"

definition load_scryfall_prices ::
  "price_env \<Rightarrow> int \<Rightarrow> string option \<Rightarrow> (string \<Rightarrow> json res list res) \<Rightarrow> (pyexc \<Rightarrow> string) \<Rightarrow> nat option \<Rightarrow> (ops \<times> price_db, nat) prog" where
  "load_scryfall_prices env day name opened msg run =
     (case name of
        None \<Rightarrow> ret 0
      | Some f \<Rightarrow> if f = [] then ret 0
                  else track_world run ''load_prices_from_bulk'' ''step_failed'' msg (scry_body env day (opened f)))"

section \<open>Open TCG\<close>

definition finish_map :: "(string, string) dict" where
  "finish_map = [(''N'', ''NONFOIL''), (''F'', ''FOIL''), (''E'', ''ETCHED'')]"

definition condition_map :: "(string, string) dict" where
  "condition_map = [(''NM'', ''NM''), (''LP'', ''LP''), (''MP'', ''MP''), (''HP'', ''HP''), (''D'', ''DMG'')]"

definition language_map :: "(string, string) dict" where
  "language_map =
     [(''EN'', ''en''), (''FR'', ''fr''), (''DE'', ''de''), (''ES'', ''es''), (''IT'', ''it''), (''PT'', ''pt''),
      (''JP'', ''jp''), (''KO'', ''ko''), (''RU'', ''ru''), (''ZHS'', ''zh''), (''ZHT'', ''zh'')]"

record sku_row =
  tr_id :: string
  tr_finish :: string
  tr_condition :: string
  tr_language :: string
  tr_avg :: int
  tr_low :: int
  tr_count :: json

fun code_of :: "(string, string) dict \<Rightarrow> json \<Rightarrow> string option res" where
  "code_of m (JStr s) = Inr (dget m s)"
| "code_of m (JList _) = Inl TypeErr"
| "code_of m (JObj _) = Inl TypeErr"
| "code_of m _ = Inr None"

definition opentcg_cents :: "price_env \<Rightarrow> json \<Rightarrow> int option" where
  "opentcg_cents env j = map_option (\<lambda>q. round_half_even (q * 100)) (to_float env j)"

text \<open>A missing price is stored as 0 beside the other one.\<close>

definition sku_row_of :: "price_env \<Rightarrow> (json \<Rightarrow> string) \<Rightarrow> (string, json) dict \<Rightarrow> string \<Rightarrow> string \<Rightarrow> string \<Rightarrow> sku_row list" where
  "sku_row_of env str sku fin cnd lng =
     (let mkt = opentcg_cents env (jget sku ''mkt''); low = opentcg_cents env (jget sku ''low'');
          cnt = (if truthy (jget sku ''cnt'') then jget sku ''cnt'' else JInt 0)
      in if mkt = None \<and> low = None then []
         else [\<lparr>tr_id = str_of str (jget sku ''product_id''), tr_finish = fin, tr_condition = cnd, tr_language = lng,
                tr_avg = (case mkt of None \<Rightarrow> 0 | Some n \<Rightarrow> n), tr_low = (case low of None \<Rightarrow> 0 | Some n \<Rightarrow> n), tr_count = cnt\<rparr>])"

definition sku_rows :: "price_env \<Rightarrow> (json \<Rightarrow> string) \<Rightarrow> (string, json) dict \<Rightarrow> sku_row list res" where
  "sku_rows env str sku =
     (let get = (\<lambda>k dflt. case dget sku k of None \<Rightarrow> JStr dflt | Some v \<Rightarrow> v) in
      bind_res (code_of finish_map (get ''var'' ''N'')) (\<lambda>fin.
      bind_res (code_of condition_map (get ''cnd'' ''NM'')) (\<lambda>cnd.
      bind_res (code_of language_map (get ''lng'' ''EN'')) (\<lambda>lng.
        Inr (case (fin, cnd, lng) of (Some f, Some c, Some l) \<Rightarrow> sku_row_of env str sku f c l | _ \<Rightarrow> [])))))"

definition sku_price_row :: "sku_row \<Rightarrow> load_row" where
  "sku_price_row r =
     \<lparr>pw_id = tr_id r, pw_source = ''tcg'', pw_finish = tr_finish r, pw_condition = tr_condition r, pw_language = tr_language r,
      pw_avg = tr_avg r, pw_low = Some (tr_low r), pw_count = Some (tr_count r)\<rparr>"

definition set_all :: "load_row \<Rightarrow> obs_price option \<Rightarrow> obs_price" where
  "set_all r _ = \<lparr>op_avg = pw_avg r, op_low = pw_low r, op_count = Option.bind (pw_count r) int_arg\<rparr>"

definition upsert_opentcg_price_batch :: "int \<Rightarrow> sku_row list \<Rightarrow> (price_db, nat) prog" where
  "upsert_opentcg_price_batch day rows s =
     upsert_prices (pd_tcgplayer s) ''tcgtracking'' set_all day (map sku_price_row rows) s"

text \<open>The SKUs of a set from its answer: products and SKUs of another shape are passed over.\<close>

definition get_set_skus :: "json \<Rightarrow> (string, json) dict list res" where
  "get_set_skus data =
     (case data of
        JObj d \<Rightarrow>
          (case dget d ''products'' of
             None \<Rightarrow> Inr []
           | Some (JObj ps) \<Rightarrow> Inr (concat (map (\<lambda>(pid, skus). List.map_filter (\<lambda>(_, sku).
               case sku of JObj k \<Rightarrow> Some (dmerge [(''product_id'', JStr pid)] k) | _ \<Rightarrow> None) (bindings skus)) ps))
           | Some _ \<Rightarrow> Inl AttrErr)
      | _ \<Rightarrow> Inr [])"

text \<open>The ids of the sets: \<open>[s["id"] for s in sets if "id" in s]\<close>.\<close>

definition set_ids_of :: "json list \<Rightarrow> json list res" where
  "set_ids_of sets = concat_res (\<lambda>x.
     case x of
       JObj d \<Rightarrow> Inr (case dget d ''id'' of None \<Rightarrow> [] | Some v \<Rightarrow> [v])
     | JStr t \<Rightarrow> (if sublist ''id'' t then Inl TypeErr else Inr [])
     | JList xs \<Rightarrow> (if JStr ''id'' \<in> set xs then Inl TypeErr else Inr [])
     | _ \<Rightarrow> Inl TypeErr) sets"

text \<open>
  The answers of all sets in the order of their arrival, \<open>arrived\<close>; a set that fails has no SKUs. An id that cannot be a
  key raises.
\<close>

definition get_all_set_skus :: "(json \<Rightarrow> json res) \<Rightarrow> json list \<Rightarrow> (json, (string, json) dict list) dict res" where
  "get_all_set_skus fetch arrived =
     (if list_ex (\<lambda>i. case i of JList _ \<Rightarrow> True | JObj _ \<Rightarrow> True | _ \<Rightarrow> False) arrived then Inl TypeErr
      else Inr (fold (\<lambda>i. dset i (case bind_res (fetch i) get_set_skus of Inl _ \<Rightarrow> [] | Inr ks \<Rightarrow> ks)) arrived []))"

definition tcg_batch_size :: nat where
  "tcg_batch_size = 2000"

definition opentcg_body ::
  "price_env \<Rightarrow> (json \<Rightarrow> string) \<Rightarrow> int \<Rightarrow> json list res \<Rightarrow> (json \<Rightarrow> json res) \<Rightarrow> (json list \<Rightarrow> json list) \<Rightarrow> (price_db, nat) prog" where
  "opentcg_body env str day sets fetch arrival s =
     (case bind_res (bind_res sets set_ids_of) (\<lambda>ids. get_all_set_skus fetch (arrival ids)) of
        Inl e \<Rightarrow> (Inl e, s)
      | Inr skus \<Rightarrow> feed tcg_batch_size (upsert_opentcg_price_batch day) (sku_rows env str) (concat (map snd skus)) [] 0 s)"

definition load_opentcg_prices ::
  "price_env \<Rightarrow> (json \<Rightarrow> string) \<Rightarrow> int \<Rightarrow> json list res \<Rightarrow> (json \<Rightarrow> json res) \<Rightarrow> (json list \<Rightarrow> json list) \<Rightarrow>
   (pyexc \<Rightarrow> string) \<Rightarrow> nat option \<Rightarrow> (ops \<times> price_db, nat) prog" where
  "load_opentcg_prices env str day sets fetch arrival msg run =
     track_world run ''load_opentcg_prices'' ''step_failed'' msg (opentcg_body env str day sets fetch arrival)"

section \<open>Batches play no part\<close>

definition upsert_fits :: "(string \<times> nat) list \<Rightarrow> string \<Rightarrow> int \<Rightarrow> load_row list \<Rightarrow> price_db \<Rightarrow> bool" where
  "upsert_fits tbl provider day rows s \<longleftrightarrow>
     (let sent = sent_rows s (resolved_rows tbl rows); obs = obs_rows s day provider sent in
      list_all (row_in_range \<circ> snd) sent \<and> distinct (map fst obs) \<and> list_all (row_nonneg \<circ> snd) obs)"

definition written_obs :: "(string \<times> nat) list \<Rightarrow> string \<Rightarrow> int \<Rightarrow> load_row list \<Rightarrow> price_db \<Rightarrow> (load_key \<times> load_row) list" where
  "written_obs tbl provider day rows s = obs_rows s day provider (sent_rows s (resolved_rows tbl rows))"

definition written ::
  "(string \<times> nat) list \<Rightarrow> string \<Rightarrow> (load_row \<Rightarrow> obs_price option \<Rightarrow> obs_price) \<Rightarrow> int \<Rightarrow> load_row list \<Rightarrow> price_db \<Rightarrow> price_db" where
  "written tbl provider upd day rows s =
     s\<lparr>pd_linked := fold insert_absent (map fst (resolved_rows tbl rows)) (pd_linked s),
       pd_sps := fold insert_absent (map (\<lambda>(cv, r). (cv, pw_source r)) (sent_rows s (resolved_rows tbl rows))) (pd_sps s),
       pd_obs := store_obs upd (written_obs tbl provider day rows s) (pd_obs s)\<rparr>"

lemma refs_updates [simp]:
  "sent_rows (s\<lparr>pd_linked := l\<rparr>) = sent_rows s" "sent_rows (s\<lparr>pd_sps := p\<rparr>) = sent_rows s"
  "sent_rows (s\<lparr>pd_obs := d\<rparr>) = sent_rows s" "sent_rows (s\<lparr>pd_uris := u\<rparr>) = sent_rows s"
  "obs_rows (s\<lparr>pd_linked := l\<rparr>) = obs_rows s" "obs_rows (s\<lparr>pd_sps := p\<rparr>) = obs_rows s"
  "obs_rows (s\<lparr>pd_obs := d\<rparr>) = obs_rows s" "obs_rows (s\<lparr>pd_uris := u\<rparr>) = obs_rows s"
  by (simp_all add: sent_rows_def obs_rows_def fun_eq_iff)

lemma written_sel [simp]:
  "sent_rows (written tbl pr upd day rows s) = sent_rows s" "obs_rows (written tbl pr upd day rows s) = obs_rows s"
  "pd_scryfall (written tbl pr upd day rows s) = pd_scryfall s" "pd_tcgplayer (written tbl pr upd day rows s) = pd_tcgplayer s"
  "pd_uris (written tbl pr upd day rows s) = pd_uris s"
  "pd_obs (written tbl pr upd day rows s) = store_obs upd (written_obs tbl pr day rows s) (pd_obs s)"
  by (simp_all add: written_def)

lemma rows_append [simp]:
  "resolved_rows tbl (xs @ ys) = resolved_rows tbl xs @ resolved_rows tbl ys"
  "sent_rows s (rs @ qs) = sent_rows s rs @ sent_rows s qs"
  "obs_rows s day pr (rs @ qs) = obs_rows s day pr rs @ obs_rows s day pr qs"
  "store_obs upd (ks @ ls) d = store_obs upd ls (store_obs upd ks d)"
  by (simp_all add: resolved_rows_def sent_rows_def obs_rows_def store_obs_def map_filter_def)

lemma upsert_prices_ok:
  assumes "upsert_fits tbl pr day rows s"
  shows "upsert_prices tbl pr upd day rows s = (Inr (length (written_obs tbl pr day rows s)), written tbl pr upd day rows s)"
  using assms by (auto simp: upsert_fits_def upsert_prices_def Let_def written_def written_obs_def link_cards_def ensure_sources_def
      obs_rows_def store_obs_def)

lemma written_append: "written tbl pr upd day (xs @ ys) s = written tbl pr upd day ys (written tbl pr upd day xs s)"
  by (simp add: written_def written_obs_def)

lemma upsert_fits_append:
  assumes "upsert_fits tbl pr day (xs @ ys) s"
  shows "upsert_fits tbl pr day xs s" "upsert_fits tbl pr day ys (written tbl pr upd day xs s)"
  using assms by (simp_all add: upsert_fits_def Let_def)

lemma upsert_prices_append:
  assumes "upsert_fits tbl pr day (xs @ ys) s"
  shows "upsert_prices tbl pr upd day xs s = (Inr (length (written_obs tbl pr day xs s)), written tbl pr upd day xs s) \<and>
    upsert_fits tbl pr day ys (written tbl pr upd day xs s) \<and>
    upsert_prices tbl pr upd day ys (written tbl pr upd day xs s) =
      (Inr (length (written_obs tbl pr day ys s)), written tbl pr upd day (xs @ ys) s) \<and>
    upsert_prices tbl pr upd day (xs @ ys) s =
      (Inr (length (written_obs tbl pr day xs s) + length (written_obs tbl pr day ys s)), written tbl pr upd day (xs @ ys) s)"
  using upsert_prices_ok [OF assms] upsert_prices_ok [OF upsert_fits_append(1) [OF assms]]
    upsert_prices_ok [OF upsert_fits_append(2) [OF assms]] upsert_fits_append(2) [OF assms]
  by (simp add: written_append written_obs_def)

lemma upsert_prices_uris:
  "upsert_prices tbl pr upd day rows (s\<lparr>pd_uris := u\<rparr>) = map_prod id (\<lambda>t. t\<lparr>pd_uris := u\<rparr>) (upsert_prices tbl pr upd day rows s)"
  by (simp add: upsert_prices_def Let_def link_cards_def ensure_sources_def)

lemma upsert_prices_sel:
  assumes "upsert_prices tbl pr upd day rows s = (r, s')"
  shows "pd_uris s' = pd_uris s" "pd_scryfall s' = pd_scryfall s" "pd_tcgplayer s' = pd_tcgplayer s"
    "sent_rows s' = sent_rows s" "obs_rows s' = obs_rows s"
  using assms by (auto simp: upsert_prices_def Let_def link_cards_def ensure_sources_def split: if_splits)

definition sku_fits :: "int \<Rightarrow> sku_row list \<Rightarrow> price_db \<Rightarrow> bool" where
  "sku_fits day rows s \<longleftrightarrow> upsert_fits (pd_tcgplayer s) ''tcgtracking'' day (map sku_price_row rows) s"

interpretation sku: bulk_write "upsert_opentcg_price_batch day" "sku_fits day" for day
proof
  show "upsert_opentcg_price_batch day [] s = (Inr 0, s)" for s
    by (simp add: upsert_opentcg_price_batch_def upsert_prices_def resolved_rows_def sent_rows_def Let_def map_filter_def
        link_cards_def ensure_sources_def)
next
  fix xs ys s assume "sku_fits day (xs @ ys) s"
  then have "upsert_fits (pd_tcgplayer s) ''tcgtracking'' day (map sku_price_row xs @ map sku_price_row ys) s"
    by (simp add: sku_fits_def)
  from upsert_prices_append [OF this, of set_all]
  show "\<exists>m s1 n s2. upsert_opentcg_price_batch day xs s = (Inr m, s1) \<and> sku_fits day ys s1 \<and>
      upsert_opentcg_price_batch day ys s1 = (Inr n, s2) \<and> upsert_opentcg_price_batch day (xs @ ys) s = (Inr (m + n), s2)"
    by (simp add: upsert_opentcg_price_batch_def sku_fits_def)
qed

definition scry_load_rows :: "scry_row list \<Rightarrow> load_row list res" where
  "scry_load_rows rows = concat_res (\<lambda>r. map_sum id (\<lambda>x. [x]) (scry_price_row r)) rows"

lemma concat_res_append:
  "concat_res f (xs @ ys) = bind_res (concat_res f xs) (\<lambda>as. bind_res (concat_res f ys) (\<lambda>bs. Inr (as @ bs)))"
proof (induction xs)
  case Nil
  show ?case by (cases "concat_res f ys") simp_all
next
  case (Cons x xs)
  then show ?case by (cases "f x"; cases "concat_res f xs"; cases "concat_res f ys") simp_all
qed

definition scry_fits :: "int \<Rightarrow> scry_row list \<Rightarrow> price_db \<Rightarrow> bool" where
  "scry_fits day rows s \<longleftrightarrow> (\<exists>prs. scry_load_rows rows = Inr prs \<and> upsert_fits (pd_scryfall s) ''scryfall'' day prs s)"

lemma upsert_scryfall_rows:
  "scry_load_rows rows = Inr prs \<Longrightarrow>
     upsert_scryfall_price_batch day rows s = upsert_prices (pd_scryfall s) ''scryfall'' set_avg day prs s"
  by (simp add: upsert_scryfall_price_batch_def scry_load_rows_def)

lemma upsert_scryfall_result:
  assumes "upsert_scryfall_price_batch day rows s = (Inr m, s')"
  obtains prs where "scry_load_rows rows = Inr prs" "upsert_prices (pd_scryfall s) ''scryfall'' set_avg day prs s = (Inr m, s')"
proof (cases "scry_load_rows rows")
  case (Inl e)
  with assms show ?thesis by (simp add: upsert_scryfall_price_batch_def scry_load_rows_def)
next
  case (Inr prs)
  with assms that [of prs] show ?thesis by (simp add: upsert_scryfall_rows)
qed

interpretation scry: bulk_write "upsert_scryfall_price_batch day" "scry_fits day" for day
proof
  show "upsert_scryfall_price_batch day [] s = (Inr 0, s)" for s
    by (simp add: upsert_scryfall_price_batch_def upsert_prices_def resolved_rows_def sent_rows_def Let_def map_filter_def
        link_cards_def ensure_sources_def)
next
  fix xs ys s assume "scry_fits day (xs @ ys) s"
  then obtain as bs where rows: "scry_load_rows xs = Inr as" "scry_load_rows ys = Inr bs" "scry_load_rows (xs @ ys) = Inr (as @ bs)"
    and fit: "upsert_fits (pd_scryfall s) ''scryfall'' day (as @ bs) s"
    by (auto simp: scry_fits_def scry_load_rows_def concat_res_append)
  from upsert_prices_append [OF fit, of set_avg] rows
  show "\<exists>m s1 n s2. upsert_scryfall_price_batch day xs s = (Inr m, s1) \<and> scry_fits day ys s1 \<and>
      upsert_scryfall_price_batch day ys s1 = (Inr n, s2) \<and> upsert_scryfall_price_batch day (xs @ ys) s = (Inr (m + n), s2)"
    by (simp add: upsert_scryfall_rows scry_fits_def)
qed

definition uri_fits :: "(json \<times> json) list \<Rightarrow> price_db \<Rightarrow> bool" where
  "uri_fits rows s \<longleftrightarrow> \<not> list_ex (\<lambda>(_, u). has_decimal u) rows \<and>
     (\<exists>us. concat_res uri_row rows = Inr us \<and> distinct (map fst (uri_pairs s us)))"

lemma uri_pairs_append [simp]: "uri_pairs s (xs @ ys) = uri_pairs s xs @ uri_pairs s ys"
  by (simp add: uri_pairs_def)

lemma uri_pairs_cong: "pd_scryfall s' = pd_scryfall s \<Longrightarrow> uri_pairs s' us = uri_pairs s us"
  by (simp add: uri_pairs_def)

lemma update_uris_eq:
  assumes "\<not> list_ex (\<lambda>(_, u). has_decimal u) rows" "concat_res uri_row rows = Inr us"
  shows "update_purchase_uris_batch rows s = (Inr (length (remdups (map fst (uri_pairs s us)))),
           s\<lparr>pd_uris := fold (\<lambda>(cv, u). dset cv u) (uri_pairs s us) (pd_uris s)\<rparr>)"
  using assms by (simp add: update_purchase_uris_batch_def)

lemma update_uris_sel:
  assumes "update_purchase_uris_batch rows s = (r, s')"
  shows "\<exists>u. s' = s\<lparr>pd_uris := u\<rparr>"
proof (cases "s' = s")
  case True
  then show ?thesis by (intro exI [of _ "pd_uris s"]) simp
next
  case False
  then obtain us where "s' = s\<lparr>pd_uris := fold (\<lambda>(cv, u). dset cv u) (uri_pairs s us) (pd_uris s)\<rparr>"
    using assms by (auto simp: update_purchase_uris_batch_def split: if_splits sum.splits)
  then show ?thesis by blast
qed

lemma update_uris_result:
  assumes "update_purchase_uris_batch rows s = (Inr n, s')"
  obtains us where "\<not> list_ex (\<lambda>(_, u). has_decimal u) rows" "concat_res uri_row rows = Inr us"
proof (cases "list_ex (\<lambda>(_, u). has_decimal u) rows")
  case True
  with assms show ?thesis by (simp add: update_purchase_uris_batch_def)
next
  case False
  show ?thesis
  proof (cases "concat_res uri_row rows")
    case (Inl e)
    with assms False show ?thesis by (simp add: update_purchase_uris_batch_def)
  next
    case (Inr us)
    with False that show ?thesis by blast
  qed
qed

interpretation uris: bulk_write update_purchase_uris_batch uri_fits
proof
  show "update_purchase_uris_batch [] s = (Inr 0, s)" for s
    by (simp add: update_purchase_uris_batch_def uri_pairs_def)
next
  fix xs ys s assume "uri_fits (xs @ ys) s"
  then obtain as bs where rows: "concat_res uri_row xs = Inr as" "concat_res uri_row ys = Inr bs"
      "concat_res uri_row (xs @ ys) = Inr (as @ bs)"
    and dec: "\<not> list_ex (\<lambda>(_, u). has_decimal u) xs" "\<not> list_ex (\<lambda>(_, u). has_decimal u) ys"
    and dist: "distinct (map fst (uri_pairs s as) @ map fst (uri_pairs s bs))"
    by (auto simp: uri_fits_def concat_res_append)
  let ?s1 = "s\<lparr>pd_uris := fold (\<lambda>(cv, u). dset cv u) (uri_pairs s as) (pd_uris s)\<rparr>"
  have same: "uri_pairs ?s1 bs = uri_pairs s bs" by (rule uri_pairs_cong) simp
  have "update_purchase_uris_batch xs s = (Inr (length (uri_pairs s as)), ?s1)"
    using update_uris_eq [OF dec(1) rows(1), of s] dist by (simp add: distinct_remdups_id)
  moreover have "uri_fits ys ?s1" using dec(2) rows(2) dist same by (simp add: uri_fits_def)
  moreover have "update_purchase_uris_batch ys ?s1 = (Inr (length (uri_pairs s bs)),
      s\<lparr>pd_uris := fold (\<lambda>(cv, u). dset cv u) (uri_pairs s as @ uri_pairs s bs) (pd_uris s)\<rparr>)"
    using update_uris_eq [OF dec(2) rows(2), of ?s1] dist by (simp add: same distinct_remdups_id)
  moreover have "update_purchase_uris_batch (xs @ ys) s = (Inr (length (uri_pairs s as) + length (uri_pairs s bs)),
      s\<lparr>pd_uris := fold (\<lambda>(cv, u). dset cv u) (uri_pairs s as @ uri_pairs s bs) (pd_uris s)\<rparr>)"
    using update_uris_eq [OF _ rows(3), of s] dec distinct_remdups_id [OF dist] by simp
  ultimately show "\<exists>m s1 n s2. update_purchase_uris_batch xs s = (Inr m, s1) \<and> uri_fits ys s1 \<and>
      update_purchase_uris_batch ys s1 = (Inr n, s2) \<and> update_purchase_uris_batch (xs @ ys) s = (Inr (m + n), s2)" by blast
qed

interpretation scry_load: two_writes "upsert_scryfall_price_batch day" "scry_fits day" update_purchase_uris_batch uri_fits for day
proof
  fix xs s ys n s' assume f: "scry_fits day xs s" and u: "update_purchase_uris_batch ys s = (Inr n, s')"
  from update_uris_sel [OF u] obtain v where "s' = s\<lparr>pd_uris := v\<rparr>" by blast
  with f show "scry_fits day xs s'" by (simp add: scry_fits_def upsert_fits_def Let_def)
next
  fix ys s xs m s' assume f: "uri_fits ys s" and w: "upsert_scryfall_price_batch day xs s = (Inr m, s')"
  from w obtain prs where "upsert_prices (pd_scryfall s) ''scryfall'' set_avg day prs s = (Inr m, s')"
    by (rule upsert_scryfall_result)
  from uri_pairs_cong [OF upsert_prices_sel(2) [OF this]] f show "uri_fits ys s'" by (simp add: uri_fits_def)
next
  fix ys s n s1 xs m s2
  assume u: "update_purchase_uris_batch ys s = (Inr n, s1)" and w: "upsert_scryfall_price_batch day xs s1 = (Inr m, s2)"
  from w obtain prs where rows: "scry_load_rows xs = Inr prs" by (rule upsert_scryfall_result)
  from u obtain us where us: "\<not> list_ex (\<lambda>(_, u). has_decimal u) ys" "concat_res uri_row ys = Inr us"
    by (rule update_uris_result)
  let ?f = "fold (\<lambda>(cv, u). dset cv u) (uri_pairs s us)"
  have s1: "s1 = s\<lparr>pd_uris := ?f (pd_uris s)\<rparr>" and n: "n = length (remdups (map fst (uri_pairs s us)))"
    using u update_uris_eq [OF us] by simp_all
  obtain r t where t: "upsert_prices (pd_scryfall s) ''scryfall'' set_avg day prs s = (r, t)" by fastforce
  have "r = Inr m" "s2 = t\<lparr>pd_uris := ?f (pd_uris s)\<rparr>"
    using w t by (simp_all add: upsert_scryfall_rows [OF rows] s1 upsert_prices_uris)
  moreover have "update_purchase_uris_batch ys t = (Inr n, t\<lparr>pd_uris := ?f (pd_uris s)\<rparr>)"
    using update_uris_eq [OF us, of t] upsert_prices_sel(1,2) [OF t] n uri_pairs_cong [of t s us] by simp
  ultimately show "\<exists>t. upsert_scryfall_price_batch day xs s = (Inr m, t) \<and> update_purchase_uris_batch ys t = (Inr n, s2)"
    using t by (simp add: upsert_scryfall_rows [OF rows])
qed

section \<open>What a load stores\<close>

lemma store_obs_other: "k \<notin> fst ` set kvs \<Longrightarrow> dget (store_obs upd kvs d) k = dget d k"
  unfolding store_obs_def by (induction kvs arbitrary: d) (auto simp: dget_dset)

lemma store_obs_in:
  assumes "distinct (map fst kvs)" "(k, r) \<in> set kvs"
  shows "dget (store_obs upd kvs d) k = Some (upd r (dget d k))"
  using assms
proof (induction kvs arbitrary: d)
  case (Cons kv kvs)
  obtain k' r' where kv: "kv = (k', r')" by fastforce
  have step: "store_obs upd (kv # kvs) d = store_obs upd kvs (dset k' (upd r' (dget d k')) d)" by (simp add: store_obs_def kv)
  show ?case
  proof (cases "k' = k")
    case True
    with Cons.prems kv have "r' = r" "k \<notin> fst ` set kvs" by (auto simp: image_iff)
    then show ?thesis unfolding step using True by (simp add: store_obs_other dget_dset)
  next
    case False
    with Cons.prems kv have "distinct (map fst kvs)" "(k, r) \<in> set kvs" by auto
    from Cons.IH [OF this] show ?thesis unfolding step using False by (simp add: dget_dset)
  qed
qed simp

lemma concat_res2_items: "concat_res2 (\<lambda>x. bind_res x f) (map Inr xs) = concat_res2 f xs"
  by (induction xs) simp_all

lemma fold_dset_in:
  assumes "distinct (map fst kvs)" "(k, v) \<in> set kvs"
  shows "dget (fold (\<lambda>(k, v). dset k v) kvs d) k = Some v"
  using assms
proof (induction kvs arbitrary: d)
  case (Cons kv kvs)
  have other: "dget (fold (\<lambda>(k, v). dset k v) ls e) k = dget e k" if "k \<notin> fst ` set ls" for ls :: "('a \<times> 'b) list" and e
    using that by (induction ls arbitrary: e) (auto simp: dget_dset)
  show ?case
  proof (cases "kv = (k, v)")
    case True
    with Cons.prems(1) other show ?thesis by (auto simp: dget_dset)
  next
    case False
    with Cons.prems Cons.IH show ?thesis by (auto simp: case_prod_beta)
  qed
qed simp


text \<open>The same for the SKUs of the Open TCG API: the rows are complete, and the last write sets all three numbers.\<close>

theorem opentcg_prices_loaded:
  assumes skus: "bind_res (bind_res sets set_ids_of) (\<lambda>ids. get_all_set_skus fetch (arrival ids)) = Inr d"
    and rows: "concat_res (sku_rows env str) (concat (map snd d)) = Inr rs" and fit: "sku_fits day rs s"
  shows "\<exists>s'. opentcg_body env str day sets fetch arrival s =
             (Inr (length (written_obs (pd_tcgplayer s) ''tcgtracking'' day (map sku_price_row rs) s)), s') \<and>
           list_all (\<lambda>(k, r). dget (pd_obs s') k = Some (set_all r None)) (written_obs (pd_tcgplayer s) ''tcgtracking'' day (map sku_price_row rs) s)"
proof -
  let ?obs = "written_obs (pd_tcgplayer s) ''tcgtracking'' day (map sku_price_row rs) s"
  have fit': "upsert_fits (pd_tcgplayer s) ''tcgtracking'' day (map sku_price_row rs) s" using fit by (simp add: sku_fits_def)
  have fit0: "sku_fits day ([] @ rs) s" using fit by simp
  from sku.feed_writes_all [OF rows fit0, of tcg_batch_size 0] obtain k s' where
    w: "upsert_opentcg_price_batch day rs s = (Inr k, s')" and run: "opentcg_body env str day sets fetch arrival s = (Inr k, s')"
    using skus by (auto simp: opentcg_body_def)
  from w upsert_prices_ok [OF fit', of set_all] have s': "k = length ?obs" "s' = written (pd_tcgplayer s) ''tcgtracking'' set_all day (map sku_price_row rs) s"
    by (simp_all add: upsert_opentcg_price_batch_def)
  have keys: "distinct (map fst ?obs)" using fit' by (simp add: upsert_fits_def written_obs_def Let_def)
  have "list_all (\<lambda>(k, r). dget (pd_obs s') k = Some (set_all r None)) ?obs"
    unfolding list_all_iff s'(2) using store_obs_in [OF keys, of _ _ set_all] by (auto simp: set_all_def)
  with run s'(1) show ?thesis by blast
qed

text \<open>A SKU without a market price is stored with the average 0.\<close>

lemma missing_average_is_zero:
  "to_float env (jget sku ''mkt'') = None \<Longrightarrow> list_all (\<lambda>r. tr_avg r = 0) (sku_row_of env str sku fin cnd lng)"
  by (simp add: sku_row_of_def opentcg_cents_def Let_def)

text \<open>Two rows with one key fail the whole batch, while in two batches the second one wins.\<close>

lemma duplicate_key_fails:
  assumes "\<not> distinct (map fst (written_obs tbl pr day rows s))"
  shows "fst (upsert_prices tbl pr upd day rows s) = Inl DbErr"
proof -
  have "sent_rows s (resolved_rows tbl rows) \<noteq> []"
  proof
    assume "sent_rows s (resolved_rows tbl rows) = []"
    then have "written_obs tbl pr day rows s = []" by (simp add: written_obs_def obs_rows_def)
    with assms show False by simp
  qed
  with assms show ?thesis by (simp add: upsert_prices_def written_obs_def Let_def link_cards_def ensure_sources_def)
qed

section \<open>Example\<close>

definition demo_price_db :: price_db where
  "demo_price_db = \<lparr>pd_scryfall = [(''s1'', 1)], pd_tcgplayer = [(''77'', 1)], pd_sources = [''tcg'', ''cardmarket''],
     pd_finishes = [''NONFOIL'', ''FOIL''], pd_conditions = [''NM''], pd_languages = [''en''], pd_providers = [''scryfall'', ''tcgtracking''],
     pd_linked = [], pd_sps = [], pd_obs = [], pd_uris = []\<rparr>"

definition demo_bulk_card :: json where
  "demo_bulk_card = JObj [(''id'', JStr ''s1''), (''prices'', JObj [(''usd'', JNum (1/2)), (''eur'', JNull), (''tix'', JInt 3)]),
     (''purchase_uris'', JObj [(''tcgplayer'', JStr ''u'')])]"

definition demo_bulk_rows :: "scry_row list" where
  "demo_bulk_rows = [\<lparr>sy_id = JStr ''s1'', sy_source = ''tcg'', sy_finish = ''NONFOIL'', sy_cents = 50\<rparr>,
     \<lparr>sy_id = JStr ''s1'', sy_source = ''cardhoarder'', sy_finish = ''NONFOIL'', sy_cents = 300\<rparr>]"


end
