(* ===== verification/Scryfall.thy ===== *)
theory Scryfall
  imports Mtgjson
begin

text \<open>
  The Scryfall pipeline up to the bulk file (\<open>scryfall/data_loader.py\<close>): the start of a run, the manifest of the bulk
  files, the statement that finds the new versions among them (\<open>ops/scryfall_data.py\<close> and
  \<open>update_bulk_data_uri_return_new\<close> in \<open>ops_repository.py\<close>), the downloads and the removal of old files.

  What a request answers, the text of a JSON value that is no text, and the parsing of times are parameters. A resource
  is named by its type and its id; the size and the encodings of a file are not modelled.
\<close>

section \<open>The manifest in the database\<close>

record manifest_item =
  mf_type :: string
  mf_id :: string
  mf_api :: "string option"
  mf_uri :: "string option"
  mf_time :: "nat option"
  mf_all :: json

record resource =
  re_api :: "string option"
  re_all :: json
  re_time :: "nat option"

record file_version =
  fv_source :: nat
  fv_resource :: "string \<times> string"
  fv_uri :: string
  fv_time :: "nat option"

record manifest_db =
  mb_resources :: "(nat \<times> string \<times> string, resource) dict"
  mb_versions :: "file_version list"
  mb_links :: "(nat \<times> file_version) list"

text \<open>\<open>d->>'k'\<close>.\<close>

definition json_text :: "(json \<Rightarrow> string) \<Rightarrow> json \<Rightarrow> string \<Rightarrow> string option" where
  "json_text str d k = (case jget (bindings d) k of JNull \<Rightarrow> None | JStr s \<Rightarrow> Some s | j \<Rightarrow> Some (str j))"

text \<open>A missing type or id violates a constraint of the table; a time that is none cannot be cast.\<close>

definition read_item :: "(json \<Rightarrow> string) \<Rightarrow> (string \<Rightarrow> nat option) \<Rightarrow> json \<Rightarrow> manifest_item res" where
  "read_item str time d =
     (case (json_text str d ''type'', json_text str d ''id'') of
        (Some ty, Some i) \<Rightarrow>
          (let item = \<lparr>mf_type = ty, mf_id = i, mf_api = json_text str d ''uri'', mf_uri = json_text str d ''download_uri'',
                       mf_time = None, mf_all = d\<rparr> in
           case json_text str d ''updated_at'' of
             None \<Rightarrow> Inr item
           | Some t \<Rightarrow> (case time t of None \<Rightarrow> Inl DbErr | Some n \<Rightarrow> Inr (item\<lparr>mf_time := Some n\<rparr>)))
      | _ \<Rightarrow> Inl DbErr)"

definition item_key :: "manifest_item \<Rightarrow> string \<times> string" where
  "item_key it = (mf_type it, mf_id it)"

text \<open>A comparison with a missing time is not true; \<open>GREATEST\<close> ignores it.\<close>

definition newer :: "nat option \<Rightarrow> nat option \<Rightarrow> bool" where
  "newer a b = (case (a, b) of (Some x, Some y) \<Rightarrow> y < x | _ \<Rightarrow> False)"

definition latest :: "nat option \<Rightarrow> nat option \<Rightarrow> nat option" where
  "latest a b = (case (a, b) of (Some x, Some y) \<Rightarrow> Some (max x y) | (None, _) \<Rightarrow> b | (_, None) \<Rightarrow> a)"

definition upsert_resource :: "nat \<Rightarrow> manifest_item \<Rightarrow> (nat \<times> string \<times> string, resource) dict \<Rightarrow> (nat \<times> string \<times> string, resource) dict" where
  "upsert_resource src it d =
     (case dget d (src, item_key it) of
        None \<Rightarrow> dset (src, item_key it) \<lparr>re_api = mf_api it, re_all = mf_all it, re_time = mf_time it\<rparr> d
      | Some r \<Rightarrow> dset (src, item_key it)
          (if newer (mf_time it) (re_time r)
           then \<lparr>re_api = mf_api it, re_all = mf_all it, re_time = latest (mf_time it) (re_time r)\<rparr>
           else r\<lparr>re_time := latest (mf_time it) (re_time r)\<rparr>) d)"

definition known_version :: "nat \<Rightarrow> file_version list \<Rightarrow> manifest_item \<Rightarrow> bool" where
  "known_version src vs it \<longleftrightarrow>
     list_ex (\<lambda>v. fv_source v = src \<and> fv_resource v = item_key it \<and> Some (fv_uri v) = mf_uri it \<and> fv_time v = mf_time it) vs"

definition version_of_item :: "nat \<Rightarrow> manifest_item \<Rightarrow> file_version res" where
  "version_of_item src it =
     (case mf_uri it of
        None \<Rightarrow> Inl DbErr
      | Some u \<Rightarrow> Inr \<lparr>fv_source = src, fv_resource = item_key it, fv_uri = u, fv_time = mf_time it\<rparr>)"

text \<open>
  The statement: upsert the resources, insert a version for each item without one, link the versions to the run, and
  return the new versions in the order of their resources. Two items of one resource cannot be upserted. \<open>src\<close> is the
  source of the run or else the one named scryfall.
\<close>

definition new_versions :: "nat \<Rightarrow> manifest_item list \<Rightarrow> manifest_db \<Rightarrow> file_version list res" where
  "new_versions src its w = concat_res (\<lambda>it. map_sum id (\<lambda>v. [v]) (version_of_item src it)) (filter (\<lambda>it. \<not> known_version src (mb_versions w) it) its)"

definition by_resource :: "(nat \<times> string \<times> string, resource) dict \<Rightarrow> file_version list \<Rightarrow> file_version list" where
  "by_resource d vs = concat (map (\<lambda>k. filter (\<lambda>v. (fv_source v, fv_resource v) = k) vs) (dkeys d))"

definition update_bulk_statement ::
  "nat option \<Rightarrow> nat option \<Rightarrow> manifest_item list \<Rightarrow> (manifest_db, file_version list) prog" where
  "update_bulk_statement source run its w =
     (case source of
        None \<Rightarrow> (Inr [], w)
      | Some src \<Rightarrow>
          if \<not> distinct (map item_key its) then (Inl DbErr, w)
          else (case new_versions src its w of
                  Inl e \<Rightarrow> (Inl e, w)
                | Inr vs \<Rightarrow>
                    (let res = fold (upsert_resource src) its (mb_resources w) in
                     (Inr (by_resource res vs),
                      \<lparr>mb_resources = res, mb_versions = mb_versions w @ vs,
                       mb_links = mb_links w @ (case run of None \<Rightarrow> [] | Some i \<Rightarrow> map (Pair i) vs)\<rparr>))))"

definition update_bulk_data_uri_return_new ::
  "(json \<Rightarrow> string) \<Rightarrow> (string \<Rightarrow> nat option) \<Rightarrow> nat option \<Rightarrow> nat option \<Rightarrow> json \<Rightarrow> (manifest_db, file_version list) prog" where
  "update_bulk_data_uri_return_new str time source run items w =
     (case items of
        JList ds \<Rightarrow>
          (case concat_res (\<lambda>d. map_sum id (\<lambda>x. [x]) (read_item str time d)) ds of
             Inl e \<Rightarrow> (Inl e, w)
           | Inr its \<Rightarrow> update_bulk_statement source run its w)
      | _ \<Rightarrow> (Inl DbErr, w))"

definition update_data_uri_in_ops_repository ::
  "(json \<Rightarrow> string) \<Rightarrow> (string \<Rightarrow> nat option) \<Rightarrow> nat option \<Rightarrow> json \<Rightarrow> (pyexc \<Rightarrow> string) \<Rightarrow> nat option \<Rightarrow>
   (ops \<times> manifest_db, file_version list) prog" where
  "update_data_uri_in_ops_repository str time source items msg run =
     track_world run ''update_data_uri_in_ops_repository'' ''update_failed'' msg
       (update_bulk_data_uri_return_new str time source run items)"

section \<open>The steps around it\<close>

definition scryfall_data_pipeline_start ::
  "string \<Rightarrow> string \<Rightarrow> string option \<Rightarrow> string option \<Rightarrow> string \<Rightarrow> (ops, nat option) prog" where
  "scryfall_data_pipeline_start pipeline source celery key today =
     repo_start_run pipeline source (case key of None \<Rightarrow> pipeline @ ''_'' @ today | Some k \<Rightarrow> if k = [] then pipeline @ ''_'' @ today else k)
       celery (Some ''Starting Scryfall data pipeline, scheduled daily ingestion.'')"

definition pipeline_finish :: "nat option \<Rightarrow> string \<Rightarrow> string option \<Rightarrow> (ops, unit) prog" where
  "pipeline_finish run status notes =
     (case run of None \<Rightarrow> ret () | Some i \<Rightarrow> if i = 0 then ret () else bindp (repo_finish_run i status notes) (\<lambda>_. ret ()))"

text \<open>
  The address of the manifest: that of a resource of type \<open>bulk_data\<close>. The join does not compare the source of the
  resource; the source named scryfall exists.
\<close>

definition get_bulk_data_uri :: "(nat \<times> string \<times> string, resource) dict \<Rightarrow> string option" where
  "get_bulk_data_uri d =
     (case filter (\<lambda>((_, ty, _), _). ty = ''bulk_data'') d of [] \<Rightarrow> None | (_, r) # _ \<Rightarrow> re_api r)"

definition get_scryfall_bulk_data_uri ::
  "(pyexc \<Rightarrow> string) \<Rightarrow> nat option \<Rightarrow> (ops \<times> manifest_db, string) prog" where
  "get_scryfall_bulk_data_uri msg run =
     track_world run ''get_bulk_data_uri'' ''no_bulk_uri'' msg (\<lambda>w.
       (case get_bulk_data_uri (mb_resources w) of
          None \<Rightarrow> Inl ValueErr | Some u \<Rightarrow> if u = [] then Inl ValueErr else Inr u, w))"

definition download_scryfall_bulk_manifests ::
  "json res \<Rightarrow> (pyexc \<Rightarrow> string) \<Rightarrow> nat option \<Rightarrow> (ops \<times> 's, json) prog" where
  "download_scryfall_bulk_manifests fetched msg run =
     track_world run ''download_bulk_manifests'' ''download_failed'' msg (\<lambda>w.
       (bind_res fetched (\<lambda>m. bind_res (get_default m ''data'' JNull) (\<lambda>d. if truthy d then Inr d else Inl ValueErr)), w))"

definition download_scryfall_from_url :: "'s backend \<Rightarrow> json res \<Rightarrow> string \<Rightarrow> ('s, string) prog" where
  "download_scryfall_from_url B fetched out s =
     (case bind_res fetched (\<lambda>m. get_default m ''data'' (JObj [])) of
        Inl e \<Rightarrow> (Inl e, s)
      | Inr d \<Rightarrow> bindp (save_json B out d) (\<lambda>_. ret out) s)"

text \<open>The file of the day is not fetched again.\<close>

definition download_sets ::
  "'s backend \<Rightarrow> json res \<Rightarrow> string \<Rightarrow> (pyexc \<Rightarrow> string) \<Rightarrow> nat option \<Rightarrow> (ops \<times> 's, string) prog" where
  "download_sets B fetched today msg run = (\<lambda>(db, s).
     (let out = ''scryfall_sets_'' @ today @ ''.json'' in
      if file_exists B out s then (Inr out, (db, s))
      else bindp (track_world run ''download_sets'' ''download_failed'' msg (download_scryfall_from_url B fetched out)) (\<lambda>_. ret out) (db, s)))"

fun pieces :: "char \<Rightarrow> string \<Rightarrow> string \<Rightarrow> string list" where
  "pieces c [] acc = [rev acc]"
| "pieces c (d # ds) acc = (if d = c then rev acc # pieces c ds [] else pieces c ds (d # acc))"

text \<open>A download: it fails before the file is opened, or the bytes arrive up to the end or to a failure.\<close>

definition stream_download_scryfall ::
  "string list \<Rightarrow> place \<Rightarrow> (string \<Rightarrow> (nat list \<times> pyexc option) res) \<Rightarrow> string \<Rightarrow> string \<Rightarrow> string \<Rightarrow> (fs, string) prog" where
  "stream_download_scryfall cwd base fetch run_text today uri s =
     (let out = run_text @ ''_'' @ today @ ''_'' @ last (pieces (CHR ''/'') uri []) in
      case fetch uri of
        Inl e \<Rightarrow> (Inl e, s)
      | Inr (bytes, fault) \<Rightarrow>
          (case local_open cwd base out Mode_Write s of
             (Inl e, s1) \<Rightarrow> (Inl e, s1)
           | (Inr _, s1) \<Rightarrow>
               (case get_full_path cwd base out of
                  Inl e \<Rightarrow> (Inl e, s1)
                | Inr full \<Rightarrow> (case fault of None \<Rightarrow> Inr out | Some e \<Rightarrow> Inl e,
                              s1\<lparr>fs_files := dset full (P_Bytes bytes) (fs_files s1)\<rparr>))))"

definition wanted_uris :: "string \<Rightarrow> file_version list \<Rightarrow> string list" where
  "wanted_uris ty vs = map fv_uri (filter (\<lambda>v. fst (fv_resource v) = ty) vs)"

definition download_cards_bulk ::
  "string list \<Rightarrow> place \<Rightarrow> (string \<Rightarrow> (nat list \<times> pyexc option) res) \<Rightarrow> string \<Rightarrow> string \<Rightarrow> file_version list \<Rightarrow> string \<Rightarrow>
   (pyexc \<Rightarrow> string) \<Rightarrow> nat option \<Rightarrow> (ops \<times> fs, string option) prog" where
  "download_cards_bulk cwd base fetch run_text today changed ty msg run =
     (case wanted_uris ty changed of
        [] \<Rightarrow> ret None
      | u # _ \<Rightarrow> bindp (track_world run ''download_cards_bulk'' ''download_failed'' msg
                   (stream_download_scryfall cwd base fetch run_text today u)) (\<lambda>f. ret (Some f)))"

text \<open>The date in a file name, and the newest first: \<open>sort(..., reverse=True)\<close> keeps the order of equal dates.\<close>

definition file_date :: "string \<Rightarrow> string" where
  "file_date name = (case pieces (CHR ''_'') name [] of _ # d # _ \<Rightarrow> d | _ \<Rightarrow> [])"

definition newest_first :: "string list \<Rightarrow> string list" where
  "newest_first names = rev (sort_key file_date (rev names))"

definition drop_slice :: "int \<Rightarrow> 'a list \<Rightarrow> 'a list" where
  "drop_slice k xs = (if 0 \<le> k then drop (nat k) xs else drop (length xs - nat (- k)) xs)"

definition delete_old_scryfall_folders ::
  "(string \<Rightarrow> string \<Rightarrow> bool) \<Rightarrow> codec \<Rightarrow> string list \<Rightarrow> place \<Rightarrow> int \<Rightarrow> (fs, (string, bool) dict) prog" where
  "delete_old_scryfall_folders matches cd cwd base keep s =
     (case local_list matches cwd base '''' ''*all-card*'' s of
        Inl e \<Rightarrow> (Inl e, s)
      | Inr names \<Rightarrow>
          if names = [] then (Inr [], s)
          else (case delete_files (local_backend cd cwd base) (drop_slice keep (newest_first names)) s of (d, s') \<Rightarrow> (Inr d, s')))"

section \<open>A version is offered once\<close>

lemma dset_same: "dget d k = Some v \<Longrightarrow> dset k v d = d"
  by (induction d) (auto split: if_splits)

lemma upsert_resource_other: "k \<noteq> (src, item_key it) \<Longrightarrow> dget (upsert_resource src it d) k = dget d k"
  by (simp add: upsert_resource_def dget_dset split: option.split)

lemma fold_version_other:
  "k \<notin> (\<lambda>it. (src, item_key it)) ` set its \<Longrightarrow> dget (fold (upsert_resource src) its d) k = dget d k"
  by (induction its arbitrary: d) (auto simp: upsert_resource_other)

text \<open>What a resource row looks like after the item was written: writing it again changes nothing.\<close>

definition settled_item :: "nat \<Rightarrow> manifest_item \<Rightarrow> (nat \<times> string \<times> string, resource) dict \<Rightarrow> bool" where
  "settled_item src it d \<longleftrightarrow> (\<exists>r. dget d (src, item_key it) = Some r \<and> \<not> newer (mf_time it) (re_time r) \<and>
     latest (mf_time it) (re_time r) = re_time r)"

lemma upsert_settles: "settled_item src it (upsert_resource src it d)"
  by (auto simp: settled_item_def upsert_resource_def dget_dset newer_def latest_def split: option.splits)

lemma settled_upsert:
  assumes "settled_item src it d"
  shows "upsert_resource src it d = d"
proof -
  from assms obtain r where r: "dget d (src, item_key it) = Some r" "\<not> newer (mf_time it) (re_time r)"
    "latest (mf_time it) (re_time r) = re_time r" by (auto simp: settled_item_def)
  have "r\<lparr>re_time := latest (mf_time it) (re_time r)\<rparr> = r" using r(3) by simp
  with r dset_same [OF r(1)] show ?thesis by (simp add: upsert_resource_def)
qed

lemma settled_fold_same: "list_all (\<lambda>it. settled_item src it d) its \<Longrightarrow> fold (upsert_resource src) its d = d"
  by (induction its) (simp_all add: settled_upsert)

lemma fold_settles:
  "distinct (map item_key its) \<Longrightarrow> list_all (\<lambda>it. settled_item src it (fold (upsert_resource src) its d)) its"
proof (induction its arbitrary: d)
  case (Cons it its)
  have "(src, item_key it) \<notin> (\<lambda>it. (src, item_key it)) ` set its" using Cons.prems by auto
  then have "settled_item src it (fold (upsert_resource src) its (upsert_resource src it d))"
    using upsert_settles [of src it d] by (simp add: settled_item_def fold_version_other)
  with Cons show ?case by simp
qed simp

lemma set_dkeys_upserts: "(src, item_key it) \<in> set (dkeys (upsert_resource src it d))" "set (dkeys d) \<subseteq> set (dkeys (upsert_resource src it d))"
  by (simp_all add: upsert_resource_def subset_insertI del: set_map split: option.split)

lemma set_dkeys_fold:
  "set (dkeys d) \<union> (\<lambda>it. (src, item_key it)) ` set its \<subseteq> set (dkeys (fold (upsert_resource src) its d))"
proof (induction its arbitrary: d)
  case (Cons it its)
  from Cons [of "upsert_resource src it d"] set_dkeys_upserts [where src = src and it = it and d = d] show ?case by auto
qed simp

lemma set_by_resource: "set (by_resource d vs) = {v \<in> set vs. (fv_source v, fv_resource v) \<in> set (dkeys d)}"
  by (auto simp: by_resource_def)

lemma by_resource_Nil [simp]: "by_resource d [] = []"
  by (simp add: by_resource_def)

lemma new_versions_in:
  assumes "new_versions src its w = Inr vs"
  shows "v \<in> set vs \<longleftrightarrow> (\<exists>it \<in> set its. \<not> known_version src (mb_versions w) it \<and> version_of_item src it = Inr v)"
proof -
  have "concat_res (\<lambda>it. map_sum id (\<lambda>v. [v]) (version_of_item src it)) xs = Inr us \<Longrightarrow>
      (v \<in> set us) = (\<exists>it \<in> set xs. version_of_item src it = Inr v)" for xs us
  proof (induction xs arbitrary: us)
    case (Cons x xs)
    then show ?case by (cases "version_of_item src x") auto
  qed simp
  from this [OF assms [unfolded new_versions_def]] show ?thesis by auto
qed

lemma offered_known:
  assumes "new_versions src its w = Inr vs" "it \<in> set its"
  shows "known_version src (mb_versions w @ vs) it"
proof (cases "known_version src (mb_versions w) it")
  case False
  then have it: "it \<in> set (filter (\<lambda>it. \<not> known_version src (mb_versions w) it) its)" using assms(2) by simp
  have all: "concat_res (\<lambda>it. map_sum id (\<lambda>v. [v]) (version_of_item src it)) xs = Inr us \<Longrightarrow> it \<in> set xs \<Longrightarrow>
      \<exists>v \<in> set us. version_of_item src it = Inr v" for xs us
  proof (induction xs arbitrary: us)
    case (Cons x xs)
    then show ?case by (cases "version_of_item src x") auto
  qed simp
  from all [OF assms(1) [unfolded new_versions_def] it] obtain v where v: "v \<in> set vs" "version_of_item src it = Inr v" by blast
  then have "fv_source v = src" "fv_resource v = item_key it" "Some (fv_uri v) = mf_uri it" "fv_time v = mf_time it"
    by (auto simp: version_of_item_def split: option.splits)
  with v(1) show ?thesis by (auto simp: known_version_def list_ex_iff)
qed (simp add: known_version_def)

text \<open>
  C40. The statement offers exactly the versions that are new, and records them at once. A later run with the same manifest
  is offered nothing, changes nothing and downloads nothing, whatever became of the first download.
\<close>

theorem manifest_offered_once:
  assumes run: "update_bulk_data_uri_return_new str time (Some src) run items w = (Inr vs, w')"
    and items: "items = JList ds" "concat_res (\<lambda>d. map_sum id (\<lambda>x. [x]) (read_item str time d)) ds = Inr its"
  shows "(\<forall>v. v \<in> set vs \<longleftrightarrow> list_ex (\<lambda>it. \<not> known_version src (mb_versions w) it \<and> version_of_item src it = Inr v) its) \<and>
         set (mb_versions w') = set (mb_versions w) \<union> set vs \<and>
         update_bulk_data_uri_return_new str time (Some src) run' items w' = (Inr [], w') \<and>
         download_cards_bulk cwd base fetch text today [] ty msg run' s = (Inr None, s)"
proof -
  let ?res = "fold (upsert_resource src) its (mb_resources w)"
  from run items have st: "update_bulk_statement (Some src) run its w = (Inr vs, w')"
    by (simp add: update_bulk_data_uri_return_new_def)
  then have dist: "distinct (map item_key its)" by (simp add: update_bulk_statement_def split: if_splits)
  obtain us where us: "new_versions src its w = Inr us"
    using st dist by (cases "new_versions src its w") (simp_all add: update_bulk_statement_def)
  have w': "w' = \<lparr>mb_resources = ?res, mb_versions = mb_versions w @ us,
      mb_links = mb_links w @ (case run of None \<Rightarrow> [] | Some i \<Rightarrow> map (Pair i) us)\<rparr>" and vs: "vs = by_resource ?res us"
    using st dist us by (simp_all add: update_bulk_statement_def Let_def)
  have "(fv_source v, fv_resource v) \<in> set (dkeys ?res)" if v: "v \<in> set us" for v
  proof -
    from v obtain it where "it \<in> set its" "version_of_item src it = Inr v" unfolding new_versions_in [OF us] by blast
    then show ?thesis using set_dkeys_fold [where d = "mb_resources w" and src = src and its = its]
      by (auto simp: version_of_item_def split: option.splits)
  qed
  then have set: "set vs = set us" unfolding vs set_by_resource by blast
  have known: "filter (\<lambda>it. \<not> known_version src (mb_versions w') it) its = []"
    using offered_known [OF us] by (simp add: w' filter_empty_conv)
  then have "new_versions src its w' = Inr []" by (simp add: new_versions_def)
  moreover have "fold (upsert_resource src) its (mb_resources w') = mb_resources w'"
    by (rule settled_fold_same) (simp add: w' fold_settles [OF dist])
  ultimately have "update_bulk_statement (Some src) run' its w' = (Inr [], w')"
    using dist by (simp add: update_bulk_statement_def Let_def split: option.split)
  then have "update_bulk_data_uri_return_new str time (Some src) run' items w' = (Inr [], w')"
    using items by (simp add: update_bulk_data_uri_return_new_def)
  moreover have "\<forall>v. v \<in> set vs \<longleftrightarrow> list_ex (\<lambda>it. \<not> known_version src (mb_versions w) it \<and> version_of_item src it = Inr v) its"
    unfolding set list_ex_iff using new_versions_in [OF us] by blast
  moreover have "set (mb_versions w') = set (mb_versions w) \<union> set vs" by (simp add: w' set)
  moreover have "download_cards_bulk cwd base fetch text today [] ty msg run' s = (Inr None, s)"
    by (simp add: download_cards_bulk_def wanted_uris_def)
  ultimately show ?thesis by blast
qed

definition demo_manifest :: json where
  "demo_manifest = JList [JObj [(''id'', JStr ''i1''), (''type'', JStr ''all_cards''), (''download_uri'', JStr ''u1''), (''updated_at'', JStr ''t'')]]"

definition demo_manifest_db :: manifest_db where
  "demo_manifest_db = \<lparr>mb_resources = [], mb_versions = [], mb_links = []\<rparr>"

theorem manifest_offered_once_witness:
  "fst (update_bulk_data_uri_return_new (\<lambda>_. []) (\<lambda>_. Some 9) (Some 1) (Some 4) demo_manifest demo_manifest_db) =
     Inr [\<lparr>fv_source = 1, fv_resource = (''all_cards'', ''i1''), fv_uri = ''u1'', fv_time = Some 9\<rparr>] \<and>
   fst (update_bulk_data_uri_return_new (\<lambda>_. []) (\<lambda>_. Some 9) (Some 1) (Some 5) demo_manifest
     (snd (update_bulk_data_uri_return_new (\<lambda>_. []) (\<lambda>_. Some 9) (Some 1) (Some 4) demo_manifest demo_manifest_db))) = Inr []"
proof -
  let ?it = "\<lparr>mf_type = ''all_cards'', mf_id = ''i1'', mf_api = None, mf_uri = Some ''u1'', mf_time = Some 9,
     mf_all = JObj [(''id'', JStr ''i1''), (''type'', JStr ''all_cards''), (''download_uri'', JStr ''u1''), (''updated_at'', JStr ''t'')]\<rparr>"
  let ?v = "\<lparr>fv_source = 1, fv_resource = (''all_cards'', ''i1''), fv_uri = ''u1'', fv_time = Some 9\<rparr>"
  let ?w = "snd (update_bulk_data_uri_return_new (\<lambda>_. []) (\<lambda>_. Some 9) (Some 1) (Some 4) demo_manifest demo_manifest_db)"
  have run: "update_bulk_data_uri_return_new (\<lambda>_. []) (\<lambda>_. Some 9) (Some 1) (Some 4) demo_manifest demo_manifest_db = (Inr [?v], ?w)"
    by code_simp
  have its: "concat_res (\<lambda>d. map_sum id (\<lambda>x. [x]) (read_item (\<lambda>_. []) (\<lambda>_. Some 9) d))
      [JObj [(''id'', JStr ''i1''), (''type'', JStr ''all_cards''), (''download_uri'', JStr ''u1''), (''updated_at'', JStr ''t'')]] = Inr [?it]"
    by (simp add: read_item_def json_text_def jget_def)
  have "update_bulk_data_uri_return_new (\<lambda>_. []) (\<lambda>_. Some 9) (Some 1) (Some 5) demo_manifest ?w = (Inr [], ?w)"
    using manifest_offered_once [OF run demo_manifest_def its, of "Some 5"] by blast
  with run show ?thesis by (metis fst_conv)
qed

section \<open>Old files\<close>

lemma newest_first_sorted:
  "sorted (rev (map file_date (newest_first names)))" "mset (newest_first names) = mset names"
  by (simp_all add: newest_first_def rev_map)

end
