(* ===== verification/Regex.thy ===== *)
theory Regex
  imports Py_Text
begin

text \<open>
  Python's \<open>re\<close> for the patterns the program uses: a backtracking matcher that returns the
  ends of the matches at a position in the order in which Python tries them (greedy and lazy
  repetition, left alternative first), the leftmost search, and substitution. Groups are read off
  the matched slice where the program uses them.
\<close>

datatype rx =
    Cls "nat \<Rightarrow> bool"
  | Eps
  | Seq rx rx
  | Alt rx rx
  | Star rx
  | Lazy rx
  | WordB
  | Bos

text \<open>\<open>\b\<close>: exactly one side of the position is a word character.\<close>

definition word_at :: "ustr \<Rightarrow> nat \<Rightarrow> bool" where
  "word_at s i \<longleftrightarrow> i < length s \<and> is_wordc (s ! i)"

definition wordb :: "ustr \<Rightarrow> nat \<Rightarrow> bool" where
  "wordb s i \<longleftrightarrow> (0 < i \<and> word_at s (i - 1)) \<noteq> word_at s i"

function (sequential) rm :: "rx \<Rightarrow> ustr \<Rightarrow> nat \<Rightarrow> nat list" where
  "rm (Cls p) s i = (if i < length s \<and> p (s ! i) then [Suc i] else [])"
| "rm Eps s i = [i]"
| "rm (Seq a b) s i = concat (map (\<lambda>j. rm b s j) (rm a s i))"
| "rm (Alt a b) s i = rm a s i @ rm b s i"
| "rm (Star a) s i =
     concat (map (\<lambda>j. if i < j \<and> j \<le> length s then rm (Star a) s j else []) (rm a s i)) @ [i]"
| "rm (Lazy a) s i =
     i # concat (map (\<lambda>j. if i < j \<and> j \<le> length s then rm (Lazy a) s j else []) (rm a s i))"
| "rm WordB s i = (if wordb s i then [i] else [])"
| "rm Bos s i = (if i = 0 then [i] else [])"
  by pat_completeness auto
termination
  by (relation "measures [\<lambda>(r, s, i). size r, \<lambda>(r, s, i). length s - i]") auto

declare rm.simps(5,6) [simp del]

lemma rm_Star_iff:
  "j \<in> set (rm (Star a) s i) \<longleftrightarrow>
     j = i \<or> (\<exists>k\<in>set (rm a s i). i < k \<and> k \<le> length s \<and> j \<in> set (rm (Star a) s k))"
  by (subst rm.simps(5)) auto

lemma rm_Lazy_iff:
  "j \<in> set (rm (Lazy a) s i) \<longleftrightarrow>
     j = i \<or> (\<exists>k\<in>set (rm a s i). i < k \<and> k \<le> length s \<and> j \<in> set (rm (Lazy a) s k))"
  by (subst rm.simps(6)) auto

lemma rm_bounds: "j \<in> set (rm r s i) \<Longrightarrow> i \<le> j \<and> (i \<le> length s \<longrightarrow> j \<le> length s)"
proof (induction r s i arbitrary: j rule: rm.induct)
  case (3 a b s i)
  from "3.prems" obtain k where "k \<in> set (rm a s i)" "j \<in> set (rm b s k)" by auto
  with "3.IH" show ?case by (meson order_trans)
next
  case (5 a s i)
  from "5.prems" have "j = i \<or> (\<exists>k\<in>set (rm a s i). i < k \<and> k \<le> length s \<and> j \<in> set (rm (Star a) s k))"
    by (rule rm_Star_iff [THEN iffD1])
  then show ?case
  proof
    assume "\<exists>k\<in>set (rm a s i). i < k \<and> k \<le> length s \<and> j \<in> set (rm (Star a) s k)"
    then obtain k where k: "k \<in> set (rm a s i)" "i < k" "k \<le> length s" "j \<in> set (rm (Star a) s k)"
      by blast
    have "k \<le> j \<and> (k \<le> length s \<longrightarrow> j \<le> length s)"
      using "5.IH"(2) k by blast
    with k show ?thesis by linarith
  qed auto
next
  case (6 a s i)
  from "6.prems" have "j = i \<or> (\<exists>k\<in>set (rm a s i). i < k \<and> k \<le> length s \<and> j \<in> set (rm (Lazy a) s k))"
    by (rule rm_Lazy_iff [THEN iffD1])
  then show ?case
  proof
    assume "\<exists>k\<in>set (rm a s i). i < k \<and> k \<le> length s \<and> j \<in> set (rm (Lazy a) s k)"
    then obtain k where k: "k \<in> set (rm a s i)" "i < k" "k \<le> length s" "j \<in> set (rm (Lazy a) s k)"
      by blast
    have "k \<le> j \<and> (k \<le> length s \<longrightarrow> j \<le> length s)"
      using "6.IH"(2) k by blast
    with k show ?thesis by linarith
  qed auto
qed (auto split: if_splits)

section \<open>Derived patterns\<close>

definition Plus :: "rx \<Rightarrow> rx" where "Plus a = Seq a (Star a)"

definition Opt :: "rx \<Rightarrow> rx" where "Opt a = Alt a Eps"

fun str_rx :: "ustr \<Rightarrow> rx" where
  "str_rx [] = Eps"
| "str_rx (c # cs) = Seq (Cls (\<lambda>x. x = c)) (str_rx cs)"

text \<open>A literal under \<open>re.I\<close>.\<close>

fun str_ci :: "ustr \<Rightarrow> rx" where
  "str_ci [] = Eps"
| "str_ci (c # cs) = Seq (Cls (\<lambda>x. lower_cp x = lower_cp c)) (str_ci cs)"

fun alts :: "rx \<Rightarrow> rx list \<Rightarrow> rx" where
  "alts r [] = r"
| "alts r (q # qs) = Alt r (alts q qs)"

fun seqs :: "rx list \<Rightarrow> rx" where
  "seqs [] = Eps"
| "seqs (r # rs) = Seq r (seqs rs)"

definition word_rx :: "ustr \<Rightarrow> rx" where
  "word_rx w = seqs [WordB, str_rx w, WordB]"

definition any_cp :: rx where "any_cp = Cls (\<lambda>c. c \<noteq> 10)"
definition space_cp :: rx where "space_cp = Cls is_space"
definition digit_cp :: rx where "digit_cp = Cls is_digit"

section \<open>Search and substitution\<close>

definition search :: "rx \<Rightarrow> ustr \<Rightarrow> (nat \<times> nat) option" where
  "search r s =
     (case find (\<lambda>i. rm r s i \<noteq> []) [0..<Suc (length s)] of
        None \<Rightarrow> None
      | Some i \<Rightarrow> Some (i, hd (rm r s i)))"

definition found :: "rx \<Rightarrow> ustr \<Rightarrow> bool" where
  "found r s \<longleftrightarrow> search r s \<noteq> None"

definition slice :: "ustr \<Rightarrow> nat \<Rightarrow> nat \<Rightarrow> ustr" where
  "slice s i j = take (j - i) (drop i s)"

text \<open>
  \<open>re.sub(r, f, s)\<close> for a pattern without empty matches: the text is scanned from the left,
  a match is replaced and scanning goes on after it.
\<close>

function sub_from :: "rx \<Rightarrow> (ustr \<Rightarrow> ustr) \<Rightarrow> ustr \<Rightarrow> nat \<Rightarrow> ustr" where
  "sub_from r f s i =
     (if length s \<le> i then []
      else case rm r s i of
             [] \<Rightarrow> s ! i # sub_from r f s (Suc i)
           | j # _ \<Rightarrow> (if i < j then f (slice s i j) @ sub_from r f s j
                       else s ! i # sub_from r f s (Suc i)))"
  by pat_completeness auto
termination
  by (relation "measure (\<lambda>(r, f, s, i). length s - i)") auto

declare sub_from.simps [simp del]

definition re_sub :: "rx \<Rightarrow> (ustr \<Rightarrow> ustr) \<Rightarrow> ustr \<Rightarrow> ustr" where
  "re_sub r f s = sub_from r f s 0"

lemma search_None_iff: "search r s = None \<longleftrightarrow> (\<forall>i\<le>length s. rm r s i = [])"
proof -
  have "search r s = None \<longleftrightarrow> find (\<lambda>i. rm r s i \<noteq> []) [0..<Suc (length s)] = None"
    by (simp add: search_def split: option.split)
  then show ?thesis by (auto simp: find_None_iff less_Suc_eq_le simp del: upt_Suc)
qed

lemma found_iff: "found r s \<longleftrightarrow> (\<exists>i\<le>length s. rm r s i \<noteq> [])"
  by (auto simp: found_def search_None_iff)

lemma search_Some:
  assumes "search r s = Some (i, j)"
  shows "i \<le> j" "j \<le> length s" "rm r s i \<noteq> []" "j = hd (rm r s i)" "\<forall>k<i. rm r s k = []"
proof -
  from assms have f: "find (\<lambda>i. rm r s i \<noteq> []) [0..<Suc (length s)] = Some i"
    and j: "j = hd (rm r s i)"
    by (auto simp: search_def split: option.splits)
  from f obtain k where k: "k < Suc (length s)" "rm r s i \<noteq> []" "i = k" "\<forall>m<k. rm r s m = []"
    by (auto simp: find_Some_iff simp del: upt_Suc)
  then show "rm r s i \<noteq> []" "j = hd (rm r s i)" "\<forall>k<i. rm r s k = []" using j by auto
  have "j \<in> set (rm r s i)" using k j by simp
  then show "i \<le> j" "j \<le> length s" using rm_bounds [of j r s i] k by auto
qed

section \<open>Literals\<close>

lemma prefix_drop_Cons:
  "prefix (c # cs) (drop i s) \<longleftrightarrow> i < length s \<and> s ! i = c \<and> prefix cs (drop (Suc i) s)"
proof (cases "i < length s")
  case True
  then have "drop i s = s ! i # drop (Suc i) s" by (simp add: Cons_nth_drop_Suc)
  then show ?thesis using True by auto
qed simp

lemma rm_str_rx: "rm (str_rx w) s i = (if prefix w (drop i s) then [i + length w] else [])"
  by (induction w arbitrary: i) (auto simp: prefix_drop_Cons)

lemma rm_word_rx:
  "rm (word_rx w) s i =
     (if wordb s i \<and> prefix w (drop i s) \<and> wordb s (i + length w) then [i + length w] else [])"
  by (simp add: word_rx_def rm_str_rx)

text \<open>A text contains a keyword as a whole word.\<close>

definition has_word :: "ustr \<Rightarrow> ustr \<Rightarrow> bool" where
  "has_word w s \<longleftrightarrow>
     (\<exists>i\<le>length s. wordb s i \<and> prefix w (drop i s) \<and> wordb s (i + length w))"

lemma found_word_rx: "found (word_rx w) s \<longleftrightarrow> has_word w s"
  by (auto simp: found_iff rm_word_rx has_word_def)

text \<open>Deleting every character of a class.\<close>

lemma sub_from_Cls:
  "sub_from (Cls p) (\<lambda>_. []) s i = filter (\<lambda>c. \<not> p c) (drop i s)"
proof (induction "length s - i" arbitrary: i)
  case 0
  then show ?case by (subst sub_from.simps) simp
next
  case (Suc n)
  then have i: "i < length s" by simp
  have "sub_from (Cls p) (\<lambda>_. []) s (Suc i) = filter (\<lambda>c. \<not> p c) (drop (Suc i) s)"
    using Suc.hyps by simp
  with i show ?case by (subst sub_from.simps) (simp flip: Cons_nth_drop_Suc)
qed

lemma re_sub_Cls: "re_sub (Cls p) (\<lambda>_. []) s = filter (\<lambda>c. \<not> p c) s"
  by (simp add: re_sub_def sub_from_Cls)

end
