(* ===== verification/Card_Matching.thy ===== *)
theory Card_Matching
  imports Regex
begin

text \<open>
  The matching helpers of the PriceCharting pipeline (\<open>pricecharting/pc_matching.py\<close>): set names, finishes,
  treatments and the choice of a card version. \<open>difflib\<close> is modelled without its heuristic for texts of 200 or
  more characters.
\<close>

section \<open>Set names\<close>

definition ordinal_map :: "(ustr, ustr) dict" where
  "ordinal_map =
     [(lit ''first'', lit ''1st''), (lit ''second'', lit ''2nd''), (lit ''third'', lit ''3rd''), (lit ''fourth'', lit ''4th''),
      (lit ''fifth'', lit ''5th''), (lit ''sixth'', lit ''6th''), (lit ''seventh'', lit ''7th''), (lit ''eighth'', lit ''8th''),
      (lit ''ninth'', lit ''9th''), (lit ''tenth'', lit ''10th'')]"

definition name_overrides :: "(ustr, ustr) dict" where
  "name_overrides =
     [(lit ''ravnica'', lit ''rav''), (lit ''commander'', lit ''cmd''), (lit ''lord of the rings'', lit ''ltr''),
      (lit ''lord of the rings commander'', lit ''ltc''), (lit ''lord of the rings art series'', lit ''altr''),
      (lit ''warhammer 40,000'', lit ''40k''), (lit ''summer edition'', lit ''sum''), (lit ''jurassic world'', lit ''rex''),
      (lit ''beta'', lit ''leb''), (lit ''the list reprints'', lit ''plst''), (lit ''vintage masters'', lit ''vma''),
      (lit ''the big score'', lit ''big''), (lit ''masterpiece series amonkhet invocations'', lit ''mp2''),
      (lit ''amonkhet invocations'', lit ''mp2''), (lit ''guilds of ravnica guild kits'', lit ''gk1''),
      (lit ''ravnica allegiance guild kits'', lit ''gk2'')]"

definition leading :: "ustr \<Rightarrow> rx" where
  "leading w = seqs [Bos, str_rx w, Plus space_cp]"

fun replace_ordinals :: "(ustr, ustr) dict \<Rightarrow> ustr \<Rightarrow> ustr" where
  "replace_ordinals [] n = n"
| "replace_ordinals ((word, num) # rest) n = replace_ordinals rest (re_sub (word_rx word) (\<lambda>_. num) n)"

definition normalize_set_name :: "ustr \<Rightarrow> ustr" where
  "normalize_set_name name =
     re_sub (seqs [WordB, str_rx (lit ''m1''), Cls (\<lambda>c. 48 \<le> c \<and> c \<le> 53), WordB]) (\<lambda>m. lit ''magic 20'' @ tl m)
       (re_sub (leading (lit ''classic'')) (\<lambda>_. [])
       (re_sub (leading (lit ''limited edition'')) (\<lambda>_. [])
       (replace_ordinals ordinal_map
       (strip (re_sub (Plus space_cp) (\<lambda>_. [32])
       (re_sub (seqs [WordB, str_rx (lit ''vs.'')]) (\<lambda>_. lit ''vs'')
       (re_sub (Cls (\<lambda>c. c = 58 \<or> c = 39)) (\<lambda>_. [])
       (re_sub (leading (lit ''the'')) (\<lambda>_. [])
       (strip (lower name))))))))))"

definition build_set_code_index :: "(ustr \<times> ustr) list \<Rightarrow> (ustr, ustr) dict" where
  "build_set_code_index db_sets = fold (\<lambda>(name, code). dset (normalize_set_name name) code) db_sets []"

text \<open>\<open>difflib\<close>: the longest common block, the first one in \<open>a\<close> and then in \<open>b\<close>, and the ratio of the blocks.\<close>

fun common_prefix :: "ustr \<Rightarrow> ustr \<Rightarrow> nat" where
  "common_prefix (x # xs) (y # ys) = (if x = y then Suc (common_prefix xs ys) else 0)"
| "common_prefix _ _ = 0"

definition longest_block :: "ustr \<Rightarrow> ustr \<Rightarrow> nat \<times> nat \<times> nat" where
  "longest_block a b =
     fold (\<lambda>(i, j) best.
         let k = common_prefix (drop i a) (drop j b) in if snd (snd best) < k then (i, j, k) else best)
       (List.product [0..<length a] [0..<length b]) (0, 0, 0)"

lemma common_prefix_le: "common_prefix xs ys \<le> length xs"
  by (induction xs ys rule: common_prefix.induct) auto

lemma longest_block_bound: "longest_block a b = (i, j, k) \<Longrightarrow> i + k \<le> length a"
proof -
  have "fst r + snd (snd r) \<le> length a" if "r = fold (\<lambda>(i, j) best.
      let k = common_prefix (drop i a) (drop j b) in if snd (snd best) < k then (i, j, k) else best) ps s"
    "fst s + snd (snd s) \<le> length a" "\<forall>(i, j) \<in> set ps. i < length a" for r ps s
    using that
  proof (induction ps arbitrary: s)
    case (Cons p ps)
    obtain i j where p: "p = (i, j)" by (cases p)
    have "i + common_prefix (drop i a) (drop j b) \<le> length a"
      using common_prefix_le [of "drop i a" "drop j b"] Cons.prems(3) by (simp add: p) linarith
    then show ?case
      using Cons.prems by (intro Cons.IH [of "if snd (snd s) < common_prefix (drop i a) (drop j b)
            then (i, j, common_prefix (drop i a) (drop j b)) else s"]) (auto simp: p Let_def)
  qed simp
  from this [of "longest_block a b" "List.product [0..<length a] [0..<length b]" "(0, 0, 0)"]
  show "longest_block a b = (i, j, k) \<Longrightarrow> i + k \<le> length a"
    by (simp add: longest_block_def)
qed

function matched_size :: "ustr \<Rightarrow> ustr \<Rightarrow> nat" where
  "matched_size a b =
     (case longest_block a b of (i, j, k) \<Rightarrow>
        if k = 0 then 0
        else matched_size (take i a) (take j b) + k + matched_size (drop (i + k) a) (drop (j + k) b))"
  by pat_completeness auto
termination
  by (relation "measure (\<lambda>(a, b). length a)") (auto dest!: longest_block_bound [OF sym])

declare matched_size.simps [simp del]

definition ratio :: "ustr \<Rightarrow> ustr \<Rightarrow> rat" where
  "ratio a b = (if a = [] \<and> b = [] then 1 else of_nat (2 * matched_size a b) / of_nat (length a + length b))"

fun text_less :: "ustr \<Rightarrow> ustr \<Rightarrow> bool" where
  "text_less _ [] = False"
| "text_less [] (_ # _) = True"
| "text_less (x # xs) (y # ys) = (x < y \<or> x = y \<and> text_less xs ys)"

definition get_close_match :: "ustr \<Rightarrow> ustr list \<Rightarrow> rat \<Rightarrow> ustr option" where
  "get_close_match word possibilities cutoff =
     fold (\<lambda>x best.
         let r = ratio x word
         in if r < cutoff then best
            else (case best of
                    None \<Rightarrow> Some x
                  | Some y \<Rightarrow> if ratio y word < r \<or> ratio y word = r \<and> text_less y x then Some x else best))
       possibilities None"

definition match_set_code :: "ustr \<Rightarrow> (ustr, ustr) dict \<Rightarrow> (ustr \<times> string) option" where
  "match_set_code pc_name index =
     (let norms = dkeys index;
          pc = re_sub (leading (lit ''magic'')) (\<lambda>_. []) (normalize_set_name pc_name);
          duel = (if sublist (lit '' vs '') pc
                  then dget index (if prefix (lit ''anthology '') pc
                                   then lit ''duel decks anthology '' @ drop 10 pc else lit ''duel decks '' @ pc)
                  else None)
      in case dget name_overrides pc of
           Some c \<Rightarrow> Some (c, ''override'')
         | None \<Rightarrow>
         (case dget index pc of
            Some c \<Rightarrow> Some (c, ''exact'')
          | None \<Rightarrow>
         (case duel of
            Some c \<Rightarrow> Some (c, ''duel_deck'')
          | None \<Rightarrow>
         (case find (\<lambda>dn. 3 \<le> length (words_of dn) \<and> suffix (32 # dn) pc) norms of
            Some dn \<Rightarrow> Some (the (dget index dn), ''suffix'')
          | None \<Rightarrow>
         (case filter (\<lambda>dn. 6 \<le> length pc \<and> prefix (pc @ [32]) dn) norms of
            h # hs \<Rightarrow> Some (the (dget index (max_key (\<lambda>d. - int (length d)) h hs)), ''prefix'')
          | [] \<Rightarrow>
         (case get_close_match pc norms (82/100) of
            Some dn \<Rightarrow> Some (the (dget index dn), ''fuzzy'')
          | None \<Rightarrow> None))))))"

section \<open>Titles\<close>

definition bracket_rx :: rx where
  "bracket_rx = seqs [Cls (\<lambda>c. c = 91), Plus (Cls (\<lambda>c. c \<noteq> 93)), Cls (\<lambda>c. c = 93)]"

definition extract_bracket_tag :: "ustr \<Rightarrow> ustr" where
  "extract_bracket_tag title =
     (case search bracket_rx title of None \<Rightarrow> [] | Some (i, j) \<Rightarrow> slice title (Suc i) (j - 1))"

definition word_ci :: "ustr \<Rightarrow> rx" where
  "word_ci w = seqs [WordB, str_ci w, WordB]"

definition parse_finish :: "ustr \<Rightarrow> int" where
  "parse_finish title =
     (let tag = extract_bracket_tag title
      in if found (word_ci (lit ''etched'')) tag then 3
         else if found (word_ci (lit ''foil'')) tag \<or> found (word_ci (lit ''foil'')) title then 2
         else if sublist (lit ''prerelease'') (lower tag) then 2
         else 1)"

definition collector_rx :: rx where
  "collector_rx = seqs [Cls (\<lambda>c. c = 35), Plus digit_cp, Star (Cls (\<lambda>c. is_ascii_letter c \<or> c = 9733))]"

definition extract_collector_number :: "ustr \<Rightarrow> ustr option" where
  "extract_collector_number title =
     (case search collector_rx title of None \<Rightarrow> None | Some (i, j) \<Rightarrow> Some (slice title (Suc i) j))"

definition clean_card_name :: "ustr \<Rightarrow> ustr" where
  "clean_card_name title =
     (let name = strip (re_sub (seqs [Star space_cp, Cls (\<lambda>c. c = 91), Lazy any_cp, Cls (\<lambda>c. c = 93)]) (\<lambda>_. []) title)
      in strip (re_sub (seqs [Star space_cp, Cls (\<lambda>c. c = 35), Plus digit_cp, Star (Cls (\<lambda>c. \<not> is_space c))]) (\<lambda>_. []) name))"

section \<open>Candidates\<close>

text \<open>A row of the candidates; the TCGplayer id is its text.\<close>

record match_candidate =
  cn_version :: ustr
  cn_name :: "ustr option"
  cn_number :: "ustr option"
  cn_tcg :: "ustr option"
  cn_effects :: "ustr list"
  cn_border :: "ustr option"
  cn_full_art :: bool

definition opt_text :: "ustr option \<Rightarrow> ustr" where
  "opt_text x = (case x of None \<Rightarrow> [] | Some s \<Rightarrow> s)"

definition foil_of :: "string \<Rightarrow> rx" where
  "foil_of w = seqs [str_ci (lit w), Plus space_cp, str_ci (lit ''foil'')]"

definition finish_words_rx :: rx where
  "finish_words_rx =
     seqs [WordB,
       alts (foil_of ''compleat'')
         [foil_of ''etched'', foil_of ''textured'', foil_of ''galaxy'', foil_of ''surge'', foil_of ''gilded'',
          seqs [str_ci (lit ''oil''), Plus space_cp, foil_of ''slick''],
          foil_of ''rainbow'', foil_of ''halo'',
          seqs [str_ci (lit ''neon''), Plus space_cp, foil_of ''ink''],
          foil_of ''dazzle'', seqs [str_ci (lit ''non''), Opt any_cp, str_ci (lit ''foil'')], str_ci (lit ''foil'')],
       WordB]"

definition treatment_map :: "(rx \<times> ustr) list" where
  "treatment_map =
     [(str_ci (lit ''showcase''), lit ''showcase''),
      (seqs [str_ci (lit ''extended''), Opt any_cp, str_ci (lit ''art'')], lit ''extendedart''),
      (seqs [str_ci (lit ''full''), Opt any_cp, str_ci (lit ''art'')], lit ''fullart''),
      (str_ci (lit ''borderless''), lit ''borderless''),
      (str_ci (lit ''etched''), lit ''etched''),
      (alts (str_ci (lit ''inverted'')) [str_ci (lit ''phyrexian'')], lit ''inverted''),
      (str_ci (lit ''dazzle''), lit ''dazzlefoil''),
      (seqs [str_ci (lit ''shattered''), Opt any_cp, str_ci (lit ''glass'')], lit ''shatteredglass''),
      (str_ci (lit ''textless''), lit ''textless''),
      (str_ci (lit ''colorshifted''), lit ''colorshifted'')]"

definition has_signal :: "match_candidate \<Rightarrow> ustr \<Rightarrow> bool" where
  "has_signal r signal =
     (let fe = map lower (cn_effects r)
      in if signal = lit ''borderless'' then lower (opt_text (cn_border r)) = lit ''borderless''
         else if signal = lit ''fullart'' then lit ''fullart'' \<in> set fe \<or> cn_full_art r
         else signal \<in> set fe)"

definition score_candidate :: "match_candidate \<Rightarrow> ustr \<Rightarrow> int" where
  "score_candidate r tag =
     sum_list (map (\<lambda>(pattern, signal). if found pattern tag then (if has_signal r signal then 3 else - 2) else 0)
       treatment_map)"

definition collector_int :: "ustr option \<Rightarrow> int" where
  "collector_int n =
     (let s = (if opt_text n = [] then lit ''9999'' else opt_text n); ds = filter is_digit s
      in if ds = [] then 9999 else int (nat_of_digits ds))"

definition base_certainty :: "(string, int) dict" where
  "base_certainty = [(''tcg'', 95), (''collector'', 85), (''name'', 80), (''treatment'', 65), (''ambiguous'', 40)]"

text \<open>\<open>str(x) == str(y)\<close> for the id of a candidate, which may be \<open>None\<close>, and the scraped id.\<close>

definition same_tcg :: "match_candidate \<Rightarrow> ustr option \<Rightarrow> bool" where
  "same_tcg r pc \<longleftrightarrow> (case cn_tcg r of None \<Rightarrow> lit ''None'' | Some t \<Rightarrow> t) = opt_text pc"

text \<open>
  The three filters: collector number, treatment, TCGplayer id. Each hands on the candidates that are left and
  whether it singled one out.
\<close>

definition by_collector :: "ustr \<Rightarrow> match_candidate list \<Rightarrow> match_candidate list \<times> bool" where
  "by_collector title cands =
     (let hits = (case extract_collector_number title of
                    None \<Rightarrow> []
                  | Some n \<Rightarrow> if n = [] then [] else filter (\<lambda>r. cn_number r = Some n) cands)
      in if hits = [] then (cands, False) else (hits, length hits = 1))"

definition by_treatment :: "ustr \<Rightarrow> match_candidate list \<Rightarrow> match_candidate list \<times> bool" where
  "by_treatment title cands =
     (if length cands > 1
      then let tag = strip (re_sub finish_words_rx (\<lambda>_. []) (extract_bracket_tag title));
               scored = map (\<lambda>r. (r, score_candidate r tag)) cands;
               top = Max (snd ` set scored);
               left = (if top > 0 then map fst (filter (\<lambda>(r, sc). sc = top) scored) else cands)
           in (left, length left = 1)
      else (cands, False))"

definition by_tcg :: "ustr option \<Rightarrow> match_candidate list \<Rightarrow> match_candidate list \<times> bool" where
  "by_tcg pc cands =
     (let hits = filter (\<lambda>r. same_tcg r pc) cands
      in if length cands > 1 \<and> opt_text pc \<noteq> [] \<and> length hits = 1 then (hits, True) else (cands, False))"

record card_match =
  mt_version :: ustr
  mt_name :: "ustr option"
  mt_number :: "ustr option"
  mt_finish :: int
  mt_method :: string
  mt_certainty :: int

definition certainty_of :: "string \<Rightarrow> bool \<Rightarrow> int \<Rightarrow> string \<Rightarrow> int" where
  "certainty_of method confirmed votes set_method =
     (let c = (case dget base_certainty method of None \<Rightarrow> 50 | Some n \<Rightarrow> n);
          c = (if confirmed \<and> votes \<ge> 5 then min 99 (c + 3) else c)
      in if set_method = ''fuzzy'' \<or> set_method = ''prefix'' then max 20 (c - 20) else c)"

definition method_of :: "bool \<Rightarrow> bool \<Rightarrow> bool \<Rightarrow> bool \<Rightarrow> bool \<Rightarrow> bool \<Rightarrow> string" where
  "method_of tcg single pinned treated ambiguous numbered =
     (if tcg then ''tcg'' else if single then ''name'' else if pinned then ''collector'' else if treated then ''treatment''
      else if ambiguous then ''ambiguous'' else if numbered then ''collector'' else ''name'')"

definition resolve_card_match ::
  "match_candidate list \<Rightarrow> ustr \<Rightarrow> ustr option \<Rightarrow> string \<Rightarrow> int \<Rightarrow> card_match option" where
  "resolve_card_match cands title pc set_method votes =
     (if cands = [] then None
      else let (w1, pinned) = by_collector title cands;
               (w2, treated) = by_treatment title w1;
               (w3, tcg_used) = by_tcg pc w2;
               ambiguous = length w3 > 1;
               w = (if ambiguous then hd (sort_key (\<lambda>r. collector_int (cn_number r)) w3) else hd w3);
               confirmed = (opt_text pc \<noteq> [] \<and> same_tcg w pc);
               method = method_of (tcg_used \<or> confirmed) (length cands = 1) pinned treated ambiguous
                          (opt_text (extract_collector_number title) \<noteq> [])
           in Some \<lparr>mt_version = cn_version w, mt_name = cn_name w, mt_number = cn_number w,
                    mt_finish = parse_finish title, mt_method = method,
                    mt_certainty = certainty_of method confirmed votes set_method\<rparr>)"

section \<open>The winner\<close>

text \<open>What a filter promises: it keeps some of the candidates, and one when it claims to have singled one out.\<close>

definition narrows :: "match_candidate list \<Rightarrow> match_candidate list \<times> bool \<Rightarrow> bool" where
  "narrows cands res \<longleftrightarrow> set (fst res) \<subseteq> set cands \<and> (cands \<noteq> [] \<longrightarrow> fst res \<noteq> []) \<and> (snd res \<longrightarrow> length (fst res) = 1)"

lemma narrows_collector: "narrows cands (by_collector title cands)"
  by (auto simp: narrows_def by_collector_def Let_def split: option.split)

lemma narrows_treatment: "narrows cands (by_treatment title cands)"
proof (cases "length cands > 1")
  case True
  define tag where "tag = strip (re_sub finish_words_rx (\<lambda>_. []) (extract_bracket_tag title))"
  define scored where "scored = map (\<lambda>r. (r, score_candidate r tag)) cands"
  define top where "top = Max (snd ` set scored)"
  define left where "left = (if top > 0 then map fst (filter (\<lambda>(r, sc). sc = top) scored) else cands)"
  have "snd ` set scored \<noteq> {}" using True by (auto simp: scored_def)
  then have "top \<in> snd ` set scored" unfolding top_def by (intro Max_in) auto
  then have "filter (\<lambda>(r, sc). sc = top) scored \<noteq> []" by (auto simp: filter_empty_conv)
  with True have "left \<noteq> []" by (auto simp: left_def)
  moreover have "set left \<subseteq> set cands" by (auto simp: left_def scored_def)
  moreover have "by_treatment title cands = (left, length left = 1)"
    using True unfolding by_treatment_def Let_def left_def top_def scored_def tag_def by (simp only: if_True)
  ultimately show ?thesis by (simp add: narrows_def)
next
  case False
  then show ?thesis by (simp add: narrows_def by_treatment_def)
qed

lemma narrows_tcg: "narrows cands (by_tcg pc cands)"
proof (cases "length cands > 1 \<and> opt_text pc \<noteq> [] \<and> length (filter (\<lambda>r. same_tcg r pc) cands) = 1")
  case True
  then have "filter (\<lambda>r. same_tcg r pc) cands \<noteq> []" by (metis list.size(3) zero_neq_one)
  with True show ?thesis by (auto simp: narrows_def by_tcg_def Let_def)
next
  case False
  then have "by_tcg pc cands = (cands, False)" unfolding by_tcg_def Let_def by (simp only: if_False)
  then show ?thesis by (simp add: narrows_def)
qed

lemma base_certainty_simps:
  "dget base_certainty ''tcg'' = Some 95" "dget base_certainty ''collector'' = Some 85"
  "dget base_certainty ''name'' = Some 80" "dget base_certainty ''treatment'' = Some 65"
  "dget base_certainty ''ambiguous'' = Some 40"
  by code_simp+

lemma base_bounds: "\<exists>n. dget base_certainty (method_of a b c d e f) = Some n \<and> 40 \<le> n \<and> n \<le> 95"
  by (simp add: method_of_def base_certainty_simps)

lemma certainty_bounds:
  "20 \<le> certainty_of (method_of a b c d e f) confirmed votes set_method \<and>
   certainty_of (method_of a b c d e f) confirmed votes set_method \<le> 99"
proof -
  obtain n where "dget base_certainty (method_of a b c d e f) = Some n" "40 \<le> n" "n \<le> 95"
    using base_bounds by blast
  then show ?thesis by (auto simp: certainty_of_def Let_def)
qed

text \<open>
  C14. A match is one of the candidates, its certainty lies between 20 and 99, and when the title names a
  collector number that some candidate has, the match has it; there is no match only without candidates.
\<close>

theorem resolve_card_match_spec:
  "case resolve_card_match cands title pc set_method votes of
     None \<Rightarrow> cands = []
   | Some m \<Rightarrow> \<exists>r \<in> set cands. mt_version m = cn_version r \<and> mt_name m = cn_name r \<and> mt_number m = cn_number r \<and>
       20 \<le> mt_certainty m \<and> mt_certainty m \<le> 99 \<and>
       (\<forall>n. extract_collector_number title = Some n \<and> n \<noteq> [] \<and> (\<exists>c \<in> set cands. cn_number c = Some n) \<longrightarrow>
          mt_number m = Some n)"
proof (cases "cands = []")
  case True
  then show ?thesis by (simp add: resolve_card_match_def)
next
  case False
  obtain w1 pinned where w1: "by_collector title cands = (w1, pinned)" by (cases "by_collector title cands")
  obtain w2 treated where w2: "by_treatment title w1 = (w2, treated)" by (cases "by_treatment title w1")
  obtain w3 used where w3: "by_tcg pc w2 = (w3, used)" by (cases "by_tcg pc w2")
  have n1: "set w1 \<subseteq> set cands" "w1 \<noteq> []"
    using narrows_collector [of cands title] False by (simp_all add: narrows_def w1)
  have n2: "set w2 \<subseteq> set w1" "w2 \<noteq> []"
    using narrows_treatment [of w1 title] n1 by (simp_all add: narrows_def w2)
  have n3: "set w3 \<subseteq> set w2" "w3 \<noteq> []"
    using narrows_tcg [of w2 pc] n2 by (simp_all add: narrows_def w3)
  define w where "w = (if length w3 > 1 then hd (sort_key (\<lambda>r. collector_int (cn_number r)) w3) else hd w3)"
  have "sort_key (\<lambda>r. collector_int (cn_number r)) w3 \<noteq> []"
    using n3(2) by (metis length_0_conv length_sort)
  then have "w \<in> set w3"
    using hd_in_set [of "sort_key (\<lambda>r. collector_int (cn_number r)) w3"] n3(2) by (auto simp: w_def)
  then have w: "w \<in> set w1" "w \<in> set cands" using n1 n2 n3 by blast+
  have number: "cn_number w = Some n"
    if "extract_collector_number title = Some n" "n \<noteq> []" "\<exists>c \<in> set cands. cn_number c = Some n" for n
  proof -
    from that have "filter (\<lambda>r. cn_number r = Some n) cands \<noteq> []" by (auto simp: filter_empty_conv)
    with that w1 have "w1 = filter (\<lambda>r. cn_number r = Some n) cands"
      by (auto simp: by_collector_def Let_def split: if_splits)
    with w(1) show ?thesis by auto
  qed
  obtain m where m: "resolve_card_match cands title pc set_method votes = Some m"
    and fields: "mt_version m = cn_version w" "mt_name m = cn_name w" "mt_number m = cn_number w"
    and "20 \<le> mt_certainty m \<and> mt_certainty m \<le> 99"
    using False certainty_bounds by (simp add: resolve_card_match_def Let_def w1 w2 w3 w_def)
  with m fields w(2) number show ?thesis by auto
qed

definition demo_cands :: "match_candidate list" where
  "demo_cands =
     map (\<lambda>(v, n). \<lparr>cn_version = v, cn_name = None, cn_number = Some n, cn_tcg = None, cn_effects = [], cn_border = None,
                     cn_full_art = False\<rparr>) [(lit ''v4'', lit ''4''), (lit ''v5'', lit ''5'')]"

lemma demo_collector: "extract_collector_number (lit ''Lotus #5'') = Some (lit ''5'')"
  by code_simp

theorem resolve_card_match_spec_witness:
  "\<exists>m. resolve_card_match demo_cands (lit ''Lotus #5'') None ''fuzzy'' 0 = Some m \<and> mt_number m = Some (lit ''5'') \<and>
     20 \<le> mt_certainty m"
  using resolve_card_match_spec [of demo_cands "lit ''Lotus #5''" None "''fuzzy''" 0] demo_collector
  by (auto simp: demo_cands_def split: option.splits)

text \<open>The word foil in the tag Non-Foil, or in the name of a card, makes the finish foil.\<close>

lemma non_foil_is_foil:
  "parse_finish (lit ''Lotus [Non-Foil] #5'') = 2" "parse_finish (lit ''Foil #5'') = 2" "parse_finish (lit ''Lotus #5'') = 1"
  by code_simp+

end
