(* ===== verification/Match_Catalog.thy ===== *)
theory Match_Catalog
  imports Card_Matching
begin

text \<open>
  The PriceCharting catalog (\<open>pricecharting/pc_match_catalog_service.py\<close>) with its map of products
  (\<open>pricecharting/pc_map_repository.py\<close>) and the registration of identifiers
  (\<open>CardReferenceRepository.register_external_identifier\<close>).

  The files of the storage and the rows of the sets are parameters, read-only inputs of the service.
\<close>

section \<open>Tables\<close>

record map_row =
  mp_product :: ustr
  mp_version :: "ustr option"
  mp_set :: ustr
  mp_finish :: "int option"
  mp_method :: string
  mp_certainty :: int
  mp_votes :: int
  mp_verified :: bool

text \<open>An identifier: version, kind and value; the primary key is the first two.\<close>

record pc_tables =
  pc_map :: "map_row list"
  pc_identifiers :: "(ustr \<times> string \<times> ustr) list"
  pc_versions :: "ustr list"
  pc_kinds :: "string list"

definition fetch_all_map :: "pc_tables \<Rightarrow> (ustr, map_row) dict" where
  "fetch_all_map s = fold (\<lambda>r. dset (mp_product r) r) (pc_map s) []"

definition fetch_matched_map :: "pc_tables \<Rightarrow> (ustr, ustr \<times> int option) dict" where
  "fetch_matched_map s =
     fold (\<lambda>r d. case mp_version r of None \<Rightarrow> d | Some v \<Rightarrow> dset (mp_product r) (v, mp_finish r) d) (pc_map s) []"

text \<open>
  The upsert of one row: a verified row stays as it is. A statement that meets a product twice is refused.
\<close>

definition upsert_row :: "map_row \<Rightarrow> map_row list \<Rightarrow> map_row list" where
  "upsert_row u rows =
     (if \<exists>r \<in> set rows. mp_product r = mp_product u
      then map (\<lambda>r. if mp_product r = mp_product u \<and> \<not> mp_verified r then u\<lparr>mp_verified := False\<rparr> else r) rows
      else rows @ [u\<lparr>mp_verified := False\<rparr>])"

definition upsert_map :: "map_row list \<Rightarrow> (pc_tables, int) prog" where
  "upsert_map us s =
     (if us = [] then (Inr 0, s)
      else if \<not> distinct (map mp_product us) then (Inl DbErr, s)
      else (Inr (int (length us)), s\<lparr>pc_map := fold upsert_row us (pc_map s)\<rparr>))"

text \<open>\<open>register_external_identifier\<close>: found the kind, found the version, inserted.\<close>

definition register_external_identifier :: "ustr \<Rightarrow> string \<Rightarrow> ustr \<Rightarrow> (pc_tables, bool \<times> bool \<times> bool) prog" where
  "register_external_identifier v kind val s =
     (let ref_found = kind \<in> set (pc_kinds s); exists = v \<in> set (pc_versions s);
          inserted = (ref_found \<and> exists \<and> (\<forall>(v', k', _) \<in> set (pc_identifiers s). (v', k') \<noteq> (v, kind)))
      in (Inr (ref_found, exists, inserted),
          if inserted then s\<lparr>pc_identifiers := pc_identifiers s @ [(v, kind, val)]\<rparr> else s))"

section \<open>The service\<close>

record product =
  pd_id :: ustr
  pd_type :: string
  pd_title :: ustr

text \<open>
  The input: sets, catalogs and sales of a set (the TCGplayer id of a product, where it was scraped, with its votes),
  database sets, card versions of a set by lower name.
\<close>

record pc_input =
  in_sets :: "(ustr \<times> ustr) list option"
  in_catalog :: "ustr \<Rightarrow> product list option"
  in_sales :: "ustr \<Rightarrow> (ustr \<times> ustr option \<times> int) list option"
  in_db_sets :: "(ustr \<times> ustr) list"
  in_versions :: "ustr \<Rightarrow> (ustr, match_candidate list) dict"

definition load_tcgplayer_ids :: "pc_input \<Rightarrow> ustr \<Rightarrow> (ustr, ustr \<times> int) dict" where
  "load_tcgplayer_ids inp uid =
     (case in_sales inp uid of
        None \<Rightarrow> []
      | Some products \<Rightarrow>
          fold (\<lambda>(pid, tcg, votes) out. case tcg of
                  None \<Rightarrow> out
                | Some t \<Rightarrow> if t = [] then out else dset pid (t, votes) out) products [])"

record catalog_tally =
  ty_matched :: nat
  ty_unmatched :: nat
  ty_skipped :: nat
  ty_skipped_sets :: nat
  ty_registered :: nat

definition match_row :: "ustr \<Rightarrow> ustr \<Rightarrow> int \<Rightarrow> card_match option \<Rightarrow> map_row" where
  "match_row pid code votes m =
     (case m of
        None \<Rightarrow> \<lparr>mp_product = pid, mp_version = None, mp_set = code, mp_finish = None, mp_method = ''none'',
                 mp_certainty = 0, mp_votes = votes, mp_verified = False\<rparr>
      | Some x \<Rightarrow> \<lparr>mp_product = pid, mp_version = Some (mt_version x), mp_set = code, mp_finish = Some (mt_finish x),
                   mp_method = mt_method x, mp_certainty = mt_certainty x, mp_votes = votes, mp_verified = False\<rparr>)"

definition settled :: "map_row option \<Rightarrow> bool" where
  "settled prior \<longleftrightarrow> (case prior of None \<Rightarrow> False | Some r \<Rightarrow> mp_version r \<noteq> None \<or> mp_verified r)"

text \<open>One product of a set, and the products of a set in order.\<close>

definition match_product ::
  "pc_input \<Rightarrow> (ustr, map_row) dict \<Rightarrow> ustr \<Rightarrow> string \<Rightarrow> ustr \<Rightarrow> product \<Rightarrow> map_row list \<times> catalog_tally \<Rightarrow>
   (pc_tables, map_row list \<times> catalog_tally) prog" where
  "match_product inp existing code set_method uid p acc s =
     (let (ups, ty) = acc; pid = pd_id p in
      if settled (dget existing pid) then (Inr (ups, ty\<lparr>ty_skipped := Suc (ty_skipped ty)\<rparr>), s)
      else
        let cands = (case dget (in_versions inp code) (lower (clean_card_name (pd_title p))) of None \<Rightarrow> [] | Some cs \<Rightarrow> cs);
            (tcg, votes) = (case dget (load_tcgplayer_ids inp uid) pid of None \<Rightarrow> (None, 0) | Some (t, n) \<Rightarrow> (Some t, n));
            m = resolve_card_match cands (pd_title p) tcg set_method votes;
            ups' = ups @ [match_row pid code votes m]
        in case m of
             None \<Rightarrow> (Inr (ups', ty\<lparr>ty_unmatched := Suc (ty_unmatched ty)\<rparr>), s)
           | Some x \<Rightarrow>
               let ty' = ty\<lparr>ty_matched := Suc (ty_matched ty)\<rparr> in
               if mt_certainty x \<ge> 70
               then (case register_external_identifier (mt_version x) ''pricecharting_id'' pid s of
                       (Inl e, s') \<Rightarrow> (Inr (ups', ty'), s')
                     | (Inr (_, _, inserted), s') \<Rightarrow>
                         (Inr (ups', if inserted then ty'\<lparr>ty_registered := Suc (ty_registered ty')\<rparr> else ty'), s'))
               else (Inr (ups', ty'), s))"

fun match_products ::
  "pc_input \<Rightarrow> (ustr, map_row) dict \<Rightarrow> ustr \<Rightarrow> string \<Rightarrow> ustr \<Rightarrow> product list \<Rightarrow> map_row list \<times> catalog_tally \<Rightarrow>
   (pc_tables, map_row list \<times> catalog_tally) prog" where
  "match_products inp existing code set_method uid [] acc = ret acc"
| "match_products inp existing code set_method uid (p # ps) acc =
     bindp (match_product inp existing code set_method uid p acc) (match_products inp existing code set_method uid ps)"

fun match_sets ::
  "pc_input \<Rightarrow> (ustr, map_row) dict \<Rightarrow> (ustr, ustr) dict \<Rightarrow> (ustr \<times> ustr) list \<Rightarrow> map_row list \<times> catalog_tally \<Rightarrow>
   (pc_tables, map_row list \<times> catalog_tally) prog" where
  "match_sets inp existing index [] acc = ret acc"
| "match_sets inp existing index ((uid, name) # sets) (ups, ty) =
     (case match_set_code name index of
        None \<Rightarrow> match_sets inp existing index sets (ups, ty\<lparr>ty_skipped_sets := Suc (ty_skipped_sets ty)\<rparr>)
      | Some (code, set_method) \<Rightarrow>
          if code = [] then match_sets inp existing index sets (ups, ty\<lparr>ty_skipped_sets := Suc (ty_skipped_sets ty)\<rparr>)
          else (case in_catalog inp uid of
             None \<Rightarrow> match_sets inp existing index sets (ups, ty\<lparr>ty_skipped_sets := Suc (ty_skipped_sets ty)\<rparr>)
           | Some products \<Rightarrow>
               bindp (match_products inp existing code set_method uid (filter (\<lambda>p. pd_type p = ''single'') products) (ups, ty))
                 (match_sets inp existing index sets)))"

definition empty_tally :: catalog_tally where
  "empty_tally = \<lparr>ty_matched = 0, ty_unmatched = 0, ty_skipped = 0, ty_skipped_sets = 0, ty_registered = 0\<rparr>"

definition build_match_catalog :: "pc_input \<Rightarrow> (pc_tables, catalog_tally) prog" where
  "build_match_catalog inp s =
     (case in_sets inp of
        None \<Rightarrow> (Inr empty_tally, s)
      | Some sets \<Rightarrow>
          bindp (match_sets inp (fetch_all_map s) (build_set_code_index (in_db_sets inp)) sets ([], empty_tally))
            (\<lambda>(ups, ty). bindp (upsert_map ups) (\<lambda>_. ret ty)) s)"

section \<open>Settled products are left alone\<close>

lemma fetch_fold_other:
  "p \<notin> mp_product ` set rows \<Longrightarrow> dget (fold (\<lambda>r. dset (mp_product r) r) rows d) p = dget d p"
  by (induction rows arbitrary: d) (auto simp: dget_dset)

lemma fetch_fold_in:
  "distinct (map mp_product rows) \<Longrightarrow> r \<in> set rows \<Longrightarrow>
   dget (fold (\<lambda>r. dset (mp_product r) r) rows d) (mp_product r) = Some r"
proof (induction rows arbitrary: d)
  case (Cons x rows)
  then show ?case
    by (cases "r = x") (simp_all add: fetch_fold_other dget_dset)
qed simp

lemma fetch_all_map_row:
  "distinct (map mp_product (pc_map s)) \<Longrightarrow> r \<in> set (pc_map s) \<Longrightarrow> dget (fetch_all_map s) (mp_product r) = Some r"
  by (simp add: fetch_all_map_def fetch_fold_in)

text \<open>The rows to be written are of products that are not settled, one per counted product.\<close>

definition fresh :: "(ustr, map_row) dict \<Rightarrow> map_row list \<times> catalog_tally \<Rightarrow> bool" where
  "fresh existing acc \<longleftrightarrow> (\<forall>u \<in> set (fst acc). \<not> settled (dget existing (mp_product u))) \<and>
     length (fst acc) = ty_matched (snd acc) + ty_unmatched (snd acc)"

text \<open>A run from a fresh accumulator: it returns, with a fresh accumulator and the same map.\<close>

definition keeps_fresh ::
  "(ustr, map_row) dict \<Rightarrow> (map_row list \<times> catalog_tally \<Rightarrow> (pc_tables, map_row list \<times> catalog_tally) prog) \<Rightarrow> bool" where
  "keeps_fresh existing m \<longleftrightarrow>
     (\<forall>acc s. fresh existing acc \<longrightarrow> (\<exists>acc' s'. m acc s = (Inr acc', s') \<and> fresh existing acc' \<and> pc_map s' = pc_map s))"

lemma keeps_freshD:
  assumes "keeps_fresh existing m" "fresh existing acc"
  obtains acc' s' where "m acc s = (Inr acc', s')" "fresh existing acc'" "pc_map s' = pc_map s"
  using assms unfolding keeps_fresh_def by blast

lemma keeps_fresh_ret: "keeps_fresh existing ret"
  by (simp add: keeps_fresh_def)

lemma keeps_fresh_bind:
  assumes "keeps_fresh existing m" "keeps_fresh existing k"
  shows "keeps_fresh existing (\<lambda>acc. bindp (m acc) k)"
  unfolding keeps_fresh_def
proof (intro allI impI)
  fix acc s assume "fresh existing acc"
  with assms(1) obtain acc1 s1 where 1: "m acc s = (Inr acc1, s1)" "fresh existing acc1" "pc_map s1 = pc_map s"
    by (rule keeps_freshD)
  from assms(2) 1(2) obtain acc2 s2 where "k acc1 s1 = (Inr acc2, s2)" "fresh existing acc2" "pc_map s2 = pc_map s1"
    by (rule keeps_freshD)
  with 1 show "\<exists>acc' s'. bindp (m acc) k s = (Inr acc', s') \<and> fresh existing acc' \<and> pc_map s' = pc_map s" by auto
qed

lemma match_row_product [simp]: "mp_product (match_row pid code votes m) = pid"
  by (simp add: match_row_def split: option.split)

lemma register_keeps_map:
  "\<exists>out s'. register_external_identifier v k x s = (Inr out, s') \<and> pc_map s' = pc_map s"
  by (simp add: register_external_identifier_def Let_def)

lemma fresh_snoc:
  assumes "fresh existing (ups, ty)" "\<not> settled (dget existing (mp_product u))"
    and "ty_matched ty' + ty_unmatched ty' = Suc (ty_matched ty + ty_unmatched ty)"
  shows "fresh existing (ups @ [u], ty')"
  using assms by (auto simp: fresh_def)

lemma keeps_fresh_product: "keeps_fresh existing (match_product inp existing code set_method uid p)"
  unfolding keeps_fresh_def
proof (intro allI impI)
  fix acc and s :: pc_tables assume acc: "fresh existing acc"
  obtain ups ty where ups: "acc = (ups, ty)" by (cases acc)
  show "\<exists>acc' s'. match_product inp existing code set_method uid p acc s = (Inr acc', s') \<and> fresh existing acc' \<and> pc_map s' = pc_map s"
  proof (cases "settled (dget existing (pd_id p))")
    case True
    with acc ups show ?thesis by (simp add: match_product_def fresh_def)
  next
    case False
    define cands where
      "cands = (case dget (in_versions inp code) (lower (clean_card_name (pd_title p))) of None \<Rightarrow> [] | Some cs \<Rightarrow> cs)"
    obtain tcg votes where tcg:
      "(case dget (load_tcgplayer_ids inp uid) (pd_id p) of None \<Rightarrow> (None, 0) | Some (t, n) \<Rightarrow> (Some t, n)) = (tcg, votes)"
      by fastforce
    note snoc = fresh_snoc [OF acc [unfolded ups], where u = "match_row (pd_id p) code votes m" for m, simplified, OF False]
    note unfold = match_product_def ups Let_def case_prod_conv if_not_P [OF False] cands_def [symmetric] tcg
    show ?thesis
    proof (cases "resolve_card_match cands (pd_title p) tcg set_method votes")
      case None
      then show ?thesis unfolding unfold by (auto intro!: snoc)
    next
      case (Some x)
      obtain out s' where reg: "register_external_identifier (mt_version x) ''pricecharting_id'' (pd_id p) s = (Inr out, s')"
        "pc_map s' = pc_map s" using register_keeps_map by blast
      obtain a b c where "out = (a, b, c)" by (cases out) auto
      with Some reg show ?thesis unfolding unfold by (auto intro!: snoc)
    qed
  qed
qed

lemma keeps_fresh_products: "keeps_fresh existing (match_products inp existing code set_method uid ps)"
proof (induction ps)
  case Nil
  have "match_products inp existing code set_method uid [] = ret" by (rule ext) simp
  then show ?case by (simp only: keeps_fresh_ret)
next
  case (Cons p ps)
  have "match_products inp existing code set_method uid (p # ps) =
      (\<lambda>acc. bindp (match_product inp existing code set_method uid p acc) (match_products inp existing code set_method uid ps))"
    by (rule ext) simp
  with keeps_fresh_bind [OF keeps_fresh_product Cons.IH] show ?case by simp
qed

lemma fresh_skip: "fresh existing (ups, ty\<lparr>ty_skipped_sets := n\<rparr>) = fresh existing (ups, ty)"
  by (simp add: fresh_def)

lemma keeps_fresh_sets: "keeps_fresh existing (match_sets inp existing index sets)"
proof (induction sets)
  case Nil
  have "match_sets inp existing index [] = ret" by (rule ext) simp
  then show ?case by (simp only: keeps_fresh_ret)
next
  case (Cons p sets)
  obtain uid name where p: "p = (uid, name)" by (cases p)
  note IH = Cons.IH [unfolded keeps_fresh_def, rule_format]
  have step: "\<exists>acc' s'. bindp (match_products inp existing code set_method uid ps acc) (match_sets inp existing index sets) s =
      (Inr acc', s') \<and> fresh existing acc' \<and> pc_map s' = pc_map s" if "fresh existing acc" for code set_method ps acc s
    using keeps_fresh_bind [OF keeps_fresh_products Cons.IH] that unfolding keeps_fresh_def by blast
  show ?case
    unfolding keeps_fresh_def
  proof (intro allI impI)
    fix acc and s :: pc_tables assume acc: "fresh existing acc"
    obtain ups ty where ups: "acc = (ups, ty)" by (cases acc)
    have skip: "\<exists>acc' s'. match_sets inp existing index sets (ups, ty\<lparr>ty_skipped_sets := n\<rparr>) s = (Inr acc', s') \<and>
        fresh existing acc' \<and> pc_map s' = pc_map s" for n
      by (rule IH) (use acc ups in \<open>simp add: fresh_skip\<close>)
    show "\<exists>acc' s'. match_sets inp existing index (p # sets) acc s = (Inr acc', s') \<and> fresh existing acc' \<and> pc_map s' = pc_map s"
      using skip step [OF acc] unfolding p ups match_sets.simps
      by (cases "match_set_code name index"; cases "in_catalog inp uid"; cases "fst (the (match_set_code name index)) = []") auto
  qed
qed

lemma upsert_row_other: "r \<in> set rows \<Longrightarrow> mp_product u \<noteq> mp_product r \<Longrightarrow> r \<in> set (upsert_row u rows)"
  by (force simp: upsert_row_def)

lemma fold_upsert_other:
  "r \<in> set rows \<Longrightarrow> \<forall>u \<in> set us. mp_product u \<noteq> mp_product r \<Longrightarrow> r \<in> set (fold upsert_row us rows)"
  by (induction us arbitrary: rows) (simp_all add: upsert_row_other)

text \<open>
  C15. A run of the catalog leaves every settled row of the map (matched before, or verified by hand) as it is,
  whatever the files say.
\<close>

theorem catalog_keeps_settled:
  assumes "build_match_catalog inp s = (Inr ty, s')" and "distinct (map mp_product (pc_map s))"
    and "r \<in> set (pc_map s)" "mp_version r \<noteq> None \<or> mp_verified r"
  shows "r \<in> set (pc_map s')"
proof (cases "in_sets inp")
  case None
  with assms show ?thesis by (simp add: build_match_catalog_def)
next
  case (Some sets)
  let ?ex = "fetch_all_map s"
  have "fresh ?ex ([], empty_tally)" by (simp add: fresh_def empty_tally_def)
  with keeps_fresh_sets obtain acc s1 where
    run: "match_sets inp ?ex (build_set_code_index (in_db_sets inp)) sets ([], empty_tally) s = (Inr acc, s1)"
    and acc: "fresh ?ex acc" and map: "pc_map s1 = pc_map s" by (rule keeps_freshD)
  obtain ups ty1 where ups: "acc = (ups, ty1)" by (cases acc)
  from assms(1) Some run ups have up: "bindp (upsert_map ups) (\<lambda>_. ret ty1) s1 = (Inr ty, s')"
    by (simp add: build_match_catalog_def)
  have "settled (dget ?ex (mp_product r))"
    using fetch_all_map_row [OF assms(2,3)] assms(4) by (simp add: settled_def)
  with acc ups have "\<forall>u \<in> set ups. mp_product u \<noteq> mp_product r" by (auto simp: fresh_def)
  with assms(3) map have "r \<in> set (fold upsert_row ups (pc_map s1))" by (simp add: fold_upsert_other)
  with up assms(3) map show ?thesis
    by (auto simp: upsert_map_def bindp_def split: if_splits)
qed

definition demo_pc :: pc_tables where
  "demo_pc =
     \<lparr>pc_map = [\<lparr>mp_product = lit ''p1'', mp_version = None, mp_set = lit ''leb'', mp_finish = None, mp_method = ''manual'',
                  mp_certainty = 0, mp_votes = 0, mp_verified = True\<rparr>],
      pc_identifiers = [], pc_versions = [lit ''v4''], pc_kinds = [''pricecharting_id'']\<rparr>"

definition demo_input :: pc_input where
  "demo_input =
     \<lparr>in_sets = Some [(lit ''u'', lit ''Beta'')],
      in_catalog = \<lambda>_. Some [\<lparr>pd_id = lit ''p1'', pd_type = ''single'', pd_title = lit ''Lotus''\<rparr>,
                              \<lparr>pd_id = lit ''p2'', pd_type = ''single'', pd_title = lit ''Lotus #4''\<rparr>],
      in_sales = \<lambda>_. None, in_db_sets = [], in_versions = \<lambda>_. [(lit ''lotus'', demo_cands)]\<rparr>"

lemma demo_set: "match_set_code (lit ''Beta'') [] = Some (lit ''leb'', ''override'')"
  by code_simp

lemma demo_clean: "clean_card_name (lit ''Lotus #4'') = lit ''Lotus''"
  by code_simp

lemma demo_resolve: "resolve_card_match demo_cands (lit ''Lotus #4'') None ''override'' 0 =
   Some \<lparr>mt_version = lit ''v4'', mt_name = None, mt_number = Some (lit ''4''), mt_finish = 1, mt_method = ''collector'', mt_certainty = 85\<rparr>"
  by code_simp

lemma demo_lower: "lower (lit ''Lotus'') = lit ''lotus''" "lit ''leb'' \<noteq> []"
  by code_simp+

lemma demo_catalog_run:
  "fst (build_match_catalog demo_input demo_pc) =
     Inr \<lparr>ty_matched = 1, ty_unmatched = 0, ty_skipped = 1, ty_skipped_sets = 0, ty_registered = 1\<rparr>"
  using demo_set demo_clean demo_resolve demo_lower
  by (simp add: build_match_catalog_def demo_input_def demo_pc_def build_set_code_index_def fetch_all_map_def settled_def match_product_def bindp_def ret_def
    empty_tally_def register_external_identifier_def upsert_map_def match_row_def load_tcgplayer_ids_def Let_def del: lit_simps)

theorem catalog_keeps_settled_witness:
  "\<exists>ty s'. build_match_catalog demo_input demo_pc = (Inr ty, s') \<and> ty_matched ty = 1 \<and> hd (pc_map demo_pc) \<in> set (pc_map s')"
proof -
  obtain ty s' where run: "build_match_catalog demo_input demo_pc = (Inr ty, s')"
    using demo_catalog_run by (metis prod.collapse)
  with demo_catalog_run have "ty_matched ty = 1" by simp
  moreover have "hd (pc_map demo_pc) \<in> set (pc_map s')"
    by (rule catalog_keeps_settled [OF run]) (simp_all add: demo_pc_def)
  ultimately show ?thesis using run by blast
qed

end
