(* ===== verification/Pc_Sales.thy ===== *)
theory Pc_Sales
  imports Match_Catalog
begin

text \<open>
  The sold prices of PriceCharting: the scraper of card pages (\<open>pc_sales_scrape_service.py\<close>), the pure helpers of the
  staging (\<open>pc_staging.py\<close>), and the staging itself (\<open>pc_stage_sold_service.py\<close>) with the price products it resolves
  (\<open>upsert_source_products_for_cards\<close> in \<open>pricing/price_repository.py\<close>) and the table it fills
  (\<open>ebay/ebay_scrape_repository.py\<close>).

  HTML parsing is a parameter: a page is its rows as texts. So are the hash of an item id, the parsing and printing of
  dates and \<open>float\<close> of a text; floats are rationals.
\<close>

section \<open>Parsing a page\<close>

record page_row =
  pr_grade :: ustr
  pr_date :: ustr
  pr_price_text :: ustr
  pr_title_text :: ustr
  pr_cell_text :: ustr
  pr_href :: "ustr option"
  pr_row_tcg :: "ustr option"

record pc_page =
  pg_rows :: "page_row list"
  pg_tcg :: "ustr option"

record pc_sale =
  pa_grade :: "ustr option"
  pa_sold_at :: "ustr option"
  pa_title :: "ustr option"
  pa_price :: "int option"
  pa_source :: "ustr option"

record pc_product =
  pp_tcg :: "ustr option"
  pp_votes :: nat
  pp_sales :: "pc_sale list"

definition detect_source :: "ustr \<Rightarrow> ustr option \<Rightarrow> ustr" where
  "detect_source txt href =
     (if sublist (lit ''[TCGPlayer]'') txt then lit ''tcgplayer''
      else if sublist (lit ''[eBay]'') txt then lit ''ebay''
      else (case href of
              None \<Rightarrow> lit ''unknown''
            | Some h \<Rightarrow> if sublist (lit ''tcgplayer'') h then lit ''tcgplayer''
                        else if sublist (lit ''ebay'') h then lit ''ebay'' else lit ''unknown''))"

text \<open>\<open>counts[pid] = counts.get(pid, 0) + 1\<close> over the votes; \<open>max\<close> takes the first of the largest.\<close>

definition vote_counts :: "ustr list \<Rightarrow> (ustr, nat) dict" where
  "vote_counts vs = foldl (\<lambda>d v. dset v (case dget d v of None \<Rightarrow> 1 | Some n \<Rightarrow> Suc n) d) [] vs"

definition consensus_tcg_id :: "ustr option \<Rightarrow> ustr list \<Rightarrow> ustr option \<times> nat" where
  "consensus_tcg_id page votes =
     (case vote_counts votes of
        [] \<Rightarrow> (page, 0)
      | p # ps \<Rightarrow> (let w = max_key snd p ps in (Some (fst w), snd w)))"

text \<open>A price text without dollar signs and commas.\<close>

definition price_cents :: "(ustr \<Rightarrow> rat option) \<Rightarrow> ustr \<Rightarrow> int option" where
  "price_cents num t = map_option (\<lambda>x. round_half_even (x * 100)) (num (filter (\<lambda>c. c \<noteq> 36 \<and> c \<noteq> 44) t))"

definition row_sale :: "(ustr \<Rightarrow> rat option) \<Rightarrow> page_row \<Rightarrow> pc_sale option" where
  "row_sale num r =
     map_option (\<lambda>c. \<lparr>pa_grade = Some (pr_grade r), pa_sold_at = Some (pr_date r), pa_title = Some (pr_title_text r),
                     pa_price = Some c, pa_source = Some (detect_source (pr_cell_text r) (pr_href r))\<rparr>)
       (price_cents num (pr_price_text r))"

definition row_vote :: "(ustr \<Rightarrow> rat option) \<Rightarrow> page_row \<Rightarrow> ustr option" where
  "row_vote num r =
     (if row_sale num r = None then None
      else if detect_source (pr_cell_text r) (pr_href r) = lit ''tcgplayer'' then pr_row_tcg r else None)"

definition parse_sales_page :: "(ustr \<Rightarrow> rat option) \<Rightarrow> pc_page \<Rightarrow> pc_product" where
  "parse_sales_page num pg =
     (let (tcg, votes) = consensus_tcg_id (pg_tcg pg) (List.map_filter (row_vote num) (pg_rows pg))
      in \<lparr>pp_tcg = tcg, pp_votes = votes, pp_sales = List.map_filter (row_sale num) (pg_rows pg)\<rparr>)"

section \<open>Scraping\<close>

record pc_card =
  ca_id :: ustr
  ca_url :: ustr
  ca_single :: bool

text \<open>The files of the storage: the list of sets, the catalog of a set, the sales of a set.\<close>

record pc_files =
  pf_sets :: "ustr list option"
  pf_catalogs :: "(ustr, pc_card list) dict"
  pf_sales :: "(ustr, (ustr, pc_product) dict) dict"

record scrape_count =
  sn_sets :: nat
  sn_scraped :: nat
  sn_cached :: nat
  sn_errors :: nat

definition no_count :: scrape_count where
  "no_count = \<lparr>sn_sets = 0, sn_scraped = 0, sn_cached = 0, sn_errors = 0\<rparr>"

text \<open>The pages of the cards of a set: a card whose page raises is counted and left out.\<close>

fun scrape_cards ::
  "(ustr \<Rightarrow> pc_page res) \<Rightarrow> (ustr \<Rightarrow> rat option) \<Rightarrow> pc_card list \<Rightarrow> (ustr, pc_product) dict \<Rightarrow> scrape_count \<Rightarrow> (ustr, pc_product) dict \<times> scrape_count" where
  "scrape_cards fetch num [] d n = (d, n)"
| "scrape_cards fetch num (c # cs) d n =
     (case fetch (ca_url c) of
        Inl _ \<Rightarrow> scrape_cards fetch num cs d (n\<lparr>sn_errors := Suc (sn_errors n)\<rparr>)
      | Inr pg \<Rightarrow> scrape_cards fetch num cs (dset (ca_id c) (parse_sales_page num pg) d) (n\<lparr>sn_scraped := Suc (sn_scraped n)\<rparr>))"

definition scrape_set ::
  "(ustr \<Rightarrow> pc_page res) \<Rightarrow> (ustr \<Rightarrow> rat option) \<Rightarrow> bool \<Rightarrow> ustr \<Rightarrow> scrape_count \<times> pc_files \<Rightarrow> scrape_count \<times> pc_files" where
  "scrape_set fetch num force uid = (\<lambda>(n, s).
     if dget (pf_sales s) uid \<noteq> None \<and> \<not> force
     then (n\<lparr>sn_cached := Suc (sn_cached n), sn_sets := Suc (sn_sets n)\<rparr>, s)
     else (case dget (pf_catalogs s) uid of
             None \<Rightarrow> (n, s)
           | Some cs \<Rightarrow>
               (case scrape_cards fetch num (filter ca_single cs) [] n of
                  (d, n') \<Rightarrow> (n'\<lparr>sn_sets := Suc (sn_sets n')\<rparr>, s\<lparr>pf_sales := dset uid d (pf_sales s)\<rparr>))))"

definition scrape_sales ::
  "(ustr \<Rightarrow> pc_page res) \<Rightarrow> (ustr \<Rightarrow> rat option) \<Rightarrow> bool \<Rightarrow> pc_files \<Rightarrow> scrape_count \<times> pc_files" where
  "scrape_sales fetch num force s =
     (case pf_sets s of
        None \<Rightarrow> (no_count, s)
      | Some uids \<Rightarrow> fold (scrape_set fetch num force) uids (no_count, s))"

section \<open>Accepted sales\<close>

definition words_rx :: "rx \<Rightarrow> string \<Rightarrow> rx" where
  "words_rx a short = seqs [WordB, Alt a (str_ci (lit short)), WordB]"

definition spaced :: "string \<Rightarrow> string \<Rightarrow> rx" where
  "spaced a b = seqs [str_ci (lit a), Star space_cp, str_ci (lit b)]"

definition cond_patterns :: "(rx \<times> int) list" where
  "cond_patterns =
     [(words_rx (spaced ''near'' ''mint'') ''nm'', 1), (words_rx (spaced ''lightly'' ''played'') ''lp'', 2),
      (words_rx (spaced ''moderately'' ''played'') ''mp'', 3), (words_rx (spaced ''heavily'' ''played'') ''hp'', 4),
      (words_rx (Alt (str_ci (lit ''damaged'')) (str_ci (lit ''dmg''))) ''poor'', 5)]"

definition grade_condition :: "(ustr, int) dict" where
  "grade_condition = [(lit ''grade7'', 7), (lit ''grade8'', 8), (lit ''grade9'', 9), (lit ''psa10'', 10)]"

definition sale_condition :: "ustr \<Rightarrow> ustr \<Rightarrow> int" where
  "sale_condition title grade =
     (if grade \<noteq> lit ''ungraded'' then (case dget grade_condition grade of None \<Rightarrow> 1 | Some c \<Rightarrow> c)
      else (case find (\<lambda>(p, _). found p title) cond_patterns of None \<Rightarrow> 1 | Some (_, c) \<Rightarrow> c))"

definition marketplace_for_source :: "ustr \<Rightarrow> string" where
  "marketplace_for_source src =
     (if src = lit ''ebay'' then ''EBAY-US'' else if src = lit ''tcgplayer'' then ''TCGPLAYER'' else ''PRICECHARTING'')"

text \<open>Reading and printing a time, and the first twelve digits of the hash.\<close>

record pc_env =
  pe_time :: "ustr \<Rightarrow> nat option"
  pe_iso :: "nat \<Rightarrow> ustr"
  pe_hash :: "ustr \<Rightarrow> ustr"

definition sale_time :: "pc_env \<Rightarrow> ustr option \<Rightarrow> nat option" where
  "sale_time env raw = (case raw of None \<Rightarrow> None | Some t \<Rightarrow> pe_time env t)"

definition build_item_id :: "pc_env \<Rightarrow> ustr \<Rightarrow> nat \<Rightarrow> int \<Rightarrow> ustr \<Rightarrow> ustr" where
  "build_item_id env pid sold cents title =
     lit ''pc-'' @ pe_hash env (pid @ lit ''-'' @ pe_iso env sold @ lit ''-'' @ str_int cents @ lit ''-'' @ title)"

record accepted_sale =
  ac_item :: ustr
  ac_version :: ustr
  ac_title :: ustr
  ac_cents :: int
  ac_condition :: int
  ac_finish :: "int option"
  ac_sold :: nat
  ac_market :: string

definition or_default :: "'a option \<Rightarrow> 'a \<Rightarrow> 'a" where
  "or_default x d = (case x of None \<Rightarrow> d | Some y \<Rightarrow> y)"

definition accept_sale :: "pc_env \<Rightarrow> ustr \<Rightarrow> ustr \<times> int option \<Rightarrow> pc_sale \<Rightarrow> accepted_sale option" where
  "accept_sale env pid m sale =
     (case (sale_time env (pa_sold_at sale), pa_price sale) of
        (Some t, Some c) \<Rightarrow>
          (let title = or_default (pa_title sale) []; grade = or_default (pa_grade sale) (lit ''ungraded'');
               src = or_default (pa_source sale) (lit ''unknown'')
           in Some \<lparr>ac_item = build_item_id env pid t c title, ac_version = fst m, ac_title = title, ac_cents = c,
                    ac_condition = sale_condition title grade, ac_finish = snd m, ac_sold = t,
                    ac_market = marketplace_for_source src\<rparr>)
      | _ \<Rightarrow> None)"

definition build_accepted_sales ::
  "pc_env \<Rightarrow> (ustr, pc_product) dict \<Rightarrow> (ustr, ustr \<times> int option) dict \<Rightarrow> accepted_sale list" where
  "build_accepted_sales env products catalog =
     concat (map (\<lambda>(pid, p). case dget catalog pid of None \<Rightarrow> [] | Some m \<Rightarrow> List.map_filter (accept_sale env pid m) (pp_sales p))
       products)"

section \<open>Staging\<close>

record scraped_row =
  so_item :: ustr
  so_sp :: nat
  so_cents :: int
  so_condition :: int
  so_finish :: int
  so_sold :: nat

text \<open>Price sources by code, the product of a card version, the source product of a product at a source, the sold rows.\<close>

record stage_db =
  st_sources :: "(string, nat) dict"
  st_products :: "(ustr, nat) dict"
  st_sps :: "(nat \<times> nat, nat) dict"
  st_sold :: "scraped_row list"
  st_next :: nat

definition upsert_price_source :: "string \<Rightarrow> stage_db \<Rightarrow> stage_db" where
  "upsert_price_source code s =
     (if dget (st_sources s) code \<noteq> None then s
      else s\<lparr>st_sources := st_sources s @ [(code, st_next s)], st_next := Suc (st_next s)\<rparr>)"

definition insert_card_product :: "ustr \<Rightarrow> stage_db \<Rightarrow> stage_db" where
  "insert_card_product cv s =
     (if dget (st_products s) cv \<noteq> None then s
      else s\<lparr>st_products := st_products s @ [(cv, st_next s)], st_next := Suc (st_next s)\<rparr>)"

definition ensure_card_source :: "nat \<Rightarrow> ustr \<Rightarrow> stage_db \<Rightarrow> stage_db" where
  "ensure_card_source src cv s =
     (case dget (st_products s) cv of
        None \<Rightarrow> s
      | Some p \<Rightarrow> if dget (st_sps s) (p, src) \<noteq> None then s
                  else s\<lparr>st_sps := st_sps s @ [((p, src), st_next s)], st_next := Suc (st_next s)\<rparr>)"

definition card_source_product :: "stage_db \<Rightarrow> string \<Rightarrow> ustr \<Rightarrow> nat option" where
  "card_source_product s code cv =
     (case (dget (st_products s) cv, dget (st_sources s) code) of
        (Some p, Some src) \<Rightarrow> dget (st_sps s) (p, src) | _ \<Rightarrow> None)"

definition upsert_source_products_for_cards :: "ustr list \<Rightarrow> string \<Rightarrow> stage_db \<Rightarrow> (ustr, nat) dict \<times> stage_db" where
  "upsert_source_products_for_cards cvs code s =
     (let s1 = fold insert_card_product cvs s;
          s2 = (case dget (st_sources s1) code of None \<Rightarrow> s1 | Some src \<Rightarrow> fold (ensure_card_source src) cvs s1)
      in (List.map_filter (\<lambda>cv. map_option (Pair cv) (card_source_product s2 code cv)) (remdups cvs), s2))"

text \<open>A known item id is skipped; a negative price or a missing finish violates the table.\<close>

definition insert_scraped_sold :: "accepted_sale \<Rightarrow> nat \<Rightarrow> (stage_db, unit) prog" where
  "insert_scraped_sold a sp s =
     (case ac_finish a of
        None \<Rightarrow> (Inl DbErr, s)
      | Some f \<Rightarrow>
          if ac_cents a < 0 then (Inl DbErr, s)
          else if ac_item a \<in> set (map so_item (st_sold s)) then (Inr (), s)
          else (Inr (), s\<lparr>st_sold := st_sold s @ [\<lparr>so_item = ac_item a, so_sp = sp, so_cents = ac_cents a,
                    so_condition = ac_condition a, so_finish = f, so_sold = ac_sold a\<rparr>]\<rparr>))"

fun insert_sales :: "(ustr, nat) dict \<Rightarrow> accepted_sale list \<Rightarrow> nat \<times> nat \<Rightarrow> (stage_db, nat \<times> nat) prog" where
  "insert_sales sps [] n = ret n"
| "insert_sales sps (a # as) (ins, skipped) =
     (case dget sps (ac_version a) of
        None \<Rightarrow> insert_sales sps as (ins, Suc skipped)
      | Some sp \<Rightarrow> bindp (insert_scraped_sold a sp) (\<lambda>_. insert_sales sps as (Suc ins, skipped)))"

record stage_answer =
  sa_accepted :: nat
  sa_inserted :: nat
  sa_sets :: nat
  sa_products :: nat

definition source_code :: string where
  "source_code = ''pricecharting''"

definition set_sales :: "pc_env \<Rightarrow> (ustr, ustr \<times> int option) dict \<Rightarrow> pc_files \<Rightarrow> ustr \<Rightarrow> accepted_sale list option" where
  "set_sales env catalog fs uid = map_option (\<lambda>d. build_accepted_sales env d catalog) (dget (pf_sales fs) uid)"

definition stage_sold :: "pc_env \<Rightarrow> pc_files \<Rightarrow> (ustr, ustr \<times> int option) dict \<Rightarrow> (stage_db, stage_answer) prog" where
  "stage_sold env fs catalog s =
     (case pf_sets fs of
        None \<Rightarrow> (Inr \<lparr>sa_accepted = 0, sa_inserted = 0, sa_sets = 0, sa_products = 0\<rparr>, s)
      | Some uids \<Rightarrow>
          if catalog = [] then (Inr \<lparr>sa_accepted = 0, sa_inserted = 0, sa_sets = 0, sa_products = 0\<rparr>, s)
          else (let s1 = upsert_price_source source_code s;
                    found = List.map_filter (set_sales env catalog fs) uids; acc = concat found
                in if acc = [] then (Inr \<lparr>sa_accepted = 0, sa_inserted = 0, sa_sets = length found, sa_products = 0\<rparr>, s1)
                   else (case upsert_source_products_for_cards (map ac_version acc) source_code s1 of
                           (sps, s2) \<Rightarrow>
                             bindp (insert_sales sps acc (0, 0)) (\<lambda>(ins, _).
                               ret \<lparr>sa_accepted = length acc, sa_inserted = ins, sa_sets = length found, sa_products = length sps\<rparr>) s2)))"

section \<open>Votes\<close>

lemma vote_counts_get: "dget (vote_counts vs) v = (if v \<in> set vs then Some (count_list vs v) else None)"
proof (induction vs rule: rev_induct)
  case (snoc x xs)
  have "vote_counts (xs @ [x]) = dset x (case dget (vote_counts xs) x of None \<Rightarrow> 1 | Some n \<Rightarrow> Suc n) (vote_counts xs)"
    by (simp add: vote_counts_def)
  with snoc show ?case by (auto simp: dget_dset)
qed (simp add: vote_counts_def)

lemma dict_ok_vote_counts: "dict_ok (vote_counts vs)"
  by (induction vs rule: rev_induct) (simp_all add: vote_counts_def)

text \<open>With votes the id is one that most listings voted for, and its votes are counted.\<close>

lemma consensus_majority:
  assumes "votes \<noteq> []" "consensus_tcg_id page votes = (w, n)"
  shows "\<exists>v \<in> set votes. w = Some v \<and> n = count_list votes v \<and> (\<forall>u \<in> set votes. count_list votes u \<le> n)"
proof -
  have "vote_counts votes \<noteq> []" using vote_counts_get [of votes "hd votes"] assms(1) by (auto simp: hd_in_set)
  then obtain p ps where ps: "vote_counts votes = p # ps" by (cases "vote_counts votes") auto
  let ?m = "max_key snd p ps"
  have m: "?m \<in> set (vote_counts votes)" using max_key_in [of snd p ps] by (simp add: ps)
  have wn: "w = Some (fst ?m)" "n = snd ?m" using assms(2) by (simp_all add: consensus_tcg_id_def ps Let_def)
  have get: "dget (vote_counts votes) v = Some k \<longleftrightarrow> (v, k) \<in> set (vote_counts votes)" for v k
    by (rule dget_in_set) (rule dict_ok_vote_counts)
  have mv: "fst ?m \<in> set votes \<and> snd ?m = count_list votes (fst ?m)"
    using m get [of "fst ?m" "snd ?m"] by (auto simp: vote_counts_get split: if_splits)
  have "count_list votes u \<le> snd ?m" if "u \<in> set votes" for u
  proof -
    have "dget (vote_counts votes) u = Some (count_list votes u)" using that by (simp add: vote_counts_get)
    then have "(u, count_list votes u) \<in> set (p # ps)" unfolding get unfolding ps .
    from max_key_ge [of "(u, count_list votes u)" p ps snd] this show ?thesis by simp
  qed
  with mv wn show ?thesis by blast
qed

section \<open>A scraped set stays as it is\<close>

lemma scrape_cards_failed:
  "fst (scrape_cards fetch num cs d n) = foldl (\<lambda>d c. case fetch (ca_url c) of Inl _ \<Rightarrow> d | Inr pg \<Rightarrow> dset (ca_id c) (parse_sales_page num pg) d) d cs"
  by (induction cs arbitrary: d n) (auto split: sum.split)

text \<open>A set is settled when its sales are stored or its catalog is missing.\<close>

definition set_done :: "pc_files \<Rightarrow> ustr \<Rightarrow> bool" where
  "set_done s uid \<longleftrightarrow> dget (pf_sales s) uid \<noteq> None \<or> dget (pf_catalogs s) uid = None"

lemma scrape_set_done:
  "pf_sets (snd (scrape_set fetch num force uid (n, s))) = pf_sets s \<and> set_done (snd (scrape_set fetch num force uid (n, s))) uid \<and>
   (set_done s v \<longrightarrow> set_done (snd (scrape_set fetch num force uid (n, s))) v)"
  by (auto simp: scrape_set_def set_done_def dget_dset split: option.split prod.split)

lemma scrape_fold_done:
  "pf_sets (snd (fold (scrape_set fetch num force) uids (n, s))) = pf_sets s \<and>
   (set_done s v \<or> v \<in> set uids \<longrightarrow> set_done (snd (fold (scrape_set fetch num force) uids (n, s))) v)"
proof (induction uids arbitrary: n s)
  case (Cons u uids)
  obtain n' s' where one: "scrape_set fetch num force u (n, s) = (n', s')" by (cases "scrape_set fetch num force u (n, s)")
  with scrape_set_done [of fetch num force u n s] Cons.IH [of n' s'] show ?case by auto
qed simp

lemma scrape_fold_settled:
  assumes "\<forall>u \<in> set uids. set_done s u"
  shows "snd (fold (scrape_set fetch num False) uids (n, s)) = s \<and>
         sn_scraped (fst (fold (scrape_set fetch num False) uids (n, s))) = sn_scraped n \<and>
         sn_errors (fst (fold (scrape_set fetch num False) uids (n, s))) = sn_errors n"
  using assms
proof (induction uids arbitrary: n)
  case (Cons u uids)
  have "\<exists>n'. scrape_set fetch num False u (n, s) = (n', s) \<and> sn_scraped n' = sn_scraped n \<and> sn_errors n' = sn_errors n"
    using Cons.prems by (cases "dget (pf_sales s) u") (auto simp: scrape_set_def set_done_def)
  then obtain n' where n': "scrape_set fetch num False u (n, s) = (n', s)" "sn_scraped n' = sn_scraped n" "sn_errors n' = sn_errors n"
    by blast
  with Cons.IH [of n'] Cons.prems show ?case by simp
qed simp

text \<open>
  C37. Whatever pages failed in a run of the scraper, a later run without a refresh asks for no page at all: it changes no
  file, scrapes no card and counts no error, so that the cards that failed are missing from then on.
\<close>

theorem scrape_never_retries:
  "(let s' = snd (scrape_sales fetch num force s); (n, s'') = scrape_sales fetch' num' False s' in
      s'' = s' \<and> sn_scraped n = 0 \<and> sn_errors n = 0)"
proof (cases "pf_sets s")
  case None
  then show ?thesis by (simp add: scrape_sales_def no_count_def)
next
  case (Some uids)
  let ?s = "snd (fold (scrape_set fetch num force) uids (no_count, s))"
  have s': "snd (scrape_sales fetch num force s) = ?s" using Some by (simp add: scrape_sales_def)
  have "pf_sets ?s = Some uids" "\<forall>u \<in> set uids. set_done ?s u"
    using scrape_fold_done [of fetch num force uids no_count s] Some by auto
  with scrape_fold_settled [of uids ?s fetch' num' no_count] show ?thesis
    unfolding s' by (simp add: scrape_sales_def no_count_def case_prod_beta Let_def)
qed

section \<open>Staging twice\<close>

lemma upsert_price_source_idem: "upsert_price_source c (upsert_price_source c s) = upsert_price_source c s"
  by (simp add: upsert_price_source_def)

text \<open>Tables only grow: what a lookup found stays found.\<close>

definition st_le :: "stage_db \<Rightarrow> stage_db \<Rightarrow> bool" where
  "st_le s t \<longleftrightarrow> (\<forall>k v. dget (st_sources s) k = Some v \<longrightarrow> dget (st_sources t) k = Some v) \<and>
     (\<forall>k v. dget (st_products s) k = Some v \<longrightarrow> dget (st_products t) k = Some v) \<and>
     (\<forall>k v. dget (st_sps s) k = Some v \<longrightarrow> dget (st_sps t) k = Some v)"

lemma st_le_refl [simp]: "st_le s s" by (simp add: st_le_def)

lemma st_le_trans [trans]: "st_le s t \<Longrightarrow> st_le t u \<Longrightarrow> st_le s u" by (simp add: st_le_def)

lemma st_le_steps:
  "st_le s (insert_card_product cv s)" "st_le s (ensure_card_source src cv s)"
  by (auto simp: st_le_def insert_card_product_def ensure_card_source_def map_add_def split: option.split)

lemma st_le_fold: "(\<And>x s. st_le s (f x s)) \<Longrightarrow> st_le s (fold f xs s)"
proof (induction xs arbitrary: s)
  case (Cons x xs)
  then show ?case using st_le_trans [of s "f x s"] by simp
qed simp

lemma fold_done: "\<forall>x \<in> set xs. f x s = s \<Longrightarrow> fold f xs s = s"
  by (induction xs) auto

lemma insert_card_product_has: "dget (st_products (fold insert_card_product cvs s)) cv \<noteq> None \<longleftrightarrow> cv \<in> set cvs \<or> dget (st_products s) cv \<noteq> None"
proof (induction cvs arbitrary: s)
  case (Cons c cvs)
  have "dget (st_products (insert_card_product c s)) cv \<noteq> None \<longleftrightarrow> cv = c \<or> dget (st_products s) cv \<noteq> None"
    by (auto simp: insert_card_product_def map_add_def split: option.splits)
  with Cons.IH [of "insert_card_product c s"] show ?case by auto
qed simp

lemma ensure_fold_same:
  "st_products (fold (ensure_card_source src) cvs s) = st_products s" "st_sources (fold (ensure_card_source src) cvs s) = st_sources s"
  "st_sold (fold (ensure_card_source src) cvs s) = st_sold s"
proof -
  have one: "st_products (ensure_card_source src cv s) = st_products s \<and> st_sources (ensure_card_source src cv s) = st_sources s \<and>
      st_sold (ensure_card_source src cv s) = st_sold s" for cv s
    by (simp add: ensure_card_source_def split: option.split)
  have "st_products (fold (ensure_card_source src) cvs s) = st_products s \<and> st_sources (fold (ensure_card_source src) cvs s) = st_sources s \<and>
      st_sold (fold (ensure_card_source src) cvs s) = st_sold s"
    by (induction cvs arbitrary: s) (simp_all add: one)
  then show "st_products (fold (ensure_card_source src) cvs s) = st_products s" "st_sources (fold (ensure_card_source src) cvs s) = st_sources s"
    "st_sold (fold (ensure_card_source src) cvs s) = st_sold s" by simp_all
qed

lemma ensure_card_source_has:
  assumes "cv \<in> set cvs" "dget (st_products s) cv = Some p"
  shows "dget (st_sps (fold (ensure_card_source src) cvs s)) (p, src) \<noteq> None"
  using assms
proof (induction cvs arbitrary: s)
  case (Cons c cvs)
  show ?case
  proof (cases "c = cv")
    case True
    have "dget (st_sps (ensure_card_source src cv s)) (p, src) \<noteq> None"
      using Cons.prems(2) by (auto simp: ensure_card_source_def map_add_def split: option.splits)
    then obtain v where "dget (st_sps (ensure_card_source src cv s)) (p, src) = Some v" by blast
    with st_le_fold [of "ensure_card_source src" "ensure_card_source src cv s" cvs, OF st_le_steps(2)] show ?thesis
      unfolding st_le_def using True by simp
  next
    case False
    moreover have "dget (st_products (ensure_card_source src c s)) cv = Some p"
      using Cons.prems(2) by (simp add: ensure_card_source_def split: option.split)
    ultimately show ?thesis using Cons by simp
  qed
qed simp

lemma upsert_source_products_le:
  assumes "upsert_source_products_for_cards cvs code s = (m, s')"
  shows "st_le s s'"
proof -
  let ?s1 = "fold insert_card_product cvs s"
  have one: "st_le s ?s1" by (rule st_le_fold) (rule st_le_steps(1))
  have two: "st_le ?s1 (fold (ensure_card_source src) cvs ?s1)" for src by (rule st_le_fold) (rule st_le_steps(2))
  show ?thesis
  proof (cases "dget (st_sources ?s1) code")
    case None
    with assms one show ?thesis by (simp add: upsert_source_products_for_cards_def Let_def)
  next
    case (Some src)
    with assms have "s' = fold (ensure_card_source src) cvs ?s1" by (simp add: upsert_source_products_for_cards_def Let_def)
    with st_le_trans [OF one two] show ?thesis by simp
  qed
qed

lemma resolve_again:
  assumes "upsert_source_products_for_cards cvs code s = (m, s')" "st_le s' t"
    and same: "st_products t = st_products s'" "st_sources t = st_sources s'" "st_sps t = st_sps s'" "dget (st_sources s) code \<noteq> None"
  shows "upsert_source_products_for_cards cvs code t = (m, t)"
proof -
  let ?s1 = "fold insert_card_product cvs s"
  have src1: "st_sources ?s1 = st_sources s"
  proof -
    have "st_sources (insert_card_product cv s) = st_sources s" for cv s by (simp add: insert_card_product_def)
    then show ?thesis by (induction cvs arbitrary: s) simp_all
  qed
  from same(4) obtain src where src: "dget (st_sources ?s1) code = Some src" unfolding src1 by blast
  let ?s2 = "fold (ensure_card_source src) cvs ?s1"
  have s': "s' = ?s2" and m: "m = List.map_filter (\<lambda>cv. map_option (Pair cv) (card_source_product ?s2 code cv)) (remdups cvs)"
    using assms(1) src by (auto simp: upsert_source_products_for_cards_def Let_def)
  have has: "dget (st_products t) cv \<noteq> None" if "cv \<in> set cvs" for cv
    using that insert_card_product_has [of cvs s cv] unfolding same(1) s' ensure_fold_same by blast
  have f1: "fold insert_card_product cvs t = t"
    by (rule fold_done) (use has in \<open>auto simp: insert_card_product_def\<close>)
  have f2: "fold (ensure_card_source src) cvs t = t"
  proof (rule fold_done, rule ballI)
    fix cv assume cv: "cv \<in> set cvs"
    with has obtain p where p: "dget (st_products t) cv = Some p" by blast
    then have "dget (st_products ?s1) cv = Some p" unfolding same(1) s' ensure_fold_same .
    from ensure_card_source_has [OF cv this] have "dget (st_sps t) (p, src) \<noteq> None" unfolding same(3) s' .
    then show "ensure_card_source src cv t = t" using p by (auto simp: ensure_card_source_def)
  qed
  have "card_source_product t code = card_source_product ?s2 code"
    by (rule ext, unfold card_source_product_def same, unfold s', rule refl)
  moreover have "dget (st_sources t) code = Some src" unfolding same(2) s' ensure_fold_same by (rule src)
  ultimately show ?thesis using f1 f2 m by (simp add: upsert_source_products_for_cards_def Let_def)
qed

lemma insert_scraped_sold_ok:
  assumes "insert_scraped_sold a sp s = (Inr (), s')"
  shows "st_products s' = st_products s \<and> st_sources s' = st_sources s \<and> st_sps s' = st_sps s \<and>
         set (map so_item (st_sold s')) = insert (ac_item a) (set (map so_item (st_sold s))) \<and>
         (ac_item a \<in> set (map so_item (st_sold t)) \<longrightarrow> insert_scraped_sold a sp t = (Inr (), t))"
  using assms by (auto simp: insert_scraped_sold_def split: option.splits if_splits)

lemma insert_sales_ok:
  assumes "insert_sales sps as n s = (Inr k, s')"
  shows "st_products s' = st_products s \<and> st_sources s' = st_sources s \<and> st_sps s' = st_sps s \<and>
         set (map so_item (st_sold s)) \<subseteq> set (map so_item (st_sold s')) \<and>
         (set (map so_item (st_sold s')) \<subseteq> set (map so_item (st_sold t)) \<longrightarrow> insert_sales sps as n t = (Inr k, t))"
  using assms
proof (induction as arbitrary: n s)
  case (Cons a as)
  obtain i sk where n: "n = (i, sk)" by (cases n)
  show ?case
  proof (cases "dget sps (ac_version a)")
    case None
    then have "insert_sales sps as (i, Suc sk) s = (Inr k, s')" using Cons.prems by (simp add: n)
    from Cons.IH [OF this] None show ?thesis by (simp add: n)
  next
    case (Some sp)
    then obtain s1 where one: "insert_scraped_sold a sp s = (Inr (), s1)" and rest: "insert_sales sps as (Suc i, sk) s1 = (Inr k, s')"
      using Cons.prems by (auto simp: n bindp_Inr_iff)
    note st1 = insert_scraped_sold_ok [OF one, of t] and st2 = Cons.IH [OF rest]
    have "insert_sales sps (a # as) n t = (Inr k, t)" if sub: "set (map so_item (st_sold s')) \<subseteq> set (map so_item (st_sold t))"
    proof -
      have "ac_item a \<in> set (map so_item (st_sold t))" using st1 st2 sub by blast
      then have "insert_scraped_sold a sp t = (Inr (), t)" using st1 by blast
      moreover have "insert_sales sps as (Suc i, sk) t = (Inr k, t)" using st2 sub by blast
      ultimately show ?thesis using Some by (simp add: n)
    qed
    with st1 st2 show ?thesis by (intro conjI) (simp, simp, simp, blast, blast)
  qed
qed simp

text \<open>
  C36. Staging the same files again changes nothing in the database and gives the same answer: the number that is reported
  as inserted does not say how many rows are new.
\<close>

theorem stage_sold_idempotent:
  assumes "stage_sold env fs catalog s = (Inr a, s')"
  shows "stage_sold env fs catalog s' = (Inr a, s')"
proof (cases "pf_sets fs = None \<or> catalog = []")
  case True
  then show ?thesis using assms by (auto simp: stage_sold_def split: option.splits)
next
  case False
  then obtain uids where uids: "pf_sets fs = Some uids" and cat: "catalog \<noteq> []" by auto
  let ?s1 = "upsert_price_source source_code s" and ?f = "List.map_filter (set_sales env catalog fs) uids"
  have has1: "dget (st_sources ?s1) source_code \<noteq> None" by (auto simp: upsert_price_source_def map_add_def)
  show ?thesis
  proof (cases "concat ?f = []")
    case True
    with assms uids cat show ?thesis by (auto simp: stage_sold_def Let_def upsert_price_source_idem)
  next
    case False
    obtain sps s2 where up: "upsert_source_products_for_cards (map ac_version (concat ?f)) source_code ?s1 = (sps, s2)"
      by (cases "upsert_source_products_for_cards (map ac_version (concat ?f)) source_code ?s1")
    have run: "stage_sold env fs catalog s = bindp (insert_sales sps (concat ?f) (0, 0)) (\<lambda>(ins, _). ret
        \<lparr>sa_accepted = length (concat ?f), sa_inserted = ins, sa_sets = length ?f, sa_products = length sps\<rparr>) s2"
      using uids cat False up by (simp add: stage_sold_def Let_def del: concat_eq_Nil_conv)
    with assms obtain ins sk where
      ins: "insert_sales sps (concat ?f) (0, 0) s2 = (Inr (ins, sk), s')"
      and a: "a = \<lparr>sa_accepted = length (concat ?f), sa_inserted = ins, sa_sets = length ?f, sa_products = length sps\<rparr>"
      by (auto simp: bindp_Inr_iff)
    note st = insert_sales_ok [OF ins, of s']
    have "st_le s2 s'" using st by (simp add: st_le_def)
    from resolve_again [OF up this _ _ _ has1] st have again: "upsert_source_products_for_cards (map ac_version (concat ?f)) source_code s' = (sps, s')"
      by simp
    have "st_le ?s1 s2" by (rule upsert_source_products_le [OF up])
    then have "dget (st_sources s') source_code \<noteq> None" using has1 st by (auto simp: st_le_def)
    then have "upsert_price_source source_code s' = s'" by (simp add: upsert_price_source_def)
    moreover have "insert_sales sps (concat ?f) (0, 0) s' = (Inr (ins, sk), s')" using st by blast
    ultimately show ?thesis using uids cat False again a
      by (simp add: stage_sold_def Let_def del: concat_eq_Nil_conv)
  qed
qed

definition demo_pc_env :: pc_env where
  "demo_pc_env = \<lparr>pe_time = (\<lambda>_. Some 5), pe_iso = (\<lambda>_. []), pe_hash = (\<lambda>t. t)\<rparr>"

definition pc_demo_sale :: "nat \<Rightarrow> pc_sale" where
  "pc_demo_sale n = \<lparr>pa_grade = Some (lit (if n = 0 then ''ungraded'' else ''psa10'')), pa_sold_at = Some [], pa_title = Some [65],
                 pa_price = Some 100, pa_source = None\<rparr>"

definition demo_pc_files :: pc_files where
  "demo_pc_files = \<lparr>pf_sets = Some [[49]], pf_catalogs = [], pf_sales = [([49], [([55], \<lparr>pp_tcg = None, pp_votes = 0,
     pp_sales = [pc_demo_sale 0, pc_demo_sale 1]\<rparr>)])]\<rparr>"

definition pc_demo_stage :: stage_db where
  "pc_demo_stage = \<lparr>st_sources = [], st_products = [], st_sps = [], st_sold = [], st_next = 1\<rparr>"

lemma demo_stage_run:
  "stage_sold demo_pc_env demo_pc_files [([55], ([99], Some 1))] pc_demo_stage =
     (Inr \<lparr>sa_accepted = 2, sa_inserted = 2, sa_sets = 1, sa_products = 1\<rparr>,
      snd (stage_sold demo_pc_env demo_pc_files [([55], ([99], Some 1))] pc_demo_stage))"
  by code_simp

theorem stage_sold_idempotent_witness:
  "fst (stage_sold demo_pc_env demo_pc_files [([55], ([99], Some 1))]
     (snd (stage_sold demo_pc_env demo_pc_files [([55], ([99], Some 1))] pc_demo_stage))) =
   Inr \<lparr>sa_accepted = 2, sa_inserted = 2, sa_sets = 1, sa_products = 1\<rparr>"
  using stage_sold_idempotent [OF demo_stage_run] by simp

text \<open>
  The id of a sale does not contain its grade or its marketplace: two sales of a product at the same time, price and title
  have one id, and only the first of them is stored, whatever their grades.
\<close>

lemma equal_sales_collapse:
  assumes "accept_sale env pid m x = Some a" "accept_sale env pid m y = Some b"
    and "pa_sold_at x = pa_sold_at y" "pa_price x = pa_price y" "pa_title x = pa_title y"
    and "insert_scraped_sold a sp s = (Inr (), s1)" "insert_scraped_sold b sp s1 = (Inr (), s2)"
  shows "s2 = s1"
proof -
  have "ac_item a = ac_item b" using assms(1-5) by (auto simp: accept_sale_def Let_def split: option.splits)
  then have "ac_item b \<in> set (map so_item (st_sold s1))" using insert_scraped_sold_ok [OF assms(6)] by simp
  then have "insert_scraped_sold b sp s1 = (Inr (), s1)" using insert_scraped_sold_ok [OF assms(7), of s1] by blast
  with assms(7) show ?thesis by simp
qed

end
