(* ===== verification/Api_Client.thy ===== *)
theory Api_Client
  imports Storage Pc_Sales
begin

text \<open>
  The HTTP clients: the token bucket (\<open>utils/rate_limits.py\<close>), the base client with its error mapping, parsing and
  streamed downloads (\<open>AbstractAPIRepository.py\<close>), and the retries of the Shopify client (\<open>ApiShopify_repository.py\<close>).

  The network is a parameter: what a request comes to. Times are rationals; \<open>asyncio.sleep\<close> may be late by any amount.
  \<open>urljoin\<close>, the parsers of JSON and XML and the number in a header are parameters.
\<close>

section \<open>The token bucket\<close>

record token_bucket =
  tb_rate :: rat
  tb_capacity :: rat
  tb_tokens :: rat
  tb_updated :: rat

definition new_bucket :: "rat \<Rightarrow> nat \<Rightarrow> rat \<Rightarrow> token_bucket" where
  "new_bucket rate capacity now = \<lparr>tb_rate = rate, tb_capacity = of_nat capacity, tb_tokens = of_nat capacity, tb_updated = now\<rparr>"

definition refill :: "rat \<Rightarrow> token_bucket \<Rightarrow> token_bucket" where
  "refill now b = b\<lparr>tb_tokens := min (tb_capacity b) (tb_tokens b + (now - tb_updated b) * tb_rate b), tb_updated := now\<rparr>"

definition token_wait :: "nat \<Rightarrow> token_bucket \<Rightarrow> rat" where
  "token_wait k b = (of_nat k - tb_tokens b) / tb_rate b"

text \<open>
  \<open>acquire\<close>, entered at \<open>now\<close>: refill, take the tokens or sleep for the wait and try again; \<open>late i\<close> is how much longer
  the \<open>i\<close>-th sleep takes. The result is the time of the grant.
\<close>

partial_function (option) acquire :: "(nat \<Rightarrow> rat) \<Rightarrow> nat \<Rightarrow> nat \<Rightarrow> rat \<Rightarrow> token_bucket \<Rightarrow> (rat \<times> token_bucket) option" where
  "acquire late k i now b =
     (if of_nat k \<le> tb_tokens (refill now b)
      then Some (now, (refill now b)\<lparr>tb_tokens := tb_tokens (refill now b) - of_nat k\<rparr>)
      else acquire late k (Suc i) (now + token_wait k (refill now b) + late i) (refill now b))"

text \<open>
  The lock makes the requests wait for each other: a request enters some time after the grant of the one before. One
  token each, as the clients ask for. The rate is positive; with a rate of 0 the wait raises in Python.
\<close>

fun serve_all :: "(nat \<Rightarrow> nat \<Rightarrow> rat) \<Rightarrow> rat list \<Rightarrow> rat \<Rightarrow> token_bucket \<Rightarrow> (rat list \<times> token_bucket) option" where
  "serve_all late [] now b = Some ([], b)"
| "serve_all late (gap # gaps) now b =
     Option.bind (acquire (late (length gaps)) 1 0 (now + gap) b) (\<lambda>(t, b').
       map_option (\<lambda>(ts, b''). (t # ts, b'')) (serve_all late gaps t b'))"

definition bucket_ok :: "rat \<Rightarrow> token_bucket \<Rightarrow> bool" where
  "bucket_ok now b \<longleftrightarrow> 0 < tb_rate b \<and> 1 \<le> tb_capacity b \<and> 0 \<le> tb_tokens b \<and> tb_tokens b \<le> tb_capacity b \<and> tb_updated b \<le> now"

lemma refill_simps [simp]:
  "tb_rate (refill now b) = tb_rate b" "tb_capacity (refill now b) = tb_capacity b" "tb_updated (refill now b) = now"
  by (simp_all add: refill_def)

lemma refill_bounds:
  assumes "bucket_ok t b" "t \<le> now"
  shows "0 \<le> tb_tokens (refill now b)" "tb_tokens (refill now b) \<le> tb_capacity b"
    "tb_tokens (refill now b) \<le> tb_tokens b + (now - tb_updated b) * tb_rate b"
  using assms by (auto simp: refill_def bucket_ok_def)

lemma bucket_ok_refill: "bucket_ok t b \<Longrightarrow> t \<le> now \<Longrightarrow> bucket_ok now (refill now b)"
  using refill_bounds [of t b now] by (auto simp: bucket_ok_def)

text \<open>A request for no more than the capacity is granted at the second attempt at the latest.\<close>

lemma acquire_returns:
  assumes ok: "bucket_ok t b" "t \<le> now" and late: "\<And>i. 0 \<le> late i" and k: "of_nat k \<le> tb_capacity b"
  obtains g b' where "acquire late k i now b = Some (g, b')" "now \<le> g" "bucket_ok g b'" "tb_updated b' = g"
    "tb_tokens b' + of_nat k \<le> tb_tokens b + (g - tb_updated b) * tb_rate b" "tb_tokens b' + of_nat k \<le> tb_capacity b"
    "tb_rate b' = tb_rate b" "tb_capacity b' = tb_capacity b"
proof (cases "of_nat k \<le> tb_tokens (refill now b)")
  case True
  let ?b = "(refill now b)\<lparr>tb_tokens := tb_tokens (refill now b) - of_nat k\<rparr>"
  have "acquire late k i now b = Some (now, ?b)" using True by (simp add: acquire.simps)
  moreover have "bucket_ok now ?b" using True bucket_ok_refill [OF ok] by (auto simp: bucket_ok_def)
  ultimately show ?thesis using refill_bounds [OF ok] that [of now ?b] by simp
next
  case False
  let ?r = "refill now b" and ?w = "token_wait k (refill now b)"
  let ?g = "now + ?w + late i"
  have rate: "0 < tb_rate b" using ok(1) by (simp add: bucket_ok_def)
  have w: "0 \<le> ?w" "?w * tb_rate b = of_nat k - tb_tokens ?r"
    using False rate by (simp_all add: token_wait_def)
  have ng: "now \<le> ?g" using w(1) late [of i] by simp
  have okr: "bucket_ok now ?r" by (rule bucket_ok_refill [OF ok])
  have "tb_tokens ?r + (?g - now) * tb_rate b = of_nat k + late i * tb_rate b" using w(2) by (simp add: algebra_simps)
  moreover have "0 \<le> late i * tb_rate b" using late [of i] rate by simp
  ultimately have enough: "of_nat k \<le> tb_tokens (refill ?g ?r)" using k by (simp add: refill_def [of ?g])
  let ?b = "(refill ?g ?r)\<lparr>tb_tokens := tb_tokens (refill ?g ?r) - of_nat k\<rparr>"
  have "acquire late k i now b = acquire late k (Suc i) ?g ?r" using False by (subst acquire.simps) simp
  also have "\<dots> = Some (?g, ?b)" using enough by (subst acquire.simps) simp
  finally have run: "acquire late k i now b = Some (?g, ?b)" .
  have "tb_tokens (refill ?g ?r) \<le> tb_tokens ?r + (?g - now) * tb_rate b" using refill_bounds(3) [OF okr ng] by simp
  also have "\<dots> \<le> tb_tokens b + (now - tb_updated b) * tb_rate b + (?g - now) * tb_rate b"
    using refill_bounds(3) [OF ok] by simp
  also have "\<dots> = tb_tokens b + (?g - tb_updated b) * tb_rate b" by (simp add: algebra_simps)
  finally have "tb_tokens (refill ?g ?r) \<le> tb_tokens b + (?g - tb_updated b) * tb_rate b" .
  moreover have "bucket_ok ?g ?b" using enough bucket_ok_refill [OF okr ng] by (auto simp: bucket_ok_def)
  ultimately show ?thesis using that [OF run ng] refill_bounds(2) [OF okr ng] by simp
qed

text \<open>A request for more than the capacity is never granted.\<close>

lemma acquire_too_much:
  assumes "tb_capacity b < of_nat k"
  shows "acquire late k i now b = None"
proof (rule ccontr)
  assume "acquire late k i now b \<noteq> None"
  then obtain r where "acquire late k i now b = Some r" by auto
  then have "\<not> tb_capacity b < of_nat k"
  proof (rule acquire.raw_induct [where P = "\<lambda>late k i now b r. \<not> tb_capacity b < of_nat k", rotated], goal_cases)
    case (1 acq late k i now b r)
    show ?case
    proof (cases "of_nat k \<le> tb_tokens (refill now b)")
      case True
      then show ?thesis by (simp add: refill_def)
    next
      case False
      with 1(2) have "acq late k (Suc i) (now + token_wait k (refill now b) + late i) (refill now b) = Some r" by simp
      from 1(1) [OF this] show ?thesis by simp
    qed
  qed
  with assms show False by simp
qed

lemma serve_rate:
  assumes "bucket_ok now b" "\<And>n i. 0 \<le> late n i" "list_all (\<lambda>g. 0 \<le> g) gaps"
  shows "\<exists>ts b'. serve_all late gaps now b = Some (ts, b') \<and> length ts = length gaps \<and>
           (\<forall>j < length ts. now \<le> ts ! j \<and> of_nat (Suc j) \<le> tb_tokens b + (ts ! j - tb_updated b) * tb_rate b) \<and>
           (\<forall>i j. i \<le> j \<longrightarrow> j < length ts \<longrightarrow> of_nat (Suc (j - i)) \<le> tb_capacity b + (ts ! j - ts ! i) * tb_rate b)"
  using assms
proof (induction gaps arbitrary: now b)
  case (Cons gap gaps)
  have start: "now \<le> now + gap" using Cons.prems(3) by simp
  have one: "of_nat 1 \<le> tb_capacity b" using Cons.prems(1) by (simp add: bucket_ok_def)
  obtain g b1 where g: "acquire (late (length gaps)) 1 0 (now + gap) b = Some (g, b1)" "now + gap \<le> g" "bucket_ok g b1"
    "tb_updated b1 = g" "tb_tokens b1 + of_nat 1 \<le> tb_tokens b + (g - tb_updated b) * tb_rate b" "tb_tokens b1 + of_nat 1 \<le> tb_capacity b"
    "tb_rate b1 = tb_rate b" "tb_capacity b1 = tb_capacity b"
    by (rule acquire_returns [OF Cons.prems(1) start Cons.prems(2) one])
  have pos: "0 \<le> tb_tokens b1" using g(3) by (simp add: bucket_ok_def)
  have gaps: "list_all (\<lambda>g. 0 \<le> g) gaps" using Cons.prems(3) by simp
  from Cons.IH [OF g(3) Cons.prems(2) gaps] obtain ts b' where ts: "serve_all late gaps g b1 = Some (ts, b')" "length ts = length gaps"
    "\<forall>j < length ts. g \<le> ts ! j \<and> of_nat (Suc j) \<le> tb_tokens b1 + (ts ! j - g) * tb_rate b"
    "\<forall>i j. i \<le> j \<longrightarrow> j < length ts \<longrightarrow> of_nat (Suc (j - i)) \<le> tb_capacity b + (ts ! j - ts ! i) * tb_rate b"
    unfolding g(4,7,8) by blast
  have later: "g \<le> ts ! j \<and> of_nat (Suc j) \<le> tb_tokens b1 + (ts ! j - g) * tb_rate b" if "j < length ts" for j
    using ts(3) that by blast
  have "now \<le> (g # ts) ! j \<and> of_nat (Suc j) \<le> tb_tokens b + ((g # ts) ! j - tb_updated b) * tb_rate b"
    if "j < length (g # ts)" for j
  proof (cases j)
    case 0
    then show ?thesis using g(2,5) start pos by simp
  next
    case (Suc m)
    with later [of m] that have l: "g \<le> ts ! m" "of_nat (Suc m) \<le> tb_tokens b1 + (ts ! m - g) * tb_rate b" by auto
    have "of_nat (Suc j) \<le> tb_tokens b + (g - tb_updated b) * tb_rate b + (ts ! m - g) * tb_rate b"
      using l(2) g(5) Suc by simp
    then show ?thesis using l(1) g(2) start Suc by (simp add: algebra_simps)
  qed
  moreover have "of_nat (Suc (j - i)) \<le> tb_capacity b + ((g # ts) ! j - (g # ts) ! i) * tb_rate b"
    if "i \<le> j" "j < length (g # ts)" for i j
  proof (cases i)
    case 0
    show ?thesis
    proof (cases j)
      case 0
      then show ?thesis using \<open>i = 0\<close> one by simp
    next
      case (Suc m)
      with later [of m] that(2) have "of_nat (Suc m) \<le> tb_tokens b1 + (ts ! m - g) * tb_rate b" by auto
      then show ?thesis using g(6) Suc \<open>i = 0\<close> by simp
    qed
  next
    case (Suc m)
    with that obtain l where l: "j = Suc l" "m \<le> l" "l < length ts" by (cases j) auto
    then show ?thesis using ts(4) Suc by simp
  qed
  moreover have "serve_all late (gap # gaps) now b = Some (g # ts, b')" using g(1) ts(1) by simp
  ultimately show ?case using ts(2) by (intro exI [of _ "g # ts"] exI [of _ b'] conjI allI impI) simp_all
qed simp

text \<open>
  C32. Every request through a new bucket is granted, and the grants keep the rate: in a period that begins and ends with a
  grant there are at most the capacity plus the rate times the length of the period, however late the sleeps are.
\<close>

theorem bucket_keeps_rate:
  assumes "0 < rate" "0 < capacity" "\<And>n i. 0 \<le> late n i" "list_all (\<lambda>g. 0 \<le> g) gaps"
  shows "\<exists>ts b. serve_all late gaps now (new_bucket rate capacity now) = Some (ts, b) \<and> length ts = length gaps \<and>
           (\<forall>i j. i \<le> j \<longrightarrow> j < length ts \<longrightarrow> of_nat (j - i + 1) \<le> of_nat capacity + rate * (ts ! j - ts ! i))"
proof -
  have "1 \<le> (of_nat capacity :: rat)" using assms(2) by (simp add: Suc_leI)
  then have "bucket_ok now (new_bucket rate capacity now)" using assms(1) by (simp add: bucket_ok_def new_bucket_def)
  from serve_rate [of now "new_bucket rate capacity now" late gaps, OF this assms(3,4)] obtain ts b where
    ts: "serve_all late gaps now (new_bucket rate capacity now) = Some (ts, b)" "length ts = length gaps"
    and le: "\<forall>i j. i \<le> j \<longrightarrow> j < length ts \<longrightarrow>
      of_nat (Suc (j - i)) \<le> tb_capacity (new_bucket rate capacity now) + (ts ! j - ts ! i) * tb_rate (new_bucket rate capacity now)"
    by blast
  have "\<forall>i j. i \<le> j \<longrightarrow> j < length ts \<longrightarrow> of_nat (j - i + 1) \<le> of_nat capacity + rate * (ts ! j - ts ! i)"
    using le unfolding Suc_eq_plus1 mult.commute [of rate] new_bucket_def token_bucket.simps .
  with ts show ?thesis by blast
qed

theorem bucket_keeps_rate_witness:
  "\<exists>ts b. serve_all (\<lambda>_ _. 0) [0, 0, 1] 0 (new_bucket (1/2) 1 0) = Some (ts, b) \<and> length ts = 3"
proof -
  have "\<exists>ts b. serve_all (\<lambda>_ _. 0) [0, 0, 1] 0 (new_bucket (1/2) 1 0) = Some (ts, b) \<and> length ts = length [0, 0, 1 :: rat]"
    using bucket_keeps_rate [of "1/2" 1 "\<lambda>_ _. 0" "[0, 0, 1]" 0] by fastforce
  then show ?thesis by (simp del: serve_all.simps add: numeral_3_eq_3)
qed

section \<open>Responses\<close>

record response =
  rs_status :: nat
  rs_type :: "string option"
  rs_text :: string
  rs_body :: "nat list"
  rs_retry :: "string option"

datatype api_error =
    Api_Unauthorized | Api_Forbidden | Api_Not_Found | Api_Method_Not_Allowed | Api_Rate_Limit
  | Api_Http nat | Api_Connection | Api_Error

definition map_http_error :: "nat \<Rightarrow> api_error" where
  "map_http_error st =
     (if st = 401 then Api_Unauthorized else if st = 403 then Api_Forbidden else if st = 404 then Api_Not_Found
      else if st = 405 then Api_Method_Not_Allowed else if st = 429 then Api_Rate_Limit else Api_Http st)"

text \<open>What \<open>raise_for_status\<close> of the HTTP library lets pass.\<close>

definition is_success :: "nat \<Rightarrow> bool" where
  "is_success st \<longleftrightarrow> 200 \<le> st \<and> st < 300"

definition lower_char :: "char \<Rightarrow> char" where
  "lower_char c = (let n = of_char c :: nat in if 65 \<le> n \<and> n \<le> 90 then char_of (n + 32) else c)"

definition lstrip_char :: "char \<Rightarrow> string \<Rightarrow> string" where
  "lstrip_char c = dropWhile (\<lambda>d. d = c)"

text \<open>\<open>_clean_xml_dict\<close>: keys lose their marks; of two keys that become equal the last value stays, in the first place.\<close>

function clean_xml :: "json \<Rightarrow> json" where
  "clean_xml (JObj d) =
     JObj (fold (\<lambda>(k, v). dset k v) (map (\<lambda>(k, v). (lstrip_char (CHR ''#'') (lstrip_char (CHR ''@'') k), clean_xml v)) d) [])"
| "clean_xml (JList xs) = JList (map clean_xml xs)"
| "clean_xml JNull = JNull"
| "clean_xml (JBool b) = JBool b"
| "clean_xml (JInt n) = JInt n"
| "clean_xml (JNum q) = JNum q"
| "clean_xml (JStr s) = JStr s"
  by pat_completeness auto
termination
proof (relation "measure size")
  fix d :: "(string \<times> json) list" and x k v assume "x \<in> set d" "(k, v) = x"
  then show "(v, JObj d) \<in> measure size" by (induction d) auto
next
  fix xs :: "json list" and x assume "x \<in> set xs"
  then show "(x, JList xs) \<in> measure size" by (induction xs) auto
qed simp

datatype parsed = As_Json json | As_Text string | As_Bytes "nat list"

record parsers =
  ps_json :: "string \<Rightarrow> json option"
  ps_xml :: "string \<Rightarrow> json option"

text \<open>\<open>_parse_response\<close>: the status plays no part.\<close>

definition parse_response :: "parsers \<Rightarrow> response \<Rightarrow> parsed res" where
  "parse_response p r =
     (let ct = map lower_char (case rs_type r of None \<Rightarrow> [] | Some t \<Rightarrow> t) in
      if sublist ''application/json'' ct
      then (case ps_json p (rs_text r) of None \<Rightarrow> Inl ValueErr | Some j \<Rightarrow> Inr (As_Json j))
      else if sublist ''xml'' ct \<or> prefix ''<'' (dropWhile (\<lambda>c. is_space (of_char c)) (rs_text r))
      then (case ps_xml p (rs_text r) of None \<Rightarrow> Inl (OtherExc 0) | Some j \<Rightarrow> Inr (As_Json (clean_xml j)))
      else if list_ex (\<lambda>e. sublist e ct) [''xz'', ''gzip'', ''zip'', ''octet-stream''] then Inr (As_Bytes (rs_body r))
      else (case ps_json p (rs_text r) of None \<Rightarrow> Inr (As_Text (rs_text r)) | Some j \<Rightarrow> Inr (As_Json j)))"

section \<open>Requests\<close>

text \<open>What \<open>client.request\<close> comes to: it raises for a failed connection, never for a status.\<close>

datatype http_outcome = Answered response | Request_Failed | Broken

record request_data =
  rq_verb :: string
  rq_url :: string
  rq_headers :: "(string, string) dict"

definition get_full_url :: "(string \<Rightarrow> string \<Rightarrow> string) \<Rightarrow> string \<Rightarrow> string \<Rightarrow> string" where
  "get_full_url urljoin base endpoint =
     (if prefix ''http://'' endpoint \<or> prefix ''https://'' endpoint then endpoint
      else urljoin (rev (dropWhile (\<lambda>c. c = CHR ''/'') (rev base)) @ ''/'') (dropWhile (\<lambda>c. c = CHR ''/'') endpoint))"

record api =
  ap_base :: string
  ap_headers :: "(string, string) dict"
  ap_urljoin :: "string \<Rightarrow> string \<Rightarrow> string"

definition upper_char :: "char \<Rightarrow> char" where
  "upper_char c = (let n = of_char c :: nat in if 97 \<le> n \<and> n \<le> 122 then char_of (n - 32) else c)"

definition api_send ::
  "api \<Rightarrow> (request_data \<Rightarrow> http_outcome) \<Rightarrow> string \<Rightarrow> string \<Rightarrow> (string, string) dict \<Rightarrow> api_error + response" where
  "api_send a net verb endpoint headers =
     (case net \<lparr>rq_verb = map upper_char verb, rq_url = get_full_url (ap_urljoin a) (ap_base a) endpoint,
                rq_headers = dmerge (ap_headers a) headers\<rparr> of
        Answered r \<Rightarrow> Inr r
      | Request_Failed \<Rightarrow> Inl Api_Connection
      | Broken \<Rightarrow> Inl Api_Error)"

text \<open>A streamed download: the status, then the chunks up to the end or to a failure.\<close>

datatype transfer = No_Connection | Transfer nat "nat list list" "api_error option"

fun write_chunks :: "string list \<Rightarrow> nat list list \<Rightarrow> nat list \<Rightarrow> fs \<Rightarrow> fs" where
  "write_chunks p [] done s = s\<lparr>fs_files := dset p (P_Bytes done) (fs_files s)\<rparr>"
| "write_chunks p (c # cs) done s = write_chunks p cs (done @ c) (s\<lparr>fs_files := dset p (P_Bytes done) (fs_files s)\<rparr>)"

definition stream_download :: "transfer \<Rightarrow> string list \<Rightarrow> fs \<Rightarrow> (api_error + string list) \<times> fs" where
  "stream_download tr p s =
     (case mkdir_parents (butlast p) s of
        (Inl _, s1) \<Rightarrow> (Inl Api_Error, s1)
      | (Inr _, s1) \<Rightarrow>
          (case tr of
             No_Connection \<Rightarrow> (Inl Api_Connection, s1)
           | Transfer st cs fault \<Rightarrow>
               if \<not> is_success st then (Inl (map_http_error st), s1)
               else if is_dir s1 p then (Inl Api_Error, s1)
               else (case fault of None \<Rightarrow> Inr p | Some e \<Rightarrow> Inl e, write_chunks p cs [] s1)))"

section \<open>Shopify\<close>

record shop_client =
  sc_attempts :: nat
  sc_delay :: rat
  sc_float :: "string \<Rightarrow> rat option"
  sc_random :: "nat \<Rightarrow> rat"

text \<open>
  \<open>send\<close> of the Shopify client, for the answers of the successive attempts: the last response and the sleeps. Without
  an attempt the response is unbound.
\<close>

fun shop_attempts ::
  "shop_client \<Rightarrow> (nat \<Rightarrow> api_error + response) \<Rightarrow> nat \<Rightarrow> nat \<Rightarrow> rat \<Rightarrow> response option \<Rightarrow> (api_error + response) option \<times> rat list" where
  "shop_attempts cl answer 0 k backoff prev = (map_option Inr prev, [])"
| "shop_attempts cl answer (Suc n) k backoff prev =
     (case answer k of
        Inl e \<Rightarrow> (Some (Inl e), [])
      | Inr r \<Rightarrow>
          if rs_status r \<noteq> 429 then (Some (Inr r), [])
          else (let wait = (case rs_retry r of
                              None \<Rightarrow> backoff
                            | Some t \<Rightarrow> if t = [] then backoff else (case sc_float cl t of None \<Rightarrow> backoff | Some w \<Rightarrow> w));
                    jitter = wait * (7/10 + sc_random cl k * (6/10));
                    (res, waits) = shop_attempts cl answer n (Suc k) (min (backoff * 2) 60) (Some r)
                in (res, jitter # waits)))"

definition shop_send :: "shop_client \<Rightarrow> (nat \<Rightarrow> api_error + response) \<Rightarrow> (api_error + response) option \<times> rat list" where
  "shop_send cl answer = shop_attempts cl answer (sc_attempts cl) 1 (sc_delay cl) None"

definition raise_for_status :: "response \<Rightarrow> response res" where
  "raise_for_status r = (if is_success (rs_status r) then Inr r else Inl HttpStatusErr)"

text \<open>\<open>get_collection_products_page\<close>: the value under \<open>products\<close>.\<close>

definition get_collection_products_page ::
  "shop_client \<Rightarrow> parsers \<Rightarrow> (string \<Rightarrow> json \<Rightarrow> nat \<Rightarrow> nat \<Rightarrow> api_error + response) \<Rightarrow> string \<Rightarrow> string \<Rightarrow> json \<Rightarrow> nat \<Rightarrow> json res" where
  "get_collection_products_page cl p net api_url handle since limit =
     (let url = rev (dropWhile (\<lambda>c. c = CHR ''/'') (rev api_url)) @ ''/collections/'' @ handle @ ''/products.json'' in
      case fst (shop_send cl (net url since limit)) of
        None \<Rightarrow> Inl UnboundErr
      | Some (Inl _) \<Rightarrow> Inl (OtherExc 1)
      | Some (Inr r) \<Rightarrow>
          bind_res (raise_for_status r) (\<lambda>r.
            case ps_json p (rs_text r) of
              None \<Rightarrow> Inl ValueErr
            | Some (JObj d) \<Rightarrow> Inr (case dget d ''products'' of None \<Rightarrow> JList [] | Some v \<Rightarrow> v)
            | Some _ \<Rightarrow> Inl AttrErr))"

lemma shop_attempts_bound: "length (snd (shop_attempts cl answer n k b prev)) \<le> n"
  by (induction n arbitrary: k b prev) (auto simp: Let_def case_prod_beta split: sum.split)

text \<open>After the last attempt a 429 is handed back, and the page step turns it into an exception.\<close>

lemma shop_send_gives_up:
  assumes "\<And>k. answer k = Inr r" "rs_status r = 429" "0 < sc_attempts cl"
  shows "fst (shop_send cl answer) = Some (Inr r)"
proof -
  have "fst (shop_attempts cl answer n k b (Some r)) = Some (Inr r)" for n k b
    using assms(1,2) by (induction n arbitrary: k b) (simp_all add: Let_def case_prod_beta)
  then show ?thesis using assms by (cases "sc_attempts cl") (simp_all add: shop_send_def Let_def case_prod_beta)
qed

section \<open>What a failure leaves behind\<close>

lemma write_chunks_file: "dget (fs_files (write_chunks p cs d s)) p = Some (P_Bytes (d @ concat cs))"
  by (induction cs arbitrary: d s) (simp_all add: dget_dset)

text \<open>
  A download that breaks off raises, and leaves the part that arrived under the final name, in place of a file that was
  there before.
\<close>

theorem broken_download_truncates:
  assumes "mkdir_parents (butlast p) s = (Inr (), s1)" "\<not> is_dir s1 p" "is_success st"
  shows "fst (stream_download (Transfer st cs (Some e)) p s) = Inl e \<and>
         read_file p (snd (stream_download (Transfer st cs (Some e)) p s)) = Inr (P_Bytes (concat cs))"
  using assms write_chunks_file [of p cs "[]" s1] by (simp add: stream_download_def read_file_def)

theorem broken_download_truncates_witness:
  "read_file [''f''] (snd (stream_download (Transfer 200 [[1], [2]] (Some Api_Connection)) [''f'']
     \<lparr>fs_files = [([''f''], P_Bytes [7, 8, 9])], fs_dirs = []\<rparr>)) = Inr (P_Bytes [1, 2])"
proof -
  let ?s = "\<lparr>fs_files = [([''f''], P_Bytes [7, 8, 9])], fs_dirs = []\<rparr>"
  have "mkdir_parents (butlast [''f'']) ?s = (Inr (), ?s)" "\<not> is_dir ?s [''f'']"
    by (simp_all add: mkdir_parents_def is_dir_def)
  from broken_download_truncates [OF this, of 200 "[[1], [2]]" Api_Connection] show ?thesis by (simp add: is_success_def)
qed

text \<open>
  \<open>fetch_sales_html\<close> of the PriceCharting client returns the text of whatever answer came; \<open>page_of\<close> reads a page.
\<close>

definition fetch_sales_html :: "api \<Rightarrow> (request_data \<Rightarrow> http_outcome) \<Rightarrow> (string \<Rightarrow> pc_page) \<Rightarrow> (ustr \<Rightarrow> string) \<Rightarrow> ustr \<Rightarrow> pc_page res" where
  "fetch_sales_html a net page_of url_of u =
     (case api_send a net ''GET'' (url_of u) [] of Inl _ \<Rightarrow> Inl (OtherExc 1) | Inr r \<Rightarrow> Inr (page_of (rs_text r)))"

text \<open>Pages without rows: no card counts as an error, and every card gets a product without sales.\<close>

lemma scrape_cards_empty:
  assumes ok: "\<And>u. \<exists>pg. fetch u = Inr pg \<and> pg_rows pg = []"
  shows "sn_errors (snd (scrape_cards fetch num xs d m)) = sn_errors m"
    "\<forall>i p. dget (fst (scrape_cards fetch num xs d m)) i = Some p \<longrightarrow> dget d i = Some p \<or> pp_sales p = []"
    "\<forall>i. i \<in> ca_id ` set xs \<or> dget d i \<noteq> None \<longrightarrow> dget (fst (scrape_cards fetch num xs d m)) i \<noteq> None"
proof (atomize (full), induction xs arbitrary: d m)
  case (Cons c xs)
  obtain pg where pg: "fetch (ca_url c) = Inr pg" "pg_rows pg = []" using ok by blast
  have empty: "pp_sales (parse_sales_page num pg) = []"
    using pg(2) by (simp add: parse_sales_page_def case_prod_beta map_filter_simps)
  let ?d = "dset (ca_id c) (parse_sales_page num pg) d" and ?m = "m\<lparr>sn_scraped := Suc (sn_scraped m)\<rparr>"
  have step: "scrape_cards fetch num (c # xs) d m = scrape_cards fetch num xs ?d ?m" using pg by simp
  have new: "dget ?d i = (if ca_id c = i then Some (parse_sales_page num pg) else dget d i)" for i by (simp add: dget_dset)
  note IH = Cons.IH [of ?d ?m]
  have ih: "sn_errors (snd (scrape_cards fetch num xs ?d ?m)) = sn_errors m"
    using conjunct1 [OF IH] by simp
  have ih2: "\<forall>i p. dget (fst (scrape_cards fetch num xs ?d ?m)) i = Some p \<longrightarrow> dget ?d i = Some p \<or> pp_sales p = []"
    by (rule conjunct1 [OF conjunct2 [OF IH]])
  have ih3: "\<forall>i. i \<in> ca_id ` set xs \<or> dget ?d i \<noteq> None \<longrightarrow> dget (fst (scrape_cards fetch num xs ?d ?m)) i \<noteq> None"
    by (rule conjunct2 [OF conjunct2 [OF IH]])
  have "dget d i = Some p \<or> pp_sales p = []" if "dget (fst (scrape_cards fetch num xs ?d ?m)) i = Some p" for i p
    using ih2 [rule_format, OF that] empty unfolding new by (cases "ca_id c = i") auto
  moreover have "dget (fst (scrape_cards fetch num xs ?d ?m)) i \<noteq> None" if "i \<in> ca_id ` set (c # xs) \<or> dget d i \<noteq> None" for i
    by (rule ih3 [rule_format]) (use that in \<open>auto simp: new\<close>)
  ultimately show ?case unfolding step using ih by blast
qed simp

text \<open>
  A site that answers every request with an error page, whatever its status, is scraped without an error: every single
  card of the set is stored with no sales, which a later run keeps.
\<close>

theorem error_pages_stored:
  assumes pages: "\<And>q. \<exists>r. net q = Answered r \<and> pg_rows (page_of (rs_text r)) = []"
    and set: "pf_sets s = Some [uid]" "dget (pf_catalogs s) uid = Some cs" "dget (pf_sales s) uid = None"
    and run: "scrape_sales (fetch_sales_html a net page_of url_of) num False s = (n, s')"
  shows "sn_errors n = 0 \<and> (\<exists>d. dget (pf_sales s') uid = Some d \<and>
           list_all (\<lambda>c. ca_single c \<longrightarrow> (\<exists>p. dget d (ca_id c) = Some p \<and> pp_sales p = [])) cs)"
proof -
  let ?fetch = "fetch_sales_html a net page_of url_of"
  have ok: "\<exists>pg. ?fetch u = Inr pg \<and> pg_rows pg = []" for u
  proof -
    obtain r where "net \<lparr>rq_verb = map upper_char ''GET'', rq_url = get_full_url (ap_urljoin a) (ap_base a) (url_of u),
        rq_headers = dmerge (ap_headers a) []\<rparr> = Answered r" "pg_rows (page_of (rs_text r)) = []" using pages by blast
    then show ?thesis by (simp add: fetch_sales_html_def api_send_def)
  qed
  obtain d m where dm: "scrape_cards ?fetch num (filter ca_single cs) [] no_count = (d, m)"
    by (cases "scrape_cards ?fetch num (filter ca_single cs) [] no_count")
  have "n = m\<lparr>sn_sets := Suc (sn_sets m)\<rparr>" "s' = s\<lparr>pf_sales := dset uid d (pf_sales s)\<rparr>"
    using run set dm by (auto simp: scrape_sales_def scrape_set_def)
  moreover have "sn_errors m = 0" "\<forall>i p. dget d i = Some p \<longrightarrow> pp_sales p = []" "\<forall>i. i \<in> ca_id ` set (filter ca_single cs) \<longrightarrow> dget d i \<noteq> None"
    using scrape_cards_empty [where fetch = ?fetch and num = num and xs = "filter ca_single cs" and d = "[]" and m = no_count] ok unfolding dm by (simp_all add: no_count_def)
  ultimately show ?thesis by (fastforce simp: dget_dset list_all_iff)
qed

theorem error_pages_stored_witness:
  "\<exists>n s'. scrape_sales (fetch_sales_html \<lparr>ap_base = [], ap_headers = [], ap_urljoin = (\<lambda>_ x. x)\<rparr>
       (\<lambda>_. Answered \<lparr>rs_status = 429, rs_type = None, rs_text = [], rs_body = [], rs_retry = None\<rparr>)
       (\<lambda>_. \<lparr>pg_rows = [], pg_tcg = None\<rparr>) (\<lambda>_. [])) (\<lambda>_. None) False
     \<lparr>pf_sets = Some [[1]], pf_catalogs = [([1], [\<lparr>ca_id = [7], ca_url = [], ca_single = True\<rparr>])], pf_sales = []\<rparr> = (n, s') \<and>
   sn_errors n = 0"
proof -
  let ?net = "\<lambda>_ :: request_data. Answered \<lparr>rs_status = 429, rs_type = None, rs_text = [], rs_body = [], rs_retry = None\<rparr>"
  let ?s = "\<lparr>pf_sets = Some [[1]], pf_catalogs = [([1], [\<lparr>ca_id = [7], ca_url = [], ca_single = True\<rparr>])], pf_sales = []\<rparr>"
  let ?page = "\<lambda>_ :: string. \<lparr>pg_rows = [], pg_tcg = None\<rparr>"
  obtain n s' where run: "scrape_sales (fetch_sales_html \<lparr>ap_base = [], ap_headers = [], ap_urljoin = (\<lambda>_ x. x)\<rparr> ?net ?page (\<lambda>_. []))
      (\<lambda>_. None) False ?s = (n, s')" by fastforce
  have p: "\<exists>r. ?net q = Answered r \<and> pg_rows (?page (rs_text r)) = []" for q by simp
  from error_pages_stored [where net = ?net and page_of = ?page, OF p _ _ _ run] run show ?thesis by fastforce
qed

end
