(* ===== verification/Service_Manager.thy ===== *)
theory Service_Manager
  imports Ops_Runs
begin

text \<open>
  The service framework: \<open>ServiceRegistry\<close> (\<open>framework/registry.py\<close>) and
  \<open>ServiceManager\<close> (\<open>framework/service_manager.py\<close>), which runs a registered service on a pooled
  connection, in a transaction or not, with its repositories, storages and timeouts.

  The module loader is a parameter (\<open>load module name\<close> is the exception that importing raises, if
  any), the service itself is a program on the database, and the faults of the driver are a record of
  the exceptions its calls raise. One call is modelled, on the connection it holds; that the
  statements of a service can end its transaction themselves is the subject of \<open>Db_Session\<close>.
\<close>

section \<open>The registry\<close>

record service_config =
  sc_module :: string
  sc_function :: string
  sc_db :: "string list"
  sc_api :: "string list"
  sc_storages :: "string list"
  sc_txn :: bool
  sc_timeout :: "rat option"

record registry =
  reg_services :: "(string, service_config) dict"
  reg_db :: "(string, string \<times> string) dict"
  reg_api :: "(string, string \<times> string) dict"
  reg_backends :: "(string, string \<times> string) dict"
  reg_storages :: "(string, (string, string) dict) dict"

definition empty_registry :: registry where
  "empty_registry = \<lparr>reg_services = [], reg_db = [], reg_api = [], reg_backends = [], reg_storages = []\<rparr>"

definition register_service :: "string \<Rightarrow> service_config \<Rightarrow> registry \<Rightarrow> registry" where
  "register_service path cfg reg = reg\<lparr>reg_services := dset path cfg (reg_services reg)\<rparr>"

definition register_db_repository :: "string \<Rightarrow> string \<Rightarrow> string \<Rightarrow> registry \<Rightarrow> registry" where
  "register_db_repository name m c reg = reg\<lparr>reg_db := dset name (m, c) (reg_db reg)\<rparr>"

definition register_api_repository :: "string \<Rightarrow> string \<Rightarrow> string \<Rightarrow> registry \<Rightarrow> registry" where
  "register_api_repository name m c reg = reg\<lparr>reg_api := dset name (m, c) (reg_api reg)\<rparr>"

definition register_storage_backend :: "string \<Rightarrow> string \<Rightarrow> string \<Rightarrow> registry \<Rightarrow> registry" where
  "register_storage_backend name m c reg = reg\<lparr>reg_backends := dset name (m, c) (reg_backends reg)\<rparr>"

text \<open>\<open>{"backend": backend, **config}\<close>.\<close>

definition register_storage :: "string \<Rightarrow> string \<Rightarrow> (string, string) dict \<Rightarrow> registry \<Rightarrow> registry" where
  "register_storage name backend config reg =
     reg\<lparr>reg_storages := dset name (dmerge [(''backend'', backend)] config) (reg_storages reg)\<rparr>"

definition get_service :: "registry \<Rightarrow> string \<Rightarrow> service_config option" where
  "get_service reg path = dget (reg_services reg) path"

definition list_services :: "registry \<Rightarrow> string list" where
  "list_services reg = dkeys (reg_services reg)"

section \<open>Storages\<close>

text \<open>\<open>Path(a) / b\<close>: an absolute \<open>b\<close> replaces \<open>a\<close>.\<close>

definition path_join :: "string \<Rightarrow> string \<Rightarrow> string" where
  "path_join a b =
     (if b = '''' then a else if hd b = CHR ''/'' then b else a @ ''/'' @ b)"

text \<open>A storage service: its backend class and the keyword arguments it was built with.\<close>

type_synonym storage = "(string \<times> string) \<times> (string, string) dict"

definition get_storage_service ::
  "registry \<Rightarrow> (string \<Rightarrow> string \<Rightarrow> pyexc option) \<Rightarrow> string \<Rightarrow> string \<Rightarrow> storage res" where
  "get_storage_service reg load data_dir name =
     (case dget (reg_storages reg) name of
        None \<Rightarrow> Inl ValueErr
      | Some cfg \<Rightarrow>
          (case dget cfg ''backend'' of
             None \<Rightarrow> Inl KeyErr
           | Some backend \<Rightarrow>
               (case dget (reg_backends reg) backend of
                  None \<Rightarrow> Inl ValueErr
                | Some (m, c) \<Rightarrow>
                    (case load m c of
                       Some e \<Rightarrow> Inl e
                     | None \<Rightarrow>
                         Inr ((m, c),
                              if backend = ''local''
                              then [(''base_path'', path_join data_dir (case dget cfg ''subpath'' of
                                        None \<Rightarrow> '''' | Some p \<Rightarrow> p))]
                              else filter (\<lambda>(k, _). k \<noteq> ''backend'') cfg)))))"

section \<open>Repositories and arguments\<close>

datatype 'v arg = Storage storage | Env string | Arg 'v

datatype 'v repo = DbRepo string string | ApiRepo string string "'v arg"

fun resolve ::
  "(string, string \<times> string) dict \<Rightarrow> (string \<Rightarrow> string \<Rightarrow> pyexc option) \<Rightarrow> (string \<Rightarrow> string \<Rightarrow> 'v repo)
    \<Rightarrow> string list \<Rightarrow> (string, 'v repo) dict \<Rightarrow> (string, 'v repo) dict res" where
  "resolve tbl load mk [] acc = Inr acc"
| "resolve tbl load mk (t # ts) acc =
     (case dget tbl t of
        None \<Rightarrow> Inl ValueErr
      | Some (m, c) \<Rightarrow>
          (case load m c of
             Some e \<Rightarrow> Inl e
           | None \<Rightarrow> resolve tbl load mk ts (dset (t @ ''_repository'') (mk m c) acc)))"

text \<open>The storage arguments: the first under \<open>storage_service\<close>, the others under their names.\<close>

fun extra_storages ::
  "(string \<Rightarrow> storage res) \<Rightarrow> string list \<Rightarrow> (string, 'v arg) dict \<Rightarrow> (string, 'v arg) dict res" where
  "extra_storages get [] kw = Inr kw"
| "extra_storages get (n # ns) kw =
     bind_res (get n) (\<lambda>s. extra_storages get ns (dset (n @ ''_storage_service'') (Storage s) kw))"

definition add_storages ::
  "(string \<Rightarrow> storage res) \<Rightarrow> string list \<Rightarrow> (string, 'v arg) dict \<Rightarrow> (string, 'v arg) dict res" where
  "add_storages get names kw =
     (case names of
        [] \<Rightarrow> Inr kw
      | n # ns \<Rightarrow> bind_res (get n) (\<lambda>s. extra_storages get ns (dset ''storage_service'' (Storage s) kw)))"

text \<open>\<open>kwargs.pop("environment", "sandbox")\<close>.\<close>

definition pop_env :: "(string, 'v arg) dict \<Rightarrow> 'v arg \<times> (string, 'v arg) dict" where
  "pop_env kw =
     ((case dget kw ''environment'' of None \<Rightarrow> Env ''sandbox'' | Some e \<Rightarrow> e),
      filter (\<lambda>(k, _). k \<noteq> ''environment'') kw)"

section \<open>The connection\<close>

text \<open>
  The database and the connection a call holds: the snapshot of an open transaction, the client-side
  command timeout, the server-side \<open>statement_timeout\<close> of the session and of the transaction, the
  number of connections taken from the pool, and the service path of the logging context.
\<close>

record 'db world =
  w_db :: 'db
  w_snapshot :: "'db option"
  w_config :: "rat option"
  w_session :: "int option"
  w_local :: "int option"
  w_held :: nat
  w_path :: "string option"

record faults =
  on_acquire :: "pyexc option"
  on_begin :: "pyexc option"
  on_set :: "pyexc option"
  on_commit :: "pyexc option"
  on_rollback :: "pyexc option"
  on_reset :: "pyexc option"

definition no_faults :: faults where
  "no_faults = \<lparr>on_acquire = None, on_begin = None, on_set = None, on_commit = None,
                on_rollback = None, on_reset = None\<rparr>"

definition fault :: "pyexc option \<Rightarrow> ('s, unit) prog" where
  "fault f = (case f of None \<Rightarrow> ret () | Some e \<Rightarrow> throw e)"

definition modify :: "('s \<Rightarrow> 's) \<Rightarrow> ('s, unit) prog" where
  "modify f s = (Inr (), f s)"

text \<open>\<open>try: m finally: f\<close>, where the clean-up does not raise.\<close>

definition finallyp :: "('s, 'a) prog \<Rightarrow> ('s \<Rightarrow> 's) \<Rightarrow> ('s, 'a) prog" where
  "finallyp m f s = (case m s of (r, s') \<Rightarrow> (r, f s'))"

definition rollback :: "faults \<Rightarrow> pyexc \<Rightarrow> ('db world, 'a) prog" where
  "rollback fl e w =
     (Inl (case on_rollback fl of None \<Rightarrow> e | Some e' \<Rightarrow> e'),
      w\<lparr>w_db := (case w_snapshot w of None \<Rightarrow> w_db w | Some d \<Rightarrow> d), w_snapshot := None, w_local := None\<rparr>)"

definition transaction :: "faults \<Rightarrow> ('db world, 'a) prog \<Rightarrow> ('db world, 'a) prog" where
  "transaction fl body =
     bindp (fault (on_acquire fl)) (\<lambda>_. bindp (modify (\<lambda>w. w\<lparr>w_held := Suc (w_held w)\<rparr>)) (\<lambda>_.
       finallyp
         (bindp (fault (on_begin fl)) (\<lambda>_. bindp (modify (\<lambda>w. w\<lparr>w_snapshot := Some (w_db w)\<rparr>)) (\<lambda>_.
            catchp
              (bindp body (\<lambda>x. bindp (fault (on_commit fl)) (\<lambda>_.
                 bindp (modify (\<lambda>w. w\<lparr>w_snapshot := None, w_local := None\<rparr>)) (\<lambda>_. ret x))))
              (rollback fl))))
         (\<lambda>w. w\<lparr>w_held := w_held w - 1\<rparr>)))"

definition get_connection :: "faults \<Rightarrow> ('db world, 'a) prog \<Rightarrow> ('db world, 'a) prog" where
  "get_connection fl body =
     bindp (fault (on_acquire fl)) (\<lambda>_. bindp (modify (\<lambda>w. w\<lparr>w_held := Suc (w_held w)\<rparr>)) (\<lambda>_.
       finallyp body (\<lambda>w. w\<lparr>w_held := w_held w - 1\<rparr>)))"

section \<open>Running a service\<close>

definition timeout_ms :: "rat \<Rightarrow> int" where
  "timeout_ms t = (if 0 \<le> t then \<lfloor>t * 1000\<rfloor> else \<lceil>t * 1000\<rceil>)"

text \<open>
  The body of \<open>async with conn_ctx\<close>. The configuration is swapped before \<open>SET\<close> is sent and restored
  in the \<open>finally\<close> of the \<open>try\<close> that starts after it.
\<close>

definition with_timeout ::
  "faults \<Rightarrow> service_config \<Rightarrow> ('db world, 'a) prog \<Rightarrow> ('db world, 'a) prog" where
  "with_timeout fl cfg body w =
     (case sc_timeout cfg of
        None \<Rightarrow> body w
      | Some t \<Rightarrow>
          bindp (modify (\<lambda>w. w\<lparr>w_config := Some t\<rparr>)) (\<lambda>_.
          bindp (fault (on_set fl)) (\<lambda>_.
          bindp (modify (\<lambda>w. if sc_txn cfg then w\<lparr>w_local := Some (timeout_ms t)\<rparr>
                             else w\<lparr>w_session := Some (timeout_ms t)\<rparr>)) (\<lambda>_.
            finallyp body (\<lambda>w'.
              let w'' = w'\<lparr>w_config := w_config w\<rparr>
              in if sc_txn cfg \<or> on_reset fl \<noteq> None then w'' else w''\<lparr>w_session := None\<rparr>)))) w)"

definition call_service ::
  "registry \<Rightarrow> (string \<Rightarrow> string \<Rightarrow> pyexc option) \<Rightarrow> service_config
    \<Rightarrow> ((string, 'v repo) dict \<Rightarrow> (string, 'v arg) dict \<Rightarrow> ('db, 'a) prog)
    \<Rightarrow> (string, 'v arg) dict \<Rightarrow> ('db world, 'a) prog" where
  "call_service reg load cfg svc kw w =
     (case resolve (reg_db reg) load DbRepo (sc_db cfg) [] of
        Inl e \<Rightarrow> (Inl e, w)
      | Inr repos \<Rightarrow>
          let (env, kw') = pop_env kw in
          (case resolve (reg_api reg) load (\<lambda>m c. ApiRepo m c env) (sc_api cfg) repos of
             Inl e \<Rightarrow> (Inl e, w)
           | Inr repos' \<Rightarrow>
               if set (dkeys repos') \<inter> set (dkeys kw') \<noteq> {} then (Inl TypeErr, w)
               else (case svc repos' kw' (w_db w) of (r, d) \<Rightarrow> (r, w\<lparr>w_db := d\<rparr>))))"

definition execute_service ::
  "registry \<Rightarrow> (string \<Rightarrow> string \<Rightarrow> pyexc option) \<Rightarrow> string \<Rightarrow> faults
    \<Rightarrow> (service_config \<Rightarrow> (string, 'v repo) dict \<Rightarrow> (string, 'v arg) dict \<Rightarrow> ('db, 'a) prog)
    \<Rightarrow> bool \<Rightarrow> string \<Rightarrow> (string, 'v arg) dict \<Rightarrow> ('db world, 'a) prog" where
  "execute_service reg load data_dir fl svc initialized path kw =
     (if \<not> initialized then throw RuntimeErr
      else bindp (modify (\<lambda>w. w\<lparr>w_path := Some path\<rparr>)) (\<lambda>_.
        finallyp
          (case get_service reg path of
             None \<Rightarrow> throw ValueErr
           | Some cfg \<Rightarrow>
               (case load (sc_module cfg) (sc_function cfg) of
                  Some e \<Rightarrow> throw (if e = ImportErr \<or> e = AttrErr then ValueErr else e)
                | None \<Rightarrow>
                    (case add_storages (get_storage_service reg load data_dir) (sc_storages cfg) kw of
                       Inl e \<Rightarrow> throw e
                     | Inr kw' \<Rightarrow>
                         (if sc_txn cfg then transaction fl else get_connection fl)
                           (with_timeout fl cfg (call_service reg load cfg (svc cfg) kw')))))
          (\<lambda>w. w\<lparr>w_path := None\<rparr>)))"

section \<open>What a call does to its connection\<close>

lemma fault_cases: "fault f s = (case f of None \<Rightarrow> (Inr (), s) | Some e \<Rightarrow> (Inl e, s))"
  by (simp add: fault_def split: option.split)

lemma modify_apply [simp]: "modify f s = (Inr (), f s)"
  by (simp add: modify_def)

lemma call_service_frame:
  assumes "call_service reg load cfg svc kw w = (r, w')"
  obtains d where "w' = w\<lparr>w_db := d\<rparr>"
    "d = w_db w \<and> is_ok r = False \<or> (\<exists>repos kw'. svc repos kw' (w_db w) = (r, d))"
proof -
  have "\<exists>d. w' = w\<lparr>w_db := d\<rparr> \<and>
      (d = w_db w \<and> is_ok r = False \<or> (\<exists>repos kw'. svc repos kw' (w_db w) = (r, d)))"
    using assms by (auto simp: call_service_def pop_env_def Let_def split: sum.splits if_splits prod.splits)
      (metis world.update_convs(1) world.surjective)+
  with that show thesis by blast
qed

lemma with_timeout_frame:
  assumes "with_timeout fl cfg (call_service reg load cfg svc kw) w = (r, w')"
  shows "w_snapshot w' = w_snapshot w" "w_held w' = w_held w" "w_path w' = w_path w"
    and "is_ok r \<Longrightarrow> \<exists>repos kw'. svc repos kw' (w_db w) = (r, w_db w')"
    and "on_set fl = None \<or> sc_timeout cfg = None \<Longrightarrow> w_config w' = w_config w"
    and "sc_txn cfg \<or> on_reset fl = None \<Longrightarrow> w_session w = None \<Longrightarrow> w_session w' = None"
    and "\<not> sc_txn cfg \<Longrightarrow> w_local w' = w_local w"
proof -
  have "w_snapshot w' = w_snapshot w \<and> w_held w' = w_held w \<and> w_path w' = w_path w \<and>
    (is_ok r \<longrightarrow> (\<exists>repos kw'. svc repos kw' (w_db w) = (r, w_db w'))) \<and>
    (on_set fl = None \<or> sc_timeout cfg = None \<longrightarrow> w_config w' = w_config w) \<and>
    (sc_txn cfg \<or> on_reset fl = None \<longrightarrow> w_session w = None \<longrightarrow> w_session w' = None) \<and>
    (\<not> sc_txn cfg \<longrightarrow> w_local w' = w_local w)"
  proof (cases "sc_timeout cfg")
    case None
    with assms show ?thesis
      by (simp add: with_timeout_def) (erule call_service_frame; auto; (rule exI, rule exI, assumption)+)
  next
    case (Some t)
    show ?thesis
    proof (cases "on_set fl")
      case (Some e)
      with assms \<open>sc_timeout cfg = Some t\<close> show ?thesis
        by (auto simp: with_timeout_def bindp_def fault_cases)
    next
      case None
      let ?w1 = "if sc_txn cfg then w\<lparr>w_config := Some t, w_local := Some (timeout_ms t)\<rparr>
                 else w\<lparr>w_config := Some t, w_session := Some (timeout_ms t)\<rparr>"
      obtain r1 w1 where c: "call_service reg load cfg svc kw ?w1 = (r1, w1)" by fastforce
      then obtain d where d: "w1 = ?w1\<lparr>w_db := d\<rparr>"
        and ok: "d = w_db ?w1 \<and> is_ok r1 = False \<or> (\<exists>repos kw'. svc repos kw' (w_db ?w1) = (r1, d))"
        by (rule call_service_frame)
      have "(r, w') = (r1, let w'' = w1\<lparr>w_config := w_config w\<rparr>
              in if sc_txn cfg \<or> on_reset fl \<noteq> None then w'' else w''\<lparr>w_session := None\<rparr>)"
        using assms c \<open>sc_timeout cfg = Some t\<close> None
        by (simp add: with_timeout_def bindp_def fault_cases finallyp_def split: if_splits)
      then show ?thesis using d ok None by (auto simp: Let_def) (rule exI, rule exI, assumption)+
    qed
  qed
  then show "w_snapshot w' = w_snapshot w" "w_held w' = w_held w" "w_path w' = w_path w"
    "is_ok r \<Longrightarrow> \<exists>repos kw'. svc repos kw' (w_db w) = (r, w_db w')"
    "on_set fl = None \<or> sc_timeout cfg = None \<Longrightarrow> w_config w' = w_config w"
    "sc_txn cfg \<or> on_reset fl = None \<Longrightarrow> w_session w = None \<Longrightarrow> w_session w' = None"
    "\<not> sc_txn cfg \<Longrightarrow> w_local w' = w_local w"
    by auto
qed

text \<open>Every way a call can end: before a connection is taken, in a transaction, or outside one.\<close>

lemma execute_service_cases:
  assumes "execute_service reg load dir fl svc True path kw w = (r, w')"
  obtains (early) e where "r = Inl e" "w' = w\<lparr>w_path := None\<rparr>"
  | (txn) cfg kw' w1 where "get_service reg path = Some cfg" "sc_txn cfg"
      "transaction fl (with_timeout fl cfg (call_service reg load cfg (svc cfg) kw')) (w\<lparr>w_path := Some path\<rparr>) = (r, w1)"
      "w' = w1\<lparr>w_path := None\<rparr>"
  | (raw) cfg kw' w1 where "get_service reg path = Some cfg" "\<not> sc_txn cfg"
      "get_connection fl (with_timeout fl cfg (call_service reg load cfg (svc cfg) kw')) (w\<lparr>w_path := Some path\<rparr>) = (r, w1)"
      "w' = w1\<lparr>w_path := None\<rparr>"
  using assms
  by (auto simp: execute_service_def bindp_def finallyp_def split: option.splits sum.splits prod.splits if_splits)

lemma transaction_cases [consumes 2, case_names refused ran]:
  fixes fl reg load cfg svc kw
  defines "body \<equiv> with_timeout fl cfg (call_service reg load cfg svc kw)"
  assumes t: "transaction fl body w = (r, w')" and "w_snapshot w = None"
  obtains (refused) e where "r = Inl e" "w' = w"
  | (ran) r1 w1 where "body (w\<lparr>w_held := Suc (w_held w), w_snapshot := Some (w_db w)\<rparr>) = (r1, w1)"
      "is_ok r \<Longrightarrow> r = r1"
      "w' = w1\<lparr>w_db := (if is_ok r then w_db w1 else w_db w), w_snapshot := None, w_local := None,
               w_held := w_held w\<rparr>"
proof (cases "on_acquire fl \<noteq> None \<or> on_begin fl \<noteq> None")
  case True
  with t refused show thesis
    by (auto simp: transaction_def bindp_def fault_cases finallyp_def split: option.splits)
next
  case False
  let ?w0 = "w\<lparr>w_held := Suc (w_held w), w_snapshot := Some (w_db w)\<rparr>"
  obtain r1 w1 where b: "body ?w0 = (r1, w1)" by fastforce
  have f: "w_snapshot w1 = Some (w_db w)" "w_held w1 = Suc (w_held w)" using with_timeout_frame(1,2) [OF b [unfolded body_def]] by auto
  show thesis
  proof (cases r1)
    case (Inl e)
    with False b t f show thesis
      by (intro ran [OF b]) (auto simp: transaction_def bindp_def fault_cases finallyp_def catchp_def rollback_def)
  next
    case (Inr x)
    with False b t f show thesis
      by (intro ran [OF b])
        (auto simp: transaction_def bindp_def fault_cases finallyp_def catchp_def rollback_def split: option.splits)
  qed
qed

section \<open>Properties\<close>

lemma atomic_call:
  assumes "get_service reg path = Some cfg" "sc_txn cfg" "w_snapshot w = None"
    and "execute_service reg load dir fl svc True path kw w = (r, w')"
  shows "if is_ok r then \<exists>repos kw'. svc cfg repos kw' (w_db w) = (r, w_db w') else w_db w' = w_db w"
  using assms(4)
proof (cases rule: execute_service_cases)
  case (txn cfg' kw' w1)
  from assms(3) have "w_snapshot (w\<lparr>w_path := Some path\<rparr>) = None" by simp
  with txn(3) show ?thesis
  proof (cases rule: transaction_cases)
    case (ran r1 w2)
    then show ?thesis
      using assms(1) txn with_timeout_frame(4) [OF ran(1)] by auto
  qed (use assms(3) txn in auto)
qed (use assms in auto)


text \<open>
  Whatever a call does and however it fails, the connection it took goes back to the pool with no
  transaction open, and the service path is cleared from the logging context.
\<close>

theorem execute_service_releases:
  assumes "w_snapshot w = None" "execute_service reg load dir fl svc True path kw w = (r, w')"
  shows "w_held w' = w_held w \<and> w_snapshot w' = None \<and> w_path w' = None"
  using assms(2)
proof (cases rule: execute_service_cases)
  case (txn cfg' kw' w1)
  from assms(1) have "w_snapshot (w\<lparr>w_path := Some path\<rparr>) = None" by simp
  with txn(3) show ?thesis
    by (cases rule: transaction_cases) (use assms(1) txn in auto)
next
  case (raw cfg' kw' w1)
  then show ?thesis
    using assms(1) with_timeout_frame(1-3)
    by (fastforce simp: get_connection_def bindp_def fault_cases finallyp_def split: option.splits prod.splits)
qed (use assms in auto)

text \<open>
  When the server accepts the \<open>SET\<close> and \<open>RESET\<close> commands, the connection goes back with its
  own command timeout and without a \<open>statement_timeout\<close> override, whatever the service did.
\<close>

theorem execute_service_restores_timeout:
  assumes "on_set fl = None" "on_reset fl = None"
    and "w_snapshot w = None" "w_session w = None" "w_local w = None"
    and "execute_service reg load dir fl svc True path kw w = (r, w')"
  shows "w_config w' = w_config w \<and> w_session w' = None \<and> w_local w' = None"
  using assms(6)
proof (cases rule: execute_service_cases)
  case (txn cfg kw' w1)
  from assms(3) have "w_snapshot (w\<lparr>w_path := Some path\<rparr>) = None" by simp
  with txn(3) show ?thesis
  proof (cases rule: transaction_cases)
    case (ran r1 w2)
    then show ?thesis
      using assms txn with_timeout_frame(5,6) [OF ran(1)] by auto
  qed (use assms txn in auto)
next
  case (raw cfg kw' w1)
  show ?thesis
  proof (cases "on_acquire fl")
    case None
    let ?w = "w\<lparr>w_path := Some path, w_held := Suc (w_held w)\<rparr>"
    obtain w2 where w2: "with_timeout fl cfg (call_service reg load cfg (svc cfg) kw') ?w = (r, w2)"
        "w1 = w2\<lparr>w_held := w_held w2 - 1\<rparr>"
      using raw(3) None by (auto simp: get_connection_def bindp_def fault_cases finallyp_def split: prod.splits)
    show ?thesis
      using w2(2) raw assms with_timeout_frame(5-7) [OF w2(1)] by auto
  qed (use raw assms in \<open>auto simp: get_connection_def bindp_def fault_cases\<close>)
qed (use assms in auto)

text \<open>
  The client-side timeout leaks when the server refuses \<open>SET\<close>: the configuration was swapped
  before the \<open>try\<close> whose \<open>finally\<close> restores it, so the connection goes back to the pool with the
  service's timeout in place of its own.
\<close>

theorem timeout_leak_on_set_failure:
  assumes "get_service reg path = Some cfg" "sc_timeout cfg = Some t" "sc_storages cfg = []"
    and "load (sc_module cfg) (sc_function cfg) = None"
    and "on_acquire fl = None" "on_begin fl = None" "on_set fl = Some e"
  shows "\<exists>e' w'. execute_service reg load dir fl svc True path kw w = (Inl e', w') \<and>
           w_held w' = w_held w \<and> w_config w' = Some t"
  using assms
  by (cases "sc_txn cfg")
     (auto simp: execute_service_def add_storages_def transaction_def get_connection_def with_timeout_def
        bindp_def fault_cases finallyp_def catchp_def rollback_def)

text \<open>
  The failure bookkeeping of \<open>track_step\<close> does not survive in a transactional service: when the
  body of the tracked step raises, the exception rolls the transaction back, and with it the failed
  step and the failed run, so a run that was running is still running.
\<close>

theorem tracked_failure_rolled_back:
  fixes kw :: "(string, 'x arg) dict"
  assumes "get_service reg path = Some cfg" "sc_txn cfg" "w_snapshot w = None"
    and "i \<noteq> 0" "find_run (w_db w) i = Some r" "run_status r = Running"
    and "\<And>d. find_run d i \<noteq> None \<Longrightarrow> fst (body d) = Inl e \<and> find_run (snd (body d)) i \<noteq> None"
    and "execute_service reg load dir fl
           (\<lambda>_ _ _. track_step True (Some i) name code msg body) True path kw w = (res, w')"
  shows "\<not> is_ok res \<and> w_db w' = w_db w \<and> r \<in> set (get_running_ingestion_runs (w_db w'))"
proof -
  obtain db' where "track_step True (Some i) name code msg body (w_db w) = (Inl e, db')"
    using track_step_fails [of i "w_db w" body e name code msg] assms(4,5,7) by auto
  moreover have "if is_ok res
      then \<exists>(repos :: (string, 'x repo) dict) (kw' :: (string, 'x arg) dict).
             track_step True (Some i) name code msg body (w_db w) = (res, w_db w')
      else w_db w' = w_db w"
    using atomic_call [OF assms(1-3,8)] by simp
  ultimately have "\<not> is_ok res \<and> w_db w' = w_db w" by (auto split: if_splits)
  moreover have "r \<in> set (ops_runs (w_db w))"
    using find_run_Some [OF assms(5)] by simp
  ultimately show ?thesis using assms(6) by (simp add: running_set)
qed

section \<open>A sample service\<close>

definition idle :: "'db \<Rightarrow> 'db world" where
  "idle d = \<lparr>w_db = d, w_snapshot = None, w_config = Some 60, w_session = None, w_local = None,
             w_held = 0, w_path = None\<rparr>"

definition demo_config :: "bool \<Rightarrow> service_config" where
  "demo_config txn = \<lparr>sc_module = ''m'', sc_function = ''f'', sc_db = [''ops''], sc_api = [],
     sc_storages = [], sc_txn = txn, sc_timeout = Some 300\<rparr>"

definition demo_registry :: "bool \<Rightarrow> registry" where
  "demo_registry txn =
     register_service ''svc'' (demo_config txn) (register_db_repository ''ops'' ''r'' ''Ops'' empty_registry)"

lemma demo_service [simp]: "get_service (demo_registry txn) ''svc'' = Some (demo_config txn)"
  by (simp add: demo_registry_def get_service_def register_service_def register_db_repository_def empty_registry_def)

lemma demo_config_simps [simp]:
  "sc_txn (demo_config txn) = txn" "sc_timeout (demo_config txn) = Some 300" "sc_storages (demo_config txn) = []"
  by (simp_all add: demo_config_def)

lemma idle_simps [simp]:
  "w_db (idle d) = d" "w_snapshot (idle d) = None" "w_session (idle d) = None" "w_local (idle d) = None"
  "w_config (idle d) = Some 60" "w_held (idle d) = 0"
  by (simp_all add: idle_def)

lemmas service_eval =
  execute_service_def add_storages_def transaction_def get_connection_def with_timeout_def bindp_def
  fault_cases finallyp_def catchp_def rollback_def call_service_def pop_env_def demo_registry_def
  register_service_def register_db_repository_def empty_registry_def get_service_def demo_config_def
  no_faults_def idle_def

definition bump :: "'a res \<Rightarrow> (nat, 'a) prog" where
  "bump r n = (r, n + 1)"

definition demo_run :: "bool \<Rightarrow> faults \<Rightarrow> unit res \<Rightarrow> unit res \<times> nat world" where
  "demo_run txn fl r =
     execute_service (demo_registry txn) (\<lambda>_ _. None) ''/data'' fl (\<lambda>_ _ _. bump r) True ''svc''
       ([] :: (string, unit arg) dict) (idle 3)"

lemma demo_run_pair: "demo_run txn fl r = (fst (demo_run txn fl r), snd (demo_run txn fl r))"
  by simp


theorem execute_service_releases_witness:
  "w_held (snd (demo_run False no_faults (Inl DbErr))) = 0 \<and> w_snapshot (snd (demo_run True no_faults (Inr ()))) = None"
  using execute_service_releases [OF _ demo_run_pair [unfolded demo_run_def], of False no_faults "Inl DbErr"]
    execute_service_releases [OF _ demo_run_pair [unfolded demo_run_def], of True no_faults "Inr ()"]
  by (simp add: demo_run_def)

theorem execute_service_restores_timeout_witness:
  "w_config (snd (demo_run False no_faults (Inl DbErr))) = Some 60"
  using execute_service_restores_timeout [OF _ _ _ _ _ demo_run_pair [unfolded demo_run_def], of no_faults False "Inl DbErr"]
  by (simp add: demo_run_def no_faults_def)

theorem timeout_leak_on_set_failure_witness:
  "w_config (snd (demo_run True (no_faults\<lparr>on_set := Some DbErr\<rparr>) (Inr ()))) = Some 300"
  using timeout_leak_on_set_failure [OF demo_service, of True 300 "\<lambda>_ _. None" "no_faults\<lparr>on_set := Some DbErr\<rparr>" DbErr
      "''/data''" "\<lambda>_ _ _. bump (Inr ())" "[] :: (string, unit arg) dict" "idle 3"]
  by (auto simp: demo_run_def no_faults_def)

definition demo_tracked :: "unit res \<times> ops world" where
  "demo_tracked =
     execute_service (demo_registry True) (\<lambda>_ _. None) ''/data'' no_faults
       (\<lambda>_ _ _. track_step True (Some 1) ''load'' ''step_failed'' (\<lambda>_. ''boom'') (throw ValueErr))
       True ''svc'' ([] :: (string, unit arg) dict) (idle demo_ops)"

theorem tracked_failure_rolled_back_witness:
  "get_running_ingestion_runs (w_db (snd demo_tracked)) \<noteq> []"
proof -
  have "\<exists>r. find_run demo_ops 1 = Some r \<and> run_status r = Running" by (simp add: ops_eval)
  then obtain r where r: "find_run demo_ops 1 = Some r" "run_status r = Running" by blast
  have "demo_tracked = (fst demo_tracked, snd demo_tracked)" by simp
  then have "r \<in> set (get_running_ingestion_runs (w_db (snd demo_tracked)))"
    using tracked_failure_rolled_back [OF demo_service _ _ _ _ r(2), of True "idle demo_ops" 1 "throw ValueErr" ValueErr
        "\<lambda>_ _. None" "''/data''" no_faults "''load''" "''step_failed''" "\<lambda>_. ''boom''"
        "[] :: (string, unit arg) dict" "fst demo_tracked" "snd demo_tracked"] r(1)
    unfolding demo_tracked_def by auto
  then show ?thesis by auto
qed

end
