(* ===== verification/Worker.thy ===== *)
theory Worker
  imports Service_Manager "HOL-Library.List_Lexorder" "HOL-Library.Char_ord" "HOL-Library.Product_Lexorder"
begin

text \<open>
  The Celery worker: the generic task \<open>run_service\<close>, the purge of stale scheduler messages
  (\<open>worker/main.py\<close>), and the pipelines of \<open>worker/tasks/pipelines.py\<close> with the tiered
  refresh of MTGStocks prices.

  Task arguments and results are JSON values. \<open>exec\<close> stands for \<open>ServiceManager.execute_service\<close>
  and \<open>params\<close> for the parameter names of the registered function; \<open>ops_services\<close> gives them the
  run bookkeeping of \<open>Ops_Runs\<close>. Dates are day numbers, and \<open>today\<close> is an argument.
\<close>

section \<open>The task run\_service\<close>

type_synonym 's executor = "string \<Rightarrow> (string, json) dict \<Rightarrow> ('s, json) prog"

text \<open>\<open>finished and finished.get("is_finished")\<close>.\<close>

definition says_finished :: "json \<Rightarrow> bool res" where
  "says_finished v =
     (case v of JObj d \<Rightarrow> Inr (truthy (jget d ''is_finished''))
      | _ \<Rightarrow> if truthy v then Inl AttrErr else Inr False)"

definition task_context :: "json \<Rightarrow> (string, json) dict \<Rightarrow> (string, json) dict" where
  "task_context prev kw = dmerge (case prev of JObj d \<Rightarrow> dmerge [] d | _ \<Rightarrow> []) kw"

definition run_service ::
  "(string \<Rightarrow> string list res) \<Rightarrow> 's executor \<Rightarrow> bool \<Rightarrow> json \<Rightarrow> string option
    \<Rightarrow> (string, json) dict \<Rightarrow> ('s, (string, json) dict) prog" where
  "run_service params exec redelivered prev0 path0 kw =
     (let (path, prev) = (case (path0, prev0) of (None, JStr p) \<Rightarrow> (Some p, JNull) | _ \<Rightarrow> (path0, prev0));
          context = task_context prev kw;
          run = jget context ''ingestion_run_id'';
          go = (case path of
                  None \<Rightarrow> throw ValueErr
                | Some p \<Rightarrow>
                    (case params p of
                       Inl e \<Rightarrow> throw e
                     | Inr allowed \<Rightarrow>
                         bindp (exec p (filter (\<lambda>(k, _). k \<in> set allowed) context)) (\<lambda>result.
                           ret (case result of JObj d \<Rightarrow> dmerge context d | _ \<Rightarrow> context))))
      in if redelivered \<and> truthy run
         then bindp (exec ''ops.pipeline_services.is_run_finished'' [(''ingestion_run_id'', run)]) (\<lambda>fin.
                case says_finished fin of
                  Inl e \<Rightarrow> throw e
                | Inr done \<Rightarrow> if done then ret context else go)
         else go)"

text \<open>
  A chain: each task gets the context the previous one returned, and an exception stops it. The
  first task has its path in the place of \<open>prev\<close>.
\<close>

type_synonym signature = "string \<times> (string, json) dict"

fun run_links ::
  "(string \<Rightarrow> string list res) \<Rightarrow> 's executor \<Rightarrow> signature list \<Rightarrow> (string, json) dict
    \<Rightarrow> ('s, (string, json) dict) prog" where
  "run_links params exec [] ctx = ret ctx"
| "run_links params exec ((path, kw) # rest) ctx =
     bindp (run_service params exec False (JObj ctx) (Some path) kw) (run_links params exec rest)"

definition run_chain ::
  "(string \<Rightarrow> string list res) \<Rightarrow> 's executor \<Rightarrow> signature list \<Rightarrow> ('s, (string, json) dict) prog" where
  "run_chain params exec steps =
     (case steps of
        [] \<Rightarrow> ret []
      | (path, kw) # rest \<Rightarrow>
          bindp (run_service params exec False (JStr path) None kw) (run_links params exec rest))"

section \<open>The run bookkeeping as services\<close>

fun jstr :: "json \<Rightarrow> string option" where
  "jstr (JStr s) = Some s"
| "jstr _ = None"

fun jnat :: "json \<Rightarrow> nat option" where
  "jnat (JInt n) = (if 0 \<le> n then Some (nat n) else None)"
| "jnat _ = None"

definition ops_services :: "ops executor \<Rightarrow> ops executor" where
  "ops_services other path kw =
     (if path = ''ops.pipeline_services.start_run'' then
        (case (jstr (jget kw ''run_key''), jstr (jget kw ''pipeline_name''), jstr (jget kw ''source_name'')) of
           (Some key, Some pipeline, Some source) \<Rightarrow>
             bindp (start_run key pipeline source (jstr (jget kw ''celery_task_id'')))
               (\<lambda>i. ret (JObj [(''ingestion_run_id'', case i of None \<Rightarrow> JNull | Some n \<Rightarrow> JInt (int n))]))
         | _ \<Rightarrow> throw TypeErr)
      else if path = ''ops.pipeline_services.finish_run'' then
        (case jnat (jget kw ''ingestion_run_id'') of
           Some i \<Rightarrow>
             bindp (finish_run i (case jstr (jget kw ''status'') of None \<Rightarrow> ''success'' | Some s \<Rightarrow> s)
                      (jstr (jget kw ''notes''))) (\<lambda>_. ret JNull)
         | None \<Rightarrow> throw TypeErr)
      else if path = ''ops.pipeline_services.is_run_active'' then
        (case jstr (jget kw ''run_key'') of
           Some key \<Rightarrow> bindp (is_run_active key) (\<lambda>b. ret (JObj [(''is_active'', JBool b)]))
         | None \<Rightarrow> throw TypeErr)
      else if path = ''ops.pipeline_services.is_run_finished'' then
        (case jnat (jget kw ''ingestion_run_id'') of
           Some i \<Rightarrow> bindp (is_run_finished i) (\<lambda>b. ret (JObj [(''is_finished'', JBool b)]))
         | None \<Rightarrow> throw TypeErr)
      else if path = ''ops.pipeline_services.reconcile_orphaned_runs'' then
        bindp reconcile_orphaned_runs (\<lambda>(n, rs).
          ret (JObj [(''reconciled'', JInt (int n)), (''runs'', JList (map (\<lambda>r. JInt (int (run_id r))) rs))]))
      else other path kw)"

text \<open>The parameters of those services, without the repository.\<close>

definition ops_params :: "(string \<Rightarrow> string list res) \<Rightarrow> string \<Rightarrow> string list res" where
  "ops_params other path =
     (if path = ''ops.pipeline_services.start_run''
      then Inr [''run_key'', ''pipeline_name'', ''source_name'', ''celery_task_id'']
      else if path = ''ops.pipeline_services.finish_run'' then Inr [''ingestion_run_id'', ''status'', ''notes'']
      else if path = ''ops.pipeline_services.is_run_active'' then Inr [''run_key'']
      else if path = ''ops.pipeline_services.is_run_finished'' then Inr [''ingestion_run_id'']
      else if path = ''ops.pipeline_services.reconcile_orphaned_runs'' then Inr []
      else other path)"

section \<open>Stale scheduler messages\<close>

text \<open>
  The fingerprint of a queued message: its task name, or the service path for \<open>run_service\<close>. The
  parsers of the message text and of its base64 body are parameters.
\<close>

datatype fingerprint = FpTask string | FpService string

text \<open>An entry of the beat schedule: its task and the keyword arguments.\<close>

type_synonym beat_entry = "string \<times> (string, json) dict"

definition build_beat_fingerprints :: "beat_entry list \<Rightarrow> fingerprint list" where
  "build_beat_fingerprints schedule =
     concat (map (\<lambda>(task, kw).
       if task = ''run_service''
       then (case jget kw ''path'' of JStr p \<Rightarrow> if p = [] then [] else [FpService p] | _ \<Rightarrow> [])
       else [FpTask task]) schedule)"

definition task_fingerprint ::
  "('raw \<Rightarrow> json option) \<Rightarrow> (json \<Rightarrow> json option) \<Rightarrow> 'raw \<Rightarrow> fingerprint option" where
  "task_fingerprint loads loads_body raw =
     (case loads raw of
        Some (JObj msg) \<Rightarrow>
          (case (if dget msg ''headers'' = None then JObj [] else jget msg ''headers'') of
             JObj headers \<Rightarrow>
               (case jget headers ''task'' of
                  JStr name \<Rightarrow>
                    (if name = [] then None
                     else if name = ''run_service'' then
                       (case map_option loads_body (dget msg ''body'') of
                          Some (Some body) \<Rightarrow>
                            (case body of
                               JList (_ # JObj kw # _) \<Rightarrow>
                                 (case jget kw ''path'' of
                                    JStr p \<Rightarrow> if p = [] then None else Some (FpService p)
                                  | _ \<Rightarrow> None)
                             | _ \<Rightarrow> None)
                        | _ \<Rightarrow> None)
                     else Some (FpTask name))
                | _ \<Rightarrow> None)
           | _ \<Rightarrow> None)
      | _ \<Rightarrow> None)"

definition group_by_fingerprint ::
  "('raw \<Rightarrow> fingerprint option) \<Rightarrow> fingerprint list \<Rightarrow> 'raw list \<Rightarrow> (fingerprint, 'raw list) dict" where
  "group_by_fingerprint fp fps queue =
     foldl (\<lambda>g raw.
       (case fp raw of
          Some k \<Rightarrow>
            if k \<in> set fps
            then dset k ((case dget g k of None \<Rightarrow> [] | Some items \<Rightarrow> items) @ [raw]) g else g
        | None \<Rightarrow> g)) [] queue"

text \<open>\<open>LREM key 1 x\<close> removes the first message equal to \<open>x\<close>, as \<open>remove1\<close> does.\<close>

definition purge_stale_beat_tasks ::
  "('raw \<Rightarrow> fingerprint option) \<Rightarrow> beat_entry list \<Rightarrow> 'raw list \<Rightarrow> 'raw list" where
  "purge_stale_beat_tasks fp schedule queue =
     foldl (\<lambda>q (_, items). fold remove1 (tl items) q) queue
       (group_by_fingerprint fp (build_beat_fingerprints schedule) queue)"

section \<open>Tiers\<close>

definition tier_markets :: "int \<Rightarrow> string list option" where
  "tier_markets tier =
     (if tier = 1 then Some [''tcg'', ''cardmarket'', ''cardkingdom'', ''starcity'']
      else if tier = 2 then Some [''tcg'', ''cardmarket'']
      else if tier = 3 then Some [''tcg'']
      else None)"

text \<open>The days of the window and the slots of a day.\<close>

definition tier_window :: "int \<Rightarrow> (nat \<times> nat) option" where
  "tier_window tier =
     (if tier = 1 then Some (7, 4) else if tier = 2 then Some (14, 1)
      else if tier = 3 then Some (30, 1) else None)"

definition market_source :: "string \<Rightarrow> string option" where
  "market_source m =
     map_of [(''tcg'', ''tcg''), (''cardmarket'', ''cardmarket''), (''cardkingdom'', ''cardkingdom''),
             (''starcity'', ''starcitygames'')] m"

definition tier_worklist :: "int list \<Rightarrow> int \<Rightarrow> (int \<times> string) list res" where
  "tier_worklist ids tier =
     (case tier_markets tier of
        None \<Rightarrow> Inl KeyErr
      | Some ms \<Rightarrow> Inr (sort (concat (map (\<lambda>i. map (\<lambda>m. (i, m)) ms) (sort ids)))))"

text \<open>\<open>xs[a:b]\<close> for \<open>0 \<le> a\<close> and \<open>0 \<le> b\<close>.\<close>

definition pyslice :: "'a list \<Rightarrow> nat \<Rightarrow> nat \<Rightarrow> 'a list" where
  "pyslice xs a b = take (b - a) (drop a xs)"

definition tier_slice :: "'a list \<Rightarrow> nat \<Rightarrow> nat \<Rightarrow> 'a list" where
  "tier_slice pairs cells idx =
     (let size = length pairs div cells; start = idx * size
      in pyslice pairs start (if idx < cells - 1 then start + size else length pairs))"

text \<open>\<open>day\<close> is the number of days since the epoch, which \<open>%\<close> also takes when it is negative.\<close>

definition tier_slice_pairs :: "int \<Rightarrow> int list \<Rightarrow> int \<Rightarrow> int \<Rightarrow> (int \<times> string) list res" where
  "tier_slice_pairs day ids tier slot =
     bind_res (tier_worklist ids tier) (\<lambda>pairs.
       case tier_window tier of
         None \<Rightarrow> Inl KeyErr
       | Some (days, slots) \<Rightarrow>
           let cells = days * slots in
           if pairs = [] then Inr []
           else Inr (tier_slice pairs cells (nat ((day * int slots + slot) mod int cells))))"

definition group_pairs_by_market :: "(int \<times> string) list \<Rightarrow> (string, int list) dict" where
  "group_pairs_by_market pairs =
     foldl (\<lambda>g (pid, m). dset m ((case dget g m of None \<Rightarrow> [] | Some l \<Rightarrow> l) @ [pid]) g) [] pairs"

text \<open>
  The ids of a tier that are refreshed for a market over the day's slots; \<open>ids\<close> is what the service
  \<open>mtg_stock.priority.get_tier_print_ids\<close> returned for the tier.
\<close>

definition tier_today_ids_for_market :: "int \<Rightarrow> int list \<Rightarrow> int \<Rightarrow> string \<Rightarrow> int list res" where
  "tier_today_ids_for_market day ids tier market =
     (case tier_window tier of
        None \<Rightarrow> Inl KeyErr
      | Some (_, slots) \<Rightarrow>
          foldl (\<lambda>acc slot. bind_res acc (\<lambda>found.
                   map_sum id (\<lambda>pairs.
                     sorted_list_of_set (set found \<union> set (map fst (filter (\<lambda>(_, m). m = market) pairs))))
                     (tier_slice_pairs day ids tier slot)))
            (Inr []) (map int [0..<slots]))"

section \<open>Pipelines\<close>

text \<open>
  A pipeline task: skipped when its run is active or succeeded, otherwise its chain is sent to the
  broker. Here the chain that is sent is the result. \<open>today\<close> is the date in ISO format and \<open>tid\<close>
  the id of the task.
\<close>

definition start_link :: "string \<Rightarrow> string \<Rightarrow> string \<Rightarrow> string \<Rightarrow> signature" where
  "start_link pipeline source key tid =
     (''ops.pipeline_services.start_run'',
      [(''pipeline_name'', JStr pipeline), (''source_name'', JStr source), (''run_key'', JStr key),
       (''celery_task_id'', JStr tid)])"

definition finish_link :: signature where
  "finish_link = (''ops.pipeline_services.finish_run'', [(''status'', JStr ''success'')])"

definition launch ::
  "(string \<Rightarrow> string list res) \<Rightarrow> 's executor \<Rightarrow> string \<Rightarrow> ('s, signature list) prog
    \<Rightarrow> ('s, signature list option) prog" where
  "launch params exec key build =
     bindp (run_service params exec False (JStr ''ops.pipeline_services.is_run_active'') None
              [(''run_key'', JStr key)])
       (\<lambda>result. if truthy (jget result ''is_active'') then ret None
                 else bindp build (\<lambda>steps. ret (Some steps)))"

definition daily_scryfall_steps :: "string \<Rightarrow> string \<Rightarrow> signature list" where
  "daily_scryfall_steps key tid =
     [(''staging.scryfall.start_pipeline'',
       [(''pipeline_name'', JStr ''scryfall_daily''), (''source_name'', JStr ''scryfall''),
        (''run_key'', JStr key), (''celery_task_id'', JStr tid)]),
      (''staging.scryfall.get_bulk_data_uri'', []),
      (''staging.scryfall.download_bulk_manifests'', []),
      (''staging.scryfall.update_data_uri_in_ops_repository'', []),
      (''staging.scryfall.download_sets'', []),
      (''card_catalog.set.process_large_sets_json'', []),
      (''staging.scryfall.download_cards_bulk'', []),
      (''card_catalog.card.process_large_json'', []),
      (''staging.scryfall.load_prices_from_bulk'', []),
      (''card_catalog.card_search.refresh'', []),
      (''card_catalog.card_search.invalidate'', []),
      (''staging.scryfall.download_and_load_migrations'', []),
      finish_link,
      (''staging.scryfall.delete_old_scryfall_folders'', [(''keep'', JInt 3)]),
      (''ops.integrity.scryfall_run_diff'', []),
      (''ops.integrity.scryfall_integrity'', []),
      (''ops.integrity.public_schema_leak'', [])]"

definition mtgstock_download_steps :: "string \<Rightarrow> string \<Rightarrow> signature list" where
  "mtgstock_download_steps key tid =
     [start_link ''mtg_stock_all'' ''mtgstocks'' key tid,
      (''mtg_stock.data_staging.bulk_load'',
       [(''root_folder'', JStr ''/data/automana_data/mtgstocks/raw/prints/''),
        (''batch_size'', JInt 2000), (''market'', JStr ''tcg'')]),
      (''mtg_stock.data_staging.from_raw_to_staging'', [(''source_name'', JStr ''mtgstocks'')]),
      (''mtg_stock.data_staging.retry_rejects'', []),
      (''mtg_stock.data_staging.from_staging_to_prices'', []),
      finish_link]"

definition daily_mtgjson_steps :: "string \<Rightarrow> string \<Rightarrow> signature list" where
  "daily_mtgjson_steps key tid =
     [start_link ''mtgjson_daily'' ''mtgjson'' key tid,
      (''mtgjson.data.download.all_identifiers'', []),
      (''staging.mtgjson.sync_uuid_mappings'', []),
      (''mtgjson.data.download.today'', []),
      (''staging.mtgjson.stream_to_staging'', []),
      (''staging.mtgjson.promote_to_price_observation'', []),
      (''staging.mtgjson.cleanup_staging_db'', []),
      (''pricing.refresh_daily_prices'', []),
      (''card_catalog.card_search.refresh'', []),
      (''card_catalog.card_search.invalidate'', []),
      (''staging.mtgjson.cleanup_raw_files'', []),
      finish_link]"

definition daily_mtgjson_sealed_steps :: "string \<Rightarrow> string \<Rightarrow> signature list" where
  "daily_mtgjson_sealed_steps key tid =
     [start_link ''mtgjson_sealed'' ''mtgjson'' key tid,
      (''pricing.sealed.promote_staging'', []),
      (''pricing.sealed.cleanup_staging'', []),
      finish_link]"

definition open_tcg_steps :: "string \<Rightarrow> string \<Rightarrow> signature list" where
  "open_tcg_steps key tid =
     [start_link ''opentcg_pricing'' ''tcgtracking'' key tid,
      (''pricing.opentcg.load_prices'', []),
      finish_link]"

definition shopify_weekly_steps :: "string \<Rightarrow> string \<Rightarrow> signature list" where
  "shopify_weekly_steps key tid =
     [start_link ''shopify_weekly'' ''shopify'' key tid,
      (''shopify.pipeline.fetch_collections'', []),
      (''shopify.pipeline.classify_collections'', []),
      (''shopify.pipeline.fetch_all_markets'', []),
      (''shopify.pipeline.process_to_parquet'', []),
      (''shopify.pipeline.stage_raw'', []),
      (''shopify.pipeline.promote_observations'', []),
      finish_link]"

definition mtgstock_prints_dir :: string where
  "mtgstock_prints_dir = ''/data/automana_data/mtgstocks/raw/prints/''"

definition mtgstock_build_id_mapping_steps :: "string \<Rightarrow> string \<Rightarrow> signature list" where
  "mtgstock_build_id_mapping_steps key tid =
     [start_link ''mtgstock_build_id_mapping'' ''mtgstocks'' key tid,
      (''mtg_stock.identifier.build_mapping'',
       [(''destination_folder'', JStr mtgstock_prints_dir), (''batch_size'', JInt 500)]),
      finish_link]"

definition mtgstock_discover_steps :: "string \<Rightarrow> string \<Rightarrow> signature list" where
  "mtgstock_discover_steps key tid =
     [start_link ''mtgstock_discover_new_ids'' ''mtgstocks'' key tid,
      (''mtg_stock.data_loader.discover_and_fetch_new_ids'',
       [(''destination_folder'', JStr mtgstock_prints_dir), (''batch_size'', JInt 500),
        (''market'', JStr ''tcg'')]),
      finish_link]"

definition jids :: "int list \<Rightarrow> json" where
  "jids ids = JList (map JInt ids)"

text \<open>The chain of a tier refresh: one download per market of the slice, in the markets' order.\<close>

definition tier_refresh_steps :: "string \<Rightarrow> string \<Rightarrow> string \<Rightarrow> (int \<times> string) list \<Rightarrow> signature list" where
  "tier_refresh_steps tier key tid pairs =
     start_link (''mtgstock_tier'' @ tier @ ''_refresh'') ''mtgstocks'' key tid #
     map (\<lambda>(market, ids).
        (''mtg_stock.data_loader.run_list_id_load'',
         [(''destination_folder'', JStr mtgstock_prints_dir), (''batch_size'', JInt 500),
          (''ids_list'', jids ids), (''market'', JStr market)]))
       (sort (group_pairs_by_market pairs)) @
     [finish_link]"

text \<open>
  The incremental load: the union over the tiers of today's ids of each market, and one load and
  staging cycle per market that has any. \<open>ids\<close> gives the print ids of a tier.
\<close>

definition incremental_market_ids :: "int \<Rightarrow> (int \<Rightarrow> int list) \<Rightarrow> string \<Rightarrow> int list res" where
  "incremental_market_ids day ids market =
     foldl (\<lambda>acc tier. bind_res acc (\<lambda>found.
              case tier_markets tier of
                None \<Rightarrow> Inl KeyErr
              | Some ms \<Rightarrow>
                  if market \<in> set ms
                  then map_sum id (\<lambda>l. sorted_list_of_set (set found \<union> set l))
                         (tier_today_ids_for_market day (ids tier) tier market)
                  else Inr found))
       (Inr []) [1, 2, 3]"

fun incremental_cycles :: "int \<Rightarrow> (int \<Rightarrow> int list) \<Rightarrow> string list \<Rightarrow> signature list res" where
  "incremental_cycles day ids [] = Inr []"
| "incremental_cycles day ids (m # ms) =
     bind_res (incremental_market_ids day ids m) (\<lambda>l.
       bind_res (incremental_cycles day ids ms) (\<lambda>rest.
         if l = [] then Inr rest
         else (case market_source m of
                 None \<Rightarrow> Inl KeyErr
               | Some src \<Rightarrow>
                   Inr ((''mtg_stock.data_staging.bulk_load'',
                         [(''root_folder'', JStr mtgstock_prints_dir), (''batch_size'', JInt 2000),
                          (''ids_filter'', jids l), (''market'', JStr m)])
                        # (''mtg_stock.data_staging.from_raw_to_staging'', [(''source_name'', JStr src)])
                        # rest))))"

definition incremental_load_steps :: "int \<Rightarrow> (int \<Rightarrow> int list) \<Rightarrow> string \<Rightarrow> string \<Rightarrow> signature list res" where
  "incremental_load_steps day ids key tid =
     map_sum id (\<lambda>cycles.
        start_link ''mtgstock_incremental_load'' ''mtgstocks'' key tid # cycles @
        [(''mtg_stock.data_staging.retry_rejects'', []),
         (''mtg_stock.data_staging.from_staging_to_prices'', []),
         finish_link])
       (incremental_cycles day ids [''tcg'', ''cardmarket'', ''cardkingdom'', ''starcity''])"

text \<open>The tasks: run key and chain of each.\<close>

definition pipelines :: "(string \<times> (string \<Rightarrow> string \<Rightarrow> signature list)) list" where
  "pipelines =
     [(''scryfall_daily:'', daily_scryfall_steps), (''mtgStock_All:'', mtgstock_download_steps),
      (''mtgjson_daily:'', daily_mtgjson_steps), (''mtgjson_sealed:'', daily_mtgjson_sealed_steps),
      (''opentcg_pricing:'', open_tcg_steps), (''shopify_weekly:'', shopify_weekly_steps),
      (''mtgStock_id_mapping:'', mtgstock_build_id_mapping_steps),
      (''mtgStock_discover:'', mtgstock_discover_steps)]"

definition launch_pipeline ::
  "(string \<Rightarrow> string list res) \<Rightarrow> 's executor \<Rightarrow> string \<Rightarrow> string \<Rightarrow> string
    \<Rightarrow> ('s, signature list option) prog" where
  "launch_pipeline params exec name today tid =
     (case map_of pipelines name of
        None \<Rightarrow> throw KeyErr
      | Some steps \<Rightarrow> launch params exec (name @ today) (ret (steps (name @ today) tid)))"

section \<open>Properties of tasks\<close>

lemma foldl_keys_dmerge: "dmerge d [] = d"
  by (simp add: dmerge_def)

text \<open>
  A redelivered message whose run is already finished is a no-op: the task returns its context,
  and no table changes, whatever service it names and whatever the other services would do.
\<close>

theorem redelivered_finished_noop:
  assumes "get_run_is_finished db i" "i \<noteq> 0"
    and "jget (task_context prev kw) ''ingestion_run_id'' = JInt (int i)"
  shows "run_service params (ops_services other) True prev (Some path) kw db = (Inr (task_context prev kw), db)"
  using assms
  by (simp add: run_service_def ops_services_def is_run_finished_def bindp_def says_finished_def jget_def
      [of "[_]"] Let_def)

text \<open>
  The context a task hands on: what the service returned overrides the task's own arguments,
  which override what the previous task handed on; and the service gets exactly the part of the
  context whose names it accepts.
\<close>

theorem run_service_context:
  assumes "params path = Inr allowed" "dict_ok kw" "dict_ok c" "dict_ok d"
    and "exec path (filter (\<lambda>(k, _). k \<in> set allowed) (task_context (JObj c) kw)) s = (Inr (JObj d), s')"
  shows "\<exists>ctx. run_service params exec False (JObj c) (Some path) kw s = (Inr ctx, s') \<and>
           (\<forall>k. dget ctx k = (case dget d k of Some v \<Rightarrow> Some v
                              | None \<Rightarrow> case dget kw k of Some v \<Rightarrow> Some v | None \<Rightarrow> dget c k))"
proof -
  have "dget (task_context (JObj c) kw) k = (case dget kw k of Some v \<Rightarrow> Some v | None \<Rightarrow> dget c k)" for k
    using assms(2,3) by (simp add: task_context_def dget_dmerge split: option.splits)
  then have "dget (dmerge (task_context (JObj c) kw) d) k =
      (case dget d k of Some v \<Rightarrow> Some v
       | None \<Rightarrow> case dget kw k of Some v \<Rightarrow> Some v | None \<Rightarrow> dget c k)" for k
    using assms(4) by (simp add: dget_dmerge split: option.splits)
  moreover have "run_service params exec False (JObj c) (Some path) kw s =
      (Inr (dmerge (task_context (JObj c) kw) d), s')"
    using assms(1,5) by (simp add: run_service_def bindp_def Let_def)
  ultimately show ?thesis by blast
qed

text \<open>
  A pipeline is not dispatched again while its run is active or after it succeeded: launching it
  right after the first step of the same day's run started sends no chain and changes no table.
\<close>

theorem launch_skips_active:
  assumes "ops_inv db" "start_run key pipeline source celery db = (Inr (Some i), db')"
  shows "launch (ops_params p) (ops_services other) key build db' = (Inr None, db')"
proof -
  have "repo_start_run pipeline source key celery None db = (Inr (Some i), db')"
    using assms(2) by (simp add: start_run_def)
  then obtain r where r: "find_run db' i = Some r" "run_key r = key" "run_status r = Running"
    using start_run_row [OF assms(1)] by blast
  have "ops_inv db'"
    using keeps_start_run assms(1) \<open>repo_start_run pipeline source key celery None db = (Inr (Some i), db')\<close>
    by (rule keepsD)
  then have "get_run_status_for_key db' key = Some Running"
    using r key_unique_status [of db' r] by (auto simp: ops_inv_def dest: find_run_Some)
  then show ?thesis
    by (simp add: launch_def run_service_def ops_params_def ops_services_def task_context_def dmerge_def
        jget_def is_run_active_def bindp_def Let_def)
qed

lemma run_links_append: "run_links params exec (xs @ ys) ctx = bindp (run_links params exec xs ctx) (run_links params exec ys)"
proof (induction xs arbitrary: ctx)
  case Nil
  then show ?case by simp
next
  case (Cons x xs)
  obtain path kw where x: "x = (path, kw)" by (cases x)
  show ?case
    by (rule ext) (auto simp: x Cons.IH bindp_def split: prod.split sum.split)
qed

text \<open>
  The links of a chain run in order, each on the context and the state the previous one left, and
  a link that raises stops the chain: what follows is never executed.
\<close>

theorem chain_stops:
  assumes "run_links params exec xs ctx s = (Inl e, s')"
  shows "run_links params exec (xs @ ys) ctx s = (Inl e, s')"
  using assms by (simp add: run_links_append)

section \<open>Properties of the tier slices\<close>

lemma concat_slices:
  "concat (map (\<lambda>i. pyslice xs (i * n) (i * n + n)) [0..<k]) = take (k * n) xs"
  by (induction k) (simp_all add: pyslice_def take_add add.commute [of n])

lemma tier_slices_concat:
  assumes "0 < cells"
  shows "concat (map (tier_slice xs cells) [0..<cells]) = xs"
proof -
  let ?n = "length xs div cells"
  obtain k where k: "cells = Suc k" using assms by (cases cells) auto
  have "map (tier_slice xs cells) [0..<k] = map (\<lambda>i. pyslice xs (i * ?n) (i * ?n + ?n)) [0..<k]"
    by (simp add: tier_slice_def Let_def k)
  then have "concat (map (tier_slice xs cells) [0..<k]) = take (k * ?n) xs"
    by (simp only: concat_slices)
  then have "concat (map (tier_slice xs cells) [0..<cells]) = take (k * ?n) xs @ tier_slice xs cells k"
    by (simp add: k)
  moreover have "tier_slice xs cells k = drop (k * ?n) xs"
    by (simp add: tier_slice_def pyslice_def k Let_def)
  ultimately show ?thesis by simp
qed

text \<open>The slots of a window, counted from any day on, meet every residue once.\<close>

lemma mset_shifted_residues:
  assumes "0 < n"
  shows "mset (map (\<lambda>k. nat ((a + int k) mod int n)) [0..<n]) = mset [0..<n]"
proof -
  let ?f = "\<lambda>k. nat ((a + int k) mod int n)"
  have "inj_on ?f {0..<n}"
  proof (rule inj_onI)
    fix i j assume ij: "i \<in> {0..<n}" "j \<in> {0..<n}" "?f i = ?f j"
    then have "(a + int i) mod int n = (a + int j) mod int n"
      using assms by (metis nat_0_le pos_mod_sign of_nat_0_less_iff)
    then have "int n dvd (a + int i) - (a + int j)" by (simp add: mod_eq_dvd_iff)
    then have "int n dvd int i - int j" by simp
    moreover have "\<bar>int i - int j\<bar> < int n" using ij by auto
    ultimately have "int i - int j = 0" by (metis dvd_imp_le_int abs_of_nat not_less)
    then show "i = j" by simp
  qed
  then have "distinct (map ?f [0..<n])" by (simp add: distinct_map)
  moreover have "set (map ?f [0..<n]) = {0..<n}"
  proof (rule card_subset_eq)
    show "set (map ?f [0..<n]) \<subseteq> {0..<n}" using assms by (auto simp: nat_less_iff)
    show "card (set (map ?f [0..<n])) = card {0..<n}"
      using \<open>inj_on ?f {0..<n}\<close> by (simp add: card_image)
  qed simp
  ultimately show ?thesis
    by (metis atLeastLessThan_upt distinct_upt set_eq_iff_mset_eq_distinct)
qed

lemma concat_day_slots:
  "concat (map (\<lambda>d. map (\<lambda>s. f (d * spd + s)) [0..<spd]) [0..<w]) = map f [0..<w * spd]"
proof (induction w)
  case 0
  then show ?case by simp
next
  case (Suc w)
  have "[0..<Suc w * spd] = [0..<w * spd] @ map (\<lambda>s. w * spd + s) [0..<spd]"
    using upt_add_eq_append [of 0 "w * spd" spd] map_add_upt [of "w * spd" spd]
    by (simp add: add.commute)
  with Suc show ?case by (simp add: comp_def)
qed

lemma concat_map_concat: "concat (map (\<lambda>d. concat (f d)) xs) = concat (concat (map f xs))"
  by (induction xs) simp_all

lemma tier_slice_pairs_eq:
  assumes "tier_worklist ids tier = Inr pairs" "tier_window tier = Some (days, slots)"
  shows "tier_slice_pairs day ids tier slot =
     Inr (tier_slice pairs (days * slots) (nat ((day * int slots + slot) mod int (days * slots))))"
  using assms by (simp add: tier_slice_pairs_def Let_def) (simp add: tier_slice_def pyslice_def Let_def)

lemma mset_concat_map: "mset (concat (map f xs)) = (\<Sum>x\<in>#mset xs. mset (f x))"
  by (induction xs) auto

lemma tier_window_pos: "tier_window tier = Some (days, slots) \<Longrightarrow> 0 < days \<and> 0 < slots"
  by (auto simp: tier_window_def split: if_splits)

text \<open>
  C4. The slices of a tier over any window of consecutive days, with all their slots, hold every
  (print id, market) pair of the tier's work list exactly as often as the work list does.
\<close>

theorem tier_window_partition:
  assumes "tier_worklist ids tier = Inr pairs" "tier_window tier = Some (days, slots)"
  shows "mset (concat (map (\<lambda>d. concat (map (\<lambda>s. projr (tier_slice_pairs (day + int d) ids tier (int s)))
            [0..<slots])) [0..<days])) = mset pairs"
proof -
  let ?n = "days * slots"
  let ?g = "\<lambda>k. nat ((day * int slots + int k) mod int ?n)"
  have pos: "0 < ?n" using tier_window_pos [OF assms(2)] by simp
  have eq: "projr (tier_slice_pairs (day + int d) ids tier (int s)) = tier_slice pairs ?n (?g (d * slots + s))" for d s
    by (simp add: tier_slice_pairs_eq [OF assms] algebra_simps)
  have "concat (map (\<lambda>d. concat (map (\<lambda>s. projr (tier_slice_pairs (day + int d) ids tier (int s))) [0..<slots])) [0..<days])
      = concat (concat (map (\<lambda>d. map (\<lambda>s. tier_slice pairs ?n (?g (d * slots + s))) [0..<slots]) [0..<days]))"
    unfolding eq by (rule concat_map_concat)
  also have "\<dots> = concat (map (\<lambda>k. tier_slice pairs ?n (?g k)) [0..<?n])"
    by (simp only: concat_day_slots [of "\<lambda>k. tier_slice pairs ?n (?g k)" slots days])
  also have "mset \<dots> = mset (concat (map (tier_slice pairs ?n) (map ?g [0..<?n])))"
    by (simp only: map_map comp_def)
  also have "\<dots> = mset (concat (map (tier_slice pairs ?n) [0..<?n]))"
    by (simp only: mset_concat_map mset_shifted_residues [OF pos])
  finally show ?thesis by (simp only: tier_slices_concat [OF pos])
qed

lemma foldl_ok:
  assumes "\<And>a x. x \<in> set xs \<Longrightarrow> step (Inr a) x = Inr (F a x)"
  shows "foldl step (Inr a) xs = Inr (foldl F a xs)"
  using assms by (induction xs arbitrary: a) auto

lemma foldl_union_sorted:
  assumes "\<And>a x. F a x = sorted_list_of_set (set a \<union> set (S x))" "sorted a" "distinct a"
  shows "sorted (foldl F a xs) \<and> distinct (foldl F a xs) \<and>
         set (foldl F a xs) = set a \<union> (\<Union>x\<in>set xs. set (S x))"
  using assms by (induction xs arbitrary: a) auto

lemma tier_slice_in_worklist:
  assumes "tier_worklist ids tier = Inr pairs" "tier_window tier = Some (days, slots)"
    and "(pid, m) \<in> set (projr (tier_slice_pairs day ids tier slot))"
  shows "(pid, m) \<in> set pairs"
  using assms(3) unfolding tier_slice_pairs_eq [OF assms(1,2)]
  by (auto simp: tier_slice_def pyslice_def Let_def dest!: in_set_takeD in_set_dropD)

lemma tier_today_ids_spec:
  assumes "tier_worklist ids tier = Inr pairs" "tier_window tier = Some (days, slots)"
  shows "\<exists>L. tier_today_ids_for_market day ids tier m = Inr L \<and> sorted L \<and> distinct L \<and>
    (\<forall>pid. pid \<in> set L \<longleftrightarrow> (\<exists>slot<slots. (pid, m) \<in> set (projr (tier_slice_pairs day ids tier (int slot)))))"
proof -
  let ?h = "\<lambda>slot. projr (tier_slice_pairs day ids tier slot)"
  let ?S = "\<lambda>slot. map fst (filter (\<lambda>(_, m'). m' = m) (?h slot))"
  let ?F = "\<lambda>a slot. sorted_list_of_set (set a \<union> set (?S slot))"
  let ?L = "foldl ?F [] (map int [0..<slots])"
  have "tier_today_ids_for_market day ids tier m = Inr ?L"
    unfolding tier_today_ids_for_market_def assms(2) option.case prod.case
    by (rule foldl_ok) (simp add: tier_slice_pairs_eq [OF assms])
  moreover have "sorted ?L \<and> distinct ?L \<and> set ?L = set [] \<union> (\<Union>x\<in>set (map int [0..<slots]). set (?S x))"
    by (rule foldl_union_sorted) simp_all
  moreover have "pid \<in> (\<Union>x\<in>set (map int [0..<slots]). set (?S x)) \<longleftrightarrow>
      (\<exists>slot<slots. (pid, m) \<in> set (?h (int slot)))" for pid
    by (force simp: image_iff)
  ultimately show ?thesis by (intro exI [of _ ?L]) simp
qed

lemma tier_worklist_mem:
  assumes "tier_worklist ids tier = Inr pairs" "(pid, m) \<in> set pairs"
  shows "\<exists>ms. tier_markets tier = Some ms \<and> m \<in> set ms"
  using assms by (auto simp: tier_worklist_def split: option.splits)

text \<open>
  The incremental load of a market takes exactly the print ids that some tier refreshes for that
  market in one of the day's slots, each once and in increasing order.
\<close>

theorem incremental_market_ids_spec:
  "\<exists>L. incremental_market_ids day ids m = Inr L \<and> sorted L \<and> distinct L \<and>
     (\<forall>pid. pid \<in> set L \<longleftrightarrow>
        (\<exists>tier\<in>{1, 2, 3}. \<exists>slot < snd (the (tier_window tier)).
           (pid, m) \<in> set (projr (tier_slice_pairs day (ids tier) tier (int slot)))))"
proof -
  let ?T = "\<lambda>tier. if m \<in> set (the (tier_markets tier))
                 then projr (tier_today_ids_for_market day (ids tier) tier m) else []"
  let ?F = "\<lambda>a tier. if m \<in> set (the (tier_markets tier))
                 then sorted_list_of_set (set a \<union> set (?T tier)) else a"
  have tiers: "\<exists>ms days slots pairs. tier_markets tier = Some ms \<and> tier_window tier = Some (days, slots) \<and>
      tier_worklist (ids tier) tier = Inr pairs" if "tier \<in> {1, 2, 3}" for tier :: int
    using that by (auto simp: tier_markets_def tier_window_def tier_worklist_def)
  have today: "tier_today_ids_for_market day (ids tier) tier m = Inr (projr (tier_today_ids_for_market day (ids tier) tier m)) \<and>
      (\<forall>pid. pid \<in> set (?T tier) \<longleftrightarrow> (\<exists>slot < snd (the (tier_window tier)).
         (pid, m) \<in> set (projr (tier_slice_pairs day (ids tier) tier (int slot)))))"
    if tier: "tier \<in> {1, 2, 3}" for tier :: int
  proof -
    obtain ms days slots pairs where t: "tier_markets tier = Some ms" "tier_window tier = Some (days, slots)"
      "tier_worklist (ids tier) tier = Inr pairs" using tiers [OF tier] by blast
    obtain L where L: "tier_today_ids_for_market day (ids tier) tier m = Inr L"
      "\<forall>pid. pid \<in> set L \<longleftrightarrow> (\<exists>slot<slots. (pid, m) \<in> set (projr (tier_slice_pairs day (ids tier) tier (int slot))))"
      using tier_today_ids_spec [OF t(3,2)] by blast
    have "m \<in> set ms" if "(pid, m) \<in> set (projr (tier_slice_pairs day (ids tier) tier slot))" for pid slot
      using tier_worklist_mem [OF t(3) tier_slice_in_worklist [OF t(3,2) that]] t(1) by simp
    with L t show ?thesis by auto
  qed
  have step: "incremental_market_ids day ids m = Inr (foldl ?F [] [1, 2, 3])"
    unfolding incremental_market_ids_def
  proof (rule foldl_ok)
    fix a and tier :: int
    assume "tier \<in> set [1, 2, 3]"
    then have t: "tier \<in> {1, 2, 3}" by auto
    then obtain ms where ms: "tier_markets tier = Some ms" using tiers by blast
    obtain l where l: "tier_today_ids_for_market day (ids tier) tier m = Inr l" using today [OF t] by blast
    show "bind_res (Inr a) (\<lambda>found. case tier_markets tier of None \<Rightarrow> Inl KeyErr
        | Some ms \<Rightarrow> if m \<in> set ms
            then map_sum id (\<lambda>l. sorted_list_of_set (set found \<union> set l))
                   (tier_today_ids_for_market day (ids tier) tier m)
            else Inr found) = Inr (?F a tier)"
      by (simp add: ms l)
  qed
  have inv: "sorted (foldl ?F a ts) \<and> distinct (foldl ?F a ts) \<and> set (foldl ?F a ts) = set a \<union> (\<Union>t\<in>set ts. set (?T t))"
    if "sorted a" "distinct a" for a ts
    using that
  proof (induction ts arbitrary: a)
    case (Cons t ts)
    from Cons.prems Cons.IH [of "?F a t"] show ?case by (simp add: Un_assoc)
  qed simp
  show ?thesis
    using step inv [of "[]" "[1, 2, 3]"] today
    by (intro exI [of _ "foldl ?F [] [1, 2, 3]"]) (simp del: foldl.simps)
qed

section \<open>Properties of the purge\<close>

lemma group_by_fingerprint_spec:
  "dict_ok (group_by_fingerprint fp fps queue) \<and>
   (\<forall>k. dget (group_by_fingerprint fp fps queue) k =
      (let items = filter (\<lambda>r. fp r = Some k) queue
       in if k \<in> set fps \<and> items \<noteq> [] then Some items else None))"
proof (induction queue rule: rev_induct)
  case Nil
  then show ?case by (simp add: group_by_fingerprint_def)
next
  case (snoc r queue)
  show ?case
  proof (cases "fp r")
    case None
    with snoc show ?thesis by (simp add: group_by_fingerprint_def)
  next
    case (Some k)
    with snoc show ?thesis
      by (auto simp: group_by_fingerprint_def dget_dset Let_def filter_empty_conv split: option.splits)
  qed
qed

lemma filter_fold_remove1: "filter P (fold remove1 xs q) = fold remove1 (filter P xs) (filter P q)"
  by (induction xs arbitrary: q) (auto simp: filter_remove1 remove1_idem)

lemma fold_remove1_Nil [simp]: "fold remove1 xs [] = []"
  by (induction xs) auto

lemma fold_remove1_tl: "fold remove1 (tl items) items = take 1 items"
proof (cases items)
  case (Cons a t)
  have mset: "mset (fold remove1 xs ys) = mset ys - mset xs" for xs ys :: "'a list"
    by (induction xs arbitrary: ys) (auto simp: diff_diff_add)
  have "mset (fold remove1 t (a # t)) = {#a#}" by (simp add: mset)
  with Cons show ?thesis by simp
qed simp

lemma filter_purge:
  assumes "distinct (map fst G)"
  shows "filter P (foldl (\<lambda>q (_, items). fold remove1 (tl items) q) q G) =
         foldl (\<lambda>q (_, items). fold remove1 (filter P (tl items)) q) (filter P q) G"
  using assms by (induction G arbitrary: q) (auto simp: filter_fold_remove1)

lemma foldl_remove_none:
  assumes "\<And>k its. (k, its) \<in> set G \<Longrightarrow> filter P (tl its) = []"
  shows "foldl (\<lambda>q (_, items). fold remove1 (filter P (tl items)) q) q G = q"
  using assms
proof (induction G)
  case (Cons g G)
  obtain k its where g: "g = (k, its)" by (cases g)
  have "filter P (tl its) = []" using Cons.prems [of k its] g by simp
  moreover have "foldl (\<lambda>q (_, items). fold remove1 (filter P (tl items)) q) q G = q"
    using Cons.IH Cons.prems by (meson list.set_intros(2))
  ultimately show ?case by (simp add: g)
qed simp

lemma foldl_remove_one_group:
  assumes "distinct (map fst G)" "map_of G k = Some items"
    and "\<And>k' its. (k', its) \<in> set G \<Longrightarrow> k' \<noteq> k \<Longrightarrow> filter P (tl its) = []"
    and "filter P (tl items) = tl items"
  shows "foldl (\<lambda>q (_, items). fold remove1 (filter P (tl items)) q) q G = fold remove1 (tl items) q"
  using assms
proof (induction G arbitrary: q)
  case (Cons g G)
  obtain k' its where g: "g = (k', its)" by (cases g)
  show ?case
  proof (cases "k' = k")
    case True
    have "foldl (\<lambda>q (_, items). fold remove1 (filter P (tl items)) q) q' G = q'" for q'
    proof (rule foldl_remove_none)
      fix k'' its' assume m: "(k'', its') \<in> set G"
      with Cons.prems(1) True g have "k'' \<noteq> k" by force
      with m Cons.prems(3) [of k'' its'] show "filter P (tl its') = []" by simp
    qed
    with True Cons.prems g show ?thesis by simp
  next
    case False
    then have "filter P (tl its) = []" using Cons.prems(3) [of k' its] g by simp
    moreover have "foldl (\<lambda>q (_, items). fold remove1 (filter P (tl items)) q) q G = fold remove1 (tl items) q"
      by (rule Cons.IH) (use Cons.prems False g in \<open>auto split: if_splits\<close>)
    ultimately show ?thesis by (simp add: g)
  qed
qed simp

text \<open>
  The purge leaves the first message of every scheduled task and removes its later duplicates;
  messages of tasks that the scheduler does not send stay, all of them and in order.
\<close>

theorem purge_keeps_one:
  fixes fp :: "'raw \<Rightarrow> fingerprint option"
  shows "(k \<in> set (build_beat_fingerprints schedule) \<longrightarrow>
           filter (\<lambda>r. fp r = Some k) (purge_stale_beat_tasks fp schedule queue) =
             take 1 (filter (\<lambda>r. fp r = Some k) queue)) \<and>
         filter (\<lambda>r. fp r \<notin> Some ` set (build_beat_fingerprints schedule)) (purge_stale_beat_tasks fp schedule queue) =
           filter (\<lambda>r. fp r \<notin> Some ` set (build_beat_fingerprints schedule)) queue"
proof -
  let ?fps = "build_beat_fingerprints schedule"
  let ?G = "group_by_fingerprint fp ?fps queue"
  have ok: "distinct (map fst ?G)"
    using group_by_fingerprint_spec [of fp ?fps queue] by (simp add: dict_ok_def)
  have G: "map_of ?G k' = (let items = filter (\<lambda>r. fp r = Some k') queue
       in if k' \<in> set ?fps \<and> items \<noteq> [] then Some items else None)" for k'
    using group_by_fingerprint_spec [of fp ?fps queue] by blast
  have mem: "k' \<in> set ?fps \<and> (\<forall>r\<in>set its. fp r = Some k')" if "(k', its) \<in> set ?G" for k' its
    using map_of_is_SomeI [OF ok that] G [of k'] by (auto simp: Let_def split: if_splits)
  have one: "k \<in> set ?fps \<longrightarrow> filter (\<lambda>r. fp r = Some k) (purge_stale_beat_tasks fp schedule queue) =
             take 1 (filter (\<lambda>r. fp r = Some k) queue)"
  proof
    let ?P = "\<lambda>r. fp r = Some k"
    assume k: "k \<in> set ?fps"
    have other: "filter ?P (tl its) = []" if "(k', its) \<in> set ?G" "k' \<noteq> k" for k' its
      using mem [OF that(1)] that(2) by (cases its) (auto simp: filter_empty_conv)
    show "filter ?P (purge_stale_beat_tasks fp schedule queue) = take 1 (filter ?P queue)"
    proof (cases "filter ?P queue = []")
      case True
      have "foldl (\<lambda>q (_, items). fold remove1 (filter ?P (tl items)) q) [] H = []" for H :: "(fingerprint \<times> 'raw list) list"
        by (induction H) (auto simp: fold_remove1_Nil)
      then show ?thesis using True filter_purge [OF ok, of ?P queue] by (simp add: purge_stale_beat_tasks_def)
    next
      case False
      then have "map_of ?G k = Some (filter ?P queue)" using k G [of k] by (simp add: Let_def)
      moreover have "filter ?P (tl (filter ?P queue)) = tl (filter ?P queue)"
        by (cases "filter ?P queue") (auto simp: filter_eq_Cons_iff filter_id_conv)
      ultimately show ?thesis
        using filter_purge [OF ok, of ?P queue] foldl_remove_one_group [OF ok _ other]
        by (simp add: purge_stale_beat_tasks_def fold_remove1_tl)
    qed
  qed
  let ?Q = "\<lambda>r. fp r \<notin> Some ` set ?fps"
  have "filter ?Q (tl its) = []" if "(k', its) \<in> set ?G" for k' its
    using mem [OF that] by (cases its) (auto simp: filter_empty_conv)
  then have "foldl (\<lambda>q (_, items). fold remove1 (filter ?Q (tl items)) q) q ?G = q" for q
    by (rule foldl_remove_none)
  then have "filter ?Q (purge_stale_beat_tasks fp schedule queue) = filter ?Q queue"
    using filter_purge [OF ok, of ?Q queue] by (simp add: purge_stale_beat_tasks_def)
  with one show ?thesis by blast
qed

section \<open>Samples\<close>

definition demo_finished :: ops where
  "demo_finished = snd (repo_finish_run 1 ''success'' None demo_ops)"

theorem redelivered_finished_noop_witness:
  "run_service (ops_params (\<lambda>_. Inl ValueErr)) (ops_services (\<lambda>_ _. throw ValueErr)) True
     (JObj [(''ingestion_run_id'', JInt 1)]) (Some ''staging.scryfall.download_sets'') [] demo_finished =
   (Inr [(''ingestion_run_id'', JInt 1)], demo_finished)"
  using redelivered_finished_noop [of demo_finished 1 "JObj [(''ingestion_run_id'', JInt 1)]" "[]"]
  by (simp add: task_context_def dmerge_def jget_def demo_finished_def get_run_is_finished_def ops_eval)

theorem run_service_context_witness:
  "\<exists>ctx. run_service (\<lambda>_. Inr [''a'']) (\<lambda>_ args. ret (JObj [(''b'', jget args ''a'')])) False
           (JObj [(''a'', JInt 1), (''b'', JInt 5)]) (Some ''svc'') [(''a'', JInt 2)] () = (Inr ctx, ()) \<and>
         dget ctx ''b'' = Some (JInt 2) \<and> dget ctx ''a'' = Some (JInt 2)"
  using run_service_context [of "\<lambda>_. Inr [''a'']" "''svc''" "[''a'']" "[(''a'', JInt 2)]"
      "[(''a'', JInt 1), (''b'', JInt 5)]" "[(''b'', JInt 2)]"
      "\<lambda>_ args. ret (JObj [(''b'', jget args ''a'')])" "()" "()"]
  by (auto simp: dict_ok_def task_context_def dmerge_def jget_def)

theorem launch_skips_active_witness:
  "launch (ops_params (\<lambda>_. Inl ValueErr)) (ops_services (\<lambda>_ _. throw ValueErr)) ''k1'' (ret []) demo_ops =
   (Inr None, demo_ops)"
  by (rule launch_skips_active [of "empty_ops [(''scryfall'', 7)]" "''k1''" "''daily''" "''scryfall''" None 1])
     (simp_all add: empty_ops_inv start_run_def, simp add: ops_eval)

theorem chain_stops_witness:
  "run_links (\<lambda>_. Inl ValueErr) (\<lambda>_ _. ret JNull) ([(''a'', [])] @ [finish_link]) [] (0 :: nat) = (Inl ValueErr, 0)"
  by (rule chain_stops) (simp add: run_service_def Let_def bindp_def)

theorem tier_window_partition_witness:
  "mset (concat (map (\<lambda>d. concat (map (\<lambda>s. projr (tier_slice_pairs (20 + int d) [5, 3] 3 (int s))) [0..<1])) [0..<30])) =
   {#(3, ''tcg''), (5, ''tcg'')#}"
  using tier_window_partition [of "[5, 3]" 3 "[(3, ''tcg''), (5, ''tcg'')]" 30 1 20]
  by (simp add: tier_worklist_def tier_markets_def tier_window_def del: upt_rec_numeral)

theorem incremental_market_ids_spec_witness:
  "\<exists>L. incremental_market_ids 0 (\<lambda>_. [4, 2]) ''starcity'' = Inr L \<and> sorted L \<and> distinct L"
  using incremental_market_ids_spec [of 0 "\<lambda>_. [4, 2]" "''starcity''"] by blast

theorem purge_keeps_one_witness:
  "filter (\<lambda>r. r = (1 :: nat)) (purge_stale_beat_tasks (\<lambda>r. Some (if r = 1 then FpTask ''ping'' else FpTask ''x''))
     [(''ping'', [])] [1, 2, 1, 2, 1]) = [1]"
  using purge_keeps_one [of "FpTask ''ping''" "[(''ping'', [])]"
      "\<lambda>r. Some (if r = (1 :: nat) then FpTask ''ping'' else FpTask ''x'')" "[1, 2, 1, 2, 1]"]
  by (simp add: build_beat_fingerprints_def split: if_split_asm)

end
