(* ===== verification/Metrics.thy ===== *)
theory Metrics
  imports Prelude "HOL-Library.List_Lexorder" "HOL-Library.Char_ord"
begin

text \<open>
  Request and task metrics: the buckets (\<open>core/metrics/bucket.py\<close>), the process-wide buffer
  (\<open>buffer.py\<close>), the registry of sanity metrics with their thresholds (\<open>registry.py\<close>), the Celery
  signal handlers (\<open>worker/celery_metrics.py\<close>) and the API middleware
  (\<open>api/middleware/metrics_middleware.py\<close>). Times are rationals, in seconds. Every buffer operation
  runs under one lock, so the threads' operations are a sequence; which sequence is the scheduler's
  choice.
\<close>

section \<open>Statistics\<close>

definition list_max :: "rat list \<Rightarrow> rat" where
  "list_max xs = (case xs of [] \<Rightarrow> 0 | x # ys \<Rightarrow> max_key id x ys)"

text \<open>\<open>statistics.median\<close> of a non-empty list.\<close>

definition median :: "rat list \<Rightarrow> rat" where
  "median xs =
     (let s = sort xs; n = length s; h = n div 2
      in if odd n then s ! h else (s ! (h - 1) + s ! h) / 2)"

text \<open>
  The \<open>i\<close>-th of the \<open>n - 1\<close> cut points of \<open>statistics.quantiles(xs, n=n)\<close> (the exclusive method), for
  at least two samples: an index clamped to the data and a linear interpolation, which becomes an
  extrapolation where the index was clamped.
\<close>

definition quantile_cut :: "rat list \<Rightarrow> nat \<Rightarrow> nat \<Rightarrow> rat" where
  "quantile_cut xs n i =
     (let s = sort xs; ld = length s; m = ld + 1; j0 = i * m div n;
          j = (if j0 < 1 then 1 else if j0 > ld - 1 then ld - 1 else j0);
          delta = of_int (int (i * m) - int (j * n))
      in (s ! (j - 1) * (of_nat n - delta) + s ! j * delta) / of_nat n)"

section \<open>Buckets\<close>

record api_bucket =
  request_count :: nat
  error_count :: nat
  cache_hit_count :: nat
  response_times :: "rat list"

definition new_api_bucket :: api_bucket where
  "new_api_bucket = \<lparr>request_count = 0, error_count = 0, cache_hit_count = 0, response_times = []\<rparr>"

definition bucket_add :: "rat \<Rightarrow> bool \<Rightarrow> bool \<Rightarrow> api_bucket \<Rightarrow> api_bucket" where
  "bucket_add elapsed is_error is_hit b =
     b\<lparr>request_count := request_count b + 1,
       error_count := (if is_error then error_count b + 1 else error_count b),
       cache_hit_count := (if is_hit then cache_hit_count b + 1 else cache_hit_count b),
       response_times := response_times b @ [elapsed]\<rparr>"

record api_stats =
  st_requests :: nat
  st_errors :: nat
  st_hits :: nat
  st_error_rate :: rat
  st_hit_rate :: rat
  st_median :: "rat option"
  st_max :: "rat option"
  st_p95 :: "rat option"

definition bucket_aggregate :: "api_bucket \<Rightarrow> api_stats" where
  "bucket_aggregate b =
     (let n = request_count b; ts = response_times b in
      \<lparr>st_requests = n, st_errors = error_count b, st_hits = cache_hit_count b,
       st_error_rate = (if n > 0 then of_nat (error_count b) / of_nat n else 0),
       st_hit_rate = (if n > 0 then of_nat (cache_hit_count b) / of_nat n else 0),
       st_median = (if ts = [] then None else Some (median ts)),
       st_max = (if ts = [] then None else Some (list_max ts)),
       st_p95 = (if ts = [] then None
                 else if length ts < 2 then Some (list_max ts)
                 else Some (quantile_cut ts 20 19))\<rparr>)"

record celery_bucket =
  success_count :: nat
  failure_count :: nat
  execution_times :: "rat list"

definition new_celery_bucket :: celery_bucket where
  "new_celery_bucket = \<lparr>success_count = 0, failure_count = 0, execution_times = []\<rparr>"

definition add_success :: "rat \<Rightarrow> celery_bucket \<Rightarrow> celery_bucket" where
  "add_success elapsed b =
     b\<lparr>success_count := success_count b + 1, execution_times := execution_times b @ [elapsed]\<rparr>"

definition add_failure :: "rat \<Rightarrow> celery_bucket \<Rightarrow> celery_bucket" where
  "add_failure elapsed b =
     b\<lparr>failure_count := failure_count b + 1, execution_times := execution_times b @ [elapsed]\<rparr>"

record celery_stats =
  ct_successes :: nat
  ct_failures :: nat
  ct_success_rate :: rat
  ct_median :: "rat option"
  ct_max :: "rat option"

definition celery_aggregate :: "celery_bucket \<Rightarrow> celery_stats" where
  "celery_aggregate b =
     (let n = success_count b + failure_count b; ts = execution_times b in
      \<lparr>ct_successes = success_count b, ct_failures = failure_count b,
       ct_success_rate = (if n > 0 then of_nat (success_count b) / of_nat n else 0),
       ct_median = (if ts = [] then None else Some (median ts)),
       ct_max = (if ts = [] then None else Some (list_max ts))\<rparr>)"

section \<open>The buffer\<close>

type_synonym api_key = "int \<times> string \<times> nat"
type_synonym celery_key = "int \<times> string"

record buffer =
  api_buffer :: "(api_key, api_bucket) dict"
  celery_buffer :: "(celery_key, celery_bucket) dict"

definition empty_buffer :: buffer where
  "empty_buffer = \<lparr>api_buffer = [], celery_buffer = []\<rparr>"

definition add_api_metric :: "api_key \<Rightarrow> rat \<Rightarrow> bool \<Rightarrow> bool \<Rightarrow> buffer \<Rightarrow> buffer" where
  "add_api_metric key elapsed is_error is_hit buf =
     (let b = (case dget (api_buffer buf) key of None \<Rightarrow> new_api_bucket | Some b \<Rightarrow> b)
      in buf\<lparr>api_buffer := dset key (bucket_add elapsed is_error is_hit b) (api_buffer buf)\<rparr>)"

definition add_celery_metric :: "celery_key \<Rightarrow> rat \<Rightarrow> bool \<Rightarrow> buffer \<Rightarrow> buffer" where
  "add_celery_metric key elapsed is_success buf =
     (let b = (case dget (celery_buffer buf) key of None \<Rightarrow> new_celery_bucket | Some b \<Rightarrow> b)
      in buf\<lparr>celery_buffer :=
               dset key (if is_success then add_success elapsed b else add_failure elapsed b) (celery_buffer buf)\<rparr>)"

definition flush ::
  "buffer \<Rightarrow> ((api_key, api_bucket) dict \<times> (celery_key, celery_bucket) dict) \<times> buffer" where
  "flush buf = ((api_buffer buf, celery_buffer buf), buf\<lparr>api_buffer := [], celery_buffer := []\<rparr>)"

definition clear_buffer :: "buffer \<Rightarrow> buffer" where
  "clear_buffer buf = buf\<lparr>api_buffer := [], celery_buffer := []\<rparr>"

definition buffer_size :: "buffer \<Rightarrow> nat \<times> nat" where
  "buffer_size buf = (length (api_buffer buf), length (celery_buffer buf))"

section \<open>Celery signals\<close>

record task_metrics =
  tm_times :: "(string, rat) dict"
  tm_buffer :: buffer

definition on_task_prerun :: "rat \<Rightarrow> string \<Rightarrow> task_metrics \<Rightarrow> task_metrics" where
  "on_task_prerun now task_id m = m\<lparr>tm_times := dset task_id now (tm_times m)\<rparr>"

text \<open>
  \<open>on_task_success\<close> and \<open>on_task_failure\<close>: \<open>now\<close> is the time of the measurement and \<open>now2\<close> that of the
  hour key, read after it; \<open>sender\<close> is the task's name, if the signal has a sender.
\<close>

definition on_task_end ::
  "bool \<Rightarrow> rat \<Rightarrow> rat \<Rightarrow> string option \<Rightarrow> string \<Rightarrow> task_metrics \<Rightarrow> task_metrics" where
  "on_task_end is_success now now2 sender task_id m =
     (case dget (tm_times m) task_id of
        None \<Rightarrow> m
      | Some start \<Rightarrow>
          m\<lparr>tm_buffer :=
               add_celery_metric
                 (\<lfloor>now2 / 3600\<rfloor>, case sender of None \<Rightarrow> ''unknown'' | Some n \<Rightarrow> n)
                 (now - start) is_success (tm_buffer m),
             tm_times := filter (\<lambda>(k, _). k \<noteq> task_id) (tm_times m)\<rparr>)"

definition on_task_success :: "rat \<Rightarrow> rat \<Rightarrow> string option \<Rightarrow> string \<Rightarrow> task_metrics \<Rightarrow> task_metrics" where
  "on_task_success = on_task_end True"

definition on_task_failure :: "rat \<Rightarrow> rat \<Rightarrow> string option \<Rightarrow> string \<Rightarrow> task_metrics \<Rightarrow> task_metrics" where
  "on_task_failure = on_task_end False"

section \<open>The API middleware\<close>

text \<open>
  A response: its status code; the request's \<open>cache_hit\<close> flag may be unset. The handler runs between
  the times \<open>start\<close> and \<open>stop\<close>; an exception of the handler goes on, and nothing is recorded.
\<close>

definition dispatch ::
  "rat \<Rightarrow> rat \<Rightarrow> string \<Rightarrow> bool option \<Rightarrow> nat res \<Rightarrow> (buffer, nat) prog" where
  "dispatch start stop endpoint cache_hit response buf =
     (case response of
        Inl e \<Rightarrow> (Inl e, buf)
      | Inr status \<Rightarrow>
          (Inr status,
           add_api_metric (\<lfloor>start / 3600\<rfloor>, endpoint, status) (stop - start) (400 \<le> status)
             (case cache_hit of None \<Rightarrow> False | Some h \<Rightarrow> h) buf))"

section \<open>The metric registry\<close>

datatype severity = OK | WARN | ERROR

datatype direction = LowerIsWorse | HigherIsWorse

record threshold =
  th_warn :: rat
  th_error :: rat
  th_direction :: direction

definition threshold_evaluate :: "threshold \<Rightarrow> rat option \<Rightarrow> severity" where
  "threshold_evaluate t value =
     (case value of
        None \<Rightarrow> WARN
      | Some v \<Rightarrow>
          (case th_direction t of
             HigherIsWorse \<Rightarrow> if v \<ge> th_error t then ERROR else if v \<ge> th_warn t then WARN else OK
           | LowerIsWorse \<Rightarrow> if v \<le> th_error t then ERROR else if v \<le> th_warn t then WARN else OK))"

text \<open>A rule is a threshold or a function of the value.\<close>

datatype rule = Bounds threshold | Rule "rat option \<Rightarrow> severity"

definition evaluate_rule :: "rule option \<Rightarrow> rat option \<Rightarrow> severity" where
  "evaluate_rule rule value =
     (case rule of None \<Rightarrow> OK | Some (Bounds t) \<Rightarrow> threshold_evaluate t value | Some (Rule f) \<Rightarrow> f value)"

record metric_config =
  mc_path :: string
  mc_category :: string
  mc_description :: string
  mc_severity :: "rule option"
  mc_repositories :: "string list"

definition categories :: "string list" where
  "categories = [''health'', ''volume'', ''timing'', ''status'']"

definition register_metric ::
  "metric_config \<Rightarrow> (string, metric_config) dict \<Rightarrow> (string, metric_config) dict res" where
  "register_metric cfg reg =
     (if mc_category cfg \<notin> set categories then Inl ValueErr else Inr (dset (mc_path cfg) cfg reg))"

definition select_metrics ::
  "string list option \<Rightarrow> string option \<Rightarrow> string option \<Rightarrow> (string, metric_config) dict
    \<Rightarrow> metric_config list res" where
  "select_metrics names category pre reg =
     (if (case category of None \<Rightarrow> False | Some c \<Rightarrow> c \<notin> set categories) then Inl ValueErr
      else Inr (sort_key mc_path
             (map snd (filter (\<lambda>(path, cfg).
                (case names of None \<Rightarrow> True | Some ns \<Rightarrow> path \<in> set ns) \<and>
                (case category of None \<Rightarrow> True | Some c \<Rightarrow> mc_category cfg = c) \<and>
                (case pre of None \<Rightarrow> True | Some p \<Rightarrow> prefix p path)) reg))))"

section \<open>Severities are ordered\<close>

instantiation severity :: linorder
begin

definition rank :: "severity \<Rightarrow> nat" where
  "rank s = (case s of OK \<Rightarrow> 0 | WARN \<Rightarrow> 1 | ERROR \<Rightarrow> 2)"

definition less_eq_severity :: "severity \<Rightarrow> severity \<Rightarrow> bool" where
  "less_eq_severity a b \<longleftrightarrow> rank a \<le> rank b"

definition less_severity :: "severity \<Rightarrow> severity \<Rightarrow> bool" where
  "less_severity a b \<longleftrightarrow> rank a < rank b"

instance
proof
  fix a b c :: severity
  show "(a < b) = (a \<le> b \<and> \<not> b \<le> a)" by (auto simp: less_eq_severity_def less_severity_def)
  show "a \<le> a" by (simp add: less_eq_severity_def)
  show "a \<le> b \<Longrightarrow> b \<le> c \<Longrightarrow> a \<le> c" by (simp add: less_eq_severity_def)
  show "a \<le> b \<Longrightarrow> b \<le> a \<Longrightarrow> a = b"
    by (cases a; cases b) (simp_all add: less_eq_severity_def rank_def)
  show "a \<le> b \<or> b \<le> a" by (auto simp: less_eq_severity_def)
qed

end

lemma threshold_monotone:
  assumes "v \<le> w"
  shows "case th_direction t of
           HigherIsWorse \<Rightarrow> threshold_evaluate t (Some v) \<le> threshold_evaluate t (Some w)
         | LowerIsWorse \<Rightarrow> threshold_evaluate t (Some w) \<le> threshold_evaluate t (Some v)"
  using assms
  by (auto simp: threshold_evaluate_def less_eq_severity_def rank_def split: direction.split)

section \<open>Statistics depend on the samples, not on their order\<close>

lemma list_max_Max: "xs \<noteq> [] \<Longrightarrow> list_max xs = Max (set xs)"
proof (cases xs)
  case (Cons x ys)
  show ?thesis
    unfolding Cons list_max_def list.case
    by (rule Max_eqI [symmetric])
      (use max_key_ge [of _ x ys id] max_key_in [of id x ys] in auto)
qed simp

lemma sorted_le_last: "sorted ys \<Longrightarrow> x \<in> set ys \<Longrightarrow> x \<le> last ys"
  by (induction ys) (auto split: if_splits)

lemma list_max_sort:
  assumes "xs \<noteq> []"
  shows "list_max xs = last (sort xs)"
proof -
  have ne: "sort xs \<noteq> []" using assms by (metis set_empty set_sort)
  have "Max (set (sort xs)) = last (sort xs)"
    using ne by (intro Max_eqI) (simp_all only: finite_set last_in_set sorted_le_last sorted_sort not_False_eq_True)
  then show ?thesis using assms by (simp add: list_max_Max)
qed

lemma statistics_mset:
  assumes "mset xs = mset ys"
  shows "sort xs = sort ys" and "length xs = length ys" and "set xs = set ys"
  using assms by (metis properties_for_sort sorted_sort mset_sort, metis mset_eq_length, metis mset_eq_setD)

lemma bucket_aggregate_mset:
  assumes "request_count a = request_count b" "error_count a = error_count b"
    and "cache_hit_count a = cache_hit_count b" "mset (response_times a) = mset (response_times b)"
  shows "bucket_aggregate a = bucket_aggregate b"
proof -
  note st = statistics_mset [OF assms(4)]
  have "response_times a = [] \<longleftrightarrow> response_times b = []" using st(2) by auto
  then show ?thesis
    using assms(1-3) st
    by (auto simp: bucket_aggregate_def Let_def median_def quantile_cut_def list_max_Max)
qed

section \<open>Sequences of requests\<close>

record event =
  ev_key :: api_key
  ev_elapsed :: rat
  ev_error :: bool
  ev_hit :: bool

definition record_events :: "event list \<Rightarrow> buffer \<Rightarrow> buffer" where
  "record_events evs buf =
     foldl (\<lambda>b e. add_api_metric (ev_key e) (ev_elapsed e) (ev_error e) (ev_hit e) b) buf evs"

lemma record_events_snoc:
  "record_events (evs @ [e]) buf =
   add_api_metric (ev_key e) (ev_elapsed e) (ev_error e) (ev_hit e) (record_events evs buf)"
  by (simp add: record_events_def)

definition bucket_of :: "event list \<Rightarrow> api_bucket" where
  "bucket_of es =
     \<lparr>request_count = length es, error_count = length (filter ev_error es),
      cache_hit_count = length (filter ev_hit es), response_times = map ev_elapsed es\<rparr>"

lemma buffer_holds_events:
  "dget (api_buffer (record_events evs empty_buffer)) k =
     (let es = filter (\<lambda>e. ev_key e = k) evs in if es = [] then None else Some (bucket_of es))"
proof (induction evs rule: rev_induct)
  case Nil
  then show ?case by (simp add: record_events_def empty_buffer_def)
next
  case (snoc e evs)
  let ?es = "filter (\<lambda>ea. ev_key ea = ev_key e) evs"
  show ?case
  proof (cases "k = ev_key e")
    case True
    show ?thesis
      using snoc.IH True
      by (cases "?es = []")
        (simp_all add: record_events_snoc add_api_metric_def Let_def dget_dset bucket_of_def bucket_add_def
          new_api_bucket_def del: filter_empty_conv filter_filter)
  next
    case False
    then show ?thesis
      using snoc.IH by (simp add: record_events_snoc add_api_metric_def Let_def dget_dset)
  qed
qed

text \<open>
  Flushing the buffer hands out, for every hour, endpoint and status, the counts of exactly the
  requests recorded under it, and leaves the buffer empty; so no request is lost or counted twice
  between two flushes.
\<close>

theorem flush_counts_requests:
  "(case flush (record_events evs empty_buffer) of ((api, celery), rest) \<Rightarrow>
      celery = [] \<and> buffer_size rest = (0, 0) \<and>
      (\<forall>k. dget api k = (let es = filter (\<lambda>e. ev_key e = k) evs in
             if es = [] then None
             else Some \<lparr>request_count = length es, error_count = length (filter ev_error es),
                       cache_hit_count = length (filter ev_hit es), response_times = map ev_elapsed es\<rparr>)))"
proof -
  have "celery_buffer (record_events evs empty_buffer) = []"
    by (induction evs rule: rev_induct)
      (simp_all add: record_events_snoc add_api_metric_def Let_def, simp add: record_events_def empty_buffer_def)
  then show ?thesis
    using buffer_holds_events [of evs]
    by (simp add: flush_def buffer_size_def bucket_of_def Let_def)
qed

text \<open>
  The statistics do not depend on the order in which concurrent requests were recorded.
\<close>

theorem statistics_order_independent:
  assumes "mset evs = mset evs'"
  shows "map_option bucket_aggregate (dget (api_buffer (record_events evs empty_buffer)) k) =
         map_option bucket_aggregate (dget (api_buffer (record_events evs' empty_buffer)) k)"
proof -
  let ?es = "filter (\<lambda>e. ev_key e = k) evs" and ?es' = "filter (\<lambda>e. ev_key e = k) evs'"
  have m: "mset ?es = mset ?es'" using assms by (metis mset_filter)
  then have "length ?es = length ?es'" "?es = [] \<longleftrightarrow> ?es' = []" by (metis mset_eq_length, metis mset_zero_iff)
  moreover have "bucket_aggregate (bucket_of ?es) = bucket_aggregate (bucket_of ?es')"
  proof (rule bucket_aggregate_mset)
    have len: "length (filter P ?es) = length (filter P ?es')" for P
      using m by (metis mset_filter size_mset)
    show "error_count (bucket_of ?es) = error_count (bucket_of ?es')"
      using len [of ev_error] by (simp add: bucket_of_def del: filter_filter)
    show "cache_hit_count (bucket_of ?es) = cache_hit_count (bucket_of ?es')"
      using len [of ev_hit] by (simp add: bucket_of_def del: filter_filter)
    show "request_count (bucket_of ?es) = request_count (bucket_of ?es')"
      using \<open>length ?es = length ?es'\<close> by (simp add: bucket_of_def)
    show "mset (response_times (bucket_of ?es)) = mset (response_times (bucket_of ?es'))"
      using m unfolding bucket_of_def api_bucket.simps mset_map by (rule arg_cong)
  qed
  ultimately show ?thesis
    unfolding buffer_holds_events Let_def by (simp del: filter_empty_conv filter_filter)
qed

text \<open>
  The reported 95th percentile is not below the maximum when there are 2 to 19 samples: the
  quantile is extrapolated beyond the data.
\<close>

theorem p95_exceeds_max:
  assumes "2 \<le> length ts" "length ts \<le> 19"
  shows "list_max ts \<le> quantile_cut ts 20 19"
proof -
  let ?s = "sort ts" and ?ld = "length ts"
  have ne: "ts \<noteq> []" using assms(1) by auto
  have j0: "?ld - 1 \<le> 19 * (?ld + 1) div 20"
    using assms by (subst less_eq_div_iff_mult_less_eq) auto
  have "(if 19 * (?ld + 1) div 20 < 1 then 1 else if 19 * (?ld + 1) div 20 > ?ld - 1 then ?ld - 1
         else 19 * (?ld + 1) div 20) = ?ld - 1"
    using assms j0 by auto
  then have q: "quantile_cut ts 20 19 =
      (?s ! (?ld - 2) * (20 - of_int (int (19 * (?ld + 1)) - int ((?ld - 1) * 20)))
       + ?s ! (?ld - 1) * of_int (int (19 * (?ld + 1)) - int ((?ld - 1) * 20))) / 20"
    unfolding quantile_cut_def Let_def length_sort by (simp add: numeral_2_eq_2)
  let ?d = "int (19 * (?ld + 1)) - int ((?ld - 1) * 20)"
  have d: "?d = 39 - int ?ld" using assms(1) by (simp add: of_nat_diff)
  have le: "?s ! (?ld - 2) \<le> ?s ! (?ld - 1)"
    using assms(1) by (intro sorted_nth_mono) auto
  have "list_max ts = ?s ! (?ld - 1)"
  proof -
    have "?s \<noteq> []" using ne by (metis set_empty set_sort)
    then have "last ?s = ?s ! (?ld - 1)" using last_conv_nth [of ?s] by (simp only: length_sort not_False_eq_True)
    with list_max_sort [OF ne] show ?thesis by simp
  qed
  moreover have "20 * ?s ! (?ld - 1) \<le> ?s ! (?ld - 2) * (20 - of_int ?d) + ?s ! (?ld - 1) * of_int ?d"
  proof -
    have "0 \<le> (of_int ?d - 20) * (?s ! (?ld - 1) - ?s ! (?ld - 2))"
      using le d assms(2) by (intro mult_nonneg_nonneg) auto
    then show ?thesis by (simp add: algebra_simps)
  qed
  ultimately show ?thesis by (simp add: q)
qed

text \<open>
  The selection of metrics is exactly the registered ones that pass every active filter, each
  once, in the order of their paths.
\<close>

theorem select_metrics_spec:
  assumes "dict_ok reg" "\<forall>(p, c)\<in>set reg. mc_path c = p"
    and "case category of None \<Rightarrow> True | Some c \<Rightarrow> c \<in> set categories"
  shows "\<exists>sel. select_metrics names category pre reg = Inr sel \<and> sorted (map mc_path sel) \<and> distinct sel \<and>
     (\<forall>c. c \<in> set sel \<longleftrightarrow>
        dget reg (mc_path c) = Some c \<and>
        (case names of None \<Rightarrow> True | Some ns \<Rightarrow> mc_path c \<in> set ns) \<and>
        (case category of None \<Rightarrow> True | Some g \<Rightarrow> mc_category c = g) \<and>
        (case pre of None \<Rightarrow> True | Some p \<Rightarrow> prefix p (mc_path c)))"
proof -
  let ?P = "\<lambda>(path, cfg). (case names of None \<Rightarrow> True | Some ns \<Rightarrow> path \<in> set ns) \<and>
                (case category of None \<Rightarrow> True | Some c \<Rightarrow> mc_category cfg = c) \<and>
                (case pre of None \<Rightarrow> True | Some p \<Rightarrow> prefix p path)"
  let ?l = "map snd (filter ?P reg)"
  have sel: "select_metrics names category pre reg = Inr (sort_key mc_path ?l)"
    using assms(3) by (auto simp: select_metrics_def split: option.splits)
  have "distinct (map mc_path ?l)"
  proof -
    have "map mc_path ?l = map fst (filter ?P reg)"
      using assms(2) by (auto simp: case_prod_beta)
    moreover have "distinct (map fst (filter ?P reg))"
      using assms(1) by (simp add: dict_ok_def distinct_map_filter)
    ultimately show ?thesis by (simp only:)
  qed
  then have "distinct ?l" by (simp only: distinct_map)
  moreover have "c \<in> set ?l \<longleftrightarrow> dget reg (mc_path c) = Some c \<and> ?P (mc_path c, c)" for c
    using assms(2) unfolding dget_in_set [OF assms(1)] by (force simp: image_iff)
  ultimately show ?thesis
    by (intro exI [of _ "sort_key mc_path ?l"]) (simp add: sel)
qed

text \<open>
  A task that starts and ends contributes exactly one measurement, under its name and the hour of
  its end, with its duration and outcome; its start time is forgotten, those of other tasks stay; an
  end without a start contributes nothing.
\<close>

theorem task_metrics_recorded:
  assumes "m = on_task_prerun start tid m0"
  shows "on_task_end ok stop now2 sender tid m =
      \<lparr>tm_times = filter (\<lambda>(k, _). k \<noteq> tid) (tm_times m),
       tm_buffer = add_celery_metric (\<lfloor>now2 / 3600\<rfloor>, case sender of None \<Rightarrow> ''unknown'' | Some n \<Rightarrow> n)
                     (stop - start) ok (tm_buffer m0)\<rparr> \<and>
    (\<forall>k. dget (tm_times (on_task_end ok stop now2 sender tid m)) k =
           (if k = tid then None else dget (tm_times m0) k)) \<and>
    on_task_end ok stop now2 sender tid (on_task_end ok stop now2 sender tid m) =
      on_task_end ok stop now2 sender tid m"
proof -
  have dget_filter: "dget (filter (\<lambda>(k, _). k \<noteq> t) d) k = (if k = t then None else dget d k)"
    for t k and d :: "(string \<times> rat) list"
    by (induction d) auto
  show ?thesis
    using assms by (simp add: on_task_end_def on_task_prerun_def dget_dset dget_filter)
qed

text \<open>
  An exception of the handler goes through the middleware and leaves no measurement; a response
  is handed on, and is an error exactly from status 400 on.
\<close>

theorem dispatch_spec:
  "dispatch start stop endpoint hit (Inl e) buf = (Inl e, buf) \<and>
   fst (dispatch start stop endpoint hit (Inr status) buf) = Inr status \<and>
   (\<exists>b. dget (api_buffer (snd (dispatch start stop endpoint hit (Inr status) buf)))
           (\<lfloor>start / 3600\<rfloor>, endpoint, status) = Some b \<and>
        request_count b = Suc (case dget (api_buffer buf) (\<lfloor>start / 3600\<rfloor>, endpoint, status) of
                                 None \<Rightarrow> 0 | Some c \<Rightarrow> request_count c) \<and>
        error_count b = (case dget (api_buffer buf) (\<lfloor>start / 3600\<rfloor>, endpoint, status) of
                           None \<Rightarrow> 0 | Some c \<Rightarrow> error_count c) + (if status < 400 then 0 else 1))"
  by (auto simp: dispatch_def add_api_metric_def Let_def dget_dset bucket_add_def new_api_bucket_def
      split: option.split)

section \<open>Samples\<close>

theorem flush_counts_requests_witness:
  "dget (fst (fst (flush (record_events [\<lparr>ev_key = (1, ''/a'', 200), ev_elapsed = 2, ev_error = False, ev_hit = True\<rparr>]
     empty_buffer)))) (1, ''/a'', 200) =
   Some \<lparr>request_count = 1, error_count = 0, cache_hit_count = 1, response_times = [2]\<rparr>"
  using flush_counts_requests [of "[\<lparr>ev_key = (1, ''/a'', 200), ev_elapsed = 2, ev_error = False, ev_hit = True\<rparr>]"]
  by (simp add: flush_def Let_def)

theorem statistics_order_independent_witness:
  "(let e = \<lparr>ev_key = (1, ''/a'', 200), ev_elapsed = 2, ev_error = False, ev_hit = True\<rparr>;
        f = \<lparr>ev_key = (1, ''/a'', 200), ev_elapsed = 5, ev_error = False, ev_hit = False\<rparr>
    in map_option bucket_aggregate (dget (api_buffer (record_events [e, f] empty_buffer)) (1, ''/a'', 200)) =
       map_option bucket_aggregate (dget (api_buffer (record_events [f, e] empty_buffer)) (1, ''/a'', 200)))"
  unfolding Let_def by (rule statistics_order_independent) (simp add: add_mset_commute)

theorem p95_exceeds_max_witness: "list_max [1, 2] = 2 \<and> 2 \<le> quantile_cut [1, 2] 20 19"
  using p95_exceeds_max [of "[1, 2]"] by (simp add: list_max_def)

theorem select_metrics_spec_witness:
  "\<exists>sel. select_metrics None (Some ''health'') None
     [(''b'', \<lparr>mc_path = ''b'', mc_category = ''health'', mc_description = '''', mc_severity = None, mc_repositories = []\<rparr>)]
     = Inr sel \<and> distinct sel"
  using select_metrics_spec [of
      "[(''b'', \<lparr>mc_path = ''b'', mc_category = ''health'', mc_description = '''', mc_severity = None, mc_repositories = []\<rparr>)]"
      "Some ''health''" None None]
  by (auto simp: categories_def dict_ok_def)

theorem task_metrics_recorded_witness:
  "tm_buffer (on_task_end True 9 9 None ''t'' (on_task_prerun 4 ''t'' \<lparr>tm_times = [], tm_buffer = empty_buffer\<rparr>)) =
   add_celery_metric (\<lfloor>9 / 3600 :: rat\<rfloor>, ''unknown'') 5 True empty_buffer"
  using task_metrics_recorded [OF refl, of True 9 9 None "''t''" 4 "\<lparr>tm_times = [], tm_buffer = empty_buffer\<rparr>"]
  by simp

end
