(* ===== verification/Health.thy ===== *)
theory Health
  imports Metrics Py_Text
begin

text \<open>
  Sanity reports and alerts: the report envelope (\<open>services/ops/integrity_checks.py\<close>), the metric
  runner (\<open>_metric_runner.py\<close>), the transition-only Discord alert
  (\<open>health_alert_service.py\<close> with \<open>pipeline_health_snapshot_repository.py\<close>) and the daily log
  digest (\<open>log_analysis_service.py\<close>). The integrity queries, Loki, the language model and Discord are
  parameters. Emoji and punctuation outside ASCII are written as code points.
\<close>

section \<open>The report envelope\<close>

text \<open>
  The details of a row, as far as the alert reads them: a falsy value, a list (its length), or another
  value (its text).
\<close>

datatype details = NoDetails | Rows nat | Shown ustr

record check_row =
  cr_name :: ustr
  cr_severity :: string
  cr_count :: "rat option"
  cr_details :: details

record envelope =
  en_check_set :: ustr
  en_total :: nat
  en_error_count :: nat
  en_warn_count :: nat
  en_ok_count :: nat
  en_errors :: "check_row list"
  en_warnings :: "check_row list"
  en_passed :: "check_row list"
  en_rows :: "check_row list"

definition build_report :: "ustr \<Rightarrow> check_row list \<Rightarrow> envelope" where
  "build_report check_set rows =
     (let errors = filter (\<lambda>r. cr_severity r = ''error'') rows;
          warnings = filter (\<lambda>r. cr_severity r = ''warn'') rows;
          passed = filter (\<lambda>r. cr_severity r = ''ok'') rows
      in \<lparr>en_check_set = check_set, en_total = length rows, en_error_count = length errors,
          en_warn_count = length warnings, en_ok_count = length passed, en_errors = errors,
          en_warnings = warnings, en_passed = passed, en_rows = rows\<rparr>)"

section \<open>The metric runner\<close>

text \<open>Splitting at a character, \<open>s.split(c)\<close>.\<close>

fun split_at :: "nat \<Rightarrow> ustr \<Rightarrow> ustr \<Rightarrow> ustr list" where
  "split_at c [] acc = [rev acc]"
| "split_at c (x # xs) acc = (if x = c then rev acc # split_at c xs [] else split_at c xs (x # acc))"

datatype name_filter = AllNames | Comma ustr | Names "ustr list"

definition normalize_names :: "name_filter \<Rightarrow> ustr list option" where
  "normalize_names m =
     (case m of
        AllNames \<Rightarrow> None
      | Comma s \<Rightarrow> Some (filter (\<lambda>x. x \<noteq> []) (map strip (split_at 44 s [])))
      | Names ns \<Rightarrow> Some ns)"

definition severity_text :: "severity \<Rightarrow> string" where
  "severity_text s = (case s of OK \<Rightarrow> ''ok'' | WARN \<Rightarrow> ''warn'' | ERROR \<Rightarrow> ''error'')"

text \<open>
  A metric function returns its headline value and the text of its details, or raises.
  \<open>details\<close> always holds the description and the category, so it is never falsy.
\<close>

definition result_to_row :: "metric_config \<Rightarrow> rat option \<times> ustr \<Rightarrow> check_row" where
  "result_to_row cfg result =
     \<lparr>cr_name = lit (mc_path cfg), cr_severity = severity_text (evaluate_rule (mc_severity cfg) (fst result)),
      cr_count = fst result, cr_details = Shown (snd result)\<rparr>"

definition failed_row :: "metric_config \<Rightarrow> ustr \<Rightarrow> check_row" where
  "failed_row cfg shown =
     \<lparr>cr_name = lit (mc_path cfg), cr_severity = ''error'', cr_count = None, cr_details = Shown shown\<rparr>"

text \<open>The registered paths that the filter names.\<close>

definition named_paths :: "name_filter \<Rightarrow> (string, metric_config) dict \<Rightarrow> string list option" where
  "named_paths m reg = map_option (\<lambda>ns. filter (\<lambda>p. lit p \<in> set ns) (dkeys reg)) (normalize_names m)"

definition run_metric_report ::
  "ustr \<Rightarrow> string \<Rightarrow> name_filter \<Rightarrow> string option \<Rightarrow> (string, metric_config) dict
    \<Rightarrow> (metric_config \<Rightarrow> (rat option \<times> ustr) res) \<Rightarrow> (pyexc \<Rightarrow> ustr) \<Rightarrow> envelope res" where
  "run_metric_report check_set pre metrics category reg invoke shown =
     map_sum id (\<lambda>selected.
        build_report check_set
          (map (\<lambda>cfg. case invoke cfg of
                        Inl e \<Rightarrow> failed_row cfg (shown e)
                      | Inr result \<Rightarrow> result_to_row cfg result) selected))
       (select_metrics (named_paths metrics reg) category (Some pre) reg)"

section \<open>Health alerts\<close>

definition derive_status :: "nat \<Rightarrow> nat \<Rightarrow> severity" where
  "derive_status errs warns = (if errs > 0 then ERROR else if warns > 0 then WARN else OK)"

definition derive_pipeline :: "ustr \<Rightarrow> ustr" where
  "derive_pipeline check_set =
     (let prefix = takeWhile (\<lambda>c. c \<noteq> 95) check_set
      in if prefix \<in> {lit ''scryfall'', lit ''mtgjson'', lit ''mtgstock'', lit ''pricing''}
         then prefix else lit ''infrastructure'')"

datatype verdict = Baseline | Unchanged | Degraded | Recovered

definition classify_transition :: "severity option \<Rightarrow> severity \<Rightarrow> verdict" where
  "classify_transition prior cur =
     (case prior of
        None \<Rightarrow> Baseline
      | Some prev \<Rightarrow> if rank cur = rank prev then Unchanged
                     else if rank cur > rank prev then Degraded else Recovered)"

definition icon :: "severity \<Rightarrow> ustr" where
  "icon s = (case s of OK \<Rightarrow> [9989] | WARN \<Rightarrow> [9888, 65039] | ERROR \<Rightarrow> [10060])"

record transition =
  tr_check_set :: ustr
  tr_pipeline :: ustr
  tr_from :: severity
  tr_to :: severity
  tr_summary :: ustr

definition format_line :: "transition \<Rightarrow> ustr" where
  "format_line t =
     [183, 32] @ tr_check_set t @ lit '': '' @ icon (tr_from t) @ [32, 8594, 32] @ icon (tr_to t)
     @ lit '' ('' @ tr_summary t @ lit '')''"

text \<open>The lines for one kind of transition: the first five, and a count of the others.\<close>

definition block_lines :: "ustr \<Rightarrow> transition list \<Rightarrow> ustr list" where
  "block_lines run_id items =
     map format_line (take 5 items) @
     (if length items > 5
      then [[8230] @ lit '' and '' @ str_nat (length items - 5) @ lit '' more (run_id='' @ run_id @ lit '')'']
      else [])"

definition format_discord_payload ::
  "ustr \<Rightarrow> transition list \<Rightarrow> transition list \<Rightarrow> ustr \<Rightarrow> ustr option" where
  "format_discord_payload captured degraded recovered run_id =
     (if degraded = [] \<and> recovered = [] then None
      else Some (join [10]
        (if degraded \<noteq> [] \<and> recovered \<noteq> [] then
           ([9888, 65039] @ lit '' Pipeline health changed '' @ [8212, 32] @ captured)
           # (lit ''Degraded:'' # block_lines run_id degraded)
           @ (lit ''Recovered:'' # block_lines run_id recovered)
         else if degraded \<noteq> [] then
           ([9888, 65039] @ lit '' Pipeline health degraded '' @ [8212, 32] @ captured)
           # block_lines run_id degraded
         else
           ([9989] @ lit '' Pipeline health recovered '' @ [8212, 32] @ captured)
           # block_lines run_id recovered)))"

text \<open>
  The stored report: an envelope, or what is kept of an exception. Only an envelope has the counts
  that \<open>_delta_summary\<close> reads.
\<close>

datatype report = Envelope envelope | Crash ustr ustr

definition show_details :: "details \<Rightarrow> ustr" where
  "show_details d =
     (case d of NoDetails \<Rightarrow> [] | Rows n \<Rightarrow> lit ''['' @ str_nat n @ lit '' rows]'' | Shown s \<Rightarrow> s)"

definition delta_summary :: "report \<Rightarrow> ustr" where
  "delta_summary r =
     (let (err, warns, errors) =
        (case r of Envelope e \<Rightarrow> (en_error_count e, en_warn_count e, en_errors e) | Crash _ _ \<Rightarrow> (0, 0, []))
      in if err > 0 then
           (case errors of
              worst # _ \<Rightarrow>
                rev (dropWhile is_space (rev
                  (str_nat err @ lit '' new error(s), top: '' @ cr_name worst @ [32]
                   @ take 60 (show_details (cr_details worst)))))
            | [] \<Rightarrow> str_nat err @ lit '' new error(s)'')
         else if warns > 0 then str_nat warns @ lit '' new warning(s)''
         else lit ''all clear'')"

record snapshot =
  sn_run :: ustr
  sn_check_set :: ustr
  sn_pipeline :: ustr
  sn_status :: severity
  sn_errors :: nat
  sn_warns :: nat
  sn_total :: nat
  sn_report :: report

definition row_from_report :: "ustr \<Rightarrow> envelope \<Rightarrow> snapshot" where
  "row_from_report run_id e =
     (let cs = (if en_check_set e = [] then lit ''unknown'' else en_check_set e)
      in \<lparr>sn_run = run_id, sn_check_set = cs, sn_pipeline = derive_pipeline cs,
          sn_status = derive_status (en_error_count e) (en_warn_count e),
          sn_errors = en_error_count e, sn_warns = en_warn_count e, sn_total = en_total e,
          sn_report = Envelope e\<rparr>)"

definition row_from_exception :: "ustr \<Rightarrow> ustr \<Rightarrow> ustr \<Rightarrow> snapshot" where
  "row_from_exception run_id key exc =
     (let p = lit ''ops.integrity.''; cs = (if prefix p key then drop (length p) key else key)
      in \<lparr>sn_run = run_id, sn_check_set = cs, sn_pipeline = derive_pipeline cs, sn_status = ERROR,
          sn_errors = 1, sn_warns = 0, sn_total = 0, sn_report = Crash cs exc\<rparr>)"

text \<open>The snapshot table, oldest first; the latest snapshot of a check set from another run.\<close>

definition insert_snapshots :: "snapshot list \<Rightarrow> snapshot list \<Rightarrow> snapshot list" where
  "insert_snapshots rows table = table @ rows"

definition latest_for_check_set :: "ustr \<Rightarrow> ustr \<Rightarrow> snapshot list \<Rightarrow> snapshot option" where
  "latest_for_check_set check_set run_id table =
     find (\<lambda>s. sn_check_set s = check_set \<and> sn_run s \<noteq> run_id) (rev table)"

text \<open>The services to run: their keys and what each of them returns or raises.\<close>

definition discover_integrity_services :: "string list \<Rightarrow> string list" where
  "discover_integrity_services services = sort (filter (prefix ''ops.integrity.'') services)"

definition snapshot_rows :: "ustr \<Rightarrow> (string \<Rightarrow> envelope res) \<Rightarrow> (pyexc \<Rightarrow> ustr) \<Rightarrow> string list \<Rightarrow> snapshot list" where
  "snapshot_rows run_id run_service shown keys =
     map (\<lambda>key. case run_service key of
            Inl e \<Rightarrow> row_from_exception run_id (lit key) (shown e)
          | Inr e \<Rightarrow> row_from_report run_id e) keys"

definition prior_status :: "ustr \<Rightarrow> snapshot list \<Rightarrow> snapshot \<Rightarrow> severity option" where
  "prior_status run_id table r = map_option sn_status (latest_for_check_set (sn_check_set r) run_id table)"

definition transition_of :: "ustr \<Rightarrow> snapshot list \<Rightarrow> snapshot \<Rightarrow> transition" where
  "transition_of run_id table r =
     \<lparr>tr_check_set = sn_check_set r, tr_pipeline = sn_pipeline r,
      tr_from = (case prior_status run_id table r of None \<Rightarrow> OK | Some s \<Rightarrow> s),
      tr_to = sn_status r, tr_summary = delta_summary (sn_report r)\<rparr>"

record alert_result =
  al_total :: nat
  al_degraded :: "transition list"
  al_recovered :: "transition list"
  al_baselines :: "ustr list"
  al_alerted :: bool
  al_posted :: "ustr option"

text \<open>
  \<open>run_alert_check\<close>: \<open>post\<close> is the HTTP status of the message or an exception; \<open>al_posted\<close> records the
  message that was sent, if any.
\<close>

definition run_alert_check ::
  "ustr \<Rightarrow> ustr \<Rightarrow> string list \<Rightarrow> (string \<Rightarrow> envelope res) \<Rightarrow> (pyexc \<Rightarrow> ustr) \<Rightarrow> ustr option
    \<Rightarrow> (ustr \<Rightarrow> nat res) \<Rightarrow> snapshot list \<Rightarrow> alert_result \<times> snapshot list" where
  "run_alert_check run_id captured services run_service shown webhook post table0 =
     (let rows = snapshot_rows run_id run_service shown (discover_integrity_services services);
          table = insert_snapshots rows table0;
          verdict = (\<lambda>r. classify_transition (prior_status run_id table r) (sn_status r));
          degraded = map (transition_of run_id table) (filter (\<lambda>r. verdict r = Degraded) rows);
          recovered = map (transition_of run_id table) (filter (\<lambda>r. verdict r = Recovered) rows);
          payload = format_discord_payload captured degraded recovered run_id;
          sent = (case webhook of None \<Rightarrow> None | Some url \<Rightarrow> if url = [] then None else payload)
      in (\<lparr>al_total = length rows, al_degraded = degraded, al_recovered = recovered,
           al_baselines = map sn_check_set (filter (\<lambda>r. verdict r = Baseline) rows),
           al_alerted = (case sent of None \<Rightarrow> False
                         | Some body \<Rightarrow> (case post body of Inl _ \<Rightarrow> False | Inr st \<Rightarrow> 200 \<le> st \<and> st < 300)),
           al_posted = sent\<rparr>, table))"

section \<open>The log digest\<close>

text \<open>A Loki response: the streams with their (timestamp, line) values.\<close>

definition extract_error_lines :: "(ustr \<times> ustr) list list \<Rightarrow> ustr list" where
  "extract_error_lines streams = concat (map (map snd) streams)"

definition format_discord_message :: "ustr \<Rightarrow> ustr \<Rightarrow> nat \<Rightarrow> nat \<Rightarrow> ustr" where
  "format_discord_message now claude_text errs window_hours =
     take 2000
       ([129302] @ lit '' Daily log digest '' @ [8212, 32] @ now @ [10]
        @ lit ''Errors in last '' @ str_nat window_hours @ lit ''h: '' @ str_nat errs @ [10, 10]
        @ claude_text)"

text \<open>
  The daily summary: \<open>loki\<close> and \<open>webhook\<close> are settings, \<open>query\<close> the Loki response, \<open>summarise\<close> the
  language model's answer to the log lines. The result says how many errors there were, and what was
  posted; \<open>None\<close> when Loki is not configured.
\<close>

definition run_daily_log_summary ::
  "ustr option \<Rightarrow> (ustr \<times> ustr) list list res \<Rightarrow> (ustr list \<Rightarrow> ustr res) \<Rightarrow> ustr \<Rightarrow> ustr option
    \<Rightarrow> (nat \<times> ustr option) option res" where
  "run_daily_log_summary loki query summarise now webhook =
     (case loki of
        None \<Rightarrow> Inr None
      | Some url \<Rightarrow>
          if url = [] then Inr None
          else bind_res query (\<lambda>response.
            let lines = extract_error_lines response; n = length lines in
            bind_res
              (if n = 0
               then Inr (format_discord_message now
                           (lit ''No errors logged in the last 24 hours. All systems nominal.'') 0 24)
               else map_sum id (\<lambda>s. format_discord_message now s n 24) (summarise (take 500 lines)))
              (\<lambda>payload. Inr (Some (n, case webhook of
                   None \<Rightarrow> None | Some w \<Rightarrow> if w = [] then None else Some payload)))))"

section \<open>Properties\<close>

lemma three_filters:
  assumes "\<forall>r\<in>set rows. sev r \<in> {a, b, c}" "a \<noteq> b" "b \<noteq> c" "a \<noteq> c"
  shows "mset (filter (\<lambda>r. sev r = a) rows) + mset (filter (\<lambda>r. sev r = b) rows)
           + mset (filter (\<lambda>r. sev r = c) rows) = mset rows"
  using assms by (induction rows) auto

text \<open>
  A report partitions its rows by severity: with the three known severities every row is in
  exactly one of the lists, with its multiplicity, and the counts are the lengths of the lists.
\<close>

theorem build_report_partition:
  assumes "\<forall>r\<in>set rows. cr_severity r \<in> {''error'', ''warn'', ''ok''}"
  shows "(let rep = build_report cs rows in
     mset (en_errors rep) + mset (en_warnings rep) + mset (en_passed rep) = mset rows \<and>
     en_error_count rep = length (en_errors rep) \<and> en_warn_count rep = length (en_warnings rep) \<and>
     en_ok_count rep = length (en_passed rep) \<and>
     en_total rep = en_error_count rep + en_warn_count rep + en_ok_count rep)"
proof -
  have "''error'' \<noteq> ''warn''" "''warn'' \<noteq> ''ok''" "''error'' \<noteq> ''ok''" by simp_all
  note m = three_filters [OF assms this]
  have "length rows = length (filter (\<lambda>r. cr_severity r = ''error'') rows)
      + length (filter (\<lambda>r. cr_severity r = ''warn'') rows) + length (filter (\<lambda>r. cr_severity r = ''ok'') rows)"
    using arg_cong [OF m, of size] by (simp only: size_union size_mset)
  then show ?thesis using m by (simp add: build_report_def Let_def)
qed

text \<open>
  A metric report has one row per selected metric, in the order of the paths, and a metric that
  raises costs only its own row, which is an error.
\<close>

theorem metric_report_rows:
  assumes "select_metrics (named_paths metrics reg) category (Some pre) reg = Inr selected"
  shows "\<exists>rep. run_metric_report cs pre metrics category reg invoke shown = Inr rep \<and>
     map cr_name (en_rows rep) = map (lit \<circ> mc_path) selected \<and>
     (\<forall>i < length selected. \<forall>e. invoke (selected ! i) = Inl e \<longrightarrow>
        cr_severity (en_rows rep ! i) = ''error'' \<and> cr_count (en_rows rep ! i) = None) \<and>
     (\<forall>i < length selected. \<forall>v d. invoke (selected ! i) = Inr (v, d) \<longrightarrow>
        cr_severity (en_rows rep ! i) = severity_text (evaluate_rule (mc_severity (selected ! i)) v) \<and>
        cr_count (en_rows rep ! i) = v)"
  using assms
  by (auto simp: run_metric_report_def build_report_def Let_def failed_row_def result_to_row_def comp_def
      split: sum.split)

lemma snapshot_rows_run: "r \<in> set (snapshot_rows run_id rs shown keys) \<Longrightarrow> sn_run r = run_id"
  by (auto simp: snapshot_rows_def row_from_exception_def row_from_report_def Let_def split: sum.splits)

lemma prior_from_table:
  assumes "\<forall>r\<in>set rows. sn_run r = run_id"
  shows "prior_status run_id (insert_snapshots rows table) r = prior_status run_id table r"
proof -
  have "find (\<lambda>s. sn_check_set s = cs \<and> sn_run s \<noteq> run_id) (rev rows) = None" for cs
    using assms by (auto simp: find_None_iff)
  then show ?thesis
    by (simp add: prior_status_def latest_for_check_set_def insert_snapshots_def find_append)
qed

text \<open>
  An alert is posted only for transitions: when no check set got a status other than that of its
  previous run, nothing is sent, whatever the statuses are.
\<close>

theorem alert_only_on_transition:
  assumes "\<forall>r \<in> set (snapshot_rows run_id rs shown (discover_integrity_services services)).
             prior_status run_id table r \<in> {None, Some (sn_status r)}"
    and "run_alert_check run_id captured services rs shown webhook post table = (res, table')"
  shows "al_posted res = None \<and> \<not> al_alerted res \<and> al_degraded res = [] \<and> al_recovered res = []"
proof -
  let ?rows = "snapshot_rows run_id rs shown (discover_integrity_services services)"
  let ?table = "insert_snapshots ?rows table"
  have prior: "prior_status run_id ?table r = prior_status run_id table r" for r
    by (rule prior_from_table) (simp add: snapshot_rows_run)
  have "classify_transition (prior_status run_id ?table r) (sn_status r) \<in> {Baseline, Unchanged}"
    if "r \<in> set ?rows" for r
    using assms(1) that unfolding prior by (auto simp: classify_transition_def)
  then have none: "filter (\<lambda>r. classify_transition (prior_status run_id ?table r) (sn_status r) = v) ?rows = []"
    if "v \<in> {Degraded, Recovered}" for v
    using that by (fastforce simp: filter_empty_conv)
  have res: "res = fst (run_alert_check run_id captured services rs shown webhook post table)"
    using assms(2) by simp
  show ?thesis
    unfolding res run_alert_check_def Let_def
    by (simp add: none format_discord_payload_def split: option.split)
qed

text \<open>
  C5. The verdict compares severities: a check set is reported degraded exactly when its status is
  worse than before, recovered exactly when it is better, and every other one is not reported.
\<close>

theorem transitions_reported:
  assumes "run_alert_check run_id captured services rs shown webhook post table = (res, table')"
  shows "let rows = snapshot_rows run_id rs shown (discover_integrity_services services) in
     al_total res = length rows \<and> table' = table @ rows \<and>
     map tr_check_set (al_degraded res) =
       map sn_check_set (filter (\<lambda>r. case prior_status run_id table r of None \<Rightarrow> False | Some s \<Rightarrow> s < sn_status r) rows) \<and>
     map tr_check_set (al_recovered res) =
       map sn_check_set (filter (\<lambda>r. case prior_status run_id table r of None \<Rightarrow> False | Some s \<Rightarrow> sn_status r < s) rows)"
proof -
  let ?rows = "snapshot_rows run_id rs shown (discover_integrity_services services)"
  let ?table = "insert_snapshots ?rows table"
  have prior: "prior_status run_id ?table r = prior_status run_id table r" for r
    by (rule prior_from_table) (simp add: snapshot_rows_run)
  have d: "classify_transition p s = Degraded \<longleftrightarrow> (case p of None \<Rightarrow> False | Some q \<Rightarrow> q < s)"
    and r: "classify_transition p s = Recovered \<longleftrightarrow> (case p of None \<Rightarrow> False | Some q \<Rightarrow> s < q)" for p s
    by (auto simp: classify_transition_def less_severity_def split: option.split)
  have set: "tr_check_set (transition_of run_id t x) = sn_check_set x" for t x
    by (simp add: transition_of_def)
  have res: "res = fst (run_alert_check run_id captured services rs shown webhook post table)"
    "table' = snd (run_alert_check run_id captured services rs shown webhook post table)"
    using assms by simp_all
  show ?thesis
    unfolding res run_alert_check_def Let_def
    by (simp add: prior d r set comp_def) (simp add: insert_snapshots_def)
qed

text \<open>
  The alert for a check service that crashed says "all clear": the stored exception has no error
  count, which the summary takes for zero, so the line of a check set that just went to error ends in
  a reassurance.
\<close>

theorem crash_summary_all_clear:
  assumes "key \<in> set (discover_integrity_services services)" "rs key = Inl e"
    and "prior_status run_id table (row_from_exception run_id (lit key) (shown e)) = Some s" "s \<noteq> ERROR"
    and "run_alert_check run_id captured services rs shown webhook post table = (res, table')"
  shows "\<exists>t \<in> set (al_degraded res).
     tr_check_set t = sn_check_set (row_from_exception run_id (lit key) (shown e)) \<and>
     tr_to t = ERROR \<and> tr_summary t = lit ''all clear''"
proof -
  let ?rows = "snapshot_rows run_id rs shown (discover_integrity_services services)"
  let ?table = "insert_snapshots ?rows table"
  let ?row = "row_from_exception run_id (lit key) (shown e)"
  have prior: "prior_status run_id ?table r = prior_status run_id table r" for r
    by (rule prior_from_table) (simp add: snapshot_rows_run)
  have row: "?row \<in> set ?rows"
    using assms(1,2) by (force simp: snapshot_rows_def)
  have st: "sn_status ?row = ERROR" "sn_report ?row = Crash (sn_check_set ?row) (shown e)"
    by (simp_all add: row_from_exception_def Let_def)
  have deg: "classify_transition (prior_status run_id ?table ?row) (sn_status ?row) = Degraded"
    using assms(3,4) by (cases s) (auto simp: prior st classify_transition_def rank_def)
  have "res = fst (run_alert_check run_id captured services rs shown webhook post table)"
    using assms(5) by simp
  then have "transition_of run_id ?table ?row \<in> set (al_degraded res)"
    using row deg by (simp add: run_alert_check_def Let_def)
  then show ?thesis
    by (rule bexI [rotated]) (simp add: transition_of_def st delta_summary_def)
qed

lemma length_digest: "length (format_discord_message now answer n h) \<le> 2000"
  unfolding format_discord_message_def by (simp only: length_take min.cobounded2)

text \<open>
  The daily digest fits into a Discord message: it has at most 2000 characters, whatever the
  language model wrote.
\<close>

theorem digest_bounded:
  assumes "run_daily_log_summary loki query summarise now webhook = Inr (Some (n, Some body))"
  shows "length body \<le> 2000"
  using assms
  by (auto simp: run_daily_log_summary_def Let_def map_sum_def length_digest
      split: option.splits if_splits sum.splits)

section \<open>Samples\<close>

theorem build_report_partition_witness:
  "en_total (build_report (lit ''x'') [\<lparr>cr_name = [], cr_severity = ''ok'', cr_count = None, cr_details = NoDetails\<rparr>]) = 1"
  using build_report_partition [of "[\<lparr>cr_name = [], cr_severity = ''ok'', cr_count = None, cr_details = NoDetails\<rparr>]" "lit ''x''"]
  by (simp add: build_report_def Let_def)

definition demo_metric :: metric_config where
  "demo_metric = \<lparr>mc_path = ''m.a'', mc_category = ''health'', mc_description = '''', mc_severity = None,
                  mc_repositories = []\<rparr>"

theorem metric_report_rows_witness:
  "\<exists>rep. run_metric_report (lit ''x'') ''m.'' AllNames None [(''m.a'', demo_metric)] (\<lambda>_. Inl DbErr) (\<lambda>_. []) = Inr rep \<and>
     map cr_name (en_rows rep) = [lit ''m.a''] \<and> cr_severity (en_rows rep ! 0) = ''error''"
proof -
  have "select_metrics (named_paths AllNames [(''m.a'', demo_metric)]) None (Some ''m.'') [(''m.a'', demo_metric)] = Inr [demo_metric]"
    by (simp add: select_metrics_def named_paths_def normalize_names_def)
  from metric_report_rows [OF this, of "lit ''x''" "\<lambda>_. Inl DbErr" "\<lambda>_. []"]
  show ?thesis by (auto simp: demo_metric_def)
qed

definition demo_snapshot :: "severity \<Rightarrow> snapshot" where
  "demo_snapshot st = (row_from_exception (lit ''run0'') (lit ''ops.integrity.x'') [])\<lparr>sn_status := st\<rparr>"

lemmas health_eval =
  snapshot_rows_def discover_integrity_services_def prior_status_def latest_for_check_set_def
  row_from_exception_def demo_snapshot_def Let_def

theorem alert_only_on_transition_witness:
  "al_posted (fst (run_alert_check (lit ''run1'') [] [''ops.integrity.x''] (\<lambda>_. Inl DbErr) (\<lambda>_. [])
     (Some (lit ''url'')) (\<lambda>_. Inr 204) [demo_snapshot ERROR])) = None"
  using alert_only_on_transition [of "lit ''run1''" "\<lambda>_. Inl DbErr" "\<lambda>_. []" "[''ops.integrity.x'']"
      "[demo_snapshot ERROR]" "[]" "Some (lit ''url'')" "\<lambda>_. Inr 204", OF _ prod.collapse [symmetric]]
  by (simp add: health_eval)

theorem transitions_reported_witness:
  "map tr_check_set (al_degraded (fst (run_alert_check (lit ''run1'') [] [''ops.integrity.x''] (\<lambda>_. Inl DbErr) (\<lambda>_. [])
     None (\<lambda>_. Inr 204) [demo_snapshot OK]))) = [lit ''x'']"
  using transitions_reported [of "lit ''run1''" "[]" "[''ops.integrity.x'']" "\<lambda>_. Inl DbErr" "\<lambda>_. []"
      None "\<lambda>_. Inr 204" "[demo_snapshot OK]", OF prod.collapse [symmetric]]
  by (simp add: health_eval less_severity_def rank_def)

theorem crash_summary_all_clear_witness:
  "\<exists>t \<in> set (al_degraded (fst (run_alert_check (lit ''run1'') [] [''ops.integrity.x''] (\<lambda>_. Inl DbErr) (\<lambda>_. [])
     None (\<lambda>_. Inr 204) [demo_snapshot OK]))). tr_to t = ERROR \<and> tr_summary t = lit ''all clear''"
  using crash_summary_all_clear [of "''ops.integrity.x''" "[''ops.integrity.x'']" "\<lambda>_. Inl DbErr" DbErr "lit ''run1''"
      "[demo_snapshot OK]" "\<lambda>_. []" OK "[]" None "\<lambda>_. Inr 204", OF _ _ _ _ prod.collapse [symmetric]]
  by (auto simp: health_eval)

theorem digest_bounded_witness:
  "length (format_discord_message [] (replicate 3000 65) 1 24) \<le> 2000"
  using digest_bounded [of "Some [1]" "Inr [[([], [65])]]" "\<lambda>_. Inr (replicate 3000 65)" "[]" "Some [1]" 1
      "format_discord_message [] (replicate 3000 65) 1 24"]
  by (simp add: run_daily_log_summary_def extract_error_lines_def)

end
