(* ===== verification/Auth_Sessions.thy ===== *)
theory Auth_Sessions
  imports Prelude
begin

text \<open>
  Users, sessions, refresh tokens and password resets: \<open>api/services/auth/\<close> with the repositories of
  \<open>api/repositories/auth/\<close> and the SQL functions of \<open>schemas/core/03_users.sql\<close> that they call.

  Times are seconds; \<open>now()\<close> reads \<open>au_clock\<close>. Ids are numbers drawn from \<open>au_next\<close>. The foreign
  functions are parameters: \<open>checkpw\<close> and \<open>hashpw\<close> (bcrypt), \<open>sha\<close> (SHA-256) and \<open>encode\<close> (PyJWT); raw
  reset tokens come from the environment. A statement that raises leaves the tables as they were.
\<close>

section \<open>Tables\<close>

record user =
  u_id :: nat
  u_name :: string
  u_email :: string
  u_hash :: string
  u_disabled :: bool

record session =
  ss_id :: nat
  ss_user :: nat
  ss_created :: nat
  ss_expires :: nat
  ss_ip :: string
  ss_agent :: string
  ss_active :: bool

record refresh_token =
  rt_id :: nat
  rt_session :: nat
  rt_token :: string
  rt_expires :: nat
  rt_used :: bool
  rt_revoked :: bool

record reset_token =
  pr_id :: nat
  pr_user :: nat
  pr_hash :: string
  pr_expires :: nat
  pr_used_at :: "nat option"

record auth_db =
  au_clock :: nat
  au_next :: nat
  au_users :: "user list"
  au_sessions :: "session list"
  au_tokens :: "refresh_token list"
  au_resets :: "reset_token list"
  au_mails :: "(string \<times> string) list"

text \<open>The view \<open>v_active_sessions\<close>: a session, one of its refresh tokens and its user.\<close>

type_synonym active_row = "session \<times> refresh_token \<times> user"

definition active_rows :: "auth_db \<Rightarrow> active_row list" where
  "active_rows db =
     concat (map (\<lambda>s. concat (map (\<lambda>t. map (\<lambda>u. (s, t, u))
         (filter (\<lambda>u. u_id u = ss_user s) (au_users db)))
       (filter (\<lambda>t. rt_session t = ss_id s \<and> \<not> rt_revoked t \<and> \<not> rt_used t) (au_tokens db))))
     (filter (\<lambda>s. ss_active s \<and> au_clock db < ss_expires s) (au_sessions db)))"

definition rows_of_session :: "auth_db \<Rightarrow> nat \<Rightarrow> active_row list" where
  "rows_of_session db sid = filter (\<lambda>(s, _, _). ss_id s = sid) (active_rows db)"

definition rows_of_user :: "auth_db \<Rightarrow> nat \<Rightarrow> active_row list" where
  "rows_of_user db uid = filter (\<lambda>(s, _, u). u_id u = uid) (active_rows db)"

definition rows_for_credentials :: "auth_db \<Rightarrow> nat \<Rightarrow> string \<Rightarrow> string \<Rightarrow> active_row list" where
  "rows_for_credentials db sid ip agent =
     filter (\<lambda>(s, _, _). ss_id s = sid \<and> ss_agent s = agent \<and> ss_ip s = ip) (active_rows db)"

section \<open>The SQL functions\<close>

definition insert_add_token ::
  "nat \<Rightarrow> nat \<Rightarrow> nat \<Rightarrow> nat \<Rightarrow> string \<Rightarrow> string \<Rightarrow> string \<Rightarrow> nat \<Rightarrow> (auth_db, unit) prog" where
  "insert_add_token sid uid created expires ip agent token token_expires db =
     (Inr (),
      db\<lparr>au_sessions := au_sessions db @
           [\<lparr>ss_id = sid, ss_user = uid, ss_created = created, ss_expires = expires, ss_ip = ip,
             ss_agent = agent, ss_active = True\<rparr>],
         au_tokens := au_tokens db @
           [\<lparr>rt_id = au_next db, rt_session = sid, rt_token = token, rt_expires = token_expires,
             rt_used = False, rt_revoked = False\<rparr>],
         au_next := Suc (au_next db)\<rparr>)"

definition inactivate_session :: "nat \<Rightarrow> (auth_db, unit) prog" where
  "inactivate_session sid db =
     (if sid \<notin> ss_id ` set (au_sessions db) then (Inl DbErr, db)
      else (Inr (),
        db\<lparr>au_sessions := map (\<lambda>s. if ss_id s = sid then s\<lparr>ss_active := False\<rparr> else s) (au_sessions db),
           au_tokens := map (\<lambda>t. if rt_session t = sid then t\<lparr>rt_revoked := True\<rparr> else t) (au_tokens db)\<rparr>))"

definition rotate_refresh_token :: "nat \<Rightarrow> nat \<Rightarrow> string \<Rightarrow> nat \<Rightarrow> (auth_db, unit) prog" where
  "rotate_refresh_token old sid token expires db =
     (Inr (),
      db\<lparr>au_tokens := map (\<lambda>t. if rt_id t = old then t\<lparr>rt_used := True\<rparr> else t) (au_tokens db) @
           [\<lparr>rt_id = au_next db, rt_session = sid, rt_token = token, rt_expires = expires,
             rt_used = False, rt_revoked = False\<rparr>],
         au_next := Suc (au_next db)\<rparr>)"

section \<open>Sessions\<close>

datatype claims = SessionClaims nat | UserClaims string nat

definition week :: nat where
  "week = 7 * 24 * 3600"

text \<open>The first row of a query, or \<open>None\<close>.\<close>

definition first_row :: "'a list \<Rightarrow> 'a option" where
  "first_row xs = (case xs of [] \<Rightarrow> None | x # _ \<Rightarrow> Some x)"

definition validate_session_credentials :: "nat \<Rightarrow> string \<Rightarrow> string \<Rightarrow> (auth_db, active_row) prog" where
  "validate_session_credentials sid ip agent db =
     (case first_row (rows_for_credentials db sid ip agent) of
        None \<Rightarrow> (Inl SessionNotFoundErr, db)
      | Some (s, t, u) \<Rightarrow>
          if ss_expires s < au_clock db then (Inl SessionExpiredErr, db) else (Inr (s, t, u), db))"

definition get_by_id :: "auth_db \<Rightarrow> nat \<Rightarrow> user option" where
  "get_by_id db uid = find (\<lambda>u. u_id u = uid \<and> \<not> u_disabled u) (au_users db)"

definition get_user_from_session :: "nat \<Rightarrow> string \<Rightarrow> string \<Rightarrow> (auth_db, user) prog" where
  "get_user_from_session sid ip agent =
     bindp (validate_session_credentials sid ip agent) (\<lambda>(s, t, u) db.
       case get_by_id db (u_id u) of
         None \<Rightarrow> (Inl UserSessionNotFoundErr, db)
       | Some usr \<Rightarrow> (Inr usr, db))"

definition delete_session :: "nat \<Rightarrow> (auth_db, unit) prog" where
  "delete_session sid = inactivate_session sid"

definition insert_session ::
  "nat \<Rightarrow> nat \<Rightarrow> string \<Rightarrow> string \<Rightarrow> string \<Rightarrow> nat \<Rightarrow> (auth_db, nat \<times> string) prog" where
  "insert_session sid uid ip agent token token_expires db =
     bindp (insert_add_token sid uid (au_clock db) (au_clock db + 7200) ip agent token token_expires)
       (\<lambda>_ db'. case first_row (rows_of_session db' sid) of
          None \<Rightarrow> (Inl RuntimeErr, db')
        | Some (s, t, _) \<Rightarrow> (Inr (ss_id s, rt_token t), db')) db"

definition rotate_session_token ::
  "(claims \<Rightarrow> nat \<Rightarrow> string) \<Rightarrow> nat \<Rightarrow> nat \<Rightarrow> nat \<Rightarrow> (auth_db, nat \<times> string) prog" where
  "rotate_session_token encode sid expire_time token_id db =
     (let token = encode (SessionClaims sid) (au_clock db + week)
      in bindp (rotate_refresh_token token_id sid token expire_time) (\<lambda>_. ret (sid, token)) db)"

definition create_new_session ::
  "(claims \<Rightarrow> nat \<Rightarrow> string) \<Rightarrow> user \<Rightarrow> string \<Rightarrow> string \<Rightarrow> nat \<Rightarrow> (auth_db, nat \<times> string) prog" where
  "create_new_session encode usr ip agent expire_time db =
     (let sid = au_next db; token = encode (SessionClaims sid) (au_clock db + week)
      in bindp (insert_session sid (u_id usr) ip agent token expire_time) (\<lambda>(i, _). ret (i, token))
           (db\<lparr>au_next := Suc sid\<rparr>))"

text \<open>
  \<open>validate_token_and_get_session_id\<close>: \<open>decode_access_token\<close> takes the token, the key and the
  algorithm, and is called with the token only; the resulting TypeError is caught with every other
  exception.
\<close>

definition validate_token_and_get_session_id :: "string \<Rightarrow> (auth_db, nat) prog" where
  "validate_token_and_get_session_id token = catchp (throw TypeErr) (\<lambda>_. throw InvalidTokenErr)"

definition read_session :: "auth_db \<Rightarrow> nat \<Rightarrow> active_row list option" where
  "read_session db sid = (let rows = rows_of_session db sid in if rows = [] then None else Some rows)"

record refreshed =
  rf_session :: nat
  rf_refresh :: string
  rf_access :: string

definition refresh_session ::
  "(claims \<Rightarrow> nat \<Rightarrow> string) \<Rightarrow> nat \<Rightarrow> nat \<Rightarrow> string \<Rightarrow> string \<Rightarrow> (auth_db, refreshed) prog" where
  "refresh_session encode access_minutes sid ip agent =
     bindp (validate_session_credentials sid ip agent) (\<lambda>(s, t, u) db.
       case get_by_id db (u_id u) of
         None \<Rightarrow> (Inl SessionUserNotFoundErr, db)
       | Some usr \<Rightarrow>
           bindp (rotate_session_token encode (ss_id s) (au_clock db + week) (rt_id t))
             (\<lambda>(i, token). ret
                \<lparr>rf_session = i, rf_refresh = token,
                 rf_access = encode (UserClaims (u_name usr) (u_id usr)) (au_clock db + access_minutes * 60)\<rparr>) db)"

section \<open>Login and logout\<close>

definition authenticate_user ::
  "(string \<Rightarrow> string \<Rightarrow> bool) \<Rightarrow> string \<Rightarrow> string \<Rightarrow> auth_db \<Rightarrow> user option" where
  "authenticate_user checkpw username password db =
     (case (case find (\<lambda>u. u_name u = username) (au_users db) of
              None \<Rightarrow> find (\<lambda>u. u_email u = username) (au_users db)
            | Some u \<Rightarrow> Some u) of
        None \<Rightarrow> None
      | Some u \<Rightarrow>
          if \<not> checkpw password (u_hash u) then None
          else if u_disabled u then None else Some u)"

record login_result =
  li_session :: nat
  li_refresh :: string
  li_access :: string
  li_access_expires :: nat
  li_session_expires :: nat

definition login ::
  "(string \<Rightarrow> string \<Rightarrow> bool) \<Rightarrow> (claims \<Rightarrow> nat \<Rightarrow> string) \<Rightarrow> nat \<Rightarrow> string \<Rightarrow> string \<Rightarrow> string \<Rightarrow> string
    \<Rightarrow> (auth_db, login_result option) prog" where
  "login checkpw encode access_minutes username password ip agent db =
     (let expire_time = au_clock db + week; access_expires = au_clock db + access_minutes * 60 in
      case authenticate_user checkpw username password db of
        None \<Rightarrow> (Inr None, db)
      | Some usr \<Rightarrow>
          bindp
            (case first_row (rows_of_user db (u_id usr)) of
               Some (s, t, _) \<Rightarrow> rotate_session_token encode (ss_id s) expire_time (rt_id t)
             | None \<Rightarrow> create_new_session encode usr ip agent expire_time)
            (\<lambda>(sid, token). ret (Some
               \<lparr>li_session = sid, li_refresh = token,
                li_access = encode (UserClaims (u_name usr) (u_id usr)) access_expires,
                li_access_expires = access_expires, li_session_expires = expire_time\<rparr>)) db)"

definition logout :: "nat \<Rightarrow> (auth_db, bool) prog" where
  "logout sid = bindp (inactivate_session sid) (\<lambda>_ db. (Inr (rows_of_session db sid = []), db))"

section \<open>Password reset\<close>

definition invalidate_for_user :: "nat \<Rightarrow> auth_db \<Rightarrow> auth_db" where
  "invalidate_for_user uid db =
     db\<lparr>au_resets := filter (\<lambda>r. \<not> (pr_user r = uid \<and> pr_used_at r = None \<and> au_clock db < pr_expires r))
                       (au_resets db)\<rparr>"

text \<open>\<open>token_hash\<close> is UNIQUE.\<close>

definition create_reset :: "nat \<Rightarrow> string \<Rightarrow> nat \<Rightarrow> (auth_db, unit) prog" where
  "create_reset uid hash expires db =
     (if hash \<in> pr_hash ` set (au_resets db) then (Inl DbErr, db)
      else (Inr (), db\<lparr>au_resets := au_resets db @
              [\<lparr>pr_id = au_next db, pr_user = uid, pr_hash = hash, pr_expires = expires, pr_used_at = None\<rparr>],
            au_next := Suc (au_next db)\<rparr>))"

definition request_reset :: "(string \<Rightarrow> string) \<Rightarrow> string \<Rightarrow> string \<Rightarrow> (auth_db, unit) prog" where
  "request_reset sha raw email db =
     (case find (\<lambda>u. u_email u = email) (au_users db) of
        None \<Rightarrow> (Inr (), db)
      | Some u \<Rightarrow>
          bindp (create_reset (u_id u) (sha raw) (au_clock db + 1800))
            (\<lambda>_ db'. (Inr (), db'\<lparr>au_mails := au_mails db' @ [(u_email u, raw)]\<rparr>))
            (invalidate_for_user (u_id u) db))"

fun invalidate_rows :: "active_row list \<Rightarrow> (auth_db, unit) prog" where
  "invalidate_rows [] = ret ()"
| "invalidate_rows (row # rows) = bindp (inactivate_session (ss_id (fst row))) (\<lambda>_. invalidate_rows rows)"

definition invalidate_all_for_user :: "nat \<Rightarrow> (auth_db, unit) prog" where
  "invalidate_all_for_user uid db = invalidate_rows (rows_of_user db uid) db"

definition update_password :: "nat \<Rightarrow> string \<Rightarrow> auth_db \<Rightarrow> auth_db" where
  "update_password uid hash db =
     db\<lparr>au_users := map (\<lambda>u. if u_id u = uid then u\<lparr>u_hash := hash\<rparr> else u) (au_users db)\<rparr>"

definition mark_used :: "nat \<Rightarrow> auth_db \<Rightarrow> auth_db" where
  "mark_used i db =
     db\<lparr>au_resets := map (\<lambda>r. if pr_id r = i then r\<lparr>pr_used_at := Some (au_clock db)\<rparr> else r) (au_resets db)\<rparr>"

definition reset_password ::
  "(string \<Rightarrow> string) \<Rightarrow> (string \<Rightarrow> string) \<Rightarrow> string \<Rightarrow> string \<Rightarrow> (auth_db, unit) prog" where
  "reset_password sha hashpw token new_password db =
     (case find (\<lambda>r. pr_hash r = sha token) (au_resets db) of
        None \<Rightarrow> (Inl InvalidResetTokenErr, db)
      | Some r \<Rightarrow>
          if pr_used_at r \<noteq> None then (Inl InvalidResetTokenErr, db)
          else if pr_expires r < au_clock db then (Inl InvalidResetTokenErr, db)
          else invalidate_all_for_user (pr_user r)
                 (mark_used (pr_id r) (update_password (pr_user r) (hashpw new_password) db)))"

section \<open>Well-formed tables\<close>

definition auth_inv :: "auth_db \<Rightarrow> bool" where
  "auth_inv db \<longleftrightarrow>
     distinct (map ss_id (au_sessions db)) \<and> (\<forall>s\<in>set (au_sessions db). ss_id s < au_next db) \<and>
     distinct (map u_id (au_users db)) \<and>
     distinct (map pr_hash (au_resets db)) \<and> distinct (map pr_id (au_resets db)) \<and>
     (\<forall>r\<in>set (au_resets db). pr_id r < au_next db) \<and>
     rt_session ` set (au_tokens db) \<subseteq> ss_id ` set (au_sessions db)"

lemma active_rows_iff:
  "(s, t, u) \<in> set (active_rows db) \<longleftrightarrow>
     s \<in> set (au_sessions db) \<and> ss_active s \<and> au_clock db < ss_expires s \<and>
     t \<in> set (au_tokens db) \<and> rt_session t = ss_id s \<and> \<not> rt_revoked t \<and> \<not> rt_used t \<and>
     u \<in> set (au_users db) \<and> u_id u = ss_user s"
  by (auto simp: active_rows_def)

lemma first_row_Some: "first_row xs = Some x \<Longrightarrow> x \<in> set xs"
  by (auto simp: first_row_def split: list.splits)

lemma first_row_None [simp]: "first_row xs = None \<longleftrightarrow> xs = []"
  by (auto simp: first_row_def split: list.splits)

text \<open>What invalidating a list of sessions does, in one step.\<close>

definition inactivated :: "nat set \<Rightarrow> auth_db \<Rightarrow> auth_db" where
  "inactivated ids db =
     db\<lparr>au_sessions := map (\<lambda>s. if ss_id s \<in> ids then s\<lparr>ss_active := False\<rparr> else s) (au_sessions db),
        au_tokens := map (\<lambda>t. if rt_session t \<in> ids then t\<lparr>rt_revoked := True\<rparr> else t) (au_tokens db)\<rparr>"

lemma inactivate_session_eq:
  "sid \<in> ss_id ` set (au_sessions db) \<Longrightarrow> inactivate_session sid db = (Inr (), inactivated {sid} db)"
  by (auto simp: inactivate_session_def inactivated_def)

lemma inactivated_ids: "ss_id ` set (au_sessions (inactivated ids db)) = ss_id ` set (au_sessions db)"
proof -
  have m: "map ss_id (au_sessions (inactivated ids db)) = map ss_id (au_sessions db)"
    by (simp add: inactivated_def)
  from arg_cong [OF m, of set] show ?thesis by simp
qed

lemma inactivated_inactivated: "inactivated A (inactivated B db) = inactivated (A \<union> B) db"
  by (simp add: inactivated_def comp_def)

lemma inactivated_empty: "inactivated {} db = db"
  by (simp add: inactivated_def)

lemma invalidate_rows_eq:
  assumes "(\<lambda>r. ss_id (fst r)) ` set rows \<subseteq> ss_id ` set (au_sessions db)"
  shows "invalidate_rows rows db = (Inr (), inactivated ((\<lambda>r. ss_id (fst r)) ` set rows) db)"
  using assms
proof (induction rows arbitrary: db)
  case Nil
  then show ?case by (simp add: inactivated_empty)
next
  case (Cons r rows)
  have "inactivate_session (ss_id (fst r)) db = (Inr (), inactivated {ss_id (fst r)} db)"
    using Cons.prems by (intro inactivate_session_eq) auto
  moreover have "(\<lambda>r. ss_id (fst r)) ` set rows \<subseteq> ss_id ` set (au_sessions (inactivated {ss_id (fst r)} db))"
    using Cons.prems by (simp add: inactivated_ids)
  ultimately show ?case
    using Cons.IH by (simp add: bindp_def inactivated_inactivated)
qed

lemma invalidate_all_for_user_eq:
  "invalidate_all_for_user uid db =
     (Inr (), inactivated ((\<lambda>r. ss_id (fst r)) ` set (rows_of_user db uid)) db)"
  unfolding invalidate_all_for_user_def
  by (rule invalidate_rows_eq) (auto simp: rows_of_user_def active_rows_iff)

lemma invalidate_all_no_rows:
  "rows_of_user (snd (invalidate_all_for_user uid db)) uid = []"
proof -
  let ?ids = "(\<lambda>r. ss_id (fst r)) ` set (rows_of_user db uid)"
  have False if r: "(s, t, u) \<in> set (active_rows (inactivated ?ids db))" "u_id u = uid" for s t u
  proof -
    from r have "ss_id s \<notin> ?ids" "s \<in> set (au_sessions db)" "ss_active s" "au_clock db < ss_expires s"
      "u \<in> set (au_users db)" "u_id u = ss_user s" "rt_session t = ss_id s" "\<not> rt_revoked t" "\<not> rt_used t"
      "t \<in> set (au_tokens db)"
      by (auto simp: active_rows_iff inactivated_def split: if_splits)
    then have "(s, t, u) \<in> set (rows_of_user db uid)"
      using r(2) by (auto simp: rows_of_user_def active_rows_iff)
    then have "ss_id s \<in> ?ids" by force
    with \<open>ss_id s \<notin> ?ids\<close> show False by simp
  qed
  then show ?thesis
    by (auto simp: invalidate_all_for_user_eq rows_of_user_def filter_empty_conv)
qed

section \<open>Properties of the password reset\<close>

text \<open>
  C6. A reset token works exactly once and only until it expires: the reset succeeds iff the token's
  row exists, is unused and has not expired; it then gives the user, and nobody else, the new
  password, leaves the user without an active session, and every later attempt with the same token is
  refused and changes nothing. A refused attempt changes nothing either.
\<close>

theorem reset_password_spec:
  "case find (\<lambda>r. pr_hash r = sha token) (au_resets db) of
      Some r \<Rightarrow>
        (if pr_used_at r = None \<and> au_clock db \<le> pr_expires r then
           \<exists>db'. reset_password sha hashpw token pw db = (Inr (), db') \<and>
             au_users db' = map (\<lambda>u. if u_id u = pr_user r then u\<lparr>u_hash := hashpw pw\<rparr> else u) (au_users db) \<and>
             rows_of_user db' (pr_user r) = [] \<and>
             reset_password sha hashpw token pw' db' = (Inl InvalidResetTokenErr, db')
         else reset_password sha hashpw token pw db = (Inl InvalidResetTokenErr, db))
    | None \<Rightarrow> reset_password sha hashpw token pw db = (Inl InvalidResetTokenErr, db)"
proof (cases "find (\<lambda>r. pr_hash r = sha token) (au_resets db)")
  case None
  then show ?thesis by (simp add: reset_password_def)
next
  case (Some r)
  show ?thesis
  proof (cases "pr_used_at r = None \<and> au_clock db \<le> pr_expires r")
    case False
    with Some show ?thesis by (auto simp: reset_password_def)
  next
    case True
    let ?db1 = "mark_used (pr_id r) (update_password (pr_user r) (hashpw pw) db)"
    let ?db2 = "snd (invalidate_all_for_user (pr_user r) ?db1)"
    have res: "reset_password sha hashpw token pw db = (Inr (), ?db2)"
      using True Some by (simp add: reset_password_def invalidate_all_for_user_eq)
    have upd: "find (\<lambda>q. pr_hash q = sha token) (map (\<lambda>q. if pr_id q = pr_id r then q\<lparr>pr_used_at := Some c\<rparr> else q) rs) =
        map_option (\<lambda>q. if pr_id q = pr_id r then q\<lparr>pr_used_at := Some c\<rparr> else q)
          (find (\<lambda>q. pr_hash q = sha token) rs)" for c rs
      by (induction rs) auto
    have "find (\<lambda>q. pr_hash q = sha token) (au_resets ?db2) =
        Some (r\<lparr>pr_used_at := Some (au_clock db)\<rparr>)"
      using Some upd [of "au_clock db" "au_resets db"]
      by (simp add: invalidate_all_for_user_eq inactivated_def mark_used_def update_password_def cong: if_cong)
    then have "reset_password sha hashpw token pw' ?db2 = (Inl InvalidResetTokenErr, ?db2)"
      by (simp add: reset_password_def)
    moreover have "au_users ?db2 = map (\<lambda>u. if u_id u = pr_user r then u\<lparr>u_hash := hashpw pw\<rparr> else u) (au_users db)"
      by (simp add: invalidate_all_for_user_eq inactivated_def mark_used_def update_password_def)
    ultimately show ?thesis
      using True Some res invalidate_all_no_rows by simp
  qed
qed

section \<open>Properties of sessions\<close>

text \<open>
  Logging out of an existing session works for good: the answer is success and the session is no
  longer active, under whatever address and agent.
\<close>

theorem logout_ends_session:
  assumes "sid \<in> ss_id ` set (au_sessions db)"
  shows "\<exists>db'. logout sid db = (Inr True, db') \<and>
           (\<forall>ip agent. fst (get_user_from_session sid ip agent db') = Inl SessionNotFoundErr)"
proof -
  have none: "rows_of_session (inactivated {sid} db) sid = []"
  proof -
    have False if "(s, t, u) \<in> set (active_rows (inactivated {sid} db))" "ss_id s = sid" for s t u
    proof -
      have mem: "s \<in> set (au_sessions (inactivated {sid} db))" and "ss_active s"
        using that(1) by (simp_all only: active_rows_iff)
      have eq: "au_sessions (inactivated {sid} db) =
          map (\<lambda>s. if ss_id s \<in> {sid} then s\<lparr>ss_active := False\<rparr> else s) (au_sessions db)"
        by (simp add: inactivated_def)
      from mem have "s \<in> (\<lambda>s. if ss_id s \<in> {sid} then s\<lparr>ss_active := False\<rparr> else s) ` set (au_sessions db)"
        unfolding eq set_map .
      then obtain x where x: "s = (if ss_id x \<in> {sid} then x\<lparr>ss_active := False\<rparr> else x)"
        by (rule imageE)
      show False
      proof (cases "ss_id x = sid")
        case True
        then have "\<not> ss_active s" unfolding x by simp
        with \<open>ss_active s\<close> show False by simp
      next
        case False
        then have "s = x" unfolding x by simp
        with False that(2) show False by simp
      qed
    qed
    then show ?thesis by (auto simp: rows_of_session_def filter_empty_conv)
  qed
  have "fst (get_user_from_session sid ip agent (inactivated {sid} db)) = Inl SessionNotFoundErr" for ip agent
  proof -
    have "rows_for_credentials (inactivated {sid} db) sid ip agent = []"
      using none by (auto simp: rows_of_session_def rows_for_credentials_def filter_empty_conv)
    then show ?thesis
      by (simp add: get_user_from_session_def validate_session_credentials_def bindp_def first_row_def)
  qed
  moreover have "logout sid db = (Inr True, inactivated {sid} db)"
    using inactivate_session_eq [OF assms] none by (simp add: logout_def)
  ultimately show ?thesis by blast
qed

text \<open>
  A user who is active on one device and logs in on another gets that device's session: the login
  answers with a session id, but presenting it from the new address and agent is refused, because the
  session row still has the first device's.
\<close>

theorem login_second_device_refused:
  assumes "auth_inv db" "authenticate_user checkpw name pw db = Some usr"
    and "first_row (rows_of_user db (u_id usr)) = Some (s, t, u)" "(ss_ip s, ss_agent s) \<noteq> (ip, agent)"
  shows "\<exists>li db'. login checkpw encode minutes name pw ip agent db = (Inr (Some li), db') \<and>
           li_session li = ss_id s \<and>
           fst (get_user_from_session (li_session li) ip agent db') = Inl SessionNotFoundErr"
proof -
  let ?db' = "snd (rotate_session_token encode (ss_id s) (au_clock db + week) (rt_id t) db)"
  have sess: "au_sessions ?db' = au_sessions db"
    by (simp add: rotate_session_token_def rotate_refresh_token_def Let_def bindp_def)
  have "s \<in> set (au_sessions db)"
    using first_row_Some [OF assms(3)] by (auto simp: rows_of_user_def active_rows_iff)
  then have uniq: "s' = s" if "s' \<in> set (au_sessions db)" "ss_id s' = ss_id s" for s'
    using that assms(1) by (auto simp: auth_inv_def distinct_map dest: inj_onD)
  have "rows_for_credentials ?db' (ss_id s) ip agent = []"
    using assms(4) by (auto simp: rows_for_credentials_def filter_empty_conv active_rows_iff sess dest!: uniq)
  then show ?thesis
    using assms(2,3)
    by (simp add: login_def Let_def bindp_def get_user_from_session_def validate_session_credentials_def)
       (simp add: rotate_session_token_def rotate_refresh_token_def Let_def bindp_def first_row_def)
qed

text \<open>
  A first login works on its own device at once, but the session lives two hours, not the seven
  days that the login answer reports: two hours later the session is gone.
\<close>

theorem first_login_session:
  assumes "auth_inv db" "authenticate_user checkpw name pw db = Some usr"
    and "rows_of_user db (u_id usr) = []" "usr \<in> set (au_users db)"
  shows "\<exists>li db'. login checkpw encode minutes name pw ip agent db = (Inr (Some li), db') \<and>
           li_session_expires li = au_clock db + week \<and>
           fst (get_user_from_session (li_session li) ip agent db') = Inr usr \<and>
           rows_of_session (db'\<lparr>au_clock := au_clock db + 7200\<rparr>) (li_session li) = []"
proof -
  let ?sid = "au_next db"
  let ?tok = "encode (SessionClaims ?sid) (au_clock db + week)"
  let ?s = "\<lparr>ss_id = ?sid, ss_user = u_id usr, ss_created = au_clock db, ss_expires = au_clock db + 7200,
             ss_ip = ip, ss_agent = agent, ss_active = True\<rparr>"
  let ?t = "\<lparr>rt_id = Suc ?sid, rt_session = ?sid, rt_token = ?tok, rt_expires = au_clock db + week,
             rt_used = False, rt_revoked = False\<rparr>"
  let ?db' = "db\<lparr>au_sessions := au_sessions db @ [?s], au_tokens := au_tokens db @ [?t], au_next := Suc (Suc ?sid)\<rparr>"
  have uniq: "u = usr" if "u \<in> set (au_users db)" "u_id u = u_id usr" for u
    using that assms(1,4) by (auto simp: auth_inv_def distinct_map dest: inj_onD)
  have fresh: "ss_id s \<noteq> ?sid" if "s \<in> set (au_sessions db)" for s
    using that assms(1) by (auto simp: auth_inv_def)
  have notok: "rt_session t \<noteq> ?sid" if "t \<in> set (au_tokens db)" for t
  proof -
    have "rt_session t \<in> ss_id ` set (au_sessions db)"
      using that assms(1) by (auto simp: auth_inv_def)
    with fresh show ?thesis by (metis imageE)
  qed
  have rows: "(s, t, u) \<in> set (active_rows ?db') \<and> ss_id s = ?sid \<longleftrightarrow> s = ?s \<and> t = ?t \<and> u = usr" for s t u
    using fresh notok uniq assms(4) by (auto simp: active_rows_iff)
  have one: "\<exists>ys. rows_of_session ?db' ?sid = (?s, ?t, usr) # ys"
    "\<exists>ys. rows_for_credentials ?db' ?sid ip agent = (?s, ?t, usr) # ys"
  proof -
    have "set (rows_of_session ?db' ?sid) = {(?s, ?t, usr)}"
      using rows by (auto simp: rows_of_session_def)
    then show "\<exists>ys. rows_of_session ?db' ?sid = (?s, ?t, usr) # ys"
      by (cases "rows_of_session ?db' ?sid") auto
    have "set (rows_for_credentials ?db' ?sid ip agent) = {(?s, ?t, usr)}"
      using rows by (auto simp: rows_for_credentials_def)
    then show "\<exists>ys. rows_for_credentials ?db' ?sid ip agent = (?s, ?t, usr) # ys"
      by (cases "rows_for_credentials ?db' ?sid ip agent") auto
  qed
  have ins: "create_new_session encode usr ip agent (au_clock db + week) db = (Inr (?sid, ?tok), ?db')"
    using one(1)
    by (auto simp: create_new_session_def insert_session_def insert_add_token_def Let_def bindp_def first_row_def)
  have en: "\<not> u_disabled usr"
    using assms(2) by (auto simp: authenticate_user_def split: option.splits if_splits)
  have "get_by_id ?db' (u_id usr) = Some usr"
  proof (cases "get_by_id ?db' (u_id usr)")
    case None
    then show ?thesis using en assms(4) by (auto simp: get_by_id_def find_None_iff)
  next
    case (Some u)
    then have "u \<in> set (au_users db)" "u_id u = u_id usr" by (auto simp: get_by_id_def find_Some_iff)
    with Some uniq show ?thesis by simp
  qed
  then have usr: "fst (get_user_from_session ?sid ip agent ?db') = Inr usr"
    using one(2)
    by (auto simp: get_user_from_session_def validate_session_credentials_def bindp_def first_row_def)
  have gone: "rows_of_session (?db'\<lparr>au_clock := au_clock db + 7200\<rparr>) ?sid = []"
    using fresh by (auto simp: rows_of_session_def filter_empty_conv active_rows_iff)
  show ?thesis
    using assms(2,3) ins usr gone by (simp add: login_def Let_def bindp_def first_row_def)
qed

text \<open>
  No token passes \<open>validate_token_and_get_session_id\<close>: it always raises the invalid-token error,
  whatever the token, because of the missing arguments of its first call.
\<close>

theorem validate_token_always_fails:
  "validate_token_and_get_session_id token db = (Inl InvalidTokenErr, db)"
  by (simp add: validate_token_and_get_session_id_def catchp_def)

section \<open>Samples\<close>

definition demo_user :: user where
  "demo_user = \<lparr>u_id = 1, u_name = ''ann'', u_email = ''a@x'', u_hash = ''h'', u_disabled = False\<rparr>"

definition demo_auth :: auth_db where
  "demo_auth = \<lparr>au_clock = 100, au_next = 5, au_users = [demo_user], au_sessions = [], au_tokens = [],
     au_resets = [\<lparr>pr_id = 2, pr_user = 1, pr_hash = ''t'', pr_expires = 200, pr_used_at = None\<rparr>], au_mails = []\<rparr>"

definition demo_logged_in :: auth_db where
  "demo_logged_in = demo_auth\<lparr>au_next := 9,
     au_sessions := [\<lparr>ss_id = 5, ss_user = 1, ss_created = 100, ss_expires = 7300, ss_ip = ''ip1'',
                      ss_agent = ''A'', ss_active = True\<rparr>],
     au_tokens := [\<lparr>rt_id = 6, rt_session = 5, rt_token = ''r'', rt_expires = 9000, rt_used = False, rt_revoked = False\<rparr>]\<rparr>"

lemmas auth_eval = demo_logged_in_def demo_auth_def demo_user_def

theorem reset_password_spec_witness:
  "\<exists>db'. reset_password id id ''t'' ''new'' demo_auth = (Inr (), db') \<and>
     reset_password id id ''t'' ''other'' db' = (Inl InvalidResetTokenErr, db')"
  using reset_password_spec [where sha = id and hashpw = id and token = "''t''" and pw = "''new''" and pw' = "''other''"
      and db = demo_auth]
  by (auto simp: auth_eval)

theorem logout_ends_session_witness: "fst (logout 5 demo_logged_in) = Inr True"
  using logout_ends_session [of 5 demo_logged_in] by (auto simp: auth_eval)

theorem login_second_device_refused_witness:
  "\<exists>li db'. login (\<lambda>_ _. True) (\<lambda>_ _. ''tok'') 15 ''ann'' ''pw'' ''ip2'' ''A'' demo_logged_in = (Inr (Some li), db') \<and>
     fst (get_user_from_session (li_session li) ''ip2'' ''A'' db') = Inl SessionNotFoundErr"
  using login_second_device_refused [of demo_logged_in "\<lambda>_ _. True" "''ann''" "''pw''" demo_user
      "hd (au_sessions demo_logged_in)" "hd (au_tokens demo_logged_in)" demo_user "''ip2''" "''A''" "\<lambda>_ _. ''tok''" 15]
  by (auto simp: auth_eval auth_inv_def authenticate_user_def rows_of_user_def active_rows_def first_row_def)

theorem first_login_session_witness:
  "\<exists>li db'. login (\<lambda>_ _. True) (\<lambda>_ _. ''tok'') 15 ''ann'' ''pw'' ''ip1'' ''A'' demo_auth = (Inr (Some li), db') \<and>
     fst (get_user_from_session (li_session li) ''ip1'' ''A'' db') = Inr demo_user \<and>
     rows_of_session (db'\<lparr>au_clock := 7300\<rparr>) (li_session li) = []"
  using first_login_session [of demo_auth "\<lambda>_ _. True" "''ann''" "''pw''" demo_user "\<lambda>_ _. ''tok''" 15 "''ip1''" "''A''"]
  by (auto simp: auth_eval auth_inv_def authenticate_user_def rows_of_user_def active_rows_def)

end
