(* ===== verification/Market_Price.thy ===== *)
theory Market_Price
  imports Regex Metrics Ebay_Listings
begin

text \<open>
  The market price of a card: scoring of listing titles (\<open>ebay/market_price_scorer.py\<close>), price points
  and aggregates (\<open>models/ebay/market_price.py\<close>) and the search service
  (\<open>ebay/market_price_service.py\<close>). The search is a parameter; a text that \<open>float\<close> refuses is \<open>Junk\<close>,
  and \<open>parse_date\<close> parses a date.
\<close>

section \<open>Scoring titles\<close>

definition reject_words :: "ustr list" where
  "reject_words = map lit
     [''proxy'', ''fake'', ''alter'', ''custom'', ''token'', ''lot'', ''playset'',
      ''bundle'', ''signed'', ''psa'', ''bgs'', ''cgc'', ''graded'']"

definition is_punct :: "nat \<Rightarrow> bool" where
  "is_punct c \<longleftrightarrow> \<not> is_wordc c \<and> \<not> is_space c"

definition drop_punct :: "ustr \<Rightarrow> ustr" where
  "drop_punct = re_sub (Cls is_punct) (\<lambda>_. [])"

definition nonempty_text :: "ustr option \<Rightarrow> bool" where
  "nonempty_text s \<longleftrightarrow> s \<noteq> None \<and> s \<noteq> Some []"

definition build_query_string :: "ustr \<Rightarrow> ustr option \<Rightarrow> bool option \<Rightarrow> ustr option \<Rightarrow> ustr" where
  "build_query_string card_name set_code is_foil frame =
     join (lit '' '')
       ([strip (drop_punct card_name)] @
        (if nonempty_text set_code then [upper (the set_code)] else []) @
        (case is_foil of Some True \<Rightarrow> [lit ''foil''] | Some False \<Rightarrow> [lit ''non-foil''] | None \<Rightarrow> []) @
        (if nonempty_text frame then [replace_all (lit ''_'') (lit '' '') (lower (the frame))] else []) @
        [lit ''MTG''])"

definition normalize_title :: "ustr \<Rightarrow> ustr" where
  "normalize_title t = replace_all (lit ''nonfoil'') (lit ''non-foil'') (lower t)"

definition rejected :: "ustr \<Rightarrow> bool" where
  "rejected normalized \<longleftrightarrow> list_ex (\<lambda>w. found (word_rx w) normalized) reject_words"

text \<open>The four points of a title, as fractions.\<close>

definition name_points :: "ustr \<Rightarrow> ustr \<Rightarrow> rat" where
  "name_points card_name normalized =
     (let ws = words_of (lower (drop_punct card_name)); t = drop_punct normalized
      in if ws \<noteq> [] \<and> list_all (\<lambda>w. sublist w t) ws then 1/2 else 0)"

definition set_points :: "ustr option \<Rightarrow> ustr \<Rightarrow> rat" where
  "set_points set_code normalized =
     (if nonempty_text set_code \<and> sublist (lower (the set_code)) normalized then 1/5 else 0)"

definition foil_points :: "bool option \<Rightarrow> ustr \<Rightarrow> rat" where
  "foil_points is_foil normalized =
     (if is_foil = Some True \<and> sublist (lit ''foil'') normalized \<and> \<not> sublist (lit ''non-foil'') normalized then 3/20
      else if is_foil = Some False \<and> sublist (lit ''non-foil'') normalized then 3/20 else 0)"

definition frame_points :: "ustr option \<Rightarrow> ustr \<Rightarrow> rat" where
  "frame_points frame normalized =
     (if nonempty_text frame \<and> sublist (replace_all (lit ''_'') (lit '' '') (lower (the frame))) normalized then 3/20 else 0)"

definition score_title :: "ustr \<Rightarrow> ustr \<Rightarrow> ustr option \<Rightarrow> bool option \<Rightarrow> ustr option \<Rightarrow> rat" where
  "score_title title card_name set_code is_foil frame =
     (let n = normalize_title title
      in if rejected n then - 1
         else min (name_points card_name n + set_points set_code n + foil_points is_foil n + frame_points frame n) 1)"

section \<open>Price points\<close>

datatype num_field = Absent | Numeric rat | Junk

fun float_of :: "num_field \<Rightarrow> rat option" where
  "float_of Absent = Some 0"
| "float_of (Numeric q) = Some q"
| "float_of Junk = None"

record browse_item =
  bi_id :: "string option"
  bi_title :: "ustr option"
  bi_price :: num_field
  bi_currency :: "string option"
  bi_shipping :: "num_field list"
  bi_condition :: "string option"
  bi_url :: "string option"
  bi_country :: "string option"
  bi_created :: "string option"

record price_point =
  pp_id :: string
  pp_title :: ustr
  pp_price :: rat
  pp_currency :: string
  pp_shipping :: "rat option"
  pp_condition :: "string option"
  pp_url :: "string option"
  pp_sold :: "nat option"
  pp_score :: rat
  pp_country :: "string option"
  pp_listed :: "nat option"

definition or_empty :: "'a list option \<Rightarrow> 'a list" where
  "or_empty s = (case s of None \<Rightarrow> [] | Some t \<Rightarrow> t)"

definition browse_point :: "(string \<Rightarrow> nat option) \<Rightarrow> browse_item \<Rightarrow> price_point" where
  "browse_point parse_date i =
     \<lparr>pp_id = or_empty (bi_id i), pp_title = or_empty (bi_title i),
      pp_price = (case float_of (bi_price i) of None \<Rightarrow> 0 | Some q \<Rightarrow> q),
      pp_currency = or_empty (bi_currency i),
      pp_shipping = (case bi_shipping i of [] \<Rightarrow> None | c # _ \<Rightarrow> float_of c),
      pp_condition = bi_condition i, pp_url = bi_url i, pp_sold = None, pp_score = 0,
      pp_country = (case bi_country i of None \<Rightarrow> None | Some c \<Rightarrow> if c = [] then None else Some c),
      pp_listed = (case bi_created i of None \<Rightarrow> None | Some d \<Rightarrow> if d = [] then None else parse_date d)\<rparr>"

definition browse_items_to_price_points :: "(string \<Rightarrow> nat option) \<Rightarrow> browse_item list \<Rightarrow> price_point list" where
  "browse_items_to_price_points parse_date = map (browse_point parse_date)"

definition score_and_filter ::
  "price_point list \<Rightarrow> ustr \<Rightarrow> ustr option \<Rightarrow> bool option \<Rightarrow> ustr option \<Rightarrow> rat \<Rightarrow> price_point list" where
  "score_and_filter points card_name set_code is_foil frame threshold =
     sort_desc pp_score
       (filter (\<lambda>p. threshold \<le> pp_score p)
          (map (\<lambda>p. p\<lparr>pp_score := score_title (pp_title p) card_name set_code is_foil frame\<rparr>) points))"

section \<open>Aggregates\<close>

record aggregates =
  ag_count :: nat
  ag_min :: "rat option"
  ag_max :: "rat option"
  ag_mean :: "rat option"
  ag_median :: "rat option"
  ag_p25 :: "rat option"
  ag_p75 :: "rat option"

text \<open>The \<open>i\<close>-th cut point of \<open>statistics.quantiles(n=4, method='inclusive')\<close> of sorted data.\<close>

definition quartile :: "rat list \<Rightarrow> nat \<Rightarrow> rat" where
  "quartile s i =
     (let m = length s - 1; j = i * m div 4; d = i * m mod 4
      in (s ! j * of_nat (4 - d) + (if d = 0 then 0 else s ! (j + 1) * of_nat d)) / 4)"

definition from_prices :: "rat list \<Rightarrow> aggregates" where
  "from_prices prices =
     (if prices = []
      then \<lparr>ag_count = 0, ag_min = None, ag_max = None, ag_mean = None, ag_median = None, ag_p25 = None, ag_p75 = None\<rparr>
      else let s = sort prices; many = 4 \<le> length s in
        \<lparr>ag_count = length prices, ag_min = Some (round2 (s ! 0)), ag_max = Some (round2 (s ! (length s - 1))),
         ag_mean = Some (round2 (sum_list prices / of_nat (length prices))),
         ag_median = Some (round2 (median prices)),
         ag_p25 = (if many then Some (round2 (quartile s 1)) else None),
         ag_p75 = (if many then Some (round2 (quartile s 3)) else None)\<rparr>)"

section \<open>The service\<close>

record browse_request =
  bq_env :: string
  bq_token :: string
  bq_query :: ustr
  bq_limit :: int
  bq_condition :: "int option"
  bq_market :: string

record market_data =
  md_query :: ustr
  md_sold :: "price_point list"
  md_active :: "price_point list"
  md_sold_agg :: aggregates
  md_active_agg :: aggregates
  md_suggested :: "rat option"

definition settings_environment :: "string \<Rightarrow> app \<Rightarrow> string res" where
  "settings_environment env app =
     (let new = lower_str (ap_env app)
      in if new \<noteq> env \<and> new \<noteq> ''sandbox'' \<and> new \<noteq> ''production'' then Inl ValueErr else Inr new)"

text \<open>
  The end of the service, from the items that the search returned; the list of sold items is empty
  since the interface that gave them is gone.
\<close>

definition market_of ::
  "(string \<Rightarrow> nat option) \<Rightarrow> ustr \<Rightarrow> ustr option \<Rightarrow> bool option \<Rightarrow> ustr option \<Rightarrow> rat \<Rightarrow> browse_item list \<Rightarrow> market_data" where
  "market_of parse_date card_name set_code is_foil frame threshold active_raw =
     (let sold = score_and_filter [] card_name set_code is_foil frame threshold;
          active = score_and_filter (browse_items_to_price_points parse_date active_raw)
                     card_name set_code is_foil frame threshold;
          sold_agg = from_prices (map pp_price sold)
      in \<lparr>md_query = build_query_string card_name set_code is_foil frame, md_sold = sold, md_active = active,
          md_sold_agg = sold_agg, md_active_agg = from_prices (map pp_price active),
          md_suggested = (if 3 \<le> ag_count sold_agg then ag_median sold_agg else None)\<rparr>)"

text \<open>A search that fails is logged and counts as one without results.\<close>

definition search_results :: "(browse_request \<Rightarrow> browse_item list res) \<Rightarrow> browse_request \<Rightarrow> browse_item list" where
  "search_results browse req = (case browse req of Inl _ \<Rightarrow> [] | Inr items \<Rightarrow> items)"

definition fetch_card_market_price ::
  "(string \<Rightarrow> exchange res) \<Rightarrow> (browse_request \<Rightarrow> browse_item list res) \<Rightarrow> (string \<Rightarrow> nat option) \<Rightarrow> string \<Rightarrow>
   ustr \<Rightarrow> string \<Rightarrow> string \<Rightarrow> ustr option \<Rightarrow> int option \<Rightarrow> bool option \<Rightarrow> ustr option \<Rightarrow> int \<Rightarrow> rat \<Rightarrow> string \<Rightarrow>
   (ebay, market_data) prog" where
  "fetch_card_market_price exch browse parse_date env card_name user code set_code condition_id is_foil frame
       limit threshold market e =
     (case get_app_settings e user code of
        None \<Rightarrow> (Inl ValueErr, e)
      | Some app \<Rightarrow>
          (case settings_environment env app of
             Inl x \<Rightarrow> (Inl x, e)
           | Inr env' \<Rightarrow>
               bindp (resolve_app_token exch app) (\<lambda>token.
                 ret (market_of parse_date card_name set_code is_foil frame threshold
                   (search_results browse
                      \<lparr>bq_env = env', bq_token = token, bq_query = build_query_string card_name set_code is_foil frame,
                       bq_limit = min limit 200, bq_condition = condition_id, bq_market = market\<rparr>))) e))"

section \<open>Properties\<close>

text \<open>
  A title scores minus one exactly when a reject keyword stands in it as a whole word, and
  otherwise between zero and one.
\<close>

theorem score_title_spec:
  "if \<exists>w\<in>set reject_words. has_word w (normalize_title title)
   then score_title title card_name set_code is_foil frame = - 1
   else 0 \<le> score_title title card_name set_code is_foil frame \<and> score_title title card_name set_code is_foil frame \<le> 1"
proof -
  have "rejected n \<longleftrightarrow> (\<exists>w\<in>set reject_words. has_word w n)" for n
    by (simp add: rejected_def found_word_rx list_ex_iff)
  then show ?thesis
    by (auto simp: score_title_def Let_def name_points_def set_points_def foil_points_def frame_points_def)
qed

lemma score_and_filter_spec:
  "set (score_and_filter points n s f fr t) =
     {p\<lparr>pp_score := score_title (pp_title p) n s f fr\<rparr> | p. p \<in> set points \<and> t \<le> score_title (pp_title p) n s f fr}"
  "sorted_wrt (\<lambda>p q. pp_score q \<le> pp_score p) (score_and_filter points n s f fr t)"
  by (auto simp: score_and_filter_def sorted_sort_desc)

text \<open>
  A market price never suggests a price: the sold listings are always empty, since nothing fetches
  them any more. The active listings are those of the search whose score reaches the threshold, best
  first; a search that fails gives none.
\<close>

theorem market_price_spec:
  assumes "fetch_card_market_price exch browse parse_date env card_name user code set_code condition_id is_foil frame limit
             threshold market e = (Inr d, e')"
  shows "md_suggested d = None \<and> md_sold d = [] \<and>
         (\<exists>items req. (browse req = Inr items \<or> \<not> is_ok (browse req) \<and> items = []) \<and>
            set (md_active d) =
              {p\<lparr>pp_score := score_title (pp_title p) card_name set_code is_foil frame\<rparr> | p.
                 p \<in> browse_point parse_date ` set items \<and>
                 threshold \<le> score_title (pp_title p) card_name set_code is_foil frame}) \<and>
         sorted_wrt (\<lambda>p q. pp_score q \<le> pp_score p) (md_active d)"
proof -
  obtain items req where d: "d = market_of parse_date card_name set_code is_foil frame threshold items"
    and items: "items = search_results browse req"
    using assms by (auto simp: fetch_card_market_price_def bindp_def split: option.splits sum.splits prod.splits)
  have got: "browse req = Inr items \<or> \<not> is_ok (browse req) \<and> items = []"
    using items by (cases "browse req") (auto simp: search_results_def)
  have act: "md_active d = score_and_filter (map (browse_point parse_date) items) card_name set_code is_foil frame threshold"
    and none: "md_suggested d = None" "md_sold d = []"
    by (simp_all add: d market_of_def Let_def score_and_filter_def from_prices_def browse_items_to_price_points_def)
  have "\<exists>items req. (browse req = Inr items \<or> \<not> is_ok (browse req) \<and> items = []) \<and>
            set (md_active d) =
              {p\<lparr>pp_score := score_title (pp_title p) card_name set_code is_foil frame\<rparr> | p.
                 p \<in> browse_point parse_date ` set items \<and>
                 threshold \<le> score_title (pp_title p) card_name set_code is_foil frame}"
    by (rule exI [of _ items], rule exI [of _ req], rule conjI [OF got]) (simp only: act score_and_filter_spec(1) list.set_map)
  with none show ?thesis by (simp add: act score_and_filter_spec(2))
qed

section \<open>Samples\<close>

definition demo_item :: browse_item where
  "demo_item = \<lparr>bi_id = Some ''v1'', bi_title = Some (lit ''x''), bi_price = Numeric 3, bi_currency = Some ''AUD'',
     bi_shipping = [], bi_condition = None, bi_url = None, bi_country = None, bi_created = None\<rparr>"

theorem market_price_spec_witness:
  "\<exists>d e'. fetch_card_market_price (\<lambda>_. Inr demo_exchange) (\<lambda>_. Inr [demo_item]) (\<lambda>_. None) ''sandbox'' (lit ''opt'')
      ''ann'' ''main'' None None None None 50 (-2) ''EBAY_AU'' demo_ebay = (Inr d, e') \<and>
    md_suggested d = None \<and> md_sold d = []"
proof -
  let ?run = "fetch_card_market_price (\<lambda>_. Inr demo_exchange) (\<lambda>_. Inr [demo_item]) (\<lambda>_. None) ''sandbox'' (lit ''opt'')
      ''ann'' ''main'' None None None None 50 (-2) ''EBAY_AU'' demo_ebay"
  have "settings_environment ''sandbox'' demo_app = Inr ''sandbox''"
    by (simp add: settings_environment_def demo_app_def lower_str_def lower_def lower_cp_def char_of_eq_iff)
  moreover have "get_app_settings demo_ebay ''ann'' ''main'' = Some demo_app"
    by (simp add: get_app_settings_def ebay_eval)
  moreover have "\<exists>e'. resolve_app_token (\<lambda>_. Inr demo_exchange) demo_app demo_ebay = (Inr ''tok'', e')"
    by (simp add: resolve_app_token_def cache_get_def nonempty_def Let_def ebay_eval)
  ultimately have "\<exists>d e'. ?run = (Inr d, e')"
    by (auto simp: fetch_card_market_price_def)
  then obtain d e' where "?run = (Inr d, e')" by blast
  from market_price_spec [OF this] this show ?thesis by blast
qed

end
