(* ===== verification/Ebay_Sales.thy ===== *)
theory Ebay_Sales
  imports Market_Price
begin

text \<open>
  Sold prices: the nightly sync of a seller's orders (\<open>ebay/sales_sync_service.py\<close>), the local status of
  orders (\<open>ebay/fulfillment_service.py\<close>, \<open>ebay/fulfillment_write_service.py\<close>), the promotion of sales to
  price observations (\<open>ebay/promote_sold_obs_service.py\<close>), and the statements of the repositories on
  their tables. Times are seconds, a date is a day number. eBay, the search for cards and the failures of single statements
  are parameters.
\<close>

section \<open>Tables\<close>

record order_status =
  os_order :: string
  os_app :: string
  os_status :: string
  os_tracking :: "string option"
  os_carrier :: "string option"
  os_shipped :: "nat option"

record sale =
  sp_id :: nat
  sp_order :: string
  sp_app :: string
  sp_item :: string
  sp_title :: ustr
  sp_source :: "nat option"
  sp_quantity :: int
  sp_cents :: int
  sp_currency :: string
  sp_finish :: nat
  sp_condition :: "nat option"
  sp_language :: nat
  sp_sold :: nat
  sp_buyer :: "string option"
  sp_market :: "string option"
  sp_promoted :: bool

record active_listing =
  al_item :: string
  al_app :: string
  al_card :: nat
  al_condition :: "nat option"
  al_finish :: "nat option"
  al_language :: "nat option"
  al_market :: "string option"
  al_listed :: nat
  al_ended :: "nat option"

text \<open>Sales seen on eBay by the scraper; the ones without a product are not promoted.\<close>

record scraped =
  sc_id :: nat
  sc_source :: "nat option"
  sc_cents :: int
  sc_currency :: "string option"
  sc_finish :: nat
  sc_condition :: "nat option"
  sc_language :: nat
  sc_sold :: nat
  sc_promoted :: bool

text \<open>
  An observation is keyed by product, day, finish, condition and language; the price type and the
  provider are constants of this code.
\<close>

type_synonym obs_key = "nat \<times> nat \<times> nat \<times> nat \<times> nat"

record sales =
  sl_ebay :: ebay
  sl_env :: string
  sl_orders :: "order_status list"
  sl_sales :: "sale list"
  sl_listings :: "active_listing list"
  sl_products :: "(nat, nat) dict"
  sl_sources :: "(nat, nat) dict"
  sl_scraped :: "scraped list"
  sl_obs :: "(obs_key, int \<times> nat) dict"
  sl_next :: nat

abbreviation sl_now :: "sales \<Rightarrow> nat" where
  "sl_now s \<equiv> eb_clock (sl_ebay s)"

section \<open>Statements\<close>

definition local_statuses :: "string set" where
  "local_statuses = {''sold'', ''sent'', ''in_transit'', ''complete''}"

text \<open>\<open>COALESCE(new, old)\<close>.\<close>

definition coalesce :: "'a option \<Rightarrow> 'a option \<Rightarrow> 'a option" where
  "coalesce x y = (case x of None \<Rightarrow> y | Some v \<Rightarrow> Some v)"

definition is_order :: "string \<Rightarrow> string \<Rightarrow> order_status \<Rightarrow> bool" where
  "is_order order app r \<longleftrightarrow> os_order r = order \<and> os_app r = app"

definition upsert_order_status ::
  "string \<Rightarrow> string \<Rightarrow> string \<Rightarrow> string option \<Rightarrow> string option \<Rightarrow> nat option \<Rightarrow> (sales, unit) prog" where
  "upsert_order_status order app status tracking carrier shipped s =
     (if status \<notin> local_statuses then (Inl DbErr, s)
      else if list_ex (is_order order app) (sl_orders s)
      then (Inr (), s\<lparr>sl_orders := map (\<lambda>r. if is_order order app r
              then r\<lparr>os_status := status, os_tracking := coalesce tracking (os_tracking r),
                     os_carrier := coalesce carrier (os_carrier r), os_shipped := coalesce shipped (os_shipped r)\<rparr>
              else r) (sl_orders s)\<rparr>)
      else (Inr (), s\<lparr>sl_orders := sl_orders s @
              [\<lparr>os_order = order, os_app = app, os_status = status, os_tracking = tracking,
                os_carrier = carrier, os_shipped = shipped\<rparr>]\<rparr>))"

definition get_order_statuses :: "sales \<Rightarrow> string \<Rightarrow> string list \<Rightarrow> (string, order_status) dict" where
  "get_order_statuses s app ids =
     map (\<lambda>r. (os_order r, r)) (filter (\<lambda>r. os_app r = app \<and> os_order r \<in> set ids) (sl_orders s))"

definition upsert_active_listing ::
  "string \<Rightarrow> string \<Rightarrow> nat \<Rightarrow> nat option \<Rightarrow> nat option \<Rightarrow> nat option \<Rightarrow> string option \<Rightarrow> sales \<Rightarrow> sales" where
  "upsert_active_listing item app cv condition finish language market s =
     (if list_ex (\<lambda>r. al_item r = item) (sl_listings s)
      then s\<lparr>sl_listings := map (\<lambda>r. if al_item r = item then r\<lparr>al_ended := None\<rparr> else r) (sl_listings s)\<rparr>
      else s\<lparr>sl_listings := sl_listings s @
             [\<lparr>al_item = item, al_app = app, al_card = cv, al_condition = condition, al_finish = finish,
               al_language = language, al_market = market, al_listed = sl_now s, al_ended = None\<rparr>]\<rparr>)"

definition find_listing :: "sales \<Rightarrow> string \<Rightarrow> active_listing option" where
  "find_listing s item = find (\<lambda>r. al_item r = item) (sl_listings s)"

definition get_card_version_by_item :: "sales \<Rightarrow> string \<Rightarrow> nat option" where
  "get_card_version_by_item s item = map_option al_card (find_listing s item)"

text \<open>Condition, finish, language and marketplace of a listed item.\<close>

definition get_listing_variant ::
  "sales \<Rightarrow> string \<Rightarrow> (nat option \<times> nat option \<times> nat option \<times> string option) option" where
  "get_listing_variant s item =
     map_option (\<lambda>r. (al_condition r, al_finish r, al_language r, al_market r)) (find_listing s item)"

text \<open>Get or create the eBay product of a card; nothing for a card without a product.\<close>

definition ensure_source_product :: "nat \<Rightarrow> sales \<Rightarrow> nat option \<times> sales" where
  "ensure_source_product cv s =
     (case dget (sl_products s) cv of
        None \<Rightarrow> (None, s)
      | Some product \<Rightarrow>
          (case dget (sl_sources s) product of
             Some i \<Rightarrow> (Some i, s)
           | None \<Rightarrow> (Some (sl_next s),
                      s\<lparr>sl_sources := dset product (sl_next s) (sl_sources s), sl_next := Suc (sl_next s)\<rparr>)))"

definition sale_key :: "sale \<Rightarrow> string \<times> string \<times> string" where
  "sale_key r = (sp_order r, sp_app r, sp_item r)"

text \<open>
  Insert a sale, or update product and price of the one with its order, app and item. The row must
  name an order that is known, a positive quantity and a price that is not negative. \<open>sp_id\<close> and
  \<open>sp_promoted\<close> of the argument are not used.
\<close>

definition upsert_order_source_product :: "sale \<Rightarrow> (sales, unit) prog" where
  "upsert_order_source_product r s =
     (if \<not> list_ex (is_order (sp_order r) (sp_app r)) (sl_orders s) \<or> sp_quantity r \<le> 0 \<or> sp_cents r < 0
      then (Inl DbErr, s)
      else if sale_key r \<in> sale_key ` set (sl_sales s)
      then (Inr (), s\<lparr>sl_sales := map (\<lambda>x. if sale_key x = sale_key r
                           then x\<lparr>sp_source := sp_source r, sp_cents := sp_cents r\<rparr> else x) (sl_sales s)\<rparr>)
      else (Inr (), s\<lparr>sl_sales := sl_sales s @ [r\<lparr>sp_id := sl_next s, sp_promoted := False\<rparr>],
                      sl_next := Suc (sl_next s)\<rparr>))"

section \<open>The sync\<close>

text \<open>A price as eBay sends it, in cents.\<close>

definition price_to_cents :: "num_field option \<Rightarrow> int option" where
  "price_to_cents v =
     (case v of Some (Numeric q) \<Rightarrow> Some (round_half_even (q * 100)) | _ \<Rightarrow> None)"

record line_item =
  ln_item :: "string option"
  ln_title :: "ustr option"
  ln_cost :: "(num_field option \<times> string option) option"
  ln_quantity :: "int option"

record order =
  od_id :: "string option"
  od_created :: "string option"
  od_buyer :: "string option option"
  od_lines :: "line_item list option"

definition parse_sold_at :: "(string \<Rightarrow> nat option) \<Rightarrow> nat \<Rightarrow> string option \<Rightarrow> nat" where
  "parse_sold_at parse_date now d =
     (case d of
        None \<Rightarrow> now
      | Some t \<Rightarrow> if t = [] then now else (case parse_date t of None \<Rightarrow> now | Some n \<Rightarrow> n))"

record candidate =
  ca_name :: "ustr option"
  ca_set :: "ustr option"
  ca_card :: nat

text \<open>The last candidate with the best score of at least seven tenths.\<close>

fun best_candidate :: "ustr \<Rightarrow> rat \<Rightarrow> nat option \<Rightarrow> candidate list \<Rightarrow> nat option" where
  "best_candidate title best cv [] = cv"
| "best_candidate title best cv (c # cs) =
     (let sc = score_title title (or_empty (ca_name c)) (ca_set c) None None
      in if best \<le> sc then best_candidate title sc (Some (ca_card c)) cs else best_candidate title best cv cs)"

definition resolve_card_version ::
  "(ustr \<Rightarrow> candidate list res) \<Rightarrow> string option \<Rightarrow> ustr \<Rightarrow> (sales, nat option) prog" where
  "resolve_card_version suggest item title s =
     (case (case item of None \<Rightarrow> None | Some i \<Rightarrow> if i = [] then None else get_card_version_by_item s i) of
        Some cv \<Rightarrow> (Inr (Some cv), s)
      | None \<Rightarrow> (bind_res (suggest title) (\<lambda>cs. Inr (best_candidate title (7/10) None cs)), s))"

text \<open>A number that Python takes for true, else the default.\<close>

definition nz_or :: "nat \<Rightarrow> nat option \<Rightarrow> nat" where
  "nz_or d x = (case x of None \<Rightarrow> d | Some n \<Rightarrow> if n = 0 then d else n)"

text \<open>\<open>swallow\<close>: an exception is logged and the code goes on.\<close>

definition swallow :: "('s, unit) prog \<Rightarrow> ('s, unit) prog" where
  "swallow m = catchp m (\<lambda>_. ret ())"

definition sale_of_line ::
  "sales \<Rightarrow> string \<Rightarrow> string \<Rightarrow> order \<Rightarrow> line_item \<Rightarrow> (string \<Rightarrow> nat option) \<Rightarrow> int \<Rightarrow> nat option \<Rightarrow> sale" where
  "sale_of_line s order app od line parse_date cents source =
     (let item = or_empty (ln_item line);
          variant = (if item = [] then None else get_listing_variant s item);
          (condition, finish, language, market) =
            (case variant of None \<Rightarrow> (None, None, None, None) | Some v \<Rightarrow> v)
      in \<lparr>sp_id = 0, sp_order = order, sp_app = app, sp_item = item, sp_title = or_empty (ln_title line),
          sp_source = source,
          sp_quantity = (case ln_quantity line of None \<Rightarrow> 1 | Some n \<Rightarrow> if n = 0 then 1 else n),
          sp_cents = cents,
          sp_currency = (case ln_cost line of Some (_, Some c) \<Rightarrow> if c = [] then ''USD'' else c | _ \<Rightarrow> ''USD''),
          sp_finish = nz_or 1 finish,
          sp_condition = (case condition of None \<Rightarrow> None | Some n \<Rightarrow> if n = 0 then None else Some n),
          sp_language = nz_or 1 language,
          sp_sold = parse_sold_at parse_date (sl_now s) (od_created od),
          sp_buyer = (case od_buyer od of None \<Rightarrow> None | Some b \<Rightarrow> b),
          sp_market = market, sp_promoted = False\<rparr>)"

definition store_line ::
  "string \<Rightarrow> string \<Rightarrow> order \<Rightarrow> line_item \<Rightarrow> (string \<Rightarrow> nat option) \<Rightarrow> int \<Rightarrow> nat option \<Rightarrow> (sales, unit) prog" where
  "store_line order app od line parse_date cents cv s =
     (case (case cv of None \<Rightarrow> (None, s) | Some c \<Rightarrow> ensure_source_product c s) of
        (source, s') \<Rightarrow>
          swallow (upsert_order_source_product (sale_of_line s order app od line parse_date cents source)) s')"

definition process_line_item ::
  "(ustr \<Rightarrow> candidate list res) \<Rightarrow> (string \<Rightarrow> nat option) \<Rightarrow> string \<Rightarrow> string \<Rightarrow> order \<Rightarrow> line_item \<Rightarrow> (sales, unit) prog" where
  "process_line_item suggest parse_date order app od line =
     (case price_to_cents (Option.bind (ln_cost line) fst) of
        None \<Rightarrow> ret ()
      | Some cents \<Rightarrow>
          bindp (resolve_card_version suggest (ln_item line) (or_empty (ln_title line)))
            (store_line order app od line parse_date cents))"

fun each :: "('x \<Rightarrow> ('s, unit) prog) \<Rightarrow> 'x list \<Rightarrow> ('s, unit) prog" where
  "each f [] = ret ()"
| "each f (x # xs) = bindp (f x) (\<lambda>_. each f xs)"

text \<open>One entry of the history: skipped unless a dict, validated, skipped without an order id.\<close>

definition sync_order ::
  "(ustr \<Rightarrow> candidate list res) \<Rightarrow> (string \<Rightarrow> nat option) \<Rightarrow> ('x \<Rightarrow> order res) \<Rightarrow> string \<Rightarrow> 'x option \<Rightarrow> (sales, unit) prog" where
  "sync_order suggest parse_date validate app raw =
     (case raw of
        None \<Rightarrow> ret ()
      | Some x \<Rightarrow>
          (case validate x of
             Inl e \<Rightarrow> throw e
           | Inr od \<Rightarrow>
               let order = or_empty (od_id od) in
               if order = [] then ret ()
               else bindp (swallow (upsert_order_status order app ''sold'' None None None)) (\<lambda>_.
                    each (process_line_item suggest parse_date order app od) (or_empty (od_lines od)))))"

definition sales_token :: "(string \<Rightarrow> exchange res) \<Rightarrow> string \<Rightarrow> string \<Rightarrow> (sales, string) prog" where
  "sales_token exch user app s =
     (case resolve_token exch user app (sl_ebay s) of (r, e) \<Rightarrow> (r, s\<lparr>sl_ebay := e\<rparr>))"

text \<open>The repository of the selling API takes over the environment of the app, when it has one.\<close>

definition use_app_environment :: "string \<Rightarrow> (sales, unit) prog" where
  "use_app_environment app s =
     (Inr (), case get_environment (sl_ebay s) app of
                None \<Rightarrow> s
              | Some env \<Rightarrow> if env = [] then s else s\<lparr>sl_env := lower_str env\<rparr>)"

text \<open>\<open>history\<close> answers the environment and the token with the first fifty orders.\<close>

definition sync_for_user ::
  "(string \<Rightarrow> exchange res) \<Rightarrow> (ustr \<Rightarrow> candidate list res) \<Rightarrow> (string \<Rightarrow> nat option) \<Rightarrow> ('x \<Rightarrow> order res) \<Rightarrow>
   (string \<Rightarrow> string \<Rightarrow> 'x option list res) \<Rightarrow> string \<times> string \<Rightarrow> (sales, unit) prog" where
  "sync_for_user exch suggest parse_date validate history = (\<lambda>(user, app).
     bindp (sales_token exch user app) (\<lambda>token.
     bindp (use_app_environment app) (\<lambda>_ s.
       if token = [] then (Inl ValueErr, s)
       else case history (sl_env s) token of
              Inl e \<Rightarrow> (Inl e, s)
            | Inr raws \<Rightarrow> each (sync_order suggest parse_date validate app) raws s)))"

text \<open>The loop over the users counts those whose sync did not raise.\<close>

fun sync_users ::
  "(string \<times> string \<Rightarrow> (sales, unit) prog) \<Rightarrow> (string \<times> string) list \<Rightarrow> sales \<Rightarrow> nat \<times> sales" where
  "sync_users sync [] s = (0, s)"
| "sync_users sync (u # us) s =
     (case sync u s of
        (Inl _, s') \<Rightarrow> sync_users sync us s'
      | (Inr _, s') \<Rightarrow> apfst Suc (sync_users sync us s'))"

definition sync_own_sales ::
  "(string \<Rightarrow> exchange res) \<Rightarrow> (ustr \<Rightarrow> candidate list res) \<Rightarrow> (string \<Rightarrow> nat option) \<Rightarrow> ('x \<Rightarrow> order res) \<Rightarrow>
   (string \<Rightarrow> string \<Rightarrow> 'x option list res) \<Rightarrow> (string \<times> string) list \<Rightarrow> sales \<Rightarrow> nat \<times> sales" where
  "sync_own_sales exch suggest parse_date validate history users =
     sync_users (sync_for_user exch suggest parse_date validate history) users"

section \<open>Local status of orders\<close>

definition update_order_local_status ::
  "(string \<Rightarrow> exchange res) \<Rightarrow> string \<Rightarrow> string \<Rightarrow> string \<Rightarrow> string \<Rightarrow> (sales, string \<times> string) prog" where
  "update_order_local_status exch user app order status =
     bindp (sales_token exch user app) (\<lambda>_.
     bindp (upsert_order_status order app status None None None) (\<lambda>_. ret (order, status)))"

definition mark_order_shipped ::
  "(string \<Rightarrow> exchange res) \<Rightarrow> (string \<Rightarrow> string \<Rightarrow> string \<Rightarrow> 'r res) \<Rightarrow> string \<Rightarrow> string \<Rightarrow> string \<Rightarrow>
   string option \<Rightarrow> string option \<Rightarrow> (sales, 'r) prog" where
  "mark_order_shipped exch ship user app order tracking carrier =
     bindp (sales_token exch user app) (\<lambda>token.
     bindp (use_app_environment app) (\<lambda>_ s.
       if token = [] \<or> order = [] then (Inl ValueErr, s)
       else case ship (sl_env s) token order of
              Inl e \<Rightarrow> (Inl e, s)
            | Inr r \<Rightarrow> bindp (upsert_order_status order app ''sent'' tracking carrier (Some (sl_now s))) (\<lambda>_. ret r) s))"

definition track_active_listing ::
  "(string \<Rightarrow> nat option) \<Rightarrow> (string \<Rightarrow> nat option) \<Rightarrow> (string \<Rightarrow> nat option) \<Rightarrow>
   string \<Rightarrow> string \<Rightarrow> nat \<Rightarrow> string \<Rightarrow> bool \<Rightarrow> string \<Rightarrow> string \<Rightarrow> sales \<Rightarrow> sales" where
  "track_active_listing condition_of finish_of language_of item app cv condition foil lang market =
     upsert_active_listing item app cv (condition_of condition)
       (finish_of (if foil then ''FOIL'' else ''NONFOIL'')) (language_of lang) (Some market)"

section \<open>Promotion\<close>

text \<open>A staged sale of either channel, as \<open>_aggregate\<close> reads it.\<close>

record staged =
  sg_id :: nat
  sg_source :: "nat option"
  sg_day :: nat
  sg_finish :: nat
  sg_condition :: "nat option"
  sg_language :: nat
  sg_cents :: int
  sg_currency :: "string option"

record bucket =
  bk_total :: int
  bk_count :: nat
  bk_ids :: "nat list"

type_synonym group_key = "nat option \<times> nat \<times> nat \<times> nat \<times> nat"

definition group_key :: "staged \<Rightarrow> group_key" where
  "group_key r = (sg_source r, sg_day r, sg_finish r, nz_or 1 (sg_condition r), sg_language r)"

definition upper_str :: "string \<Rightarrow> string" where
  "upper_str s = map char_of (upper (lit s))"

definition converted :: "(string, rat) dict \<Rightarrow> staged \<Rightarrow> int" where
  "converted fx r =
     (let currency = upper_str (case sg_currency r of None \<Rightarrow> ''USD'' | Some c \<Rightarrow> if c = [] then ''USD'' else c)
      in if currency \<noteq> ''USD''
         then (case dget fx currency of
                 None \<Rightarrow> sg_cents r
               | Some rate \<Rightarrow> round_half_even (of_int (sg_cents r) * rate))
         else sg_cents r)"

definition add_to_bucket :: "(string, rat) dict \<Rightarrow> staged \<Rightarrow> bucket option \<Rightarrow> bucket" where
  "add_to_bucket fx r b =
     (let old = (case b of None \<Rightarrow> \<lparr>bk_total = 0, bk_count = 0, bk_ids = []\<rparr> | Some x \<Rightarrow> x)
      in old\<lparr>bk_total := bk_total old + converted fx r, bk_count := Suc (bk_count old), bk_ids := bk_ids old @ [sg_id r]\<rparr>)"

definition aggregate_rows :: "(string, rat) dict \<Rightarrow> staged list \<Rightarrow> (group_key, bucket) dict" where
  "aggregate_rows fx rows =
     fold (\<lambda>r d. dset (group_key r) (add_to_bucket fx r (dget d (group_key r))) d) rows []"

text \<open>
  \<open>upsert_price_observation\<close>: the average and the count of the key are replaced. \<open>fails\<close> tells for
  which keys the statement raises; a key without a product cannot be stored.
\<close>

definition average :: "bucket \<Rightarrow> int" where
  "average b = round_half_even (of_int (bk_total b) / of_nat (bk_count b))"

definition upsert_price_observation ::
  "(group_key \<Rightarrow> bool) \<Rightarrow> group_key \<Rightarrow> bucket \<Rightarrow> (sales, unit) prog" where
  "upsert_price_observation fails k b s =
     (case k of
        (Some p, rest) \<Rightarrow>
          if fails k then (Inl DbErr, s)
          else (Inr (), s\<lparr>sl_obs := dset (p, rest) (average b, bk_count b) (sl_obs s)\<rparr>)
      | (None, _) \<Rightarrow> (Inl DbErr, s))"

fun promote_groups ::
  "(group_key \<Rightarrow> bool) \<Rightarrow> (group_key, bucket) dict \<Rightarrow> sales \<Rightarrow> nat list \<times> sales" where
  "promote_groups fails [] s = ([], s)"
| "promote_groups fails ((k, b) # gs) s =
     (case upsert_price_observation fails k b s of
        (Inl _, s') \<Rightarrow> promote_groups fails gs s'
      | (Inr _, s') \<Rightarrow> apfst (append (bk_ids b)) (promote_groups fails gs s'))"

text \<open>\<open>mark\<close> sets the flag of the promoted rows; its failure is logged.\<close>

definition promote_channel ::
  "(group_key \<Rightarrow> bool) \<Rightarrow> (nat list \<Rightarrow> (sales, unit) prog) \<Rightarrow> (string, rat) dict \<Rightarrow> staged list \<Rightarrow> sales \<Rightarrow> nat \<times> sales" where
  "promote_channel fails mark fx rows s =
     (case promote_groups fails (aggregate_rows fx rows) s of
        (ids, s') \<Rightarrow> (length ids, if ids = [] then s' else snd (swallow (mark ids) s')))"

definition day_of :: "nat \<Rightarrow> nat" where
  "day_of t = t div (24 * 3600)"

text \<open>The query of the own sales does not select the currency.\<close>

definition unpromoted_sales :: "sales \<Rightarrow> staged list" where
  "unpromoted_sales s =
     map (\<lambda>r. \<lparr>sg_id = sp_id r, sg_source = sp_source r, sg_day = day_of (sp_sold r), sg_finish = sp_finish r,
                sg_condition = sp_condition r, sg_language = sp_language r, sg_cents = sp_cents r, sg_currency = None\<rparr>)
       (filter (\<lambda>r. \<not> sp_promoted r \<and> sp_source r \<noteq> None) (sl_sales s))"

definition unpromoted_scraped :: "sales \<Rightarrow> staged list" where
  "unpromoted_scraped s =
     map (\<lambda>r. \<lparr>sg_id = sc_id r, sg_source = sc_source r, sg_day = day_of (sc_sold r), sg_finish = sc_finish r,
                sg_condition = sc_condition r, sg_language = sc_language r, sg_cents = sc_cents r,
                sg_currency = sc_currency r\<rparr>)
       (filter (\<lambda>r. \<not> sc_promoted r \<and> sc_source r \<noteq> None) (sl_scraped s))"

definition mark_sales :: "nat list \<Rightarrow> (sales, unit) prog" where
  "mark_sales ids s =
     (Inr (), s\<lparr>sl_sales := map (\<lambda>r. if sp_id r \<in> set ids then r\<lparr>sp_promoted := True\<rparr> else r) (sl_sales s)\<rparr>)"

definition mark_scraped :: "nat list \<Rightarrow> (sales, unit) prog" where
  "mark_scraped ids s =
     (Inr (), s\<lparr>sl_scraped := map (\<lambda>r. if sc_id r \<in> set ids then r\<lparr>sc_promoted := True\<rparr> else r) (sl_scraped s)\<rparr>)"

definition promote_sold_obs :: "(group_key \<Rightarrow> bool) \<Rightarrow> (string, rat) dict \<Rightarrow> sales \<Rightarrow> nat \<times> sales" where
  "promote_sold_obs fails fx s =
     (case promote_channel fails mark_sales [] (unpromoted_sales s) s of
        (own, s1) \<Rightarrow>
          (case promote_channel fails mark_scraped fx (unpromoted_scraped s1) s1 of
             (ext, s2) \<Rightarrow> (own + ext, s2)))"

section \<open>The tables stay consistent\<close>

text \<open>
  Sales are unique by order, app and item and by id, belong to a known order, and have a positive quantity
  and a price that is not negative; the status of every order is one of the four.
\<close>

definition sales_inv :: "sales \<Rightarrow> bool" where
  "sales_inv s \<longleftrightarrow>
     distinct (map sale_key (sl_sales s)) \<and> distinct (map sp_id (sl_sales s)) \<and>
     (\<forall>r\<in>set (sl_sales s). sp_id r < sl_next s \<and> 0 < sp_quantity r \<and> 0 \<le> sp_cents r \<and>
        (\<exists>o'\<in>set (sl_orders s). is_order (sp_order r) (sp_app r) o')) \<and>
     (\<forall>o'\<in>set (sl_orders s). os_status o' \<in> local_statuses)"

lemma keeps_swallow [intro]: "keeps I m \<Longrightarrow> keeps I (swallow m)"
  unfolding swallow_def by (rule keeps_catchp) auto

lemma keeps_each [intro]: "(\<And>x. x \<in> set xs \<Longrightarrow> keeps I (f x)) \<Longrightarrow> keeps I (each f xs)"
  by (induction xs) auto

lemma upsert_order_status_inv: "keeps sales_inv (upsert_order_status order app status tracking carrier shipped)"
proof (rule keepsI)
  fix s assume inv: "sales_inv s"
  show "sales_inv (snd (upsert_order_status order app status tracking carrier shipped s))"
  proof (cases "status \<in> local_statuses \<and> list_ex (is_order order app) (sl_orders s)")
    case False
    with inv show ?thesis by (auto simp: upsert_order_status_def sales_inv_def)
  next
    case True
    define f where "f r = (if is_order order app r
              then r\<lparr>os_status := status, os_tracking := coalesce tracking (os_tracking r),
                     os_carrier := coalesce carrier (os_carrier r), os_shipped := coalesce shipped (os_shipped r)\<rparr>
              else r)" for r
    have keep: "is_order x y (f r) = is_order x y r"
      "os_status r \<in> local_statuses \<Longrightarrow> os_status (f r) \<in> local_statuses" for x y r
      using True by (simp_all add: f_def is_order_def)
    have "sales_inv (s\<lparr>sl_orders := map f (sl_orders s)\<rparr>)"
      using inv by (simp add: sales_inv_def keep)
    with True show ?thesis by (simp add: upsert_order_status_def f_def [abs_def])
  qed
qed

lemma upsert_order_source_product_inv: "keeps sales_inv (upsert_order_source_product r)"
proof (rule keepsI)
  fix s assume inv: "sales_inv s"
  consider "upsert_order_source_product r s = (Inl DbErr, s)"
    | "sale_key r \<in> sale_key ` set (sl_sales s)" "0 \<le> sp_cents r"
    | "sale_key r \<notin> sale_key ` set (sl_sales s)"
    by (cases "sp_cents r < 0") (auto simp: upsert_order_source_product_def)
  then show "sales_inv (snd (upsert_order_source_product r s))"
  proof cases
    case 1
    with inv show ?thesis by simp
  next
    case 2
    define f where "f x = (if sale_key x = sale_key r then x\<lparr>sp_source := sp_source r, sp_cents := sp_cents r\<rparr> else x)" for x
    have keep: "sale_key (f x) = sale_key x" "sp_id (f x) = sp_id x" "sp_order (f x) = sp_order x" "sp_app (f x) = sp_app x"
      "sp_quantity (f x) = sp_quantity x" "0 \<le> sp_cents x \<Longrightarrow> 0 \<le> sp_cents (f x)" for x
      using 2(2) by (simp_all add: f_def sale_key_def)
    have "sales_inv (s\<lparr>sl_sales := map f (sl_sales s)\<rparr>)"
      using inv by (simp add: sales_inv_def o_def keep)
    with inv 2(1) show ?thesis by (auto simp: upsert_order_source_product_def f_def [abs_def])
  next
    case 3
    then have "sale_key (r\<lparr>sp_id := i, sp_promoted := False\<rparr>) \<notin> sale_key ` set (sl_sales s)" for i
      by (simp add: sale_key_def)
    moreover have "sl_next s \<notin> sp_id ` set (sl_sales s)"
      using inv by (auto simp: sales_inv_def)
    ultimately show ?thesis
      using inv 3
      by (auto simp: upsert_order_source_product_def sales_inv_def list_ex_iff less_Suc_eq)
  qed
qed

lemma sales_inv_frame [simp]:
  "sales_inv (s\<lparr>sl_ebay := e\<rparr>) = sales_inv s"
  "sales_inv (s\<lparr>sl_env := v\<rparr>) = sales_inv s"
  by (simp_all add: sales_inv_def)

lemma ensure_source_product_inv: "sales_inv s \<Longrightarrow> sales_inv (snd (ensure_source_product cv s))"
  by (auto simp: ensure_source_product_def sales_inv_def less_Suc_eq split: option.split)

lemma store_line_inv: "keeps sales_inv (store_line order app od line parse_date cents cv)"
proof (rule keepsI)
  fix s assume inv: "sales_inv s"
  obtain source s' where p: "(case cv of None \<Rightarrow> (None, s) | Some c \<Rightarrow> ensure_source_product c s) = (source, s')"
    by (rule prod.exhaust)
  have "sales_inv (snd (case cv of None \<Rightarrow> (None, s) | Some c \<Rightarrow> ensure_source_product c s))"
    using ensure_source_product_inv inv by (cases cv) auto
  then have "sales_inv s'" by (simp add: p)
  then have "sales_inv (snd (swallow (upsert_order_source_product r) s'))" for r
    using keeps_swallow [OF upsert_order_source_product_inv] by (simp add: keeps_def)
  then show "sales_inv (snd (store_line order app od line parse_date cents cv s))"
    by (simp add: store_line_def p)
qed

lemma process_line_item_inv: "keeps sales_inv (process_line_item suggest parse_date order app od line)"
proof -
  have "keeps sales_inv (resolve_card_version suggest item title)" for item title
    by (rule keepsI) (auto simp: resolve_card_version_def split: option.split)
  then show ?thesis
    using store_line_inv by (auto simp: process_line_item_def split: option.split)
qed

lemma sync_order_inv: "keeps sales_inv (sync_order suggest parse_date validate app raw)"
  unfolding sync_order_def Let_def
  by (auto split: option.split sum.split
      intro!: keeps_bindp keeps_swallow keeps_each process_line_item_inv upsert_order_status_inv)

lemma sync_for_user_inv: "keeps sales_inv (sync_for_user exch suggest parse_date validate history u)"
proof -
  have token: "keeps sales_inv (sales_token exch user app)" for user app
    by (rule keepsI) (auto simp: sales_token_def split: prod.split)
  have env: "keeps sales_inv (use_app_environment app)" for app
    by (rule keepsI) (auto simp: use_app_environment_def split: option.split)
  have "keeps sales_inv (\<lambda>s. if token = [] then (Inl ValueErr, s)
       else case history (sl_env s) token of
              Inl e \<Rightarrow> (Inl e, s)
            | Inr raws \<Rightarrow> each (sync_order suggest parse_date validate app) raws s)" for token app
  proof (rule keepsI)
    fix s assume "sales_inv s"
    moreover have "keeps sales_inv (each (sync_order suggest parse_date validate app) raws)" for raws
      by (intro keeps_each sync_order_inv)
    ultimately show "sales_inv (snd (if token = [] then (Inl ValueErr, s)
       else case history (sl_env s) token of
              Inl e \<Rightarrow> (Inl e, s)
            | Inr raws \<Rightarrow> each (sync_order suggest parse_date validate app) raws s))"
      by (auto simp: keeps_def split: sum.split)
  qed
  then show ?thesis
    unfolding sync_for_user_def by (cases u) (simp only: prod.case, intro keeps_bindp token env)
qed


section \<open>The sync takes back what was shipped\<close>

definition status_of :: "sales \<Rightarrow> string \<Rightarrow> string \<Rightarrow> string option" where
  "status_of s order app = map_option os_status (find (is_order order app) (sl_orders s))"

lemma find_map_keep:
  assumes "\<And>x. P (f x) = P x"
  shows "find P (map f xs) = map_option f (find P xs)"
  using assms by (induction xs) auto

lemma upsert_order_status_ok:
  assumes "status \<in> local_statuses"
  shows "fst (upsert_order_status order app status tracking carrier shipped s) = Inr () \<and>
         status_of (snd (upsert_order_status order app status tracking carrier shipped s)) order app = Some status"
proof (cases "list_ex (is_order order app) (sl_orders s)")
  case True
  then obtain x where "find (is_order order app) (sl_orders s) = Some x" "is_order order app x"
    by (metis find_None_iff find_Some_iff list_ex_iff not_Some_eq)
  with True assms show ?thesis
    by (simp add: upsert_order_status_def status_of_def) (subst find_map_keep; simp add: is_order_def)
next
  case False
  then have "find (is_order order app) (sl_orders s) = None"
    by (auto simp: find_None_iff list_ex_iff)
  with False assms show ?thesis
    by (simp add: upsert_order_status_def status_of_def find_append is_order_def)
qed

definition same_orders :: "order_status list \<Rightarrow> sales \<Rightarrow> bool" where
  "same_orders os s \<longleftrightarrow> sl_orders s = os"

lemma process_line_item_orders: "keeps (same_orders os) (process_line_item suggest parse_date order app od line)"
proof -
  have "keeps (same_orders os) (resolve_card_version suggest item title)" for item title
    by (rule keepsI) (auto simp: resolve_card_version_def split: option.split)
  moreover have "keeps (same_orders os) (store_line order app od line parse_date cents cv)" for cents cv
    by (rule keepsI)
      (auto simp: same_orders_def store_line_def Let_def swallow_def catchp_def upsert_order_source_product_def
        ensure_source_product_def split: option.split prod.split)
  ultimately show ?thesis
    by (auto simp: process_line_item_def split: option.split)
qed

text \<open>
  The nightly sync undoes the local status of an order: once an order has been marked shipped, which
  records it as sent, a sync that meets the order in the history sets it back to sold.
\<close>

theorem sync_resets_shipped_order:
  assumes "mark_order_shipped exch ship user app order tracking carrier s = (Inr r, s1)"
    and "validate x = Inr od" "od_id od = Some order"
    and "sync_order suggest parse_date validate app (Some x) s1 = (Inr (), s2)"
  shows "status_of s1 order app = Some ''sent'' \<and> status_of s2 order app = Some ''sold''"
proof -
  have ne: "order \<noteq> []" and up: "\<exists>t c. upsert_order_status order app ''sent'' tracking carrier (Some c) t = (Inr (), s1)"
    using assms(1)
    by (auto simp: mark_order_shipped_def bindp_def split: prod.splits sum.splits if_splits)
  have sent: "''sent'' \<in> local_statuses" "''sold'' \<in> local_statuses" by (simp_all add: local_statuses_def)
  have "status_of s1 order app = Some ''sent''"
    using up upsert_order_status_ok [OF sent(1)] by (metis snd_conv)
  moreover have "status_of s2 order app = Some ''sold''"
  proof -
    obtain t where up: "upsert_order_status order app ''sold'' None None None s1 = (Inr (), t)"
      and t: "status_of t order app = Some ''sold''"
      using upsert_order_status_ok [OF sent(2), of order app None None None s1] by (metis prod.collapse)
    have "swallow (upsert_order_status order app ''sold'' None None None) s1 = (Inr (), t)"
      by (simp add: swallow_def catchp_def up)
    then have "each (process_line_item suggest parse_date order app od) (or_empty (od_lines od)) t = (Inr (), s2)"
      using assms(2-4) ne by (simp add: sync_order_def or_empty_def)
    moreover have "keeps (same_orders (sl_orders t)) (each (process_line_item suggest parse_date order app od) (or_empty (od_lines od)))"
      using process_line_item_orders by auto
    ultimately have "sl_orders s2 = sl_orders t"
      by (auto simp: same_orders_def dest: keepsD)
    with t show ?thesis by (simp add: status_of_def)
  qed
  ultimately show ?thesis ..
qed

section \<open>What a promotion stores\<close>

definition members :: "group_key \<Rightarrow> staged list \<Rightarrow> staged list" where
  "members k rows = filter (\<lambda>r. group_key r = k) rows"

lemma aggregate_rows_snoc:
  "aggregate_rows fx (rows @ [r]) =
     dset (group_key r) (add_to_bucket fx r (dget (aggregate_rows fx rows) (group_key r))) (aggregate_rows fx rows)"
  by (simp add: aggregate_rows_def)

lemma aggregate_rows_ok: "dict_ok (aggregate_rows fx rows)"
  by (induction rows rule: rev_induct) (auto simp: aggregate_rows_snoc, simp add: aggregate_rows_def)

lemma dget_aggregate_rows:
  "dget (aggregate_rows fx rows) k =
     (if members k rows = [] then None
      else Some \<lparr>bk_total = sum_list (map (converted fx) (members k rows)), bk_count = length (members k rows),
                 bk_ids = map sg_id (members k rows)\<rparr>)"
proof (induction rows rule: rev_induct)
  case Nil
  then show ?case by (simp add: aggregate_rows_def members_def)
next
  case (snoc r rows)
  then show ?case
    by (auto simp: aggregate_rows_snoc dget_dset members_def add_to_bucket_def Let_def)
qed

lemma aggregate_rows_keys: "(k, b) \<in> set (aggregate_rows fx rows) \<Longrightarrow> members k rows \<noteq> [] \<and> bk_ids b = map sg_id (members k rows)"
  using dget_aggregate_rows [of fx rows k] dget_in_set [OF aggregate_rows_ok, of fx rows k b]
  by (auto split: if_splits)

definition store_group :: "group_key \<times> bucket \<Rightarrow> (obs_key, int \<times> nat) dict \<Rightarrow> (obs_key, int \<times> nat) dict" where
  "store_group g = (case g of (k, b) \<Rightarrow> dset (the (fst k), snd k) (average b, bk_count b))"

lemma promote_groups_ok:
  assumes "\<forall>g\<in>set gs. fst (fst g) \<noteq> None" "\<forall>k. \<not> fails k"
  shows "promote_groups fails gs s =
    (concat (map (\<lambda>g. bk_ids (snd g)) gs), s\<lparr>sl_obs := fold store_group gs (sl_obs s)\<rparr>)"
  using assms
  by (induction gs arbitrary: s) (auto simp: upsert_price_observation_def store_group_def split: option.split)

lemma dget_store_groups:
  assumes "dict_ok gs" "\<forall>g\<in>set gs. fst (fst g) \<noteq> None"
  shows "dget (fold store_group gs d) (p, rest) =
    (case dget gs (Some p, rest) of None \<Rightarrow> dget d (p, rest) | Some b \<Rightarrow> Some (average b, bk_count b))"
  using assms
proof (induction gs arbitrary: d)
  case Nil
  then show ?case by simp
next
  case (Cons g gs)
  obtain q r b where g: "g = ((Some q, r), b)"
    using Cons.prems(2) by (cases g) (auto)
  have "dict_ok gs" and "(Some q, r) \<notin> fst ` set gs"
    using Cons.prems(1) by (simp_all add: dict_ok_def g)
  then have "dget gs (Some q, r) = None" by (simp add: map_of_eq_None_iff)
  with Cons.IH [OF \<open>dict_ok gs\<close>, of "store_group g d"] Cons.prems(2) show ?case
    by (auto simp: g store_group_def dget_dset split: option.split)
qed

text \<open>A promotion whose statements do not fail: what it stores under a key, and which rows it marks.\<close>

definition promoted_value :: "(string, rat) dict \<Rightarrow> staged list \<Rightarrow> int \<times> nat" where
  "promoted_value fx g =
     (round_half_even (of_int (sum_list (map (converted fx) g)) / of_nat (length g)), length g)"

lemma promote_channel_ok:
  assumes "\<forall>r\<in>set rows. sg_source r \<noteq> None" "\<forall>k. \<not> fails k"
  shows "\<exists>ids obs. promote_channel fails mark fx rows s =
      (length ids, if ids = [] then s\<lparr>sl_obs := obs\<rparr> else snd (swallow (mark ids) (s\<lparr>sl_obs := obs\<rparr>))) \<and>
    set ids = sg_id ` set rows \<and>
    (\<forall>p rest. dget obs (p, rest) =
       (if members (Some p, rest) rows = [] then dget (sl_obs s) (p, rest)
        else Some (promoted_value fx (members (Some p, rest) rows))))"
proof -
  let ?gs = "aggregate_rows fx rows"
  have some: "\<forall>g\<in>set ?gs. fst (fst g) \<noteq> None"
  proof
    fix g assume "g \<in> set ?gs"
    then have "members (fst g) rows \<noteq> []" using aggregate_rows_keys by (metis prod.collapse)
    then obtain r where "r \<in> set rows" "group_key r = fst g"
      by (auto simp: members_def filter_empty_conv)
    moreover have "fst (group_key r) = sg_source r" by (simp add: group_key_def)
    ultimately show "fst (fst g) \<noteq> None" using assms(1) by metis
  qed
  let ?ids = "concat (map (\<lambda>g. bk_ids (snd g)) ?gs)"
  have "set ?ids = sg_id ` set rows"
  proof (intro set_eqI iffI)
    fix i assume "i \<in> set ?ids"
    then obtain k b where "(k, b) \<in> set ?gs" "i \<in> set (bk_ids b)" by auto
    then show "i \<in> sg_id ` set rows" using aggregate_rows_keys by (fastforce simp: members_def)
  next
    fix i assume "i \<in> sg_id ` set rows"
    then obtain r where r: "r \<in> set rows" "i = sg_id r" by auto
    then have mem: "r \<in> set (members (group_key r) rows)" by (simp add: members_def)
    then obtain b where "dget ?gs (group_key r) = Some b"
      using dget_aggregate_rows [of fx rows "group_key r"] by (auto split: if_splits)
    then have "(group_key r, b) \<in> set ?gs" using dget_in_set [OF aggregate_rows_ok] by blast
    moreover from this have "i \<in> set (bk_ids b)" using aggregate_rows_keys mem r by fastforce
    ultimately show "i \<in> set ?ids" by (auto intro!: bexI [of _ "(group_key r, b)"])
  qed
  moreover have "promote_channel fails mark fx rows s = (length ?ids, if ?ids = [] then s\<lparr>sl_obs := fold store_group ?gs (sl_obs s)\<rparr>
      else snd (swallow (mark ?ids) (s\<lparr>sl_obs := fold store_group ?gs (sl_obs s)\<rparr>)))"
    by (simp add: promote_channel_def promote_groups_ok [OF some assms(2)])
  moreover have "\<forall>p rest. dget (fold store_group ?gs (sl_obs s)) (p, rest) =
      (if members (Some p, rest) rows = [] then dget (sl_obs s) (p, rest)
       else Some (promoted_value fx (members (Some p, rest) rows)))"
    by (simp add: dget_store_groups [OF aggregate_rows_ok some] dget_aggregate_rows promoted_value_def average_def)
  ultimately show ?thesis by blast
qed

text \<open>
  C9. A promotion whose statements succeed leaves no sale unpromoted, and stores for every key the
  rounded average and the count of the scraped sales promoted now, if there are any, else of the own
  sales promoted now. The stored value is replaced: neither the sales promoted on an earlier night nor,
  when both channels have sales for the key, the own sales of this night are part of it.
\<close>

theorem promote_sold_obs_spec:
  assumes "\<forall>k. \<not> fails k"
  shows "unpromoted_sales (snd (promote_sold_obs fails fx s)) = [] \<and>
         unpromoted_scraped (snd (promote_sold_obs fails fx s)) = [] \<and>
         dget (sl_obs (snd (promote_sold_obs fails fx s))) (p, rest) =
           (let own = members (Some p, rest) (unpromoted_sales s); ext = members (Some p, rest) (unpromoted_scraped s)
            in if ext \<noteq> [] then Some (promoted_value fx ext)
               else if own \<noteq> [] then Some (promoted_value [] own)
               else dget (sl_obs s) (p, rest))"
proof -
  have src: "\<forall>r\<in>set (unpromoted_sales s). sg_source r \<noteq> None" "\<forall>r\<in>set (unpromoted_scraped s). sg_source r \<noteq> None" for s
    by (auto simp: unpromoted_sales_def unpromoted_scraped_def)
  obtain ids obs where own: "promote_channel fails mark_sales [] (unpromoted_sales s) s =
      (length ids, if ids = [] then s\<lparr>sl_obs := obs\<rparr> else snd (swallow (mark_sales ids) (s\<lparr>sl_obs := obs\<rparr>)))"
    and ids: "set ids = sg_id ` set (unpromoted_sales s)"
    and obs: "\<And>p rest. dget obs (p, rest) =
           (if members (Some p, rest) (unpromoted_sales s) = [] then dget (sl_obs s) (p, rest)
            else Some (promoted_value [] (members (Some p, rest) (unpromoted_sales s))))"
    using promote_channel_ok [OF src(1) [of s] assms, of mark_sales "[]" s] by blast
  define s1 where "s1 = s\<lparr>sl_obs := obs, sl_sales := map (\<lambda>r. if sp_id r \<in> set ids then r\<lparr>sp_promoted := True\<rparr> else r) (sl_sales s)\<rparr>"
  have s1: "snd (promote_channel fails mark_sales [] (unpromoted_sales s) s) = s1"
    by (simp add: own s1_def swallow_def catchp_def mark_sales_def)
  obtain jds obs' where ext: "promote_channel fails mark_scraped fx (unpromoted_scraped s1) s1 =
      (length jds, if jds = [] then s1\<lparr>sl_obs := obs'\<rparr> else snd (swallow (mark_scraped jds) (s1\<lparr>sl_obs := obs'\<rparr>)))"
    and jds: "set jds = sg_id ` set (unpromoted_scraped s1)"
    and obs': "\<And>p rest. dget obs' (p, rest) =
           (if members (Some p, rest) (unpromoted_scraped s1) = [] then dget (sl_obs s1) (p, rest)
            else Some (promoted_value fx (members (Some p, rest) (unpromoted_scraped s1))))"
    using promote_channel_ok [OF src(2) [of s1] assms, of mark_scraped fx s1] by blast
  define s2 where "s2 = s1\<lparr>sl_obs := obs', sl_scraped := map (\<lambda>r. if sc_id r \<in> set jds then r\<lparr>sc_promoted := True\<rparr> else r) (sl_scraped s1)\<rparr>"
  have s2: "snd (promote_sold_obs fails fx s) = s2"
    using s1 ext by (auto simp: promote_sold_obs_def s2_def swallow_def catchp_def mark_scraped_def split: prod.split)
  have "unpromoted_sales s2 = []"
    using ids by (force simp: s2_def s1_def unpromoted_sales_def filter_empty_conv image_iff split: if_splits)
  moreover have "unpromoted_scraped s2 = []"
    using jds by (force simp: s2_def unpromoted_scraped_def filter_empty_conv image_iff split: if_splits)
  moreover have "unpromoted_scraped s1 = unpromoted_scraped s"
    by (simp add: s1_def unpromoted_scraped_def)
  ultimately show ?thesis
    using obs [of p rest] obs' [of p rest] by (simp add: s2) (simp add: s2_def s1_def Let_def)
qed

section \<open>Samples\<close>

text \<open>An order with one sale for 10.00, of which the price on its day is stored already with two sales.\<close>

definition demo_sale :: sale where
  "demo_sale = \<lparr>sp_id = 1, sp_order = ''o1'', sp_app = ''main'', sp_item = ''i1'', sp_title = [], sp_source = Some 4,
     sp_quantity = 1, sp_cents = 1000, sp_currency = ''AUD'', sp_finish = 1, sp_condition = None, sp_language = 1,
     sp_sold = 0, sp_buyer = None, sp_market = None, sp_promoted = False\<rparr>"

definition demo_sales :: sales where
  "demo_sales = \<lparr>sl_ebay = demo_prod, sl_env = ''sandbox'',
     sl_orders = [\<lparr>os_order = ''o1'', os_app = ''main'', os_status = ''sold'', os_tracking = None, os_carrier = None, os_shipped = None\<rparr>],
     sl_sales = [demo_sale], sl_listings = [], sl_products = [], sl_sources = [], sl_scraped = [],
     sl_obs = [((4, 0, 1, 1, 1), (3000, 2))], sl_next = 5\<rparr>"

lemma demo_sales_inv: "sales_inv demo_sales"
  by (simp add: sales_inv_def demo_sales_def demo_sale_def local_statuses_def is_order_def)


definition demo_order :: order where
  "demo_order = \<lparr>od_id = Some ''o1'', od_created = None, od_buyer = None, od_lines = None\<rparr>"

theorem sync_resets_shipped_order_witness:
  "\<exists>s1 s2. mark_order_shipped (\<lambda>_. Inl ValueErr) (\<lambda>_ _ _. Inr ()) ''ann'' ''main'' ''o1'' (Some ''T'') None demo_sales = (Inr (), s1) \<and>
     sync_order (\<lambda>_. Inr []) (\<lambda>_. None) (\<lambda>_. Inr demo_order) ''main'' (Some ()) s1 = (Inr (), s2) \<and>
     status_of s1 ''o1'' ''main'' = Some ''sent'' \<and> status_of s2 ''o1'' ''main'' = Some ''sold''"
proof -
  have sent: "''sent'' \<in> local_statuses" "''sold'' \<in> local_statuses" by (simp_all add: local_statuses_def)
  have token: "sales_token (\<lambda>_. Inl ValueErr) ''ann'' ''main'' demo_sales = (Inr ''tok'', demo_sales)"
    by (simp add: sales_token_def demo_sales_def resolve_token_def cache_get_def shop_eval)
  define s0 where "s0 = snd (use_app_environment ''main'' demo_sales)"
  have env: "use_app_environment ''main'' demo_sales = (Inr (), s0)"
    by (simp add: s0_def use_app_environment_def)
  obtain s1 where "upsert_order_status ''o1'' ''main'' ''sent'' (Some ''T'') None (Some (sl_now s0)) s0 = (Inr (), s1)"
    using upsert_order_status_ok [OF sent(1)] by (metis prod.collapse)
  then have s1: "mark_order_shipped (\<lambda>_. Inl ValueErr) (\<lambda>_ _ _. Inr ()) ''ann'' ''main'' ''o1'' (Some ''T'') None demo_sales = (Inr (), s1)"
    by (simp add: mark_order_shipped_def token env)
  obtain t where "upsert_order_status ''o1'' ''main'' ''sold'' None None None s1 = (Inr (), t)"
    using upsert_order_status_ok [OF sent(2)] by (metis prod.collapse)
  then have s2: "sync_order (\<lambda>_. Inr []) (\<lambda>_. None) (\<lambda>_. Inr demo_order) ''main'' (Some ()) s1 = (Inr (), t)"
    by (simp add: sync_order_def demo_order_def or_empty_def swallow_def catchp_def bindp_def)
  show ?thesis
    using sync_resets_shipped_order [OF s1 _ _ s2, of demo_order] s1 s2 by (auto simp: demo_order_def)
qed

text \<open>The stored average of two sales at 30.00 is replaced by the one late sale.\<close>

theorem promote_sold_obs_spec_witness:
  "dget (sl_obs demo_sales) (4, 0, 1, 1, 1) = Some (3000, 2) \<and>
   dget (sl_obs (snd (promote_sold_obs (\<lambda>_. False) [] demo_sales))) (4, 0, 1, 1, 1) = Some (1000, 1)"
  using promote_sold_obs_spec [of "\<lambda>_. False" "[]" demo_sales 4 "(0, 1, 1, 1)"]
  by (simp add: demo_sales_def demo_sale_def members_def unpromoted_sales_def unpromoted_scraped_def day_of_def
      group_key_def nz_or_def promoted_value_def converted_def upper_str_def upper_def upper_cp_def char_of_eq_iff round_half_even_def)

end
