(* ===== verification/Recommendation.thy ===== *)
theory Recommendation
  imports Prelude
begin

text \<open>
  Listing recommendations: the pricing strategies and their manager (\<open>analytics/strategies.py\<close>), price
  trends and the recommendation engine (\<open>ebay/listing_recommendation_service.py\<close>,
  \<open>ebay/price_trend_service.py\<close>).

  The contract of a strategy is the locale \<open>pricing_strategy\<close>, interpreted on the three strategies. The
  dicts of statistics are records of optional fields; the database is a parameter.
\<close>

section \<open>Strategies\<close>

record stats =
  st_median :: "rat option"
  st_deviation :: "rat option"
  st_mean :: "rat option"
  st_listings :: "int option"

record percentiles =
  pc25 :: "rat option"
  pc75 :: "rat option"

record conditions =
  mc_volatility :: "rat option"
  mc_competition :: "string option"
  mc_inventory :: "string option"
  mc_cash_flow :: "bool option"
  mc_rarity :: "string option"
  mc_reputation :: "string option"

text \<open>The text of a result; the competitive strategy formats its discount against the median.\<close>

datatype description = Fixed string | Vs_Median rat

record pricing_result =
  pr_price :: rat
  pr_description :: description
  pr_speed :: string
  pr_margin :: string
  pr_confidence :: rat

definition get_or :: "'a \<Rightarrow> 'a option \<Rightarrow> 'a" where
  "get_or d x = (case x of None \<Rightarrow> d | Some v \<Rightarrow> v)"

lemma get_or_simps [simp]: "get_or d None = d" "get_or d (Some v) = v"
  by (simp_all add: get_or_def)

text \<open>\<open>d[k]\<close>.\<close>

definition item :: "'a option \<Rightarrow> 'a res" where
  "item x = (case x of None \<Rightarrow> Inl KeyErr | Some v \<Rightarrow> Inr v)"

text \<open>The argument \<open>market_data\<close> of a strategy is \<open>None\<close> or a dict with the market conditions.\<close>

definition market_get :: "(conditions \<Rightarrow> 'a option) \<Rightarrow> 'a \<Rightarrow> conditions option \<Rightarrow> 'a" where
  "market_get f d m = (case m of None \<Rightarrow> d | Some c \<Rightarrow> get_or d (f c))"

definition quick_price :: "stats \<Rightarrow> percentiles \<Rightarrow> conditions option \<Rightarrow> pricing_result res" where
  "quick_price st pc m =
     bind_res (item (pc25 pc)) (\<lambda>base.
       let volatile = market_get mc_volatility 0 m > 3/10
       in Inr \<lparr>pr_price = round2 (if volatile then base * (95/100) else base),
               pr_description = Fixed ''Price in bottom 25% for quick sale'',
               pr_speed = ''Very Fast (1-3 days)'', pr_margin = ''Low'',
               pr_confidence = (if volatile then 9/10 else 85/100)\<rparr>)"

definition quick_suitable :: "conditions \<Rightarrow> bool" where
  "quick_suitable c \<longleftrightarrow>
     get_or ''medium'' (mc_inventory c) = ''high'' \<or> get_or False (mc_cash_flow c) \<or> get_or 0 (mc_volatility c) > 3/10"

definition competitive_factor :: "string \<Rightarrow> rat" where
  "competitive_factor level = (if level = ''high'' then 92/100 else if level = ''low'' then 98/100 else 95/100)"

definition competitive_price :: "stats \<Rightarrow> percentiles \<Rightarrow> conditions option \<Rightarrow> pricing_result res" where
  "competitive_price st pc m =
     bind_res (item (st_median st)) (\<lambda>base.
       let level = market_get mc_competition ''medium'' m; price = base * competitive_factor level
       in if base = 0 then Inl ZeroDivErr
          else Inr \<lparr>pr_price = price, pr_description = Vs_Median ((price / base - 1) * 100),
                    pr_speed = ''Fast (3-7 days)'', pr_margin = ''Medium'',
                    pr_confidence = (if level = ''high'' then 8/10 else if level = ''low'' then 9/10 else 85/100)\<rparr>)"

definition competitive_suitable :: "conditions \<Rightarrow> bool" where
  "competitive_suitable c \<longleftrightarrow> True"

definition premium_price :: "stats \<Rightarrow> percentiles \<Rightarrow> conditions option \<Rightarrow> pricing_result res" where
  "premium_price st pc m =
     bind_res (item (pc75 pc)) (\<lambda>base.
       let bump = market_get mc_rarity ''common'' m \<in> {''mythic'', ''rare''} \<and>
                  market_get mc_reputation ''average'' m = ''high''
       in Inr \<lparr>pr_price = (if bump then base * (105/100) else base),
               pr_description = Fixed ''Premium pricing (top 25%)'',
               pr_speed = ''Slow (2-4 weeks)'', pr_margin = ''High'',
               pr_confidence = (if bump then 75/100 else 6/10)\<rparr>)"

definition premium_suitable :: "conditions \<Rightarrow> bool" where
  "premium_suitable c \<longleftrightarrow>
     (mc_rarity c = Some ''mythic'' \<or> mc_rarity c = Some ''rare'') \<and>
     get_or ''average'' (mc_reputation c) \<in> {''high'', ''excellent''} \<and>
     get_or 0 (mc_volatility c) < 2/10"

text \<open>What callers rely on: a confidence between a half and nine tenths, no negative price from
  statistics that are not negative.\<close>

definition plain_market :: "stats \<Rightarrow> percentiles \<Rightarrow> bool" where
  "plain_market st pc \<longleftrightarrow> 0 \<le> get_or 0 (st_median st) \<and> 0 \<le> get_or 0 (pc25 pc) \<and> 0 \<le> get_or 0 (pc75 pc)"

locale pricing_strategy =
  fixes price :: "stats \<Rightarrow> percentiles \<Rightarrow> conditions option \<Rightarrow> pricing_result res"
    and suitable :: "conditions \<Rightarrow> bool"
  assumes confidence: "price st pc m = Inr r \<Longrightarrow> 1/2 \<le> pr_confidence r \<and> pr_confidence r \<le> 9/10"
    and nonneg: "price st pc m = Inr r \<Longrightarrow> plain_market st pc \<Longrightarrow> 0 \<le> pr_price r"
begin

lemma confidence_unit: "price st pc m = Inr r \<Longrightarrow> 0 \<le> pr_confidence r \<and> pr_confidence r \<le> 1"
  using confidence [of st pc m r] by auto

lemma rounded_nonneg: "price st pc m = Inr r \<Longrightarrow> plain_market st pc \<Longrightarrow> 0 \<le> round2 (pr_price r)"
  using round2_nonneg nonneg by blast

end

interpretation quick: pricing_strategy quick_price quick_suitable
proof unfold_locales
  fix st pc m r assume r: "quick_price st pc m = Inr r"
  then show "1/2 \<le> pr_confidence r \<and> pr_confidence r \<le> 9/10"
    by (auto simp: quick_price_def Let_def item_def split: option.splits)
  assume "plain_market st pc"
  then show "0 \<le> pr_price r"
    using r by (auto simp: quick_price_def Let_def item_def plain_market_def round2_nonneg split: option.splits)
qed

interpretation competitive: pricing_strategy competitive_price competitive_suitable
  by unfold_locales
    (auto simp: competitive_price_def Let_def item_def plain_market_def competitive_factor_def split: option.splits if_splits)

interpretation premium: pricing_strategy premium_price premium_suitable
  by unfold_locales
    (auto simp: premium_price_def Let_def item_def plain_market_def split: option.splits)

section \<open>The manager\<close>

datatype strategy = Quick | Competitive | Premium

fun calculate_price :: "strategy \<Rightarrow> stats \<Rightarrow> percentiles \<Rightarrow> conditions option \<Rightarrow> pricing_result res" where
  "calculate_price Quick = quick_price"
| "calculate_price Competitive = competitive_price"
| "calculate_price Premium = premium_price"

fun is_suitable :: "strategy \<Rightarrow> conditions \<Rightarrow> bool" where
  "is_suitable Quick = quick_suitable"
| "is_suitable Competitive = competitive_suitable"
| "is_suitable Premium = premium_suitable"

definition manager :: "(string, strategy) dict" where
  "manager = [(''quick'', Quick), (''balanced'', Competitive), (''max'', Premium)]"

fun results_of ::
  "stats \<Rightarrow> percentiles \<Rightarrow> conditions option \<Rightarrow> (string, strategy) dict \<Rightarrow> (string, pricing_result) dict res" where
  "results_of st pc m [] = Inr []"
| "results_of st pc m ((k, s) # ss) =
     bind_res (calculate_price s st pc m) (\<lambda>r. bind_res (results_of st pc m ss) (\<lambda>rs. Inr ((k, r) # rs)))"

definition get_all_strategies ::
  "(string, strategy) dict \<Rightarrow> stats \<Rightarrow> percentiles \<Rightarrow> conditions option \<Rightarrow> (string, pricing_result) dict res" where
  "get_all_strategies ss st pc m = results_of st pc m ss"

definition get_suitable_strategies ::
  "(string, strategy) dict \<Rightarrow> conditions \<Rightarrow> stats \<Rightarrow> percentiles \<Rightarrow> (string, pricing_result) dict res" where
  "get_suitable_strategies ss c st pc = results_of st pc (Some c) (filter (\<lambda>(k, s). is_suitable s c) ss)"

definition recommend_strategy ::
  "(string, strategy) dict \<Rightarrow> conditions \<Rightarrow> stats \<Rightarrow> percentiles \<Rightarrow> (string \<times> pricing_result) res" where
  "recommend_strategy ss c st pc =
     bind_res (get_suitable_strategies ss c st pc) (\<lambda>suitable.
       case suitable of
         [] \<Rightarrow> (case ss of
                  [] \<Rightarrow> Inl (OtherExc 0)
                | (k, s) # _ \<Rightarrow> bind_res (calculate_price s st pc (Some c)) (\<lambda>r. Inr (k, r)))
       | x # xs \<Rightarrow> Inr (max_key (\<lambda>y. pr_confidence (snd y)) x xs))"

section \<open>Price trends\<close>

datatype trend_signal = Up | Down | Sideways | Insufficient

record price_row =
  ph_date :: int
  ph_avg :: int
  ph_source :: string

record price_trend =
  tr_signal :: trend_signal
  tr_7d :: "rat option"
  tr_30d :: "rat option"
  tr_90d :: "rat option"
  tr_latest :: "int option"
  tr_count :: nat
  tr_source :: "string option"

definition delta_pct :: "price_row list \<Rightarrow> int \<Rightarrow> int \<Rightarrow> rat option" where
  "delta_pct series latest_date window =
     (let candidates = filter (\<lambda>r. ph_date r \<le> latest_date - window) series
      in if candidates = [] then None
         else let anchor = ph_avg (last candidates); latest = ph_avg (last series)
              in if anchor = 0 then None
                 else Some (round2 (of_int (latest - anchor) / of_int anchor * 100)))"

definition classify_trend :: "rat option \<Rightarrow> trend_signal" where
  "classify_trend d =
     (case d of
        None \<Rightarrow> Insufficient
      | Some p \<Rightarrow> if 10 \<le> p then Up else if p \<le> - 10 then Down else Sideways)"

definition compute_price_trend :: "price_row list \<Rightarrow> price_trend" where
  "compute_price_trend series =
     (let n = length series in
      if n < 2
      then \<lparr>tr_signal = Insufficient, tr_7d = None, tr_30d = None, tr_90d = None,
            tr_latest = (if n = 1 then Some (ph_avg (last series)) else None), tr_count = n,
            tr_source = (if n = 1 then Some (ph_source (last series)) else None)\<rparr>
      else let latest = last series;
               d7 = delta_pct series (ph_date latest) 7;
               d30 = delta_pct series (ph_date latest) 30;
               d90 = delta_pct series (ph_date latest) 90
           in \<lparr>tr_signal = classify_trend (if d30 \<noteq> None then d30 else d7),
               tr_7d = d7, tr_30d = d30, tr_90d = d90,
               tr_latest = Some (ph_avg latest), tr_count = n, tr_source = Some (ph_source latest)\<rparr>)"

section \<open>The engine\<close>

datatype action = Raise | Lower | Hold | Draft

datatype signals_used = Behavioral | Market | Trend

record recommendation =
  rc_action :: action
  rc_strategy :: string
  rc_price :: "rat option"
  rc_confidence :: rat
  rc_signals :: signals_used
  rc_all :: "(string, rat \<times> description \<times> rat) dict"

definition behavioral_recommendation :: "int \<Rightarrow> int \<Rightarrow> recommendation" where
  "behavioral_recommendation days watch =
     (let (a, s, c) =
        (if days > 30 \<and> watch = 0 then (Draft, ''balanced'', 9/10)
         else if days > 14 \<and> watch < 2 then (Lower, ''quick'', 8/10)
         else if days < 7 \<and> watch \<ge> 5 then (Raise, ''max'', 75/100)
         else (Hold, ''balanced'', 7/10))
      in \<lparr>rc_action = a, rc_strategy = s, rc_price = None, rc_confidence = c, rc_signals = Behavioral, rc_all = []\<rparr>)"

record market_info =
  mi_stats :: stats
  mi_percentiles :: percentiles
  mi_rarity :: "string option"

definition market_conditions :: "market_info \<Rightarrow> conditions" where
  "market_conditions mi =
     \<lparr>mc_volatility = Some (get_or 0 (st_deviation (mi_stats mi)) / max (get_or 1 (st_mean (mi_stats mi))) 1),
      mc_competition = Some (if get_or 0 (st_listings (mi_stats mi)) > 20 then ''high'' else ''medium''),
      mc_inventory = Some ''medium'', mc_cash_flow = Some False,
      mc_rarity = Some (get_or ''rare'' (mi_rarity mi)), mc_reputation = Some ''high''\<rparr>"

definition strategy_action :: "string \<Rightarrow> action" where
  "strategy_action s = (if s = ''quick'' then Lower else if s = ''max'' then Raise else Hold)"

definition market_recommendation :: "int \<Rightarrow> rat \<Rightarrow> market_info \<Rightarrow> recommendation res" where
  "market_recommendation days price mi =
     (let p25 = get_or price (pc25 (mi_percentiles mi)); p75 = get_or price (pc75 (mi_percentiles mi));
          c = market_conditions mi
      in bind_res (recommend_strategy manager c (mi_stats mi) (mi_percentiles mi)) (\<lambda>(name, result).
         bind_res (get_all_strategies manager (mi_stats mi) (mi_percentiles mi) (Some c)) (\<lambda>results.
           Inr \<lparr>rc_action = (if price < p25 * (95/100) then Raise
                             else if price > p75 * (105/100) then Lower
                             else if days > 14 \<and> price \<le> p25 then Draft
                             else strategy_action name),
                rc_strategy = name, rc_price = Some (round2 (pr_price result)),
                rc_confidence = pr_confidence result, rc_signals = Market,
                rc_all = map (\<lambda>(k, v). (k, (round2 (pr_price v), pr_description v, pr_confidence v))) results\<rparr>)))"

definition trend_adjuster :: "action \<Rightarrow> trend_signal \<Rightarrow> (action \<times> rat) option" where
  "trend_adjuster a t =
     (if a = Hold \<and> t = Up then Some (Raise, 5/100)
      else if a = Hold \<and> t = Down then Some (Lower, 5/100)
      else if a = Raise \<and> t = Down then Some (Hold, - 5/100)
      else if a = Lower \<and> t = Up then Some (Hold, - 5/100)
      else None)"

definition clamp :: "rat \<Rightarrow> rat" where
  "clamp x = max 0 (min 1 x)"

definition adjust_to_trend :: "price_trend option \<Rightarrow> recommendation \<Rightarrow> recommendation" where
  "adjust_to_trend trend rec =
     (case trend of
        None \<Rightarrow> rec
      | Some t \<Rightarrow>
          if tr_signal t = Sideways \<or> tr_signal t = Insufficient then rec
          else if rc_action rec = Draft then rec
          else case trend_adjuster (rc_action rec) (tr_signal t) of
            Some (a, d) \<Rightarrow> rec\<lparr>rc_action := a, rc_confidence := clamp (rc_confidence rec + d), rc_signals := Trend\<rparr>
          | None \<Rightarrow> rec\<lparr>rc_confidence := clamp (rc_confidence rec + 5/100), rc_signals := Trend\<rparr>)"

definition compute_recommendation ::
  "int \<Rightarrow> int \<Rightarrow> rat \<Rightarrow> market_info option \<Rightarrow> price_trend option \<Rightarrow> recommendation res" where
  "compute_recommendation days watch price market trend =
     bind_res (case market of
                 None \<Rightarrow> Inr (behavioral_recommendation days watch)
               | Some mi \<Rightarrow> market_recommendation days price mi)
       (\<lambda>rec. Inr (adjust_to_trend trend rec))"

text \<open>
  The services: the listing of an item, if it is linked to a card, and the price history of that card.
  An exception of either lookup is logged and counts as no trend in the first service.
\<close>

record listing_meta =
  lm_card :: nat
  lm_finish :: nat
  lm_condition :: nat
  lm_finish_code :: string
  lm_condition_code :: string

definition lookup_trend ::
  "(string \<Rightarrow> string \<Rightarrow> listing_meta option res) \<Rightarrow> (nat \<Rightarrow> nat \<Rightarrow> nat \<Rightarrow> price_row list res) \<Rightarrow> string \<Rightarrow> string \<Rightarrow>
   price_trend option" where
  "lookup_trend meta history item_id app =
     (case bind_res (meta item_id app) (\<lambda>m. case m of
             None \<Rightarrow> Inr None
           | Some lm \<Rightarrow> bind_res (history (lm_card lm) (lm_finish lm) (lm_condition lm)) (\<lambda>h.
               Inr (if h = [] then None else Some (compute_price_trend h)))) of
        Inl _ \<Rightarrow> None
      | Inr t \<Rightarrow> t)"

definition get_listing_recommendation ::
  "(string \<Rightarrow> string \<Rightarrow> listing_meta option res) \<Rightarrow> (nat \<Rightarrow> nat \<Rightarrow> nat \<Rightarrow> price_row list res) \<Rightarrow> string \<Rightarrow> string \<Rightarrow>
   int \<Rightarrow> int \<Rightarrow> rat \<Rightarrow> market_info option \<Rightarrow> recommendation res" where
  "get_listing_recommendation meta history app item_id days watch price market =
     compute_recommendation days watch price market (lookup_trend meta history item_id app)"

definition get_listing_price_trend ::
  "(string \<Rightarrow> string \<Rightarrow> listing_meta option res) \<Rightarrow> (nat \<Rightarrow> nat \<Rightarrow> nat \<Rightarrow> price_row list res) \<Rightarrow> string \<Rightarrow> string \<Rightarrow>
   (listing_meta \<times> price_trend \<times> recommendation) res" where
  "get_listing_price_trend meta history item_id app =
     bind_res (meta item_id app) (\<lambda>m. case m of
         None \<Rightarrow> Inl ValueErr
       | Some lm \<Rightarrow> bind_res (history (lm_card lm) (lm_finish lm) (lm_condition lm)) (\<lambda>h.
           let trend = compute_price_trend h
           in bind_res (compute_recommendation 0 0 (of_int (get_or 0 (tr_latest trend)) / 100) None (Some trend)) (\<lambda>rec.
                Inr (lm, trend, rec))))"

section \<open>Which strategy the market recommends\<close>

lemma strategy_confidence:
  "calculate_price s st pc m = Inr r \<Longrightarrow> 1/2 \<le> pr_confidence r \<and> pr_confidence r \<le> 9/10"
  by (cases s) (auto dest: quick.confidence competitive.confidence premium.confidence)

lemma confidences:
  "quick_price st pc m = Inr r \<Longrightarrow> 85/100 \<le> pr_confidence r"
  "quick_price st pc (Some c) = Inr r \<Longrightarrow> mc_volatility c = Some v \<Longrightarrow> 3/10 < v \<Longrightarrow> pr_confidence r = 9/10"
  "competitive_price st pc m = Inr r \<Longrightarrow> 8/10 \<le> pr_confidence r"
  "competitive_price st pc (Some c) = Inr r \<Longrightarrow> mc_competition c \<noteq> Some ''low'' \<Longrightarrow> pr_confidence r \<le> 85/100"
  "premium_price st pc m = Inr r \<Longrightarrow> pr_confidence r \<le> 75/100"
  by (auto simp: quick_price_def competitive_price_def premium_price_def Let_def market_get_def
      get_or_def split: if_splits option.splits)

definition volatility :: "market_info \<Rightarrow> rat" where
  "volatility mi = get_or 0 (st_deviation (mi_stats mi)) / max (get_or 1 (st_mean (mi_stats mi))) 1"

lemma market_conditions_simps [simp]:
  "mc_volatility (market_conditions mi) = Some (volatility mi)"
  "mc_inventory (market_conditions mi) = Some ''medium''"
  "mc_cash_flow (market_conditions mi) = Some False"
  "mc_reputation (market_conditions mi) = Some ''high''"
  "mc_competition (market_conditions mi) \<noteq> Some ''low''"
  by (simp_all add: market_conditions_def volatility_def)

lemma suitable_manager:
  "filter (\<lambda>(k, s). is_suitable s (market_conditions mi)) manager =
     (if 3/10 < volatility mi then [(''quick'', Quick), (''balanced'', Competitive)]
      else (''balanced'', Competitive) #
           (if is_suitable Premium (market_conditions mi) then [(''max'', Premium)] else []))"
  by (auto simp: manager_def quick_suitable_def competitive_suitable_def premium_suitable_def)

lemma recommended:
  assumes "recommend_strategy manager (market_conditions mi) st pc = Inr (name, r)"
  shows "name = (if 3/10 < volatility mi then ''quick'' else ''balanced'')"
    and "calculate_price (if 3/10 < volatility mi then Quick else Competitive) st pc (Some (market_conditions mi)) = Inr r"
proof -
  let ?c = "Some (market_conditions mi)"
  have "name = (if 3/10 < volatility mi then ''quick'' else ''balanced'') \<and>
    calculate_price (if 3/10 < volatility mi then Quick else Competitive) st pc ?c = Inr r"
  proof (cases "3/10 < volatility mi")
    case True
    with assms obtain q b where q: "quick_price st pc ?c = Inr q" and b: "competitive_price st pc ?c = Inr b"
      and m: "(name, r) = max_key (\<lambda>y. pr_confidence (snd y)) (''quick'', q) [(''balanced'', b)]"
      by (auto simp: recommend_strategy_def get_suitable_strategies_def suitable_manager)
    have "pr_confidence b \<le> pr_confidence q"
      using confidences(2) [OF q _ True] confidences(4) [OF b] by simp
    with m q True show ?thesis by auto
  next
    case False
    show ?thesis
    proof (cases "is_suitable Premium (market_conditions mi)")
      case prem: True
      with assms False obtain b p where b: "competitive_price st pc ?c = Inr b" and p: "premium_price st pc ?c = Inr p"
        and m: "(name, r) = max_key (\<lambda>y. pr_confidence (snd y)) (''balanced'', b) [(''max'', p)]"
        by (auto simp: recommend_strategy_def get_suitable_strategies_def suitable_manager)
      have "pr_confidence p \<le> pr_confidence b"
        using confidences(3) [OF b] confidences(5) [OF p] by simp
      with m b False show ?thesis by auto
    next
      case prem: False
      with assms False show ?thesis
        by (auto simp: recommend_strategy_def get_suitable_strategies_def suitable_manager)
    qed
  qed
  then show "name = (if 3/10 < volatility mi then ''quick'' else ''balanced'')"
    and "calculate_price (if 3/10 < volatility mi then Quick else Competitive) st pc ?c = Inr r"
    by simp_all
qed

lemma strategy_action_recommended:
  "strategy_action (if b then ''quick'' else ''balanced'') = (if b then Lower else Hold)"
  by (simp add: strategy_action_def)

text \<open>
  With market data the engine recommends the quick sale exactly when the volatility (standard deviation
  over mean) exceeds 0.3 and the balanced strategy otherwise, never the premium one, whatever the card; the
  action Raise comes only from a price below 95 percent of the first quartile.
\<close>

theorem market_recommendation_spec:
  assumes "market_recommendation days price mi = Inr r"
  shows "rc_strategy r = (if 3/10 < volatility mi then ''quick'' else ''balanced'') \<and>
    rc_signals r = Market \<and>
    (rc_action r = Raise \<longleftrightarrow> price < get_or price (pc25 (mi_percentiles mi)) * (95/100)) \<and>
    1/2 \<le> rc_confidence r \<and> rc_confidence r \<le> 9/10"
proof -
  from assms obtain name res where rec: "recommend_strategy manager (market_conditions mi) (mi_stats mi) (mi_percentiles mi) = Inr (name, res)"
    and fields: "rc_strategy r = name" "rc_signals r = Market" "rc_confidence r = pr_confidence res"
    and act: "rc_action r = (if price < get_or price (pc25 (mi_percentiles mi)) * (95/100) then Raise
                             else if price > get_or price (pc75 (mi_percentiles mi)) * (105/100) then Lower
                             else if days > 14 \<and> price \<le> get_or price (pc25 (mi_percentiles mi)) then Draft
                             else strategy_action name)"
    by (auto simp: market_recommendation_def Let_def)
  note name = recommended(1) [OF rec]
  have "rc_action r = Raise \<longleftrightarrow> price < get_or price (pc25 (mi_percentiles mi)) * (95/100)"
    unfolding act name strategy_action_recommended by auto
  with strategy_confidence [OF recommended(2) [OF rec]] fields name show ?thesis by simp
qed

definition demo_market :: "rat \<Rightarrow> market_info" where
  "demo_market dev =
     \<lparr>mi_stats = \<lparr>st_median = Some 10, st_deviation = Some dev, st_mean = Some 10, st_listings = Some 30\<rparr>,
      mi_percentiles = \<lparr>pc25 = Some 8, pc75 = Some 12\<rparr>, mi_rarity = None\<rparr>"

lemma demo_market_ok: "is_ok (market_recommendation 3 7 (demo_market 5))"
  by code_simp

theorem market_recommendation_spec_witness:
  "\<exists>r. market_recommendation 3 7 (demo_market 5) = Inr r \<and> rc_strategy r = ''quick'' \<and> rc_action r = Raise"
proof -
  obtain r where r: "market_recommendation 3 7 (demo_market 5) = Inr r"
    using demo_market_ok by (auto simp: is_ok_iff)
  show ?thesis
    using market_recommendation_spec [OF r] r by (simp add: volatility_def demo_market_def)
qed

text \<open>
  When it fails: the strategies read \<open>p25\<close>, \<open>median_price\<close> and \<open>p75\<close> without a default.
\<close>

lemma quick_ok: "is_ok (quick_price st pc m) \<longleftrightarrow> pc25 pc \<noteq> None"
  by (auto simp: quick_price_def item_def Let_def split: option.split)

lemma competitive_ok: "is_ok (competitive_price st pc m) \<longleftrightarrow> (\<exists>b. st_median st = Some b \<and> b \<noteq> 0)"
  by (auto simp: competitive_price_def item_def Let_def split: option.split)

lemma premium_ok: "is_ok (premium_price st pc m) \<longleftrightarrow> pc75 pc \<noteq> None"
  by (auto simp: premium_price_def item_def Let_def split: option.split)

lemma is_ok_bind: "is_ok (bind_res r f) \<longleftrightarrow> (\<exists>x. r = Inr x \<and> is_ok (f x))"
  by (cases r) auto

lemma results_of_ok:
  "is_ok (results_of st pc m ss) \<longleftrightarrow> (\<forall>(k, s) \<in> set ss. is_ok (calculate_price s st pc m))"
  by (induction ss) (auto simp: is_ok_bind is_ok_iff)

lemma all_strategies_ok:
  "is_ok (get_all_strategies manager st pc m) \<longleftrightarrow>
     pc25 pc \<noteq> None \<and> (\<exists>b. st_median st = Some b \<and> b \<noteq> 0) \<and> pc75 pc \<noteq> None"
  unfolding get_all_strategies_def results_of_ok by (simp add: manager_def quick_ok competitive_ok premium_ok)

lemma recommend_ok:
  assumes "\<And>s. is_ok (calculate_price s st pc (Some c))" and "ss \<noteq> []"
  shows "is_ok (recommend_strategy ss c st pc)"
proof -
  have "is_ok (get_suitable_strategies ss c st pc)"
    unfolding get_suitable_strategies_def results_of_ok using assms(1) by auto
  then obtain rs where rs: "get_suitable_strategies ss c st pc = Inr rs" by (auto simp: is_ok_iff)
  show ?thesis
  proof (cases rs)
    case Nil
    with rs assms show ?thesis
      by (auto simp: recommend_strategy_def is_ok_bind is_ok_iff neq_Nil_conv)
  next
    case (Cons x xs)
    with rs show ?thesis by (simp add: recommend_strategy_def)
  qed
qed

text \<open>
  The market engine answers exactly when both quartiles and a median other than 0 are present, although
  it reads the quartiles with the asking price as the default.
\<close>

theorem market_recommendation_answers:
  "is_ok (market_recommendation days price mi) \<longleftrightarrow>
     pc25 (mi_percentiles mi) \<noteq> None \<and> pc75 (mi_percentiles mi) \<noteq> None \<and>
     (\<exists>b. st_median (mi_stats mi) = Some b \<and> b \<noteq> 0)"
proof -
  let ?st = "mi_stats mi" and ?pc = "mi_percentiles mi" and ?c = "market_conditions mi"
  let ?all = "pc25 ?pc \<noteq> None \<and> (\<exists>b. st_median ?st = Some b \<and> b \<noteq> 0) \<and> pc75 ?pc \<noteq> None"
  have "is_ok (recommend_strategy manager ?c ?st ?pc)" if ?all
  proof (rule recommend_ok)
    show "is_ok (calculate_price s ?st ?pc (Some ?c))" for s
      using that by (cases s) (auto simp: quick_ok competitive_ok premium_ok)
  qed (simp add: manager_def)
  moreover have "is_ok (market_recommendation days price mi) \<longleftrightarrow>
      (\<exists>x. recommend_strategy manager ?c ?st ?pc = Inr x) \<and> (\<exists>y. get_all_strategies manager ?st ?pc (Some ?c) = Inr y)"
    unfolding market_recommendation_def Let_def is_ok_bind split_beta is_ok.simps by blast
  ultimately show ?thesis
    using all_strategies_ok [of ?st ?pc "Some ?c"] unfolding is_ok_iff by blast
qed

section \<open>The trend has the last word\<close>

lemma clamp_unit: "0 \<le> clamp x \<and> clamp x \<le> 1"
  by (auto simp: clamp_def)

lemma adjust_unit:
  "0 \<le> rc_confidence rec \<and> rc_confidence rec \<le> 1 \<Longrightarrow>
   0 \<le> rc_confidence (adjust_to_trend t rec) \<and> rc_confidence (adjust_to_trend t rec) \<le> 1"
  by (auto simp: adjust_to_trend_def clamp_unit split: option.splits)

lemma adjust_action:
  "rc_action (adjust_to_trend (Some t) rec) =
     (if rc_action rec = Draft then Draft
      else case tr_signal t of
        Up \<Rightarrow> (case rc_action rec of Raise \<Rightarrow> Raise | Hold \<Rightarrow> Raise | _ \<Rightarrow> Hold)
      | Down \<Rightarrow> (case rc_action rec of Lower \<Rightarrow> Lower | Hold \<Rightarrow> Lower | _ \<Rightarrow> Hold)
      | _ \<Rightarrow> rc_action rec)"
  by (cases "tr_signal t"; cases "rc_action rec")
    (simp_all add: adjust_to_trend_def trend_adjuster_def)

lemma base_unit:
  "0 \<le> rc_confidence (behavioral_recommendation d w) \<and> rc_confidence (behavioral_recommendation d w) \<le> 1"
  by (auto simp: behavioral_recommendation_def)

lemma market_unit:
  assumes "market_recommendation d p mi = Inr r"
  shows "0 \<le> rc_confidence r \<and> rc_confidence r \<le> 1"
proof -
  from assms obtain name res where "recommend_strategy manager (market_conditions mi) (mi_stats mi) (mi_percentiles mi) = Inr (name, res)"
    "rc_confidence r = pr_confidence res"
    by (auto simp: market_recommendation_def Let_def)
  with strategy_confidence [OF recommended(2)] show ?thesis by fastforce
qed

text \<open>
  The recommendation never moves a price against its trend: a falling trend never ends in Raise, a rising
  one never in Lower; a listing proposed for draft stays one, and the confidence lies between 0 and 1.
\<close>

theorem recommendation_follows_trend:
  assumes "compute_recommendation days watch price market (Some t) = Inr r"
  shows "(tr_signal t = Down \<longrightarrow> rc_action r \<noteq> Raise) \<and>
    (tr_signal t = Up \<longrightarrow> rc_action r \<noteq> Lower) \<and>
    0 \<le> rc_confidence r \<and> rc_confidence r \<le> 1 \<and>
    (market = None \<and> days > 30 \<and> watch = 0 \<longrightarrow> rc_action r = Draft)"
proof -
  from assms obtain base where base: "(case market of None \<Rightarrow> Inr (behavioral_recommendation days watch)
        | Some mi \<Rightarrow> market_recommendation days price mi) = Inr base"
    and r: "r = adjust_to_trend (Some t) base"
    by (auto simp: compute_recommendation_def)
  have "0 \<le> rc_confidence base \<and> rc_confidence base \<le> 1"
    using base by (cases market) (auto dest: market_unit simp: base_unit simp del: bind_res_eq_Inr)
  from adjust_unit [OF this] have unit: "0 \<le> rc_confidence r \<and> rc_confidence r \<le> 1" by (simp add: r)
  have draft: "market = None \<and> days > 30 \<and> watch = 0 \<longrightarrow> rc_action base = Draft"
    using base by (auto simp: behavioral_recommendation_def)
  show ?thesis
    using unit draft unfolding r adjust_action
    by (auto split: trend_signal.splits action.splits)
qed

definition demo_history :: "price_row list" where
  "demo_history =
     [\<lparr>ph_date = 0, ph_avg = 1000, ph_source = ''s''\<rparr>, \<lparr>ph_date = 40, ph_avg = 700, ph_source = ''s''\<rparr>]"

lemma demo_history_eval:
  "tr_signal (compute_price_trend demo_history) = Down"
  "map_sum id rc_action (compute_recommendation 3 9 7 None (Some (compute_price_trend demo_history))) = Inr Hold"
  by code_simp+

theorem recommendation_follows_trend_witness:
  "\<exists>r. compute_recommendation 3 9 7 None (Some (compute_price_trend demo_history)) = Inr r \<and>
       rc_action (behavioral_recommendation 3 9) = Raise \<and> rc_action r \<noteq> Raise"
proof -
  obtain r where r: "compute_recommendation 3 9 7 None (Some (compute_price_trend demo_history)) = Inr r"
    using demo_history_eval(2) by (cases "compute_recommendation 3 9 7 None (Some (compute_price_trend demo_history))") auto
  show ?thesis
    using recommendation_follows_trend [OF r] r demo_history_eval(1)
    by (simp add: behavioral_recommendation_def)
qed

end
