(* ===== verification/Mtgstock_Api.thy ===== *)
theory Mtgstock_Api
  imports Prelude
begin

text \<open>
  The MTGStocks client (\<open>mtg_stock/ApiMtgStock_repository.py\<close>) and the search for the last print id
  (\<open>get_last_print_id\<close> of \<open>mtg_stock/data_loader.py\<close>).

  The site is a parameter: what it answers to the \<open>k\<close>-th attempt at an endpoint, or the exception of the
  connection. The parser of a number in the header and the jitter of the waits are parameters as well. Bytes
  are strings; the rate limiter and the semaphore only delay a request and are left out.
\<close>

section \<open>Requests\<close>

datatype endpoint = Print int | Prices int string

record http_response =
  hr_status :: int
  hr_retry_after :: "string option"
  hr_body :: string

type_synonym transport = "endpoint \<Rightarrow> nat \<Rightarrow> http_response res"

record client =
  cl_max_attempts :: nat
  cl_delay_base :: rat
  cl_parse_float :: "string \<Rightarrow> rat option"
  cl_random :: "nat \<Rightarrow> rat"

definition retry_wait :: "client \<Rightarrow> rat \<Rightarrow> http_response \<Rightarrow> rat" where
  "retry_wait cl backoff r =
     (case hr_retry_after r of
        None \<Rightarrow> backoff
      | Some h \<Rightarrow> if h = [] then backoff
                  else (case cl_parse_float cl h of None \<Rightarrow> backoff | Some w \<Rightarrow> w))"

text \<open>
  The attempts that are left, the number of this one, the back-off and the last answer. The result has the
  answer and the waits of the loop; with no attempt at all the variable \<open>resp\<close> is not bound.
\<close>

fun send_attempts ::
  "client \<Rightarrow> (nat \<Rightarrow> http_response res) \<Rightarrow> nat \<Rightarrow> nat \<Rightarrow> rat \<Rightarrow> http_response option \<Rightarrow> http_response res \<times> rat list" where
  "send_attempts cl answer 0 k backoff prev =
     (case prev of None \<Rightarrow> (Inl UnboundErr, []) | Some r \<Rightarrow> (Inr r, []))"
| "send_attempts cl answer (Suc n) k backoff prev =
     (case answer k of
        Inl e \<Rightarrow> (Inl e, [])
      | Inr r \<Rightarrow>
          if hr_status r = 429
          then let jitter = retry_wait cl backoff r * (7/10 + cl_random cl k * (6/10));
                   (res, waits) = send_attempts cl answer n (Suc k) (min (backoff * 2) 30) (Some r)
               in (res, jitter # waits)
          else (Inr r, []))"

definition send :: "client \<Rightarrow> transport \<Rightarrow> endpoint \<Rightarrow> http_response res \<times> rat list" where
  "send cl net ep = send_attempts cl (net ep) (cl_max_attempts cl) 1 (cl_delay_base cl) None"

definition get_bytes_or_none :: "client \<Rightarrow> transport \<Rightarrow> endpoint \<Rightarrow> string option res" where
  "get_bytes_or_none cl net ep =
     bind_res (fst (send cl net ep)) (\<lambda>r.
       if hr_status r = 404 then Inr None
       else if 200 \<le> hr_status r \<and> hr_status r < 300 then Inr (Some (hr_body r))
       else Inl HttpStatusErr)"

definition market_path_mapping :: "(string, string) dict" where
  "market_path_mapping =
     [(''tcg'', ''tcgplayer''), (''cardkingdom'', ''cardkingdom''), (''cardmarket'', ''cardmarket''),
      (''starcity'', ''starcitygames'')]"

definition fetch_card_prices :: "client \<Rightarrow> transport \<Rightarrow> string \<Rightarrow> int \<Rightarrow> string option res" where
  "fetch_card_prices cl net market i =
     get_bytes_or_none cl net
       (Prices i (case dget market_path_mapping market of None \<Rightarrow> ''tcgplayer'' | Some p \<Rightarrow> p))"

definition fetch_card_details :: "client \<Rightarrow> transport \<Rightarrow> int \<Rightarrow> string option res" where
  "fetch_card_details cl net i = get_bytes_or_none cl net (Print i)"

section \<open>Batches\<close>

text \<open>
  An element of a batch has the key \<open>error\<close> (with the text of the exception, a parameter) or the key
  \<open>data\<close> with the details and the prices.
\<close>

datatype item = Error_Item int string | Data_Item int "string option" "string option"

record batch_result =
  br_data :: "item list"
  br_ok :: int
  br_failed :: int
  br_bytes :: int

fun is_data :: "item \<Rightarrow> bool" where
  "is_data (Error_Item _ _) = False"
| "is_data (Data_Item _ _ _) = True"

definition price_item :: "(pyexc \<Rightarrow> string) \<Rightarrow> int \<Rightarrow> string option res \<Rightarrow> item" where
  "price_item msg i r =
     (case r of
        Inl e \<Rightarrow> Error_Item i (msg e)
      | Inr None \<Rightarrow> Error_Item i ''Data not found''
      | Inr (Some b) \<Rightarrow> Data_Item i None (Some b))"

fun item_bytes :: "item \<Rightarrow> int" where
  "item_bytes (Error_Item _ _) = 0"
| "item_bytes (Data_Item _ _ p) = (case p of None \<Rightarrow> 0 | Some b \<Rightarrow> int (length b))"

definition fetch_card_price_data_batch ::
  "client \<Rightarrow> transport \<Rightarrow> (pyexc \<Rightarrow> string) \<Rightarrow> string \<Rightarrow> int list \<Rightarrow> batch_result" where
  "fetch_card_price_data_batch cl net msg market ids =
     (let items = map (\<lambda>i. price_item msg i (fetch_card_prices cl net market i)) ids
      in \<lparr>br_data = items, br_ok = int (length (filter is_data items)),
          br_failed = int (length (filter (\<lambda>x. \<not> is_data x) items)), br_bytes = sum_list (map item_bytes items)\<rparr>)"

text \<open>
  \<open>fetch_data\<close> of the second batch: details and prices are fetched together (an exception of the details is
  taken first), and \<open>prices.get("data")\<close> is called on the bytes of the answer, which have no such method.
\<close>

definition fetch_data :: "client \<Rightarrow> transport \<Rightarrow> (pyexc \<Rightarrow> string) \<Rightarrow> string \<Rightarrow> int \<Rightarrow> item" where
  "fetch_data cl net msg market i =
     (case bind_res (fetch_card_details cl net i) (\<lambda>d. bind_res (fetch_card_prices cl net market i) (\<lambda>p. Inr (d, p))) of
        Inl e \<Rightarrow> Error_Item i (msg e)
      | Inr (d, p) \<Rightarrow>
          if d = None \<and> p = None then Error_Item i ''Data not found''
          else if p \<noteq> None \<and> p \<noteq> Some [] then Error_Item i (msg AttrErr)
          else Data_Item i d None)"

text \<open>
  \<open>len(data.get("details", b"")) + len(data.get("prices", b""))\<close>: both keys of a data item are present, and
  \<open>len(None)\<close> is a TypeError. An item whose error text is empty counts as a success without data.
\<close>

definition len_opt :: "string option \<Rightarrow> int res" where
  "len_opt x = (case x of None \<Rightarrow> Inl TypeErr | Some b \<Rightarrow> Inr (int (length b)))"

fun tally :: "item list \<Rightarrow> (int \<times> int \<times> int) res" where
  "tally [] = Inr (0, 0, 0)"
| "tally (Error_Item i t # xs) =
     bind_res (tally xs) (\<lambda>(k, f, b). Inr (if t = [] then (k + 1, f, b) else (k, f + 1, b)))"
| "tally (Data_Item i d p # xs) =
     bind_res (len_opt d) (\<lambda>m. bind_res (len_opt p) (\<lambda>n.
       bind_res (tally xs) (\<lambda>(k, f, b). Inr (k + 1, f, b + m + n))))"

definition fetch_card_data_batches ::
  "client \<Rightarrow> transport \<Rightarrow> (pyexc \<Rightarrow> string) \<Rightarrow> string \<Rightarrow> int list \<Rightarrow> batch_result res" where
  "fetch_card_data_batches cl net msg market ids =
     (let items = map (fetch_data cl net msg market) ids
      in bind_res (tally items) (\<lambda>(k, f, b).
           Inr \<lparr>br_data = items, br_ok = k, br_failed = f, br_bytes = b\<rparr>))"

section \<open>The search for the last print id\<close>

definition id_exists :: "client \<Rightarrow> transport \<Rightarrow> int \<Rightarrow> bool res" where
  "id_exists cl net i = bind_res (fetch_card_details cl net i) (\<lambda>d. Inr (d \<noteq> None))"

text \<open>The three loops of \<open>get_last_print_id\<close>: down to an existing id, doubling, bisection.\<close>

function walk_down :: "(int \<Rightarrow> bool res) \<Rightarrow> int \<Rightarrow> int res" where
  "walk_down ex lo =
     (if lo > 1
      then (case ex lo of Inl e \<Rightarrow> Inl e | Inr b \<Rightarrow> if b then Inr lo else walk_down ex (lo - 1))
      else Inr lo)"
  by pat_completeness auto
termination
  by (relation "measure (\<lambda>(ex, lo). nat lo)") auto

partial_function (option) double_up :: "(int \<Rightarrow> bool res) \<Rightarrow> int \<Rightarrow> int \<Rightarrow> (int \<times> int) res option" where
  "double_up ex lo hi =
     (case ex hi of
        Inl e \<Rightarrow> Some (Inl e)
      | Inr b \<Rightarrow> if b then double_up ex hi (hi * 2) else Some (Inr (lo, hi)))"

function bisect :: "(int \<Rightarrow> bool res) \<Rightarrow> int \<Rightarrow> int \<Rightarrow> int res" where
  "bisect ex lo hi =
     (if lo + 1 < hi
      then (case ex ((lo + hi) div 2) of
              Inl e \<Rightarrow> Inl e
            | Inr b \<Rightarrow> if b then bisect ex ((lo + hi) div 2) hi else bisect ex lo ((lo + hi) div 2))
      else Inr lo)"
  by pat_completeness auto
termination
  by (relation "measure (\<lambda>(ex, lo, hi). nat (hi - lo))") auto

declare walk_down.simps [simp del] bisect.simps [simp del]

definition last_print_id :: "(int \<Rightarrow> bool res) \<Rightarrow> int \<Rightarrow> int res option" where
  "last_print_id ex last_known =
     (case walk_down ex last_known of
        Inl e \<Rightarrow> Some (Inl e)
      | Inr lo \<Rightarrow>
          (case double_up ex lo (lo + 1) of
             None \<Rightarrow> None
           | Some (Inl e) \<Rightarrow> Some (Inl e)
           | Some (Inr (l, h)) \<Rightarrow> Some (bisect ex l h)))"

definition get_last_print_id :: "client \<Rightarrow> transport \<Rightarrow> int \<Rightarrow> int res option" where
  "get_last_print_id cl net last_known = last_print_id (id_exists cl net) last_known"

section \<open>What the search finds\<close>

lemma walk_down_spec:
  "walk_down ex k = Inr r \<Longrightarrow>
   r \<le> k \<and> (0 \<le> k \<longrightarrow> 0 \<le> r) \<and> (1 < r \<longrightarrow> ex r = Inr True) \<and> (\<forall>i. r < i \<and> i \<le> k \<longrightarrow> ex i = Inr False)"
proof (induction ex k rule: walk_down.induct)
  case (1 ex lo)
  show ?case
  proof (cases "lo > 1 \<and> ex lo = Inr False")
    case True
    with "1.prems" have rec: "walk_down ex (lo - 1) = Inr r" by (simp add: walk_down.simps [of ex lo])
    from True "1.IH" [OF _ _ _ rec, of False] show ?thesis by (auto simp: order.order_iff_strict)
  next
    case False
    with "1.prems" show ?thesis
      by (auto simp: walk_down.simps [of ex lo] split: if_splits sum.splits)
  qed
qed

lemma double_up_spec:
  assumes "1 \<le> hi" "lo < hi" "\<And>n. N \<le> n \<Longrightarrow> ex n \<noteq> Inr True"
  shows "\<exists>res. double_up ex lo hi = Some res \<and>
    (\<forall>l h. res = Inr (l, h) \<longrightarrow> lo \<le> l \<and> l < h \<and> ex h = Inr False \<and> (l = lo \<or> ex l = Inr True)) \<and>
    (\<forall>e. res = Inl e \<longrightarrow> (\<exists>i\<ge>1. ex i = Inl e))"
  using assms(1,2)
proof (induction "nat (N - hi)" arbitrary: lo hi rule: less_induct)
  case less
  show ?case
  proof (cases "ex hi = Inr True")
    case True
    then have "hi < N" using assms(3) [of hi] by force
    with less.prems have "nat (N - hi * 2) < nat (N - hi)" by simp
    with less.hyps [of "hi * 2" hi] less.prems obtain res where "double_up ex hi (hi * 2) = Some res"
      "\<forall>l h. res = Inr (l, h) \<longrightarrow> hi \<le> l \<and> l < h \<and> ex h = Inr False \<and> (l = hi \<or> ex l = Inr True)"
      "\<forall>e. res = Inl e \<longrightarrow> (\<exists>i\<ge>1. ex i = Inl e)"
      by auto
    with True less.prems show ?thesis by (auto simp: double_up.simps [of ex lo hi])
  next
    case False
    with less.prems show ?thesis
      by (auto simp: double_up.simps [of ex lo hi] split: sum.split)
  qed
qed

lemma bisect_spec:
  assumes "lo < hi" "ex hi = Inr False" "P lo" "\<And>m. ex m = Inr True \<Longrightarrow> lo \<le> m \<Longrightarrow> P m"
    and "bisect ex lo hi = Inr r"
  shows "lo \<le> r \<and> r < hi \<and> ex (r + 1) = Inr False \<and> P r"
  using assms
proof (induction ex lo hi rule: bisect.induct)
  case (1 ex lo hi)
  let ?m = "(lo + hi) div 2"
  show ?case
  proof (cases "lo + 1 < hi")
    case False
    with "1.prems" have "hi = lo + 1" "r = lo" by (auto simp: bisect.simps [of ex lo hi])
    with "1.prems" show ?thesis by simp
  next
    case True
    then have m: "lo < ?m" "?m < hi" by auto
    show ?thesis
    proof (cases "ex ?m")
      case (Inl e)
      with True "1.prems" show ?thesis by (simp add: bisect.simps [of ex lo hi])
    next
      case (Inr b)
      show ?thesis
      proof (cases b)
        case True
        with \<open>lo + 1 < hi\<close> "1.prems" Inr have "bisect ex ?m hi = Inr r"
          by (simp add: bisect.simps [of ex lo hi])
        with "1.IH"(1) [OF \<open>lo + 1 < hi\<close> Inr True] "1.prems" m Inr True show ?thesis by fastforce
      next
        case False
        with \<open>lo + 1 < hi\<close> "1.prems" Inr have "bisect ex lo ?m = Inr r"
          by (simp add: bisect.simps [of ex lo hi])
        with "1.IH"(2) [OF \<open>lo + 1 < hi\<close> Inr False] "1.prems" m Inr False show ?thesis by fastforce
      qed
    qed
  qed
qed

text \<open>An exception of the search is one of a probe.\<close>

lemma walk_down_err: "walk_down ex k = Inl e \<Longrightarrow> \<exists>i\<ge>1. ex i = Inl e"
proof (induction ex k rule: walk_down.induct)
  case (1 ex lo)
  show ?case
  proof (cases "lo > 1 \<and> ex lo = Inr False")
    case True
    with "1.prems" have "walk_down ex (lo - 1) = Inl e" by (simp add: walk_down.simps [of ex lo])
    from True "1.IH" [OF _ _ _ this, of False] show ?thesis by auto
  next
    case False
    with "1.prems" show ?thesis
      by (auto simp: walk_down.simps [of ex lo] split: if_splits sum.splits intro: exI [of _ lo])
  qed
qed

lemma bisect_err: "bisect ex lo hi = Inl e \<Longrightarrow> 0 \<le> lo \<Longrightarrow> \<exists>i\<ge>1. ex i = Inl e"
proof (induction ex lo hi rule: bisect.induct)
  case (1 ex lo hi)
  let ?m = "(lo + hi) div 2"
  show ?case
  proof (cases "lo + 1 < hi")
    case True
    then have m: "lo < ?m" by auto
    with "1.prems" have m1: "1 \<le> ?m" by simp
    show ?thesis
    proof (cases "ex ?m")
      case (Inl e')
      with True "1.prems" m1 show ?thesis by (auto simp: bisect.simps [of ex lo hi])
    next
      case (Inr b)
      with True "1.prems" have "bisect ex (if b then ?m else lo) (if b then hi else ?m) = Inl e"
        by (cases b) (simp_all add: bisect.simps [of ex lo hi])
      with "1.IH"(1) [OF True Inr] "1.IH"(2) [OF True Inr] m1 "1.prems"(2) show ?thesis
        by (cases b) auto
    qed
  next
    case False
    with "1.prems" show ?thesis by (simp add: bisect.simps [of ex lo hi])
  qed
qed

lemma last_print_id_spec:
  assumes "0 \<le> k" "\<And>n. N \<le> n \<Longrightarrow> ex n \<noteq> Inr True"
  shows "\<exists>res. last_print_id ex k = Some res \<and>
    (\<forall>r. res = Inr r \<longrightarrow> ex (r + 1) = Inr False \<and> 0 \<le> r \<and> (ex r = Inr True \<or> r \<le> 1 \<and> r \<le> k)) \<and>
    (\<forall>e. res = Inl e \<longrightarrow> (\<exists>i\<ge>1. ex i = Inl e))"
proof (cases "walk_down ex k")
  case (Inl e)
  with walk_down_err [OF Inl] show ?thesis by (simp add: last_print_id_def)
next
  case (Inr lo)
  note walk = walk_down_spec [OF Inr]
  then have lo: "0 \<le> lo" "lo \<le> k" "ex lo = Inr True \<or> lo \<le> 1 \<and> lo \<le> k" using assms(1) by auto
  obtain res where up: "double_up ex lo (lo + 1) = Some res"
    "\<forall>l h. res = Inr (l, h) \<longrightarrow> lo \<le> l \<and> l < h \<and> ex h = Inr False \<and> (l = lo \<or> ex l = Inr True)"
    "\<forall>e. res = Inl e \<longrightarrow> (\<exists>i\<ge>1. ex i = Inl e)"
    using double_up_spec [of "lo + 1" lo N ex] lo assms(2) by auto
  show ?thesis
  proof (cases res)
    case (Inl e)
    with Inr up show ?thesis by (simp add: last_print_id_def)
  next
    case (Inr lh)
    then obtain l h where lh: "res = Inr (l, h)" by (cases lh) auto
    with up have b: "lo \<le> l" "l < h" "ex h = Inr False" "l = lo \<or> ex l = Inr True" by auto
    define P where "P r \<longleftrightarrow> 0 \<le> r \<and> (ex r = Inr True \<or> r \<le> 1 \<and> r \<le> k)" for r
    have P: "P l" "\<And>m. ex m = Inr True \<Longrightarrow> l \<le> m \<Longrightarrow> P m" using b lo by (auto simp: P_def)
    have "last_print_id ex k = Some (bisect ex l h)"
      using \<open>walk_down ex k = Inr lo\<close> up(1) lh by (simp add: last_print_id_def)
    moreover have "ex (r + 1) = Inr False \<and> P r" if "bisect ex l h = Inr r" for r
      using bisect_spec [where P = P, OF b(2,3) P that] by simp
    moreover have "\<exists>i\<ge>1. ex i = Inl e" if "bisect ex l h = Inl e" for e
      using bisect_err [OF that] b(1) lo(1) by simp
    ultimately show ?thesis unfolding P_def by blast
  qed
qed

text \<open>
  C10. If the site has no print from some id on, the search for the last id returns, and an id that it
  returns is followed by a missing one and exists itself (or is the id 0 or 1 where the search ends).
\<close>

theorem get_last_print_id_terminates:
  assumes "0 \<le> last_known" and "\<And>i. limit \<le> i \<Longrightarrow> id_exists cl net i \<noteq> Inr True"
  shows "\<exists>res. get_last_print_id cl net last_known = Some res \<and>
    (\<forall>r. res = Inr r \<longrightarrow> id_exists cl net (r + 1) = Inr False \<and> 0 \<le> r \<and>
       (id_exists cl net r = Inr True \<or> r \<le> 1 \<and> r \<le> last_known))"
  using last_print_id_spec [of last_known limit "id_exists cl net"] assms unfolding get_last_print_id_def by blast

text \<open>A site for the examples: the prints in the set, every answer at the first attempt.\<close>

definition demo_client :: client where
  "demo_client = \<lparr>cl_max_attempts = 6, cl_delay_base = 180, cl_parse_float = \<lambda>_. None, cl_random = \<lambda>_. 1/2\<rparr>"

definition ok_response :: "string \<Rightarrow> http_response" where
  "ok_response b = \<lparr>hr_status = 200, hr_retry_after = None, hr_body = b\<rparr>"

definition not_found :: http_response where
  "not_found = \<lparr>hr_status = 404, hr_retry_after = None, hr_body = []\<rparr>"

definition demo_site :: "(int \<Rightarrow> bool) \<Rightarrow> transport" where
  "demo_site has ep k =
     Inr (case ep of Print i \<Rightarrow> if has i then ok_response ''info'' else not_found
                   | Prices i m \<Rightarrow> if has i then ok_response ''prices'' else not_found)"

lemma send_first:
  "net ep 1 = Inr r \<Longrightarrow> hr_status r \<noteq> 429 \<Longrightarrow> send demo_client net ep = (Inr r, [])"
  by (simp add: send_def demo_client_def numeral_eq_Suc)

lemma demo_id_exists [simp]: "id_exists demo_client (demo_site has) i = Inr (has i)"
proof -
  have "send demo_client (demo_site has) (Print i) = (Inr (if has i then ok_response ''info'' else not_found), [])"
    by (rule send_first) (simp_all add: demo_site_def ok_response_def not_found_def)
  then show ?thesis
    by (simp add: id_exists_def fetch_card_details_def get_bytes_or_none_def ok_response_def not_found_def)
qed

theorem get_last_print_id_terminates_witness:
  "\<exists>res. get_last_print_id demo_client (demo_site (\<lambda>i. i \<le> 5 \<or> i = 9)) 3 = Some res \<and>
     (\<forall>r. res = Inr r \<longrightarrow> r \<in> {0, 1, 2, 3, 4, 5, 9})"
proof -
  have "\<exists>res. get_last_print_id demo_client (demo_site (\<lambda>i. i \<le> 5 \<or> i = 9)) 3 = Some res \<and>
    (\<forall>r. res = Inr r \<longrightarrow> id_exists demo_client (demo_site (\<lambda>i. i \<le> 5 \<or> i = 9)) (r + 1) = Inr False \<and> 0 \<le> r \<and>
       (id_exists demo_client (demo_site (\<lambda>i. i \<le> 5 \<or> i = 9)) r = Inr True \<or> r \<le> 1 \<and> r \<le> 3))"
    by (rule get_last_print_id_terminates [where limit = 10]) auto
  moreover have "r \<in> {0, 1, 2, 3, 4, 5, 9}" if "0 \<le> r" "r \<le> 5 \<or> r = 9" for r :: int
    using that by auto
  ultimately show ?thesis by auto
qed

lemma last_print_id_contiguous:
  assumes "1 \<le> k" "k \<le> m" and "\<And>i. 1 \<le> i \<Longrightarrow> ex i = Inr (i \<le> m)"
  shows "last_print_id ex k = Some (Inr m)"
proof -
  have limit: "ex i \<noteq> Inr True" if "m + 1 \<le> i" for i using assms that by simp
  obtain res where res: "last_print_id ex k = Some res"
    and r: "\<And>r. res = Inr r \<Longrightarrow> ex (r + 1) = Inr False \<and> 0 \<le> r \<and> (ex r = Inr True \<or> r \<le> 1 \<and> r \<le> k)"
    and e: "\<And>e. res = Inl e \<Longrightarrow> \<exists>i\<ge>1. ex i = Inl e"
    using last_print_id_spec [of k "m + 1" ex, OF _ limit] assms(1) by auto
  have "res \<noteq> Inl e" for e
    using e [of e] assms(3) by auto
  then obtain x where x: "res = Inr x" by (cases res) auto
  with r [of x] assms have "m < x + 1" "x \<le> m"
    by (auto simp: not_le)
  with x res show ?thesis by simp
qed

text \<open>
  When the ids of the site are exactly those up to \<open>m\<close>, the search started from any known id returns \<open>m\<close>.
\<close>

theorem get_last_print_id_contiguous:
  assumes "1 \<le> last_known" "last_known \<le> m" and "\<And>i. 1 \<le> i \<Longrightarrow> id_exists cl net i = Inr (i \<le> m)"
  shows "get_last_print_id cl net last_known = Some (Inr m)"
  unfolding get_last_print_id_def using assms by (rule last_print_id_contiguous)

theorem get_last_print_id_contiguous_witness:
  "get_last_print_id demo_client (demo_site (\<lambda>i. i \<le> 100)) 7 = Some (Inr 100)"
  by (rule get_last_print_id_contiguous) simp_all

text \<open>The search does not look beyond a gap.\<close>

lemma double_up_stop: "ex hi = Inr False \<Longrightarrow> double_up ex lo hi = Some (Inr (lo, hi))"
  by (simp add: double_up.simps)

lemma last_print_id_gap:
  assumes "1 \<le> k" "ex (k + 1) = Inr False \<or> 1 < k \<and> ex k = Inr False"
    and "last_print_id ex k = Some (Inr r)"
  shows "r \<le> k"
proof (cases "walk_down ex k")
  case (Inl e)
  with assms(3) show ?thesis by (simp add: last_print_id_def)
next
  case (Inr lo)
  note walk = walk_down_spec [OF Inr]
  have "ex (lo + 1) = Inr False"
  proof (cases "lo = k")
    case True
    with walk assms(1,2) show ?thesis by auto
  next
    case False
    with walk show ?thesis by auto
  qed
  then have "last_print_id ex k = Some (bisect ex lo (lo + 1))"
    using Inr by (simp add: last_print_id_def double_up_stop)
  with assms(3) walk show ?thesis by (simp add: bisect.simps)
qed

section \<open>What the second batch returns\<close>

lemma tally_data:
  "tally xs = Inr (k, f, b) \<Longrightarrow> (\<forall>x \<in> set xs. \<not> is_data x \<or> (\<exists>i d p. x = Data_Item i (Some d) (Some p)))"
  by (induction xs arbitrary: k f b rule: tally.induct)
    (auto simp: len_opt_def split: option.splits)

lemma fetch_data_no_prices: "fetch_data cl net msg market i \<noteq> Data_Item j d (Some p)"
  by (auto simp: fetch_data_def split: sum.split prod.split)

lemma data_batch_empty:
  assumes "fetch_card_data_batches cl net msg market ids = Inr b"
  shows "filter is_data (br_data b) = []"
proof -
  from assms obtain k f n where t: "tally (map (fetch_data cl net msg market) ids) = Inr (k, f, n)"
    and b: "br_data b = map (fetch_data cl net msg market) ids"
    by (auto simp: fetch_card_data_batches_def Let_def)
  show ?thesis
    using tally_data [OF t] fetch_data_no_prices unfolding b filter_empty_conv by fastforce
qed

section \<open>The waits between attempts\<close>

lemma send_attempts_length: "length (snd (send_attempts cl answer n k b prev)) \<le> n"
  by (induction n arbitrary: k b prev) (auto simp: Let_def split_beta split: sum.split option.split)

lemma send_attempts_waits:
  assumes "\<And>k. 0 \<le> cl_random cl k \<and> cl_random cl k \<le> 1" and "\<And>k r. answer k = Inr r \<Longrightarrow> hr_retry_after r = None"
    and "0 \<le> b" "b \<le> 30"
  shows "\<forall>w \<in> set (snd (send_attempts cl answer n k b prev)). 0 \<le> w \<and> w \<le> 39"
  using assms(3,4)
proof (induction n arbitrary: k b prev)
  case 0
  then show ?case by (simp split: option.split)
next
  case (Suc n)
  have jitter: "0 \<le> b * (7/10 + cl_random cl k * (6/10))" "b * (7/10 + cl_random cl k * (6/10)) \<le> 39"
  proof -
    have u: "0 \<le> cl_random cl k" "cl_random cl k \<le> 1" using assms(1) by auto
    with Suc.prems show "0 \<le> b * (7/10 + cl_random cl k * (6/10))" by simp
    have "b * (7/10 + cl_random cl k * (6/10)) \<le> 30 * (13/10)"
      by (rule mult_mono) (use u Suc.prems in auto)
    then show "b * (7/10 + cl_random cl k * (6/10)) \<le> 39" by simp
  qed
  show ?case
  proof (cases "answer k")
    case (Inl e)
    then show ?thesis by simp
  next
    case (Inr r)
    have "retry_wait cl b r = b" using assms(2) [OF Inr] by (simp add: retry_wait_def)
    with Inr jitter Suc.IH [of "min (b * 2) 30" "Suc k" "Some r"] Suc.prems show ?thesis
      by (auto simp: Let_def split: prod.split)
  qed
qed

text \<open>
  A request is sent at most \<open>max_attempts\<close> times, and where the site names no delay every wait but the
  first one is at most 39 seconds, however long the first was: after the 180 seconds of the default the
  back-off falls to 30.
\<close>

theorem send_waits:
  assumes "\<And>k. 0 \<le> cl_random cl k \<and> cl_random cl k \<le> 1"
    and "\<And>k r. net ep k = Inr r \<Longrightarrow> hr_retry_after r = None"
    and "15 \<le> cl_delay_base cl"
  shows "length (snd (send cl net ep)) \<le> cl_max_attempts cl \<and>
    (\<forall>w \<in> set (tl (snd (send cl net ep))). 0 \<le> w \<and> w \<le> 39) \<and>
    (snd (send cl net ep) \<noteq> [] \<longrightarrow> cl_delay_base cl * (7/10) \<le> hd (snd (send cl net ep)))"
proof (cases "cl_max_attempts cl")
  case 0
  then show ?thesis by (simp add: send_def)
next
  case (Suc n)
  show ?thesis
  proof (cases "\<exists>r. net ep 1 = Inr r \<and> hr_status r = 429")
    case True
    then obtain r where r: "net ep 1 = Inr r" "hr_status r = 429" by blast
    let ?rest = "send_attempts cl (net ep) n (Suc 1) (min (cl_delay_base cl * 2) 30) (Some r)"
    have w: "retry_wait cl (cl_delay_base cl) r = cl_delay_base cl"
      using assms(2) [OF r(1)] by (simp add: retry_wait_def)
    have snd: "snd (send cl net ep) = cl_delay_base cl * (7/10 + cl_random cl 1 * (6/10)) # snd ?rest"
      using r Suc w by (simp add: send_def Let_def split: prod.split)
    have "\<forall>w \<in> set (snd ?rest). 0 \<le> w \<and> w \<le> 39"
      by (rule send_attempts_waits) (use assms in auto)
    moreover have "length (snd ?rest) \<le> n" by (rule send_attempts_length)
    moreover have "cl_delay_base cl * (7/10) \<le> cl_delay_base cl * (7/10 + cl_random cl 1 * (6/10))"
      by (rule mult_left_mono) (use assms(1) [of 1] assms(3) in auto)
    ultimately show ?thesis by (simp add: snd Suc)
  next
    case False
    then have "snd (send cl net ep) = []"
      by (auto simp: send_def Suc split: sum.split)
    then show ?thesis by simp
  qed
qed

definition busy_site :: transport where
  "busy_site ep k = Inr \<lparr>hr_status = 429, hr_retry_after = None, hr_body = []\<rparr>"

theorem send_waits_witness:
  "snd (send demo_client busy_site (Print 1)) = [180, 30, 30, 30, 30, 30] \<and>
   (\<forall>w \<in> set (tl (snd (send demo_client busy_site (Print 1)))). 0 \<le> w \<and> w \<le> 39)"
proof -
  have "\<forall>w \<in> set (tl (snd (send demo_client busy_site (Print 1)))). 0 \<le> w \<and> w \<le> 39"
    using send_waits [of demo_client busy_site "Print 1"] by (simp add: demo_client_def busy_site_def)
  moreover have "snd (send demo_client busy_site (Print 1)) = [180, 30, 30, 30, 30, 30]"
    by code_simp
  ultimately show ?thesis by blast
qed

end
