(* ===== verification/Mtgstock_Loader.thy ===== *)
theory Mtgstock_Loader
  imports Mtgstock_Api Ops_Runs Py_Text
begin

text \<open>
  The MTGStocks loader (\<open>mtg_stock/data_loader.py\<close>): the folder of downloaded prints with its list of ids,
  the writer of a batch, the full load, the load of a list of ids and the discovery of new ids.

  The state holds the destination folder and the run tables of \<open>Ops_Runs\<close>. The parquet encoder and the text
  of an exception are parameters. Batch sizes are natural numbers. Directory names count as digits when they
  are ASCII digits. A service that may not return yields an option.
\<close>

section \<open>The destination folder\<close>

record dir_entry =
  de_name :: ustr
  de_is_dir :: bool
  de_files :: "(string, string) dict"

datatype ids_file = No_File | Bad_File | Ids "int list"

record mtg_state =
  ms_exists :: bool
  ms_entries :: "dir_entry list"
  ms_ids :: ids_file
  ms_ops :: ops

definition on_ops :: "(ops, 'a) prog \<Rightarrow> (mtg_state, 'a) prog" where
  "on_ops m w = (let (r, db) = m (ms_ops w) in (r, w\<lparr>ms_ops := db\<rparr>))"

definition isdigit :: "ustr \<Rightarrow> bool" where
  "isdigit s \<longleftrightarrow> s \<noteq> [] \<and> (\<forall>c \<in> set s. is_digit c)"

text \<open>
  \<open>get_existing_ids\<close>: the list is read from its file. When the file cannot be read the code goes on to scan
  the folder, but the variable \<open>ids\<close> is bound only when there is no file; \<open>None\<close> stands for an unbound one.
\<close>

fun scan_entries :: "int list option \<Rightarrow> dir_entry list \<Rightarrow> int list option res \<times> dir_entry list" where
  "scan_entries ids [] = (Inr ids, [])"
| "scan_entries ids (e # es) =
     (if \<not> de_is_dir e \<or> \<not> isdigit (de_name e)
      then let (r, es') = scan_entries ids es in (r, e # es')
      else if de_files e = [] then scan_entries ids es
      else (case ids of
              None \<Rightarrow> (Inl UnboundErr, e # es)
            | Some l \<Rightarrow> let (r, es') = scan_entries (Some (l @ [int (nat_of_digits (de_name e))])) es in (r, e # es')))"

definition get_existing_ids :: "(mtg_state, int list) prog" where
  "get_existing_ids w =
     (case ms_ids w of
        Ids l \<Rightarrow> (Inr (sort l), w)
      | f \<Rightarrow>
          let ids = (if f = No_File then Some [] else None)
          in if \<not> ms_exists w
             then (case ids of None \<Rightarrow> (Inl UnboundErr, w) | Some l \<Rightarrow> (Inr l, w))
             else let (r, es) = scan_entries ids (ms_entries w); w' = w\<lparr>ms_entries := es\<rparr>
                  in case r of
                       Inl e \<Rightarrow> (Inl e, w')
                     | Inr None \<Rightarrow> (Inl UnboundErr, w'\<lparr>ms_ids := Bad_File\<rparr>)
                     | Inr (Some l) \<Rightarrow> (Inr (sorted_list_of_set (set l)), w'\<lparr>ms_ids := Ids (sort l)\<rparr>))"

text \<open>\<open>write_batch\<close>: the first exception ends the batch and is logged.\<close>

definition make_dir :: "ustr \<Rightarrow> (mtg_state, unit) prog" where
  "make_dir n w =
     (case find (\<lambda>e. de_name e = n) (ms_entries w) of
        None \<Rightarrow> (Inr (), w\<lparr>ms_exists := True,
                          ms_entries := ms_entries w @ [\<lparr>de_name = n, de_is_dir = True, de_files = []\<rparr>]\<rparr>)
      | Some e \<Rightarrow> (if de_is_dir e then Inr () else Inl (OtherExc 0), w))"

definition put_file :: "ustr \<Rightarrow> string \<Rightarrow> string \<Rightarrow> (mtg_state, unit) prog" where
  "put_file n f b w =
     (Inr (), w\<lparr>ms_entries := map (\<lambda>e. if de_name e = n then e\<lparr>de_files := dset f b (de_files e)\<rparr> else e) (ms_entries w)\<rparr>)"

definition when_some :: "string option \<Rightarrow> (string \<Rightarrow> (mtg_state, unit) prog) \<Rightarrow> (mtg_state, unit) prog" where
  "when_some x f = (case x of None \<Rightarrow> ret () | Some b \<Rightarrow> if b = [] then ret () else f b)"

fun write_item :: "(int \<Rightarrow> string \<Rightarrow> string res) \<Rightarrow> string \<Rightarrow> item \<Rightarrow> (mtg_state, unit) prog" where
  "write_item parquet market (Error_Item i t) = make_dir (str_int i)"
| "write_item parquet market (Data_Item i d p) =
     bindp (make_dir (str_int i)) (\<lambda>_.
     bindp (when_some d (put_file (str_int i) ''info.json'')) (\<lambda>_.
     when_some p (\<lambda>b. case parquet i b of
         Inl e \<Rightarrow> throw e
       | Inr f \<Rightarrow> put_file (str_int i) (''prices.'' @ market @ ''.parquet'') f)))"

fun write_items :: "(int \<Rightarrow> string \<Rightarrow> string res) \<Rightarrow> string \<Rightarrow> item list \<Rightarrow> (mtg_state, unit) prog" where
  "write_items parquet market [] = ret ()"
| "write_items parquet market (x # xs) = bindp (write_item parquet market x) (\<lambda>_. write_items parquet market xs)"

definition write_batch :: "(int \<Rightarrow> string \<Rightarrow> string res) \<Rightarrow> string \<Rightarrow> item list \<Rightarrow> (mtg_state, unit) prog" where
  "write_batch parquet market items = catchp (write_items parquet market items) (\<lambda>_. ret ())"

section \<open>The services\<close>

text \<open>What the services are called with: the client, the site, the parameters and the run (if there is a
  repository and a run id).\<close>

record load =
  ld_client :: client
  ld_net :: transport
  ld_msg :: "pyexc \<Rightarrow> string"
  ld_parquet :: "int \<Rightarrow> string \<Rightarrow> string res"
  ld_market :: string
  ld_run :: "nat option"
  ld_batch :: nat

definition step_name_of_load :: string where
  "step_name_of_load = ''mtgStock_data_loader''"

definition show_int :: "int \<Rightarrow> string" where
  "show_int i = map char_of (str_int i)"

definition notes_of :: "int \<Rightarrow> int \<Rightarrow> string" where
  "notes_of processed errored = ''Processed '' @ show_int processed @ '' items with '' @ show_int errored @ '' errors.''"

text \<open>\<open>if ops_repository and ingestion_run_id is not None: await ops_repository.update_run(...)\<close>.\<close>

definition note_run :: "load \<Rightarrow> string \<Rightarrow> string \<Rightarrow> string option \<Rightarrow> string option \<Rightarrow> (mtg_state, unit) prog" where
  "note_run ld status cur details notes =
     (case ld_run ld of
        None \<Rightarrow> ret ()
      | Some i \<Rightarrow> bindp (on_ops (repo_update_run i (Some status) (Some cur) None details notes)) (\<lambda>_. ret ()))"

definition batch_row :: "nat \<Rightarrow> int \<Rightarrow> int \<Rightarrow> batch_result option \<Rightarrow> batch" where
  "batch_row seq first final br =
     (let ok = (case br of None \<Rightarrow> 0 | Some b \<Rightarrow> br_ok b);
          failed = (case br of None \<Rightarrow> 0 | Some b \<Rightarrow> br_failed b);
          bytes = (case br of None \<Rightarrow> 0 | Some b \<Rightarrow> br_bytes b)
      in \<lparr>batch_step = (0, []), batch_seq = seq, batch_start = first, batch_end = final,
          batch_status = (if failed = 0 then Success else Partial), batch_ok = ok, batch_failed = failed,
          batch_bytes = bytes, batch_duration = Some 0, batch_error = None, batch_details = None\<rparr>)"

type_synonym counters = "int \<times> int \<times> nat"

definition end_of_batch_process ::
  "load \<Rightarrow> int \<Rightarrow> int \<Rightarrow> counters \<Rightarrow> batch_result option \<Rightarrow> (mtg_state, counters) prog" where
  "end_of_batch_process ld first final c br =
     (let (processed, errored, step) = c;
          p = processed + (case br of None \<Rightarrow> 0 | Some b \<Rightarrow> br_ok b);
          e = errored + (case br of None \<Rightarrow> 0 | Some b \<Rightarrow> br_failed b)
      in bindp (case ld_run ld of
                  None \<Rightarrow> ret ()
                | Some i \<Rightarrow> on_ops (repo_insert_batch_step i step_name_of_load (batch_row step first final br)))
           (\<lambda>_. bindp (note_run ld ''running'' step_name_of_load None (Some (notes_of p e)))
           (\<lambda>_. ret (p, e, Suc step))))"

definition price_batch :: "load \<Rightarrow> int list \<Rightarrow> batch_result" where
  "price_batch ld ids = fetch_card_price_data_batch (ld_client ld) (ld_net ld) (ld_msg ld) (ld_market ld) ids"

definition save_batch :: "load \<Rightarrow> batch_result \<Rightarrow> (mtg_state, unit) prog" where
  "save_batch ld br = write_batch (ld_parquet ld) (ld_market ld) (filter is_data (br_data br))"

text \<open>
  The first loop of the full load, from \<open>start\<close>: it ends at the end of the list, or with the IndexError of
  \<open>batch_ids[0]\<close> for an empty batch, handing on where it stopped.
\<close>

datatype loop_end = Loop_Done | Loop_Error pyexc nat nat "batch_result option"

function update_prices :: "load \<Rightarrow> int list \<Rightarrow> nat \<Rightarrow> mtg_state \<Rightarrow> loop_end \<times> mtg_state" where
  "update_prices ld ids start w =
     (if start < length ids
      then let stop = min (start + ld_batch ld) (length ids);
               batch = take (stop - start) (drop start ids);
               br = price_batch ld batch
           in if batch = [] then (Loop_Error IndexErr start stop (Some br), w)
              else update_prices ld ids stop (snd (save_batch ld br w))
      else (Loop_Done, w))"
  by pat_completeness auto
termination
  by (relation "measure (\<lambda>(ld, ids, start, w). length ids - start)") (auto simp: Let_def)

declare update_prices.simps [simp del]

text \<open>\<open>xs[n - 1]\<close> with \<open>n\<close> a natural number: the last element for \<open>n = 0\<close>.\<close>

definition before :: "'a list \<Rightarrow> nat \<Rightarrow> 'a" where
  "before xs n = (if n = 0 then last xs else xs ! (n - 1))"

definition index_of :: "int \<Rightarrow> int list \<Rightarrow> nat" where
  "index_of x xs = (if x \<in> set xs then length (takeWhile (\<lambda>y. y \<noteq> x) xs) else 0)"

definition refresh_known :: "load \<Rightarrow> int list \<Rightarrow> int \<Rightarrow> (mtg_state, unit) prog" where
  "refresh_known ld ids first_index w =
     (case update_prices ld ids (index_of first_index ids) w of
        (Loop_Done, w') \<Rightarrow> (Inr (), w')
      | (Loop_Error e start stop br, w') \<Rightarrow>
          bindp (end_of_batch_process ld (ids ! start) (before ids (min stop (length ids))) (0, 0, 1) br)
            (\<lambda>_. bindp (note_run ld ''failed'' step_name_of_load (Some (ld_msg ld e)) None) (\<lambda>_. throw e)) w')"

text \<open>The second loop: the batches from \<open>start\<close> to \<open>final\<close>, \<open>range(start, final + 1, batch_size)\<close>.\<close>

function load_range :: "load \<Rightarrow> int \<Rightarrow> int \<Rightarrow> counters \<Rightarrow> mtg_state \<Rightarrow> counters res \<times> mtg_state" where
  "load_range ld start final c w =
     (if ld_batch ld = 0 then (Inl ValueErr, w)
      else if start \<le> final
      then let stop = min (start + int (ld_batch ld) - 1) final; br = price_batch ld [start..stop]
           in (case bindp (save_batch ld br) (\<lambda>_. end_of_batch_process ld start stop c (Some br)) w of
                 (Inl e, w') \<Rightarrow> (Inl e, w')
               | (Inr c', w') \<Rightarrow> load_range ld (start + int (ld_batch ld)) final c' w')
      else (Inr c, w))"
  by pat_completeness auto
termination
  by (relation "measure (\<lambda>(ld, start, final, c, w). nat (final + 1 - start))") auto

declare load_range.simps [simp del]

definition load_new :: "load \<Rightarrow> int \<Rightarrow> int \<Rightarrow> (mtg_state, int \<times> int) prog" where
  "load_new ld start final =
     catchp
       (bindp (load_range ld start final (0, 0, 1)) (\<lambda>(p, e, _).
        bindp (note_run ld ''success'' step_name_of_load None (Some (notes_of p e))) (\<lambda>_. ret (p, e))))
       (\<lambda>x. bindp (note_run ld ''failed'' step_name_of_load (Some (ld_msg ld x)) None) (\<lambda>_. throw x))"

definition max_or_0 :: "int list \<Rightarrow> int" where
  "max_or_0 ids = (if ids = [] then 0 else Max (set ids))"

definition find_last :: "load \<Rightarrow> int \<Rightarrow> int res option" where
  "find_last ld k = get_last_print_id (ld_client ld) (ld_net ld) k"

definition run_mtgstock_pipeline :: "load \<Rightarrow> int \<Rightarrow> mtg_state \<Rightarrow> ((int \<times> int) res \<times> mtg_state) option" where
  "run_mtgstock_pipeline ld first_index w =
     (case bindp get_existing_ids (\<lambda>ids. bindp (note_run ld ''running'' step_name_of_load None None) (\<lambda>_.
             bindp (refresh_known ld ids first_index) (\<lambda>_. ret ids))) w of
        (Inl e, w') \<Rightarrow> Some (Inl e, w')
      | (Inr ids, w') \<Rightarrow>
          (case find_last ld (max_or_0 ids) of
             None \<Rightarrow> None
           | Some (Inl e) \<Rightarrow> Some (Inl e, w')
           | Some (Inr final) \<Rightarrow>
               Some (load_new ld (if ids = [] then 1 else last ids + 1) final w')))"

text \<open>The load of a list of ids: every batch is recorded.\<close>

function load_list :: "load \<Rightarrow> int list \<Rightarrow> nat \<Rightarrow> counters \<Rightarrow> mtg_state \<Rightarrow> counters res \<times> mtg_state" where
  "load_list ld ids start c w =
     (if start < length ids
      then let stop = min (start + ld_batch ld) (length ids);
               batch = take (stop - start) (drop start ids);
               br = price_batch ld batch
           in if batch = [] then (Inl IndexErr, w)
              else (case bindp (save_batch ld br) (\<lambda>_. end_of_batch_process ld (ids ! start) (ids ! (stop - 1)) c (Some br)) w of
                      (Inl e, w') \<Rightarrow> (Inl e, w')
                    | (Inr c', w') \<Rightarrow> load_list ld ids stop c' w')
      else (Inr c, w))"
  by pat_completeness auto
termination
  by (relation "measure (\<lambda>(ld, ids, start, c, w). length ids - start)") (auto simp: Let_def)

declare load_list.simps [simp del]

definition run_mtgstock_pipeline_selected_lists :: "load \<Rightarrow> int list \<Rightarrow> (mtg_state, int \<times> int) prog" where
  "run_mtgstock_pipeline_selected_lists ld ids =
     bindp (note_run ld ''running'' step_name_of_load None None) (\<lambda>_.
     catchp
       (bindp (load_list ld ids 0 (0, 0, 1)) (\<lambda>(p, e, _).
        bindp (note_run ld ''success'' step_name_of_load None (Some (notes_of p e))) (\<lambda>_. ret (p, e))))
       (\<lambda>x. bindp (note_run ld ''failed'' step_name_of_load (Some (ld_msg ld x)) None) (\<lambda>_. throw x)))"

text \<open>Discovery.\<close>

fun chunks :: "nat \<Rightarrow> 'a list \<Rightarrow> 'a list list" where
  "chunks 0 xs = []"
| "chunks (Suc n) [] = []"
| "chunks (Suc n) (x # xs) = (x # take n xs) # chunks (Suc n) (drop n xs)"

fun discover_batches :: "load \<Rightarrow> int list list \<Rightarrow> (mtg_state, int) prog" where
  "discover_batches ld [] w = (Inr 0, w)"
| "discover_batches ld (ids # rest) w =
     (case fetch_card_data_batches (ld_client ld) (ld_net ld) (ld_msg ld) (ld_market ld) ids of
        Inl e \<Rightarrow> (Inl e, w)
      | Inr br \<Rightarrow> bindp (save_batch ld br) (\<lambda>_. bindp (discover_batches ld rest) (\<lambda>n.
          ret (int (length (filter is_data (br_data br))) + n))) w)"

definition read_ids :: "mtg_state \<Rightarrow> int list res" where
  "read_ids w = (case ms_ids w of No_File \<Rightarrow> Inr [] | Bad_File \<Rightarrow> Inl ValueErr | Ids l \<Rightarrow> Inr (sort l))"

definition fetch_new :: "load \<Rightarrow> int list \<Rightarrow> int list \<Rightarrow> (mtg_state, int \<times> int) prog" where
  "fetch_new ld known new =
     bindp (note_run ld ''running'' ''discover_new_ids'' None None) (\<lambda>_.
     bindp (if ld_batch ld = 0 then throw ValueErr else discover_batches ld (chunks (ld_batch ld) new)) (\<lambda>n w.
     if ms_exists w
     then (Inr (int (length new), n), w\<lparr>ms_ids := Ids (sorted_list_of_set (set known \<union> set new))\<rparr>)
     else (Inl (OtherExc 1), w)))"

definition discover_and_fetch_new_ids :: "load \<Rightarrow> mtg_state \<Rightarrow> ((int \<times> int) res \<times> mtg_state) option" where
  "discover_and_fetch_new_ids ld w =
     (case read_ids w of
        Inl e \<Rightarrow> Some (Inl e, w)
      | Inr known \<Rightarrow>
          (case find_last ld (max_or_0 known) of
             None \<Rightarrow> None
           | Some (Inl e) \<Rightarrow> Some (Inl e, w)
           | Some (Inr final) \<Rightarrow>
               Some (if final \<le> max_or_0 known then (Inr (0, 0), w)
                     else fetch_new ld known [max_or_0 known + 1..final] w)))"

section \<open>Discovery records ids without downloading them\<close>

lemma on_ops_keeps:
  "ms_entries (snd (on_ops m w)) = ms_entries w" "ms_ids (snd (on_ops m w)) = ms_ids w"
  "ms_exists (snd (on_ops m w)) = ms_exists w"
  by (simp_all add: on_ops_def Let_def split_beta)

text \<open>What a program leaves alone: the folder and its list of ids, or only the list.\<close>

definition same_folder :: "mtg_state \<Rightarrow> mtg_state \<Rightarrow> bool" where
  "same_folder w0 w \<longleftrightarrow> ms_entries w = ms_entries w0 \<and> ms_ids w = ms_ids w0 \<and> ms_exists w = ms_exists w0"

definition same_list :: "mtg_state \<Rightarrow> mtg_state \<Rightarrow> bool" where
  "same_list w0 w \<longleftrightarrow> ms_ids w = ms_ids w0"

lemma same_folder_refl [simp]: "same_folder w w"
  by (simp add: same_folder_def)

lemma keeps_on_ops [simp, intro]:
  "keeps (same_folder w0) (on_ops m)" "keeps (same_list w0) (on_ops m)"
  by (auto simp: keeps_def same_folder_def same_list_def on_ops_keeps)

lemma keeps_note_run [simp, intro]:
  "keeps (same_folder w0) (note_run ld status cur d n)" "keeps (same_list w0) (note_run ld status cur d n)"
  by (auto simp: note_run_def split: option.split)

lemma keeps_end_of_batch [simp, intro]:
  "keeps (same_list w0) (end_of_batch_process ld first final c br)"
  by (auto simp: end_of_batch_process_def Let_def split: prod.split option.split)

lemma keeps_write_batch_Nil [simp]: "write_batch parquet market [] = ret ()"
  by (rule ext) (simp add: write_batch_def catchp_def)

lemma discover_batches_nothing:
  "discover_batches ld bs w = (Inr n, w') \<Longrightarrow> n = 0 \<and> w' = w"
proof (induction ld bs w arbitrary: n w' rule: discover_batches.induct)
  case (1 ld w)
  then show ?case by simp
next
  case (2 ld ids rest w)
  then obtain br where br: "fetch_card_data_batches (ld_client ld) (ld_net ld) (ld_msg ld) (ld_market ld) ids = Inr br"
    by (auto split: sum.splits)
  note empty = data_batch_empty [OF br]
  obtain r w1 where rest: "discover_batches ld rest w = (r, w1)" by fastforce
  with "2.prems" br empty obtain k where k: "r = Inr k" "n = k" "w' = w1"
    by (cases r) (auto simp: save_batch_def bindp_def)
  from rest k have "discover_batches ld rest w = (Inr k, w1)" by simp
  with 2(1) [OF br] br empty k show ?case
    by (auto simp: save_batch_def)
qed

lemma fetch_new_result:
  assumes "fetch_new ld known new w = (Inr (n, p), w')"
  shows "n = int (length new) \<and> p = 0 \<and> ms_entries w' = ms_entries w \<and>
    ms_ids w' = Ids (sorted_list_of_set (set known \<union> set new))"
proof -
  obtain r w1 where note1: "note_run ld ''running'' ''discover_new_ids'' None None w = (r, w1)" by fastforce
  have same: "same_folder w w1"
    using keepsD [OF keeps_note_run(1) same_folder_refl note1] .
  with assms note1 show ?thesis
    by (cases r) (auto simp: fetch_new_def bindp_def same_folder_def split: if_splits sum.splits prod.splits
        dest!: discover_batches_nothing)
qed

lemma sort_Nil_iff [simp]: "sort xs = [] \<longleftrightarrow> xs = []"
  by (metis set_empty set_sort)

lemma discover_step:
  assumes "ms_ids w = Ids known" "known \<noteq> []"
  shows "discover_and_fetch_new_ids ld w =
    (case find_last ld (Max (set known)) of
       None \<Rightarrow> None
     | Some (Inl e) \<Rightarrow> Some (Inl e, w)
     | Some (Inr final) \<Rightarrow>
         Some (if final \<le> Max (set known) then (Inr (0, 0), w)
               else fetch_new ld (sort known) [Max (set known) + 1..final] w))"
proof -
  have known: "read_ids w = Inr (sort known)" "max_or_0 (sort known) = Max (set known)"
    using assms by (simp_all add: read_ids_def max_or_0_def)
  show ?thesis unfolding discover_and_fetch_new_ids_def known(1) sum.case known(2) ..
qed

text \<open>
  Whatever the site answers, a discovery that returns has downloaded nothing: no file of the folder is
  written and 0 prints are processed, and yet every id up to the last one of the site is in the list of
  existing ids afterwards.
\<close>

theorem discover_downloads_nothing:
  assumes "discover_and_fetch_new_ids ld w = Some (Inr (n, processed), w')"
    and "ms_ids w = Ids known" "known \<noteq> []"
  shows "processed = 0 \<and> ms_entries w' = ms_entries w \<and>
    (0 < n \<longrightarrow> ms_ids w' = Ids (sorted_list_of_set (set known \<union> {Max (set known) + 1..Max (set known) + n})))"
proof -
  from assms(1) obtain final where
    step: "(if final \<le> Max (set known) then (Inr (0, 0), w)
            else fetch_new ld (sort known) [Max (set known) + 1..final] w) = (Inr (n, processed), w')"
    unfolding discover_step [OF assms(2,3)] by (auto split: option.splits sum.splits)
  show ?thesis
  proof (cases "final \<le> Max (set known)")
    case True
    with step show ?thesis by simp
  next
    case False
    with step have f: "fetch_new ld (sort known) [Max (set known) + 1..final] w = (Inr (n, processed), w')"
      by simp
    from False have "int (length [Max (set known) + 1..final]) = final - Max (set known)" by simp
    with fetch_new_result [OF f] show ?thesis by simp
  qed
qed

definition demo_load :: "(int \<Rightarrow> bool) \<Rightarrow> nat \<Rightarrow> load" where
  "demo_load has n =
     \<lparr>ld_client = demo_client, ld_net = demo_site has, ld_msg = \<lambda>_. ''failed'', ld_parquet = \<lambda>_ b. Inr b,
      ld_market = ''tcg'', ld_run = None, ld_batch = n\<rparr>"

definition demo_folder :: "int list \<Rightarrow> mtg_state" where
  "demo_folder l = \<lparr>ms_exists = True, ms_entries = [], ms_ids = Ids l, ms_ops = empty_ops []\<rparr>"

lemma demo_find_last: "1 \<le> k \<Longrightarrow> k \<le> m \<Longrightarrow> find_last (demo_load (\<lambda>i. i \<le> m) n) k = Some (Inr m)"
proof -
  assume "1 \<le> k" "k \<le> m"
  then have "last_print_id (id_exists demo_client (demo_site (\<lambda>i. i \<le> m))) k = Some (Inr m)"
    by (intro last_print_id_contiguous) simp_all
  then show ?thesis by (simp add: find_last_def get_last_print_id_def demo_load_def)
qed

lemma demo_discover_batches:
  "discover_batches (demo_load (\<lambda>i. i \<le> 3) 5) [[2, 3]] (demo_folder [1]) = (Inr 0, demo_folder [1])"
  by code_simp

lemma demo_discover:
  "discover_and_fetch_new_ids (demo_load (\<lambda>i. i \<le> 3) 5) (demo_folder [1]) =
     Some (Inr (2, 0), demo_folder [1, 2, 3])"
  using demo_find_last [of 1 3 5] demo_discover_batches
  by (simp add: discover_and_fetch_new_ids_def read_ids_def demo_folder_def max_or_0_def fetch_new_def
      note_run_def demo_load_def upto.simps numeral_eq_Suc bindp_def)

theorem discover_downloads_nothing_witness:
  "discover_and_fetch_new_ids (demo_load (\<lambda>i. i \<le> 3) 5) (demo_folder [1]) = Some (Inr (2, 0), demo_folder [1, 2, 3]) \<and>
   ms_entries (demo_folder [1, 2, 3]) = ms_entries (demo_folder [1])"
proof -
  have "ms_entries (demo_folder [1, 2, 3]) = ms_entries (demo_folder [1])"
    using discover_downloads_nothing [OF demo_discover, of "[1]"] by (simp add: demo_folder_def)
  with demo_discover show ?thesis by blast
qed

text \<open>
  Discovery stops for good at a gap: when the largest known id is gone from the site, or the one after it
  is missing, no id is found and nothing changes, whichever later prints the site has.
\<close>

theorem discover_blind_after_gap:
  assumes "ms_ids w = Ids known" "known \<noteq> []" "1 \<le> Max (set known)"
    and "id_exists (ld_client ld) (ld_net ld) (Max (set known) + 1) = Inr False \<or>
         1 < Max (set known) \<and> id_exists (ld_client ld) (ld_net ld) (Max (set known)) = Inr False"
    and "discover_and_fetch_new_ids ld w = Some (Inr res, w')"
  shows "res = (0, 0) \<and> w' = w"
proof -
  from assms(5) obtain final where final: "find_last ld (Max (set known)) = Some (Inr final)"
    and step: "(if final \<le> Max (set known) then (Inr (0, 0), w)
            else fetch_new ld (sort known) [Max (set known) + 1..final] w) = (Inr res, w')"
    unfolding discover_step [OF assms(1,2)] by (auto split: option.splits sum.splits)
  have "final \<le> Max (set known)"
    using last_print_id_gap [OF assms(3,4)] final by (simp add: find_last_def get_last_print_id_def)
  with step show ?thesis by simp
qed

lemma demo_gap_last: "find_last (demo_load (\<lambda>i. i = 1 \<or> 3 \<le> i \<and> i \<le> 900) 5) 1 = Some (Inr 1)"
  by (simp add: find_last_def get_last_print_id_def demo_load_def last_print_id_def walk_down.simps
      double_up_stop bisect.simps)

theorem discover_blind_after_gap_witness:
  "discover_and_fetch_new_ids (demo_load (\<lambda>i. i = 1 \<or> 3 \<le> i \<and> i \<le> 900) 5) (demo_folder [1]) =
     Some (Inr (0, 0), demo_folder [1])"
proof -
  let ?ld = "demo_load (\<lambda>i. i = 1 \<or> 3 \<le> i \<and> i \<le> 900) 5" and ?w = "demo_folder [1]"
  obtain r w' where r: "discover_and_fetch_new_ids ?ld ?w = Some (Inr r, w')"
    using demo_gap_last
    by (simp add: discover_and_fetch_new_ids_def read_ids_def demo_folder_def max_or_0_def)
  have "r = (0, 0) \<and> w' = ?w"
    by (rule discover_blind_after_gap [OF _ _ _ _ r, of "[1]"])
      (simp_all add: demo_folder_def demo_load_def)
  with r show ?thesis by simp
qed

section \<open>The full load never extends the list of ids\<close>

lemma keeps_make_dir [simp, intro]: "keeps (same_list w0) (make_dir n)"
  by (auto simp: keeps_def same_list_def make_dir_def split: option.split)

lemma keeps_put_file [simp, intro]: "keeps (same_list w0) (put_file n f b)"
  by (auto simp: keeps_def same_list_def put_file_def)

lemma keeps_when_some [intro]: "(\<And>b. keeps (same_list w0) (f b)) \<Longrightarrow> keeps (same_list w0) (when_some x f)"
  by (auto simp: when_some_def split: option.split)

lemma keeps_write_item [simp, intro]: "keeps (same_list w0) (write_item parquet market x)"
proof (cases x)
  case (Data_Item i d p)
  have "keeps (same_list w0) (case parquet i b of Inl e \<Rightarrow> throw e
       | Inr f \<Rightarrow> put_file (str_int i) (''prices.'' @ market @ ''.parquet'') f)" for b
    by (simp split: sum.split)
  then show ?thesis
    unfolding Data_Item write_item.simps by (intro keeps_bindp keeps_when_some keeps_make_dir keeps_put_file)
qed simp

lemma keeps_write_items [simp, intro]: "keeps (same_list w0) (write_items parquet market xs)"
  by (induction xs) auto

lemma keeps_save_batch [simp, intro]: "keeps (same_list w0) (save_batch ld br)"
  by (auto simp: save_batch_def write_batch_def)

lemma keeps_update_prices: "same_list w0 w \<Longrightarrow> same_list w0 (snd (update_prices ld ids start w))"
proof (induction ld ids start w rule: update_prices.induct)
  case (1 ld ids start w)
  show ?case
    using "1.IH" "1.prems" keeps_snd [OF keeps_save_batch "1.prems"]
    by (subst update_prices.simps) (simp add: Let_def)
qed

lemma keeps_refresh_known [simp, intro]: "keeps (same_list w0) (refresh_known ld ids first_index)"
proof (rule keepsI)
  fix w assume w: "same_list w0 w"
  obtain r w' where up: "update_prices ld ids (index_of first_index ids) w = (r, w')" by fastforce
  with keeps_update_prices [OF w, of ld ids "index_of first_index ids"] have w': "same_list w0 w'" by simp
  show "same_list w0 (snd (refresh_known ld ids first_index w))"
  proof (cases r)
    case Loop_Done
    with up w' show ?thesis by (simp add: refresh_known_def)
  next
    case (Loop_Error e start stop br)
    then have eq: "refresh_known ld ids first_index w =
        bindp (end_of_batch_process ld (ids ! start) (before ids (min stop (length ids))) (0, 0, 1) br)
          (\<lambda>_. bindp (note_run ld ''failed'' step_name_of_load (Some (ld_msg ld e)) None) (\<lambda>_. throw e)) w'"
      using up by (simp add: refresh_known_def)
    show ?thesis unfolding eq
      by (rule keeps_snd [of "same_list w0", OF _ w']) (intro keeps_bindp keeps_end_of_batch keeps_note_run keeps_throw)
  qed
qed

lemma keeps_load_range [simp, intro]: "keeps (same_list w0) (load_range ld start final c)"
proof (rule keepsI)
  fix w assume "same_list w0 w"
  then show "same_list w0 (snd (load_range ld start final c w))"
  proof (induction ld start final c w rule: load_range.induct)
    case (1 ld start final c w)
    define body where
      "body = bindp (save_batch ld (price_batch ld [start..min (start + int (ld_batch ld) - 1) final]))
         (\<lambda>_. end_of_batch_process ld start (min (start + int (ld_batch ld) - 1) final) c
               (Some (price_batch ld [start..min (start + int (ld_batch ld) - 1) final])))"
    obtain r w' where b: "body w = (r, w')" by fastforce
    have "keeps (same_list w0) body" unfolding body_def by auto
    from keepsD [OF this "1.prems" b] have w': "same_list w0 w'" .
    show ?case
      using "1.prems" "1.IH" w' b unfolding load_range.simps [of ld start final c w] Let_def body_def
      by (cases r) auto
  qed
qed

lemma keeps_load_new [simp, intro]: "keeps (same_list w0) (load_new ld start final)"
  unfolding load_new_def split_def
  by (intro keeps_catchp keeps_bindp keeps_load_range keeps_note_run keeps_ret keeps_throw)

lemma get_existing_ids_list: "ms_ids w = Ids l \<Longrightarrow> get_existing_ids w = (Inr (sort l), w)"
  by (simp add: get_existing_ids_def)

text \<open>
  The full load leaves the list of existing ids as it was, whatever it downloads: the next run starts
  again from the same known ids and downloads the same new prints once more.
\<close>

theorem full_load_forgets_new_ids:
  assumes "run_mtgstock_pipeline ld first_index w = Some (res, w')" and "ms_ids w = Ids l"
  shows "ms_ids w' = Ids l \<and> get_existing_ids w' = (Inr (sort l), w')"
proof -
  define prefix where "prefix = bindp get_existing_ids (\<lambda>ids. bindp (note_run ld ''running'' step_name_of_load None None) (\<lambda>_.
      bindp (refresh_known ld ids first_index) (\<lambda>_. ret ids)))"
  have start: "prefix w = bindp (note_run ld ''running'' step_name_of_load None None) (\<lambda>_.
      bindp (refresh_known ld (sort l) first_index) (\<lambda>_. ret (sort l))) w"
    unfolding prefix_def 
    by (rule bindp_ok [of get_existing_ids w "sort l" w, OF get_existing_ids_list [OF assms(2)]])
  obtain r w1 where r: "prefix w = (r, w1)" by fastforce
  have "same_list w (snd (prefix w))"
    unfolding start by (rule keeps_snd [of "same_list w"]) (auto simp: same_list_def)
  then have w1: "same_list w w1" by (simp add: r)
  have "same_list w w'"
  proof (cases r)
    case (Inl e)
    with assms(1) r w1 show ?thesis by (simp add: run_mtgstock_pipeline_def prefix_def)
  next
    case (Inr ids)
    with assms(1) r obtain out where out: "find_last ld (max_or_0 ids) = Some out"
      by (auto simp: run_mtgstock_pipeline_def prefix_def split: option.splits)
    show ?thesis
    proof (cases out)
      case (Inl e)
      with assms(1) r w1 out \<open>r = Inr ids\<close> show ?thesis
        by (simp add: run_mtgstock_pipeline_def prefix_def)
    next
      case (Inr final)
      with assms(1) r out \<open>r = Inr ids\<close>
      have "w' = snd (load_new ld (if ids = [] then 1 else last ids + 1) final w1)"
        by (simp add: run_mtgstock_pipeline_def prefix_def)
      with keeps_snd [OF keeps_load_new w1] show ?thesis by simp
    qed
  qed
  with assms(2) have "ms_ids w' = Ids l" by (simp add: same_list_def)
  with get_existing_ids_list show ?thesis by blast
qed

lemma demo_full_load:
  "update_prices (demo_load (\<lambda>i. i \<le> 3) 5) [1] 0 (demo_folder [1]) = (Loop_Done, w1) \<Longrightarrow>
   run_mtgstock_pipeline (demo_load (\<lambda>i. i \<le> 3) 5) 1 (demo_folder [1]) =
     Some (load_new (demo_load (\<lambda>i. i \<le> 3) 5) 2 3 w1)"
  using demo_find_last [of 1 3 5]
  by (simp add: run_mtgstock_pipeline_def get_existing_ids_list [of _ "[1]"] bindp_def note_run_def
      refresh_known_def index_of_def max_or_0_def demo_load_def demo_folder_def)

lemma demo_full_load_new:
  "fst (update_prices (demo_load (\<lambda>i. i \<le> 3) 5) [1] 0 (demo_folder [1])) = Loop_Done"
  "map de_name (ms_entries (snd (load_new (demo_load (\<lambda>i. i \<le> 3) 5) 2 3
     (snd (update_prices (demo_load (\<lambda>i. i \<le> 3) 5) [1] 0 (demo_folder [1])))))) = [[49], [50], [51]]"
  by code_simp+

theorem full_load_forgets_new_ids_witness:
  "\<exists>res w'. run_mtgstock_pipeline (demo_load (\<lambda>i. i \<le> 3) 5) 1 (demo_folder [1]) = Some (res, w') \<and>
     map de_name (ms_entries w') = [lit ''1'', lit ''2'', lit ''3''] \<and> ms_ids w' = Ids [1]"
proof -
  obtain w1 where w1: "update_prices (demo_load (\<lambda>i. i \<le> 3) 5) [1] 0 (demo_folder [1]) = (Loop_Done, w1)"
    using demo_full_load_new(1) by (metis prod.collapse)
  obtain res w' where load: "load_new (demo_load (\<lambda>i. i \<le> 3) 5) 2 3 w1 = (res, w')" by fastforce
  have run: "run_mtgstock_pipeline (demo_load (\<lambda>i. i \<le> 3) 5) 1 (demo_folder [1]) = Some (res, w')"
    using demo_full_load [OF w1] load by simp
  have "ms_ids w' = Ids [1]"
    using full_load_forgets_new_ids [OF run, of "[1]"] by (simp add: demo_folder_def)
  moreover have "map de_name (ms_entries w') = [lit ''1'', lit ''2'', lit ''3'']"
    using demo_full_load_new(2) w1 load by simp
  ultimately show ?thesis using run by (intro exI [of _ res] exI [of _ w'] conjI)
qed

section \<open>The load of a list counts every id\<close>

lemma price_batch_counts: "br_ok (price_batch ld ids) + br_failed (price_batch ld ids) = int (length ids)"
proof -
  define xs where
    "xs = map (\<lambda>i. price_item (ld_msg ld) i (fetch_card_prices (ld_client ld) (ld_net ld) (ld_market ld) i)) ids"
  have "price_batch ld ids = \<lparr>br_data = xs, br_ok = int (length (filter is_data xs)),
      br_failed = int (length (filter (\<lambda>x. \<not> is_data x) xs)), br_bytes = sum_list (map item_bytes xs)\<rparr>"
    by (simp only: price_batch_def fetch_card_price_data_batch_def Let_def xs_def)
  moreover have "length xs = length ids" by (simp add: xs_def)
  ultimately show ?thesis using sum_length_filter_compl [of is_data xs] by simp
qed

lemma end_of_batch_counts:
  "end_of_batch_process ld first final (p, e, k) (Some br) w = (Inr (p', e', k'), w') \<Longrightarrow>
   p' = p + br_ok br \<and> e' = e + br_failed br \<and> k' = Suc k"
  by (auto simp: end_of_batch_process_def Let_def bindp_def split: sum.splits prod.splits)

lemma load_list_counts:
  "load_list ld ids start (p, e, k) w = (Inr (p', e', k'), w') \<Longrightarrow> start \<le> length ids \<Longrightarrow>
   p' + e' = p + e + int (length ids - start)"
proof (induction ld ids start "(p, e, k)" w arbitrary: p e k rule: load_list.induct)
  case (1 ld ids start w p e k)
  show ?case
  proof (cases "start < length ids")
    case False
    with "1.prems" show ?thesis by (simp add: load_list.simps [of ld ids start])
  next
    case True
    define stop where "stop = min (start + ld_batch ld) (length ids)"
    define batch where "batch = take (stop - start) (drop start ids)"
    define br where "br = price_batch ld batch"
    define body where "body = bindp (save_batch ld br)
      (\<lambda>_. end_of_batch_process ld (ids ! start) (ids ! (stop - 1)) (p, e, k) (Some br))"
    have unfold: "load_list ld ids start (p, e, k) w =
        (if batch = [] then (Inl IndexErr, w)
         else (case body w of (Inl x, w1) \<Rightarrow> (Inl x, w1) | (Inr c1, w1) \<Rightarrow> load_list ld ids stop c1 w1))"
      using True unfolding load_list.simps [of ld ids start] Let_def stop_def batch_def br_def body_def by simp
    with "1.prems" have "batch \<noteq> []" by (auto split: if_splits)
    with "1.prems" unfold obtain p1 e1 k1 w1 where b: "body w = (Inr (p1, e1, k1), w1)"
      and rec: "load_list ld ids stop (p1, e1, k1) w1 = (Inr (p', e', k'), w')"
      by (auto split: prod.splits sum.splits)
    from b obtain w2 where "end_of_batch_process ld (ids ! start) (ids ! (stop - 1)) (p, e, k) (Some br) w2 = (Inr (p1, e1, k1), w1)"
      by (auto simp: body_def bindp_def split: prod.splits sum.splits)
    from end_of_batch_counts [OF this] have "p1 + e1 = p + e + int (length batch)"
      using price_batch_counts [of ld batch] by (simp add: br_def)
    moreover have "length batch = stop - start" "start \<le> stop" "stop \<le> length ids"
      using True by (simp_all add: batch_def stop_def)
    moreover have "p' + e' = p1 + e1 + int (length ids - stop)"
      using "1.hyps" [OF True stop_def batch_def br_def \<open>batch \<noteq> []\<close> b [symmetric, unfolded body_def] refl rec]
        \<open>stop \<le> length ids\<close> by simp
    ultimately show ?thesis by simp
  qed
qed

text \<open>
  A load of a list of ids that returns has counted every id of the list once, as processed or as errored.
\<close>

theorem selected_load_counts:
  assumes "run_mtgstock_pipeline_selected_lists ld ids w = (Inr (processed, errored), w')"
  shows "processed + errored = int (length ids)"
proof -
  from assms obtain w1 where "catchp
       (bindp (load_list ld ids 0 (0, 0, 1)) (\<lambda>(p, e, _).
        bindp (note_run ld ''success'' step_name_of_load None (Some (notes_of p e))) (\<lambda>_. ret (p, e))))
       (\<lambda>x. bindp (note_run ld ''failed'' step_name_of_load (Some (ld_msg ld x)) None) (\<lambda>_. throw x)) w1 =
     (Inr (processed, errored), w')"
    unfolding run_mtgstock_pipeline_selected_lists_def by (auto simp: bindp_def split: prod.splits sum.splits)
  then obtain p e k w2 where load: "load_list ld ids 0 (0, 0, 1) w1 = (Inr (p, e, k), w2)"
    and "p = processed" "e = errored"
    by (auto simp: catchp_def bindp_def split: prod.splits sum.splits)
  with load_list_counts [OF load] show ?thesis by simp
qed

lemma demo_selected:
  "fst (run_mtgstock_pipeline_selected_lists (demo_load (\<lambda>i. i \<noteq> 8) 2) [7, 8, 9] (demo_folder [])) = Inr (2, 1)"
  by code_simp

theorem selected_load_counts_witness:
  "\<exists>p e. fst (run_mtgstock_pipeline_selected_lists (demo_load (\<lambda>i. i \<noteq> 8) 2) [7, 8, 9] (demo_folder [])) = Inr (p, e) \<and>
     p + e = 3"
proof -
  obtain w' where "run_mtgstock_pipeline_selected_lists (demo_load (\<lambda>i. i \<noteq> 8) 2) [7, 8, 9] (demo_folder []) = (Inr (2, 1), w')"
    using demo_selected by (metis prod.collapse)
  from selected_load_counts [OF this] demo_selected show ?thesis by simp
qed

end
