(* ===== verification/Mtgstock_Staging.thy ===== *)
theory Mtgstock_Staging
  imports Mtgstock_Loader
begin

text \<open>
  Staging of MTGStocks prices (\<open>mtg_stock/data_staging.py\<close>), the mapping of print ids to card versions
  (\<open>identifier_service.py\<close>, \<open>identifier_repository.py\<close>) and the refresh tiers (\<open>priority_repository.py\<close>).

  The state holds the folder and runs of \<open>Mtgstock_Loader\<close>, the raw price table, the id mapping of the runs and
  the card identifiers. The JSON parser and the parquet reader are parameters. Folders complete in the order
  in which they are listed.
\<close>

section \<open>State\<close>

record stock_point =
  pt_date :: int
  pt_low :: "rat option"
  pt_avg :: "rat option"
  pt_foil :: "rat option"
  pt_market :: "rat option"
  pt_market_foil :: "rat option"

record raw_price =
  rw_point :: stock_point
  rw_game :: string
  rw_source :: string
  rw_scraped :: nat
  rw_print :: json
  rw_card_name :: json
  rw_set_abbr :: json
  rw_collector_number :: json
  rw_scryfall_id :: json
  rw_tcg_id :: json
  rw_cardtrader_id :: json

record ids_row =
  im_run :: nat
  im_print :: int
  im_scryfall :: "string option"
  im_multiverse :: "int option"
  im_tcg :: "int option"

text \<open>\<open>card_external_identifier\<close>, with the name of the identifier, and \<open>card_version\<close> with the code and the
  release date (a day number) of its set.\<close>

record ext_identifier =
  id_version :: string
  id_kind :: string
  id_value :: string

record version =
  cv_id :: string
  cv_set_code :: string
  cv_number :: string
  cv_released :: int

record staging =
  sg_mtg :: mtg_state
  sg_raw :: "raw_price list"
  sg_ids :: "ids_row list"
  sg_identifiers :: "ext_identifier list"
  sg_versions :: "version list"

definition on_mtg :: "(mtg_state, 'a) prog \<Rightarrow> (staging, 'a) prog" where
  "on_mtg m s = (let (r, w) = m (sg_mtg s) in (r, s\<lparr>sg_mtg := w\<rparr>))"

text \<open>\<open>track_step\<close> around a body that changes more than the run tables.\<close>

definition tracked :: "nat option \<Rightarrow> string \<Rightarrow> (pyexc \<Rightarrow> string) \<Rightarrow> (staging, 'a) prog \<Rightarrow> (staging, 'a) prog" where
  "tracked run name msg body =
     (case run of
        None \<Rightarrow> body
      | Some i \<Rightarrow>
          if i = 0 then body
          else bindp (on_mtg (on_ops (repo_update_run i (Some ''running'') (Some name) None None None))) (\<lambda>_ s.
            case body s of
              (Inr x, s') \<Rightarrow>
                bindp (on_mtg (on_ops (repo_update_run i (Some ''success'') (Some name) None None None))) (\<lambda>_. ret x) s'
            | (Inl e, s') \<Rightarrow>
                bindp (on_mtg (on_ops (repo_update_run i (Some ''failed'') (Some name) (Some ''step_failed'') (Some (msg e)) None)))
                  (\<lambda>_. bindp (on_mtg (on_ops (repo_fail_run i ''step_failed'' (Some (msg e)) None))) (\<lambda>_. throw e)) s'))"

section \<open>Loading the raw prices\<close>

definition sub_get :: "json \<Rightarrow> string \<Rightarrow> json res" where
  "sub_get j k =
     (if \<not> truthy j then Inr JNull else (case j of JObj d \<Rightarrow> Inr (jget d k) | _ \<Rightarrow> Inl AttrErr))"

text \<open>The keys of the result; the id is subscripted, the rest defaults to \<open>None\<close>.\<close>

definition process_info_file :: "(string \<Rightarrow> json res) \<Rightarrow> string option \<Rightarrow> (string, json) dict res" where
  "process_info_file parse file =
     (case file of
        None \<Rightarrow> Inl (OtherExc 0)
      | Some text \<Rightarrow> bind_res (parse text) (\<lambda>j. case j of
          JObj obj \<Rightarrow>
            (case dget obj ''id'' of
               None \<Rightarrow> Inl KeyErr
             | Some pid \<Rightarrow> bind_res (sub_get (jget obj ''card_set'') ''abbreviation'') (\<lambda>abbr.
                 Inr [(''mtgstock'', pid), (''card_name'', jget obj ''name''), (''set_abbr'', abbr),
                      (''collector_number'', jget obj ''collector_number''), (''cardtrader'', jget obj ''cardtrader''),
                      (''scryfallId'', jget obj ''scryfallId''), (''multiverse_ids'', jget obj ''multiverse_ids''),
                      (''tcg_id'', jget obj ''tcg_id''), (''cardtrader_id'', jget obj ''cardtrader_id'')]))
        | _ \<Rightarrow> Inl AttrErr))"

record stage_load =
  sl_parse :: "string \<Rightarrow> json res"
  sl_reader :: "string \<Rightarrow> stock_point list res"
  sl_msg :: "pyexc \<Rightarrow> string"
  sl_memory :: "raw_price list \<Rightarrow> int"
  sl_elapsed :: "nat \<Rightarrow> rat"
  sl_market :: string
  sl_run :: "nat option"
  sl_batch :: nat
  sl_start :: "int option"
  sl_end :: "int option"
  sl_filter :: "int list option"

definition raw_source :: "string \<Rightarrow> string" where
  "raw_source market =
     (case dget [(''tcg'', ''tcg''), (''cardmarket'', ''cardmarket''), (''cardkingdom'', ''cardkingdom''),
                 (''starcity'', ''starcitygames'')] market of None \<Rightarrow> market | Some c \<Rightarrow> c)"

definition process_prices_file ::
  "stage_load \<Rightarrow> nat \<Rightarrow> (string, json) dict \<Rightarrow> string option \<Rightarrow> raw_price list res" where
  "process_prices_file sl now ids file =
     (case file of
        None \<Rightarrow> Inl (OtherExc 0)
      | Some b \<Rightarrow> bind_res (sl_reader sl b) (\<lambda>pts. Inr (map (\<lambda>pt.
          \<lparr>rw_point = pt, rw_game = ''mtg'', rw_source = raw_source (sl_market sl), rw_scraped = now,
           rw_print = jget ids ''mtgstock'', rw_card_name = jget ids ''card_name'', rw_set_abbr = jget ids ''set_abbr'',
           rw_collector_number = jget ids ''collector_number'', rw_scryfall_id = jget ids ''scryfallId'',
           rw_tcg_id = jget ids ''tcg_id'', rw_cardtrader_id = jget ids ''cardtrader_id''\<rparr>) pts)))"

definition folder_file :: "mtg_state \<Rightarrow> ustr \<Rightarrow> string \<Rightarrow> string option" where
  "folder_file w n f =
     (case find (\<lambda>e. de_name e = n) (ms_entries w) of
        None \<Rightarrow> None
      | Some e \<Rightarrow> if de_is_dir e then dget (de_files e) f else None)"

definition process_folder ::
  "stage_load \<Rightarrow> mtg_state \<Rightarrow> ustr \<Rightarrow> (raw_price list \<times> (string, json) dict) res" where
  "process_folder sl w n =
     bind_res (process_info_file (sl_parse sl) (folder_file w n ''info.json'')) (\<lambda>ids.
     bind_res (process_prices_file sl (ops_clock (ms_ops w)) ids
                 (folder_file w n (''prices.'' @ sl_market sl @ ''.parquet''))) (\<lambda>rows.
     Inr (rows, ids)))"

text \<open>\<open>os.listdir\<close>: the entries and the list of ids itself.\<close>

definition listdir :: "mtg_state \<Rightarrow> ustr list" where
  "listdir w = map de_name (ms_entries w) @ (if ms_ids w = No_File then [] else [lit ''existing_ids.json''])"

definition in_range :: "int option \<Rightarrow> int option \<Rightarrow> ustr \<Rightarrow> bool" where
  "in_range lo hi f \<longleftrightarrow>
     isdigit f \<and> (case lo of None \<Rightarrow> True | Some l \<Rightarrow> l \<le> int (nat_of_digits f)) \<and>
     (case hi of None \<Rightarrow> True | Some h \<Rightarrow> int (nat_of_digits f) \<le> h)"

definition selected_folders :: "stage_load \<Rightarrow> mtg_state \<Rightarrow> ustr list" where
  "selected_folders sl w =
     (let fs = listdir w;
          fs = (if sl_start sl \<noteq> None \<or> sl_end sl \<noteq> None then filter (in_range (sl_start sl) (sl_end sl)) fs else fs)
      in case sl_filter sl of
           None \<Rightarrow> fs
         | Some ids \<Rightarrow> filter (\<lambda>f. isdigit f \<and> int (nat_of_digits f) \<in> set ids) fs)"

text \<open>
  \<open>update_ids_master_dict\<close>: the statement reads the keys \<open>scryfall_id\<close>, \<open>multiverse_id\<close> and \<open>tcg_id\<close> of every
  value. A cast of a text that is no number fails.
\<close>

definition as_bigint :: "json \<Rightarrow> int option res" where
  "as_bigint j =
     (case j of
        JNull \<Rightarrow> Inr None
      | JInt n \<Rightarrow> Inr (Some n)
      | JStr t \<Rightarrow> if isdigit (lit t) then Inr (Some (int (nat_of_digits (lit t)))) else Inl DbErr
      | _ \<Rightarrow> Inl DbErr)"

definition as_uuid :: "json \<Rightarrow> string option res" where
  "as_uuid j = (case j of JNull \<Rightarrow> Inr None | JStr t \<Rightarrow> Inr (Some t) | _ \<Rightarrow> Inl DbErr)"

fun mapping_rows :: "nat \<Rightarrow> (json, (string, json) dict) dict \<Rightarrow> ids_row list res" where
  "mapping_rows i [] = Inr []"
| "mapping_rows i ((pid, v) # rest) =
     bind_res (as_bigint pid) (\<lambda>p. case p of
        None \<Rightarrow> Inl DbErr
      | Some n \<Rightarrow>
          bind_res (as_uuid (jget v ''scryfall_id'')) (\<lambda>s. bind_res (as_bigint (jget v ''multiverse_id'')) (\<lambda>m.
          bind_res (as_bigint (jget v ''tcg_id'')) (\<lambda>t. bind_res (mapping_rows i rest) (\<lambda>rows.
            Inr (\<lparr>im_run = i, im_print = n, im_scryfall = s, im_multiverse = m, im_tcg = t\<rparr> # rows))))))"

definition upsert_ids_row :: "ids_row \<Rightarrow> ids_row list \<Rightarrow> ids_row list" where
  "upsert_ids_row r rows =
     (if \<exists>x \<in> set rows. im_run x = im_run r \<and> im_print x = im_print r
      then map (\<lambda>x. if im_run x = im_run r \<and> im_print x = im_print r then r else x) rows
      else rows @ [r])"

definition update_ids_master_dict :: "nat \<Rightarrow> (json, (string, json) dict) dict \<Rightarrow> (staging, int) prog" where
  "update_ids_master_dict i d s =
     (case mapping_rows i d of
        Inl e \<Rightarrow> (Inl e, s)
      | Inr rows \<Rightarrow> (Inr (int (length rows)), s\<lparr>sg_ids := fold upsert_ids_row rows (sg_ids s)\<rparr>))"

text \<open>What the folders of a chunk add up to: rows, the dict of ids, the folders that worked and that failed.\<close>

fun collect :: "(raw_price list \<times> (string, json) dict) res list \<Rightarrow>
    raw_price list \<times> (json, (string, json) dict) dict \<times> nat \<times> nat \<Rightarrow>
    raw_price list \<times> (json, (string, json) dict) dict \<times> nat \<times> nat" where
  "collect [] acc = acc"
| "collect (Inl e # rs) (rows, d, ok, bad) = collect rs (rows, d, ok, Suc bad)"
| "collect (Inr (xs, ids) # rs) (rows, d, ok, bad) =
     collect rs (rows @ xs, dset (jget ids ''mtgstock'') (filter (\<lambda>(k, v). k \<noteq> ''mtgstock'') ids) d, Suc ok, bad)"

definition clear_raw_prices :: "(staging, int) prog" where
  "clear_raw_prices s = (Inr (int (length (sg_raw s))), s\<lparr>sg_raw := []\<rparr>)"

definition copy_prices_mtgstock :: "raw_price list \<Rightarrow> (staging, unit) prog" where
  "copy_prices_mtgstock rows s = (Inr (), s\<lparr>sg_raw := sg_raw s @ rows\<rparr>)"

definition stage_row :: "stage_load \<Rightarrow> nat \<Rightarrow> nat \<Rightarrow> nat \<Rightarrow> raw_price list \<Rightarrow> nat \<Rightarrow> nat \<Rightarrow> batch" where
  "stage_row sl seq first final rows ok bad =
     \<lparr>batch_step = (0, []), batch_seq = seq, batch_start = int first, batch_end = int final,
      batch_status = (if bad = 0 then Success else Partial), batch_ok = int ok, batch_failed = int bad,
      batch_bytes = sl_memory sl rows, batch_duration = Some (sl_elapsed sl seq), batch_error = None,
      batch_details = None\<rparr>"

definition with_run :: "stage_load \<Rightarrow> (nat \<Rightarrow> (staging, 'a) prog) \<Rightarrow> (staging, unit) prog" where
  "with_run sl f = (case sl_run sl of None \<Rightarrow> ret () | Some i \<Rightarrow> bindp (f i) (\<lambda>_. ret ()))"

fun load_chunks :: "stage_load \<Rightarrow> ustr list list \<Rightarrow> nat \<Rightarrow> nat \<Rightarrow> (staging, unit) prog" where
  "load_chunks sl [] seq first s = (Inr (), s)"
| "load_chunks sl (chunk # rest) seq first s =
     (let (rows, d, ok, bad) = collect (map (process_folder sl (sg_mtg s)) chunk) ([], [], 0, 0);
          final = first + length chunk
      in if ok = 0 then load_chunks sl rest seq final s
         else bindp (with_run sl (\<lambda>i. on_mtg (on_ops (repo_update_run i (Some ''running'') (Some ''bulk_load'') None None None))))
           (\<lambda>_. bindp (copy_prices_mtgstock rows)
           (\<lambda>_. bindp (with_run sl (\<lambda>i. update_ids_master_dict i d))
           (\<lambda>_. bindp (with_run sl (\<lambda>i. on_mtg (on_ops (repo_insert_batch_step i ''bulk_load'' (stage_row sl seq first final rows ok bad)))))
           (\<lambda>_. load_chunks sl rest (Suc seq) final)))) s)"

definition bulk_load :: "stage_load \<Rightarrow> (staging, unit) prog" where
  "bulk_load sl s =
     (let folders = selected_folders sl (sg_mtg s)
      in bindp clear_raw_prices (\<lambda>_.
         tracked (sl_run sl) ''bulk_load'' (sl_msg sl)
           (if sl_batch sl = 0 then throw ValueErr else load_chunks sl (chunks (sl_batch sl) folders) 1 0)) s)"

text \<open>
  The later stages call a procedure of the database, a parameter, inside a tracked step. The first of them
  relaxes a limit of the session and puts it back whatever happens.
\<close>

definition finallyp :: "('s, 'a) prog \<Rightarrow> ('s, unit) prog \<Rightarrow> ('s, 'a) prog" where
  "finallyp m f s =
     (case m s of
        (Inr x, s') \<Rightarrow> bindp f (\<lambda>_. ret x) s'
      | (Inl e, s') \<Rightarrow> bindp f (\<lambda>_. throw e) s')"

definition call_load_stage_from_raw ::
  "(staging, unit) prog \<Rightarrow> (staging, unit) prog \<Rightarrow> (staging, unit) prog \<Rightarrow> (staging, unit) prog" where
  "call_load_stage_from_raw set_limit call_procedure reset_limit =
     bindp set_limit (\<lambda>_. finallyp call_procedure reset_limit)"

definition from_raw_to_staging :: "nat option \<Rightarrow> (pyexc \<Rightarrow> string) \<Rightarrow> (staging, unit) prog \<Rightarrow> (staging, unit) prog" where
  "from_raw_to_staging run msg call = tracked run ''raw_to_staging'' msg call"

definition retry_rejects :: "nat option \<Rightarrow> (pyexc \<Rightarrow> string) \<Rightarrow> (staging, int) prog \<Rightarrow> (staging, int) prog" where
  "retry_rejects run msg call = tracked run ''retry_rejects'' msg call"

definition from_staging_to_prices :: "nat option \<Rightarrow> (pyexc \<Rightarrow> string) \<Rightarrow> (staging, unit) prog \<Rightarrow> (staging, unit) prog" where
  "from_staging_to_prices run msg call = tracked run ''staging_to_prices'' msg call"

section \<open>Print ids and card versions\<close>

definition get_existing_mapped_print_ids :: "staging \<Rightarrow> int list res" where
  "get_existing_mapped_print_ids s =
     (let vs = map id_value (filter (\<lambda>r. id_kind r = ''mtgstock_id'') (sg_identifiers s))
      in if \<forall>v \<in> set vs. isdigit (lit v) then Inr (map (\<lambda>v. int (nat_of_digits (lit v))) vs) else Inl DbErr)"

definition fetch_by :: "string \<Rightarrow> staging \<Rightarrow> string list \<Rightarrow> (string, string) dict" where
  "fetch_by kind s vs =
     fold (\<lambda>r. dset (id_value r) (id_version r))
       (filter (\<lambda>r. id_kind r = kind \<and> id_value r \<in> set vs) (sg_identifiers s)) []"

definition fetch_by_scryfall :: "staging \<Rightarrow> string list \<Rightarrow> (string, string) dict" where
  "fetch_by_scryfall = fetch_by ''scryfall_id''"

definition fetch_by_tcgplayer :: "staging \<Rightarrow> string list \<Rightarrow> (string, string) dict" where
  "fetch_by_tcgplayer = fetch_by ''tcgplayer_id''"

definition low :: "string \<Rightarrow> string" where
  "low s = map char_of (lower (lit s))"

definition fetch_by_set_collector :: "staging \<Rightarrow> (string \<times> string) list \<Rightarrow> (string \<times> string, string) dict" where
  "fetch_by_set_collector s ps =
     (let codes = map (\<lambda>p. low (fst p)) ps;
          look = fold (\<lambda>v. dset (low (cv_set_code v), cv_number v) (cv_id v))
                   (filter (\<lambda>v. low (cv_set_code v) \<in> set codes) (sg_versions s)) []
      in fold (\<lambda>(a, n) d. case dget look (low a, n) of None \<Rightarrow> d | Some c \<Rightarrow> dset (a, n) c d) ps [])"

definition add_mapping :: "string \<times> int \<Rightarrow> ext_identifier list \<Rightarrow> ext_identifier list" where
  "add_mapping m rows =
     (if \<exists>r \<in> set rows. id_version r = fst m \<and> id_kind r = ''mtgstock_id'' then rows
      else rows @ [\<lparr>id_version = fst m, id_kind = ''mtgstock_id'', id_value = show_int (snd m)\<rparr>])"

definition upsert_mtgstock_id_mappings :: "(string \<times> int) list \<Rightarrow> (staging, int) prog" where
  "upsert_mtgstock_id_mappings ms s =
     (Inr (int (length ms)), s\<lparr>sg_identifiers := fold add_mapping ms (sg_identifiers s)\<rparr>)"

text \<open>
  What the service reads of an \<open>info.json\<close>: \<open>None\<close> for a missing file. The fields are the ones after
  \<open>str\<close> and the defaults; an empty string counts as missing.
\<close>

record print_info =
  pi_print :: int
  pi_scryfall :: string
  pi_tcg :: string
  pi_set :: string
  pi_number :: string

definition lookup_dict :: "(print_info \<Rightarrow> 'k) \<Rightarrow> print_info list \<Rightarrow> ('k, int) dict" where
  "lookup_dict f ds = fold (\<lambda>d. dset (f d) (pi_print d)) ds []"

definition assign :: "('k, int) dict \<Rightarrow> ('k, string) dict \<Rightarrow> (int, string) dict \<Rightarrow> (int, string) dict" where
  "assign look matches resolved =
     fold (\<lambda>(k, c) d. case dget look k of None \<Rightarrow> d | Some pid \<Rightarrow> dset pid c d) matches resolved"

definition unresolved_of :: "(int, string) dict \<Rightarrow> print_info list \<Rightarrow> print_info list" where
  "unresolved_of resolved ds = filter (\<lambda>d. dget resolved (pi_print d) = None) ds"

definition resolve_batch :: "staging \<Rightarrow> print_info list \<Rightarrow> (int, string) dict" where
  "resolve_batch s ds =
     (let look1 = lookup_dict pi_scryfall (filter (\<lambda>d. pi_scryfall d \<noteq> []) ds);
          r1 = assign look1 (fetch_by_scryfall s (dkeys look1)) [];
          look2 = lookup_dict pi_tcg (filter (\<lambda>d. pi_tcg d \<noteq> []) (unresolved_of r1 ds));
          r2 = assign look2 (fetch_by_tcgplayer s (dkeys look2)) r1;
          look3 = lookup_dict (\<lambda>d. (pi_set d, pi_number d))
                    (filter (\<lambda>d. pi_set d \<noteq> [] \<and> pi_number d \<noteq> []) (unresolved_of r2 ds))
      in fold (\<lambda>(k, c) d. case dget look3 k of
                 None \<Rightarrow> d
               | Some pid \<Rightarrow> if pid \<noteq> 0 \<and> dget d pid = None then dset pid c d else d)
           (fetch_by_set_collector s (dkeys look3)) r2)"

text \<open>One batch: the counters of mapped and unresolved prints.\<close>

definition map_batch :: "(int \<Rightarrow> print_info option) \<Rightarrow> int list \<Rightarrow> int \<times> int \<Rightarrow> (staging, int \<times> int) prog" where
  "map_batch info ids c s =
     (let ds = List.map_filter info ids; missing = length ids - length ds; resolved = resolve_batch s ds;
          un = snd c + int missing + (int (length ds) - int (length resolved))
      in if resolved = [] then (Inr (fst c, un), s)
         else bindp (upsert_mtgstock_id_mappings (map (\<lambda>(p, v). (v, p)) resolved)) (\<lambda>n. ret (fst c + n, un)) s)"

fun map_batches :: "(int \<Rightarrow> print_info option) \<Rightarrow> int list list \<Rightarrow> int \<times> int \<Rightarrow> (staging, int \<times> int) prog" where
  "map_batches info [] c = ret c"
| "map_batches info (b # bs) c = bindp (map_batch info b c) (\<lambda>c'. map_batches info bs c')"

definition build_mtgstock_id_mapping ::
  "(int \<Rightarrow> print_info option) \<Rightarrow> nat option \<Rightarrow> (pyexc \<Rightarrow> string) \<Rightarrow> nat \<Rightarrow> (staging, int \<times> int \<times> int) prog" where
  "build_mtgstock_id_mapping info run msg batch s =
     (case ms_ids (sg_mtg s) of
        No_File \<Rightarrow> (Inl (OtherExc 0), s)
      | Bad_File \<Rightarrow> (Inl ValueErr, s)
      | Ids all \<Rightarrow>
          (case get_existing_mapped_print_ids s of
             Inl e \<Rightarrow> (Inl e, s)
           | Inr existing \<Rightarrow>
               let unmapped = filter (\<lambda>i. i \<notin> set existing) all
               in bindp (tracked run ''build_mtgstock_id_mapping'' msg
                           (if batch = 0 then throw ValueErr else map_batches info (chunks batch unmapped) (0, 0)))
                    (\<lambda>(m, u). ret (m, int (card (set existing)), u)) s))"

section \<open>Tiers\<close>

record latest_price =
  lp_version :: string
  lp_source :: string
  lp_avg :: "int option"

record tiered =
  ti_print :: int
  ti_released :: int
  ti_avg :: "int option"

text \<open>
  \<open>_TIER_CTE\<close>: the joins, one row per group of print id and release date, and the maximum of the averages that
  are not null.
\<close>

definition sql_max :: "int option list \<Rightarrow> int option" where
  "sql_max xs = (let ys = List.map_filter id xs in if ys = [] then None else Some (Max (set ys)))"

definition tier_joined :: "latest_price list \<Rightarrow> staging \<Rightarrow> ((int \<times> int) \<times> int option) list" where
  "tier_joined prices s =
     concat (map (\<lambda>r. concat (map (\<lambda>v.
         let ps = filter (\<lambda>p. lp_version p = cv_id v \<and> lp_source p = ''mtgstocks'') prices;
             key = (int (nat_of_digits (lit (id_value r))), cv_released v)
         in if ps = [] then [(key, None)] else map (\<lambda>p. (key, lp_avg p)) ps)
       (filter (\<lambda>v. cv_id v = id_version r) (sg_versions s))))
     (filter (\<lambda>r. id_kind r = ''mtgstock_id'') (sg_identifiers s)))"

definition tier_rows :: "latest_price list \<Rightarrow> staging \<Rightarrow> tiered list" where
  "tier_rows prices s =
     (let j = tier_joined prices s
      in map (\<lambda>k. \<lparr>ti_print = fst k, ti_released = snd k, ti_avg = sql_max (map snd (filter (\<lambda>x. fst x = k) j))\<rparr>)
           (remdups (map fst j)))"

definition or_zero :: "int option \<Rightarrow> int" where
  "or_zero x = (case x of None \<Rightarrow> 0 | Some n \<Rightarrow> n)"

definition tier_predicate :: "int \<Rightarrow> int \<Rightarrow> (tiered \<Rightarrow> bool) option" where
  "tier_predicate today tier =
     (let t1 = (\<lambda>r. ti_released r \<ge> today - 120 \<or> or_zero (ti_avg r) \<ge> 500)
      in if tier = 1 then Some t1
         else if tier = 2 then Some (\<lambda>r. \<not> t1 r \<and> or_zero (ti_avg r) \<ge> 100)
         else if tier = 3 then Some (\<lambda>r. \<not> t1 r \<and> or_zero (ti_avg r) < 100)
         else None)"

definition fetch_tier_print_ids :: "int \<Rightarrow> latest_price list \<Rightarrow> int \<Rightarrow> staging \<Rightarrow> int list res" where
  "fetch_tier_print_ids today prices tier s =
     (case tier_predicate today tier of
        None \<Rightarrow> Inl ValueErr
      | Some p \<Rightarrow> Inr (sort (map ti_print (filter p (tier_rows prices s)))))"

definition get_tier_print_ids :: "int \<Rightarrow> latest_price list \<Rightarrow> int \<Rightarrow> staging \<Rightarrow> int list res" where
  "get_tier_print_ids today prices tier s = fetch_tier_print_ids today prices tier s"

section \<open>Tiers share out the mapped prints\<close>

text \<open>
  The three tiers share out the rows of the tier query: together they hold every row once, each tier is
  sorted, and any other tier number is refused.
\<close>

theorem tiers_partition:
  "\<exists>l1 l2 l3. get_tier_print_ids today prices 1 s = Inr l1 \<and> get_tier_print_ids today prices 2 s = Inr l2 \<and>
     get_tier_print_ids today prices 3 s = Inr l3 \<and>
     mset l1 + mset l2 + mset l3 = mset (map ti_print (tier_rows prices s)) \<and>
     sorted l1 \<and> sorted l2 \<and> sorted l3 \<and>
     (\<forall>t. is_ok (get_tier_print_ids today prices t s) \<longleftrightarrow> t \<in> {1, 2, 3})"
proof -
  let ?P = "\<lambda>r. ti_released r \<ge> today - 120 \<or> or_zero (ti_avg r) \<ge> 500"
  let ?Q = "\<lambda>r. or_zero (ti_avg r) \<ge> 100"
  have share: "mset (map ti_print (filter ?P rs)) + mset (map ti_print (filter (\<lambda>r. \<not> ?P r \<and> ?Q r) rs)) +
      mset (map ti_print (filter (\<lambda>r. \<not> ?P r \<and> \<not> ?Q r) rs)) = mset (map ti_print rs)" for rs
    by (induction rs) auto
  have "is_ok (get_tier_print_ids today prices t s) \<longleftrightarrow> t \<in> {1, 2, 3}" for t
    by (simp add: get_tier_print_ids_def fetch_tier_print_ids_def tier_predicate_def Let_def)
  with share [of "tier_rows prices s"] show ?thesis
    by (simp add: get_tier_print_ids_def fetch_tier_print_ids_def tier_predicate_def Let_def not_le)
qed

section \<open>What a bulk load leaves behind\<close>

lemma on_mtg_sel [simp]:
  "sg_raw (snd (on_mtg m s)) = sg_raw s" "sg_ids (snd (on_mtg m s)) = sg_ids s"
  "sg_identifiers (snd (on_mtg m s)) = sg_identifiers s" "sg_versions (snd (on_mtg m s)) = sg_versions s"
  by (simp_all add: on_mtg_def Let_def split_beta)

text \<open>The folder and the clock, which decide what a folder yields.\<close>

definition same_source :: "staging \<Rightarrow> staging \<Rightarrow> bool" where
  "same_source s0 s \<longleftrightarrow> ms_entries (sg_mtg s) = ms_entries (sg_mtg s0) \<and> ms_ids (sg_mtg s) = ms_ids (sg_mtg s0) \<and>
     ops_clock (ms_ops (sg_mtg s)) = ops_clock (ms_ops (sg_mtg s0))"

definition same_tables :: "staging \<Rightarrow> staging \<Rightarrow> bool" where
  "same_tables s0 s \<longleftrightarrow> same_source s0 s \<and> sg_raw s = sg_raw s0 \<and> sg_ids s = sg_ids s0 \<and>
     sg_identifiers s = sg_identifiers s0 \<and> sg_versions s = sg_versions s0"

lemma process_folder_same:
  "same_source s0 s \<Longrightarrow> process_folder sl (sg_mtg s) = process_folder sl (sg_mtg s0)"
  by (rule ext) (simp add: same_source_def process_folder_def folder_file_def)

lemma same_source_refl [simp]: "same_source s s" and same_tables_refl [simp]: "same_tables s s"
  by (simp_all add: same_source_def same_tables_def)

lemma same_source_trans: "same_source a b \<Longrightarrow> same_source b c \<Longrightarrow> same_source a c"
  by (simp add: same_source_def)

definition clock_kept :: "(ops, 'a) prog \<Rightarrow> bool" where
  "clock_kept m \<longleftrightarrow> (\<forall>db. ops_clock (snd (m db)) = ops_clock db)"

lemma clock_kept_statements:
  "clock_kept (repo_update_run i st cur code det n)" "clock_kept (repo_insert_batch_step i name b)"
  "clock_kept (repo_fail_run i' code' det' n')"
  by (auto simp: clock_kept_def repo_update_run_def repo_insert_batch_step_def repo_fail_run_def Let_def
      split: option.split)

lemma same_tables_on: "clock_kept m \<Longrightarrow> same_tables s (snd (on_mtg (on_ops m) s))"
  by (simp add: same_tables_def same_source_def on_mtg_def on_ops_def clock_kept_def Let_def split_beta)

lemma on_mtg_result:
  assumes "on_mtg (on_ops m) s = (r, s')" "clock_kept m"
  shows "same_tables s s'"
  using same_tables_on [OF assms(2), of s] assms(1) by simp

text \<open>A tracked step that returns has run its body between two states that differ in the run tables only.\<close>

lemma bindp_Inr:
  assumes "bindp m f s = (Inr y, s')"
  obtains x s1 where "m s = (Inr x, s1)" "f x s1 = (Inr y, s')"
  using assms by (cases "m s"; cases "fst (m s)") (auto simp: bindp_def)

lemma tracked_body:
  assumes "tracked run name msg body s = (Inr x, s')"
  obtains s1 s2 where "same_tables s s1" "body s1 = (Inr x, s2)" "same_tables s2 s'"
proof (cases "run = None \<or> run = Some 0")
  case True
  with assms have "body s = (Inr x, s')" by (auto simp: tracked_def)
  then show ?thesis by (rule that [OF same_tables_refl _ same_tables_refl])
next
  case False
  then obtain i where i: "run = Some i" "i \<noteq> 0" by auto
  let ?start = "on_mtg (on_ops (repo_update_run i (Some ''running'') (Some name) None None None))"
  let ?done = "on_mtg (on_ops (repo_update_run i (Some ''success'') (Some name) None None None))"
  from assms i obtain y s1 where start: "?start s = (Inr y, s1)"
    and rest: "(case body s1 of (Inr x, s2) \<Rightarrow> bindp ?done (\<lambda>_. ret x) s2
       | (Inl e, s2) \<Rightarrow> bindp (on_mtg (on_ops (repo_update_run i (Some ''failed'') (Some name) (Some ''step_failed'') (Some (msg e)) None)))
            (\<lambda>_. bindp (on_mtg (on_ops (repo_fail_run i ''step_failed'' (Some (msg e)) None))) (\<lambda>_. throw e)) s2) = (Inr x, s')"
    by (auto simp: tracked_def elim!: bindp_Inr)
  from rest obtain z s2 where body: "body s1 = (Inr z, s2)" and fin: "bindp ?done (\<lambda>_. ret z) s2 = (Inr x, s')"
    by (cases "body s1"; cases "fst (body s1)") (auto elim!: bindp_Inr)
  from fin obtain u where fin: "?done s2 = (Inr u, s')" and "z = x" by (auto elim!: bindp_Inr)
  from start have "same_tables s s1" by (rule on_mtg_result) (rule clock_kept_statements)
  moreover from fin have "same_tables s2 s'" by (rule on_mtg_result) (rule clock_kept_statements)
  ultimately show ?thesis using that body \<open>z = x\<close> by blast
qed

text \<open>The rows of the folders that load.\<close>

definition rows_of :: "stage_load \<Rightarrow> mtg_state \<Rightarrow> ustr \<Rightarrow> raw_price list" where
  "rows_of sl w f = (case process_folder sl w f of Inl _ \<Rightarrow> [] | Inr (xs, _) \<Rightarrow> xs)"

lemma collect_rows:
  "fst (collect (map (process_folder sl w) fs) (rows, d, ok, bad)) = rows @ concat (map (rows_of sl w) fs)"
  by (induction fs arbitrary: rows d ok bad)
    (auto simp: rows_of_def split: sum.split prod.split)

lemma collect_ok:
  "collect rs (rows, d, ok, bad) = (rows', d', 0, bad') \<Longrightarrow> ok = 0 \<and> rows' = rows \<and> (\<forall>r \<in> set rs. \<not> is_ok r)"
  by (induction rs "(rows, d, ok, bad)" arbitrary: rows d ok bad rule: collect.induct) auto

text \<open>An entry of the dict of ids has none of the keys that the statement reads, but for \<open>tcg_id\<close>.\<close>

definition no_ids :: "(string, json) dict \<Rightarrow> bool" where
  "no_ids v \<longleftrightarrow> jget v ''scryfall_id'' = JNull \<and> jget v ''multiverse_id'' = JNull"

lemma process_info_keys:
  assumes "process_info_file parse file = Inr ids"
  shows "dkeys ids = [''mtgstock'', ''card_name'', ''set_abbr'', ''collector_number'', ''cardtrader'',
    ''scryfallId'', ''multiverse_ids'', ''tcg_id'', ''cardtrader_id'']"
proof -
  from assms obtain str j where j: "file = Some str" "parse str = Inr j"
    by (cases "file") (auto simp: process_info_file_def)
  with assms obtain obj where "j = JObj obj"
    by (cases j) (auto simp: process_info_file_def)
  with j assms obtain pid where "dget obj ''id'' = Some pid"
    by (cases "dget obj ''id''") (auto simp: process_info_file_def)
  with j \<open>j = JObj obj\<close> assms show ?thesis
    by (auto simp: process_info_file_def)
qed

lemma jget_absent: "k \<notin> set (dkeys d) \<Longrightarrow> jget d k = JNull"
  by (simp add: jget_def map_of_eq_None_iff [symmetric] image_image split: option.split)

lemma process_info_no_ids:
  assumes "process_info_file parse file = Inr ids"
  shows "no_ids (filter (\<lambda>(k, v). k \<noteq> ''mtgstock'') ids)"
proof -
  have "set (dkeys (filter (\<lambda>(k, v). k \<noteq> ''mtgstock'') ids)) \<subseteq> set (dkeys ids)" by auto
  moreover have "''scryfall_id'' \<notin> set (dkeys ids)" "''multiverse_id'' \<notin> set (dkeys ids)"
    unfolding process_info_keys [OF assms] by simp_all
  ultimately show ?thesis unfolding no_ids_def by (blast intro: jget_absent)
qed

lemma process_folder_no_ids:
  "process_folder sl w f = Inr (xs, ids) \<Longrightarrow> no_ids (filter (\<lambda>(k, v). k \<noteq> ''mtgstock'') ids)"
  by (auto simp: process_folder_def dest: process_info_no_ids)

lemma set_update_subset: "set (dset k v d) \<subseteq> insert (k, v) (set d)"
  by (induction d) auto

lemma collect_no_ids:
  "\<forall>(k, v) \<in> set d. no_ids v \<Longrightarrow>
   \<forall>(k, v) \<in> set (fst (snd (collect (map (process_folder sl w) fs) (rows, d, ok, bad)))). no_ids v"
proof (induction fs arbitrary: rows d ok bad)
  case Nil
  then show ?case by simp
next
  case (Cons f fs)
  show ?case
  proof (cases "process_folder sl w f")
    case (Inl e)
    with Cons show ?thesis by simp
  next
    case (Inr r)
    then obtain xs ids where r: "process_folder sl w f = Inr (xs, ids)" by (cases r) auto
    let ?d = "dset (jget ids ''mtgstock'') (filter (\<lambda>(k, v). k \<noteq> ''mtgstock'') ids) d"
    have "\<forall>(k, v) \<in> set ?d. no_ids v"
      using process_folder_no_ids [OF r] Cons.prems set_update_subset [of "jget ids ''mtgstock''"] by fast
    from Cons.IH [OF this] show ?thesis by (simp add: r)
  qed
qed

lemma mapping_rows_no_ids:
  "mapping_rows i d = Inr rows \<Longrightarrow> \<forall>(k, v) \<in> set d. no_ids v \<Longrightarrow>
   \<forall>r \<in> set rows. im_scryfall r = None \<and> im_multiverse r = None"
  by (induction i d arbitrary: rows rule: mapping_rows.induct)
    (auto simp: no_ids_def as_uuid_def as_bigint_def split: option.splits)

lemma set_upsert_ids: "set (fold upsert_ids_row rows old) \<subseteq> set old \<union> set rows"
proof (induction rows arbitrary: old)
  case (Cons r rows)
  have "set (upsert_ids_row r old) \<subseteq> insert r (set old)" by (auto simp: upsert_ids_row_def)
  with Cons.IH [of "upsert_ids_row r old"] show ?case by auto
qed simp

lemma with_run_result:
  assumes "with_run sl f s = (Inr (), s')"
  shows "sl_run sl = None \<and> s' = s \<or> (\<exists>i x. sl_run sl = Some i \<and> f i s = (Inr x, s'))"
  using assms by (cases "sl_run sl") (auto simp: with_run_def elim: bindp_Inr)

lemma with_run_same:
  assumes "with_run sl (\<lambda>i. on_mtg (on_ops (m i))) s = (Inr (), s')" and "\<And>i. clock_kept (m i)"
  shows "same_tables s s'"
  using with_run_result [OF assms(1)] on_mtg_result assms(2) by fastforce

lemma with_run_ids:
  assumes "with_run sl (\<lambda>i. update_ids_master_dict i d) s = (Inr (), s')" and "\<forall>(k, v) \<in> set d. no_ids v"
  shows "sg_mtg s' = sg_mtg s \<and> sg_raw s' = sg_raw s \<and>
    (\<forall>r \<in> set (sg_ids s'). r \<in> set (sg_ids s) \<or> im_scryfall r = None \<and> im_multiverse r = None)"
  using with_run_result [OF assms(1)]
proof (elim disjE exE conjE)
  fix i x assume "update_ids_master_dict i d s = (Inr x, s')"
  then obtain rows where rows: "mapping_rows i d = Inr rows" and s': "s' = s\<lparr>sg_ids := fold upsert_ids_row rows (sg_ids s)\<rparr>"
    by (auto simp: update_ids_master_dict_def split: sum.splits)
  show ?thesis
    using mapping_rows_no_ids [OF rows assms(2)] set_upsert_ids [of rows "sg_ids s"] unfolding s' by auto
qed simp

definition stages :: "stage_load \<Rightarrow> ustr list \<Rightarrow> staging \<Rightarrow> staging \<Rightarrow> bool" where
  "stages sl fs s s' \<longleftrightarrow> same_source s s' \<and>
     sg_raw s' = sg_raw s @ concat (map (rows_of sl (sg_mtg s)) fs) \<and>
     (\<forall>r \<in> set (sg_ids s'). r \<in> set (sg_ids s) \<or> im_scryfall r = None \<and> im_multiverse r = None)"

lemma rows_of_same: "same_source s0 s \<Longrightarrow> rows_of sl (sg_mtg s) = rows_of sl (sg_mtg s0)"
  by (rule ext) (simp add: rows_of_def process_folder_same)

lemma stages_append:
  "stages sl fs s s1 \<Longrightarrow> stages sl gs s1 s2 \<Longrightarrow> stages sl (fs @ gs) s s2"
  by (auto simp: stages_def rows_of_same dest: same_source_trans)

lemma load_chunk_stages:
  assumes "collect (map (process_folder sl (sg_mtg s)) chunk) ([], [], 0, 0) = (rows, d, ok, bad)"
    and "with_run sl (\<lambda>i. on_mtg (on_ops (repo_update_run i (Some ''running'') (Some ''bulk_load'') None None None))) s = (Inr (), s1)"
    and "copy_prices_mtgstock rows s1 = (Inr (), s2)"
    and "with_run sl (\<lambda>i. update_ids_master_dict i d) s2 = (Inr (), s3)"
    and "with_run sl (\<lambda>i. on_mtg (on_ops (repo_insert_batch_step i ''bulk_load'' b))) s3 = (Inr (), s4)"
  shows "stages sl chunk s s4"
proof -
  from assms(2) have s1: "same_tables s s1" by (rule with_run_same) (rule clock_kept_statements)
  from assms(5) have s4: "same_tables s3 s4" by (rule with_run_same) (rule clock_kept_statements)
  have rows: "rows = concat (map (rows_of sl (sg_mtg s)) chunk)"
    using collect_rows [of sl "sg_mtg s" chunk "[]" "[]" 0 0] assms(1) by simp
  have "\<forall>(k, v) \<in> set d. no_ids v"
    using collect_no_ids [of "[]" sl "sg_mtg s" chunk "[]" 0 0] assms(1) by simp
  from with_run_ids [OF assms(4) this] s1 s4 rows assms(3) show ?thesis
    by (auto simp: stages_def same_tables_def same_source_def copy_prices_mtgstock_def)
qed

lemma load_chunks_stages:
  "load_chunks sl cs seq first s = (Inr (), s') \<Longrightarrow> stages sl (concat cs) s s'"
proof (induction cs arbitrary: seq first s)
  case Nil
  then show ?case by (simp add: stages_def)
next
  case (Cons chunk cs)
  obtain rows d ok bad where c: "collect (map (process_folder sl (sg_mtg s)) chunk) ([], [], 0, 0) = (rows, d, ok, bad)"
    by (metis prod_cases4)
  show ?case
  proof (cases "ok = 0")
    case True
    with c have "rows = []" using collect_ok by blast
    then have "stages sl chunk s s"
      using collect_rows [of sl "sg_mtg s" chunk "[]" "[]" 0 0] c by (simp add: stages_def)
    moreover from c True Cons.prems Cons.IH have "stages sl (concat cs) s s'" by auto
    ultimately show ?thesis by (simp add: stages_append)
  next
    case False
    with c Cons.prems obtain s1 s2 s3 s4 where
      "with_run sl (\<lambda>i. on_mtg (on_ops (repo_update_run i (Some ''running'') (Some ''bulk_load'') None None None))) s = (Inr (), s1)"
      "copy_prices_mtgstock rows s1 = (Inr (), s2)"
      "with_run sl (\<lambda>i. update_ids_master_dict i d) s2 = (Inr (), s3)"
      "with_run sl (\<lambda>i. on_mtg (on_ops (repo_insert_batch_step i ''bulk_load''
          (stage_row sl seq first (first + length chunk) rows ok bad)))) s3 = (Inr (), s4)"
      and rest: "load_chunks sl cs (Suc seq) (first + length chunk) s4 = (Inr (), s')"
      by (auto simp: Let_def elim!: bindp_Inr)
    from load_chunk_stages [OF c this(1-4)] Cons.IH [OF rest] show ?thesis
      by (simp add: stages_append)
  qed
qed

lemma concat_chunks: "0 < n \<Longrightarrow> concat (chunks n xs) = xs"
  by (induction n xs rule: chunks.induct) auto

text \<open>
  C11. A bulk load that returns has replaced the raw table by the rows of the selected folders that could be
  read, in their order; and every id mapping it wrote has no Scryfall id and no multiverse id, although the
  folders may name them.
\<close>

theorem bulk_load_spec:
  assumes "bulk_load sl s = (Inr (), s')"
  shows "sg_raw s' = concat (map (rows_of sl (sg_mtg s)) (selected_folders sl (sg_mtg s))) \<and>
    (\<forall>r \<in> set (sg_ids s'). r \<in> set (sg_ids s) \<or> im_scryfall r = None \<and> im_multiverse r = None)"
proof -
  let ?fs = "selected_folders sl (sg_mtg s)" and ?s0 = "s\<lparr>sg_raw := []\<rparr>"
  from assms have "tracked (sl_run sl) ''bulk_load'' (sl_msg sl)
      (if sl_batch sl = 0 then throw ValueErr else load_chunks sl (chunks (sl_batch sl) ?fs) 1 0) ?s0 = (Inr (), s')"
    by (simp add: bulk_load_def Let_def bindp_def clear_raw_prices_def)
  then obtain s1 s2 where s1: "same_tables ?s0 s1" and s2: "same_tables s2 s'"
    and body: "(if sl_batch sl = 0 then throw ValueErr else load_chunks sl (chunks (sl_batch sl) ?fs) 1 0) s1 = (Inr (), s2)"
    by (rule tracked_body)
  from body have pos: "0 < sl_batch sl" and load: "load_chunks sl (chunks (sl_batch sl) ?fs) 1 0 s1 = (Inr (), s2)"
    by (auto split: if_splits)
  have "same_source s s1" using s1 by (simp add: same_tables_def same_source_def)
  with load_chunks_stages [OF load] s1 s2 show ?thesis
    by (auto simp: stages_def concat_chunks [OF pos] same_tables_def rows_of_same)
qed

definition demo_parse :: "string \<Rightarrow> json res" where
  "demo_parse b = Inr (JObj [(''id'', JInt 7), (''scryfallId'', JStr b), (''multiverse_ids'', JList [JInt 5]), (''tcg_id'', JInt 3)])"

definition demo_stage :: stage_load where
  "demo_stage =
     \<lparr>sl_parse = demo_parse, sl_reader = \<lambda>_. Inr [\<lparr>pt_date = 1, pt_low = None, pt_avg = Some 2, pt_foil = None,
        pt_market = None, pt_market_foil = None\<rparr>], sl_msg = \<lambda>_. [], sl_memory = \<lambda>_. 0, sl_elapsed = \<lambda>_. 0,
      sl_market = ''tcg'', sl_run = Some 1, sl_batch = 10, sl_start = None, sl_end = None, sl_filter = None\<rparr>"

definition demo_staging :: staging where
  "demo_staging =
     \<lparr>sg_mtg = \<lparr>ms_exists = True,
        ms_entries = [\<lparr>de_name = lit ''7'', de_is_dir = True,
                       de_files = [(''info.json'', ''uuid''), (''prices.tcg.parquet'', ''p'')]\<rparr>],
        ms_ids = Ids [7],
        ms_ops = snd (repo_start_run ''mtgstock_all'' ''mtgstocks'' ''k'' None None (empty_ops [(''mtgstocks'', 1)]))\<rparr>,
      sg_raw = [], sg_ids = [], sg_identifiers = [], sg_versions = []\<rparr>"

lemma demo_bulk_load:
  "fst (bulk_load demo_stage demo_staging) = Inr ()"
  "map (\<lambda>r. (im_run r, im_print r, im_tcg r)) (sg_ids (snd (bulk_load demo_stage demo_staging))) = [(1, 7, Some 3)]"
  "length (sg_raw (snd (bulk_load demo_stage demo_staging))) = 1"
  by code_simp+

theorem bulk_load_spec_witness:
  "\<exists>r s'. bulk_load demo_stage demo_staging = (Inr (), s') \<and> sg_ids s' = [r] \<and> im_print r = 7 \<and> im_scryfall r = None"
proof -
  obtain s' where s': "bulk_load demo_stage demo_staging = (Inr (), s')"
    using demo_bulk_load(1) by (metis prod.collapse)
  from demo_bulk_load(2) obtain r where r: "sg_ids s' = [r]" "im_print r = 7" by (auto simp: s')
  from bulk_load_spec [OF s'] r(1) have "im_scryfall r = None" by (simp add: demo_staging_def)
  with s' r show ?thesis by blast
qed

section \<open>What the id mapping writes\<close>

definition pk :: "ext_identifier \<Rightarrow> string \<times> string" where
  "pk r = (id_version r, id_kind r)"

text \<open>Rows are appended, at most \<open>n\<close> of them, and the primary key holds on.\<close>

definition extends :: "int \<Rightarrow> staging \<Rightarrow> staging \<Rightarrow> bool" where
  "extends n s s' \<longleftrightarrow> (\<exists>new. sg_identifiers s' = sg_identifiers s @ new \<and> int (length new) \<le> n) \<and>
     (distinct (map pk (sg_identifiers s)) \<longrightarrow> distinct (map pk (sg_identifiers s'))) \<and>
     sg_mtg s' = sg_mtg s \<and> sg_versions s' = sg_versions s"

lemma extends_refl [simp]: "0 \<le> n \<Longrightarrow> extends n s s"
  by (simp add: extends_def)

lemma extends_trans: "extends m a b \<Longrightarrow> extends n b c \<Longrightarrow> extends (m + n) a c"
  by (force simp: extends_def)

lemma add_mapping_cases:
  "add_mapping m rows = rows \<or>
   (\<exists>new. add_mapping m rows = rows @ [new] \<and> (distinct (map pk rows) \<longrightarrow> distinct (map pk (rows @ [new]))))"
  by (auto simp: add_mapping_def pk_def)

lemma fold_add_mapping:
  "\<exists>new. fold add_mapping ms rows = rows @ new \<and> length new \<le> length ms \<and>
     (distinct (map pk rows) \<longrightarrow> distinct (map pk (rows @ new)))"
proof (induction ms arbitrary: rows)
  case Nil
  then show ?case by simp
next
  case (Cons m ms)
  from Cons.IH [of "add_mapping m rows"] add_mapping_cases [of m rows] show ?case
    by (elim disjE exE conjE) (force, force)
qed

lemma map_batch_spec:
  assumes "map_batch info ids c s = (Inr c', s')"
  shows "fst c' + snd c' = fst c + snd c + int (length ids) \<and> extends (fst c' - fst c) s s' \<and> fst c \<le> fst c'"
proof -
  have len: "length (List.map_filter info ids) \<le> length ids"
    by (induction ids) (auto simp: List.map_filter_simps split: option.split)
  show ?thesis
  proof (cases "resolve_batch s (List.map_filter info ids) = []")
    case True
    with assms len show ?thesis by (auto simp: map_batch_def Let_def)
  next
    case False
    let ?ms = "map (\<lambda>(p, v). (v, p)) (resolve_batch s (List.map_filter info ids))"
    from False assms len have "s' = s\<lparr>sg_identifiers := fold add_mapping ?ms (sg_identifiers s)\<rparr>"
      and "fst c' = fst c + int (length ?ms)" and "fst c' + snd c' = fst c + snd c + int (length ids)"
      by (auto simp: map_batch_def Let_def upsert_mtgstock_id_mappings_def bindp_def)
    with fold_add_mapping [of ?ms "sg_identifiers s"] show ?thesis by (auto simp: extends_def)
  qed
qed

lemma map_batches_spec:
  "map_batches info bs c s = (Inr c', s') \<Longrightarrow>
   fst c' + snd c' = fst c + snd c + int (length (concat bs)) \<and> extends (fst c' - fst c) s s' \<and> fst c \<le> fst c'"
proof (induction bs arbitrary: c s)
  case Nil
  then show ?case by simp
next
  case (Cons b bs)
  from Cons.prems obtain c1 s1 where b: "map_batch info b c s = (Inr c1, s1)"
    and rest: "map_batches info bs c1 s1 = (Inr c', s')" by (auto elim: bindp_Inr)
  from map_batch_spec [OF b] Cons.IH [OF rest] extends_trans [of "fst c1 - fst c" s s1 "fst c' - fst c1" s']
  show ?case by simp
qed

text \<open>
  A mapping run that returns has counted every unmapped id once, as mapped or as unresolved; it only adds
  identifiers, keeps one per version and kind, and may add fewer than it reports as mapped.
\<close>

theorem mapping_counts:
  assumes "build_mtgstock_id_mapping info run msg batch s = (Inr (mapped, skipped, unresolved), s')"
    and "ms_ids (sg_mtg s) = Ids all" "get_existing_mapped_print_ids s = Inr existing"
    and "distinct (map pk (sg_identifiers s))"
  shows "mapped + unresolved = int (length (filter (\<lambda>i. i \<notin> set existing) all)) \<and>
    skipped = int (card (set existing)) \<and>
    (\<exists>new. sg_identifiers s' = sg_identifiers s @ new \<and> int (length new) \<le> mapped) \<and>
    distinct (map pk (sg_identifiers s'))"
proof -
  let ?un = "filter (\<lambda>i. i \<notin> set existing) all"
  from assms(1-3) have skipped: "skipped = int (card (set existing))"
    and step: "tracked run ''build_mtgstock_id_mapping'' msg
       (if batch = 0 then throw ValueErr else map_batches info (chunks batch ?un) (0, 0)) s = (Inr (mapped, unresolved), s')"
    by (auto simp: build_mtgstock_id_mapping_def Let_def elim!: bindp_Inr)
  from step obtain s1 s2 where s1: "same_tables s s1" and s2: "same_tables s2 s'"
    and body: "(if batch = 0 then throw ValueErr else map_batches info (chunks batch ?un) (0, 0)) s1 = (Inr (mapped, unresolved), s2)"
    by (rule tracked_body)
  from body have pos: "0 < batch" and run: "map_batches info (chunks batch ?un) (0, 0) s1 = (Inr (mapped, unresolved), s2)"
    by (auto split: if_splits)
  from map_batches_spec [OF run] s1 s2 assms(4) skipped show ?thesis
    by (auto simp: concat_chunks [OF pos] same_tables_def extends_def)
qed

definition demo_catalog :: staging where
  "demo_catalog = demo_staging\<lparr>sg_mtg := (sg_mtg demo_staging)\<lparr>ms_ids := Ids [7, 8]\<rparr>,
     sg_identifiers := [\<lparr>id_version = ''v'', id_kind = ''scryfall_id'', id_value = ''u''\<rparr>,
                        \<lparr>id_version = ''v'', id_kind = ''tcgplayer_id'', id_value = ''3''\<rparr>]\<rparr>"

definition demo_info :: "int \<Rightarrow> print_info option" where
  "demo_info p =
     Some (if p = 7 then \<lparr>pi_print = 7, pi_scryfall = ''u'', pi_tcg = [], pi_set = [], pi_number = []\<rparr>
           else \<lparr>pi_print = p, pi_scryfall = [], pi_tcg = ''3'', pi_set = [], pi_number = []\<rparr>)"

lemma demo_mapping:
  "fst (build_mtgstock_id_mapping demo_info None (\<lambda>_. []) 10 demo_catalog) = Inr (2, 0, 0)"
  "length (sg_identifiers (snd (build_mtgstock_id_mapping demo_info None (\<lambda>_. []) 10 demo_catalog))) = 3"
  "get_existing_mapped_print_ids demo_catalog = Inr []"
  "distinct (map pk (sg_identifiers demo_catalog))"
  "ms_ids (sg_mtg demo_catalog) = Ids [7, 8]"
  by code_simp+

text \<open>Two prints of one version: both count as mapped, one is written.\<close>

theorem mapping_counts_witness:
  "\<exists>m u s'. build_mtgstock_id_mapping demo_info None (\<lambda>_. []) 10 demo_catalog = (Inr (m, 0, u), s') \<and>
     m + u = 2 \<and> m = 2 \<and> length (sg_identifiers s') = length (sg_identifiers demo_catalog) + 1"
proof -
  obtain s' where s': "build_mtgstock_id_mapping demo_info None (\<lambda>_. []) 10 demo_catalog = (Inr (2, 0, 0), s')"
    using demo_mapping(1) by (metis prod.collapse)
  from mapping_counts [OF s' demo_mapping(5,3,4)] s' demo_mapping(2) show ?thesis
    by (simp add: demo_catalog_def)
qed

end
