(* ===== verification/Card_Types.thy ===== *)
theory Card_Types
  imports Regex
begin

text \<open>
  The type line of a card: the parser of \<open>utils/type_parser.py\<close>, the faces of a card
  (\<open>utils/card_face_parser.py\<close>) and the way \<open>CreateCard\<close> and \<open>CardFace\<close> of \<open>models/card_catalog/card.py\<close> fill
  their types. Unicode's NFKC normalisation is the parameter \<open>nfkc\<close>.
\<close>

section \<open>The parser\<close>

definition super_types :: "ustr list" where
  "super_types = map lit [''Basic'', ''Elite'', ''Host'', ''Legendary'', ''Ongoing'', ''Snow'', ''World'']"

definition obsolete_map :: "(ustr, ustr) dict" where
  "obsolete_map =
     [(lit ''Continuous Artifact'', lit ''Artifact''), (lit ''Interrupt'', lit ''Instant''),
      (lit ''Local Enchantment'', lit ''Enchantment''), (lit ''Mana Source'', lit ''Instant''),
      (lit ''Mono Artifact'', lit ''Artifact''), (lit ''Poly Artifact'', lit ''Artifact''), (lit ''Summon'', lit ''Creature'')]"

definition card_types :: "ustr list" where
  "card_types = map lit
     [''Artifact'', ''Creature'', ''Enchantment'', ''Instant'', ''Land'', ''Planeswalker'', ''Sorcery'', ''Kindred'',
      ''Dungeon'', ''Battle'', ''Plane'', ''Phenomenon'', ''Vanguard'', ''Scheme'', ''Conspiracy'', ''Emblem'', ''Token'']"

text \<open>The em dash, the en dash and the hyphen; the punctuation that is dropped.\<close>

definition is_dash :: "nat \<Rightarrow> bool" where
  "is_dash c \<longleftrightarrow> c = 8212 \<or> c = 8211 \<or> c = 45"

lemma is_dash_code [code]:
  "is_dash c \<longleftrightarrow> (if c < 128 then c = 45 else c = 8212 \<or> c = 8211)"
  by (auto simp: is_dash_def)

definition type_punct :: "nat \<Rightarrow> bool" where
  "type_punct c \<longleftrightarrow> c \<in> {46, 44, 40, 41, 123, 125, 91, 93, 34, 39, 59, 58}"

definition dash_rx :: rx where
  "dash_rx = seqs [Star space_cp, Cls is_dash, Star space_cp]"

definition normalize :: "(ustr \<Rightarrow> ustr) \<Rightarrow> ustr \<Rightarrow> ustr" where
  "normalize nfkc t = strip (re_sub (Cls type_punct) (\<lambda>_. []) (nfkc t))"

text \<open>\<open>DASH_RE.split(s, maxsplit=1)\<close>.\<close>

definition dash_split :: "ustr \<Rightarrow> ustr \<times> ustr option" where
  "dash_split s = (case search dash_rx s of None \<Rightarrow> (s, None) | Some (i, j) \<Rightarrow> (take i s, Some (drop j s)))"

record type_line =
  tl_super :: "ustr list"
  tl_types :: "ustr list"
  tl_sub :: "ustr list"

fun main_token :: "ustr \<Rightarrow> ustr list \<times> ustr list \<Rightarrow> ustr list \<times> ustr list" where
  "main_token tok (sups, tys) =
     (if tok \<in> set super_types then (sups @ [tok], tys)
      else if tok \<in> set card_types then (sups, tys @ [tok])
      else (case dget obsolete_map tok of Some t \<Rightarrow> (sups, tys @ [t]) | None \<Rightarrow> (sups, tys)))"

definition process_type_line :: "(ustr \<Rightarrow> ustr) \<Rightarrow> ustr \<Rightarrow> type_line" where
  "process_type_line nfkc raw =
     (let line = normalize nfkc raw; (main_part, sub_part) = dash_split line
      in case dget obsolete_map line of
           Some t \<Rightarrow> \<lparr>tl_super = [], tl_types = [t], tl_sub = []\<rparr>
         | None \<Rightarrow>
             (let (sups, tys) = fold main_token (words_of main_part) ([], [])
              in \<lparr>tl_super = sups, tl_types = tys,
                  tl_sub = (case sub_part of
                              None \<Rightarrow> []
                            | Some p \<Rightarrow> if p = [] then [] else words_of (normalize nfkc p))\<rparr>))"

section \<open>Cards and their faces\<close>

text \<open>\<open>parse_card_faces\<close> numbers the faces from 0.\<close>

record 'f face =
  fc_index :: nat
  fc_line :: "ustr option"
  fc_more :: 'f

definition parse_card_faces :: "'f face list \<Rightarrow> 'f face list" where
  "parse_card_faces fs = map (\<lambda>(i, f). f\<lparr>fc_index := i\<rparr>) (enumerate 0 fs)"

definition empty_line :: type_line where
  "empty_line = \<lparr>tl_super = [], tl_types = [], tl_sub = []\<rparr>"

definition is_given :: "ustr option \<Rightarrow> bool" where
  "is_given x \<longleftrightarrow> x \<noteq> None \<and> x \<noteq> Some []"

text \<open>\<open>CardFace.process_type_line\<close> keeps the lists of the caller, here the defaults, without a type line.\<close>

definition face_type_line :: "(ustr \<Rightarrow> ustr) \<Rightarrow> 'f face \<Rightarrow> type_line" where
  "face_type_line nfkc f = (if is_given (fc_line f) then process_type_line nfkc (the (fc_line f)) else empty_line)"

definition stopwords :: "ustr list" where
  "stopwords = map lit
     [''of'', ''and'', ''or'', ''the'', ''a'', ''an'', ''in'', ''on'', ''at'', ''to'', ''for'', ''with'']"

definition drop_stopwords :: "ustr list \<Rightarrow> ustr list" where
  "drop_stopwords ts = filter (\<lambda>t. lower t \<notin> set stopwords) ts"

text \<open>\<open>s.split('//')[0]\<close>.\<close>

fun before_slashes :: "ustr \<Rightarrow> ustr" where
  "before_slashes [] = []"
| "before_slashes (c # cs) = (if prefix [47, 47] (c # cs) then [] else c # before_slashes cs)"

definition front_line :: "ustr \<Rightarrow> ustr" where
  "front_line l = (if sublist [47, 47] l then strip (before_slashes l) else l)"

definition create_card_types :: "(ustr \<Rightarrow> ustr) \<Rightarrow> ustr option \<Rightarrow> 'f face list \<Rightarrow> type_line" where
  "create_card_types nfkc line faces =
     (let tl = (if is_given line then line else case faces of [] \<Rightarrow> line | f # _ \<Rightarrow> fc_line f)
      in if \<not> is_given tl then empty_line
         else let parsed = process_type_line nfkc (front_line (the tl))
              in \<lparr>tl_super = drop_stopwords (tl_super parsed), tl_types = drop_stopwords (tl_types parsed),
                  tl_sub = drop_stopwords (tl_sub parsed)\<rparr>)"

section \<open>Every type is known\<close>

lemma obsolete_known: "dget obsolete_map w = Some t \<Longrightarrow> t \<in> set card_types"
  by (auto simp: obsolete_map_def card_types_def split: if_splits)

text \<open>What the parser may hold: known super types and card types.\<close>

definition known :: "ustr list \<times> ustr list \<Rightarrow> bool" where
  "known p \<longleftrightarrow> set (fst p) \<subseteq> set super_types \<and> set (snd p) \<subseteq> set card_types"

lemma known_token: "known p \<Longrightarrow> known (main_token w p)"
  by (cases p) (auto simp: known_def dest: obsolete_known split: option.split)

lemma known_tokens: "known p \<Longrightarrow> known (fold main_token ws p)"
  by (induction ws arbitrary: p) (simp_all add: known_token)

lemma normalize_no_punct: "c \<in> set (normalize nfkc t) \<Longrightarrow> \<not> type_punct c"
  by (auto simp: normalize_def re_sub_Cls strip_def dest!: set_dropWhileD)

lemma words_acc_subset: "w \<in> set (words_acc acc s) \<Longrightarrow> set w \<subseteq> set acc \<union> set s"
proof (induction s arbitrary: acc)
  case (Cons c cs)
  from Cons.prems Cons.IH [of "[]"] Cons.IH [of "c # acc"] show ?case by (auto split: if_splits)
qed (simp split: if_splits)

lemma words_of_subset: "w \<in> set (words_of s) \<Longrightarrow> set w \<subseteq> set s"
  using words_acc_subset [of w "[]" s] by (simp add: words_of_def)

definition subtype_word :: "ustr \<Rightarrow> bool" where
  "subtype_word w \<longleftrightarrow> w \<noteq> [] \<and> (\<forall>c \<in> set w. \<not> is_space c \<and> \<not> type_punct c)"

definition well_typed_line :: "type_line \<Rightarrow> bool" where
  "well_typed_line t \<longleftrightarrow> set (tl_super t) \<subseteq> set super_types \<and> set (tl_types t) \<subseteq> set card_types \<and>
     (\<forall>w \<in> set (tl_sub t). subtype_word w)"

lemma subtype_words: "w \<in> set (words_of (normalize nfkc p)) \<Longrightarrow> subtype_word w"
  using words_of_wf [of w] words_of_subset [of w] normalize_no_punct [of _ nfkc p] unfolding subtype_word_def by blast

lemma process_type_line_typed: "well_typed_line (process_type_line nfkc raw)"
proof -
  obtain main_part sub_part where split: "dash_split (normalize nfkc raw) = (main_part, sub_part)" by fastforce
  obtain sups tys where toks: "fold main_token (words_of main_part) ([], []) = (sups, tys)" by fastforce
  have "known (sups, tys)" using known_tokens [of "([], [])" "words_of main_part"] toks by (simp add: known_def)
  then show ?thesis
    by (auto simp: process_type_line_def Let_def split toks known_def well_typed_line_def
        dest: obsolete_known subtype_words split: option.split if_splits)
qed

lemma well_typed_drop:
  "well_typed_line t \<Longrightarrow>
   well_typed_line \<lparr>tl_super = drop_stopwords (tl_super t), tl_types = drop_stopwords (tl_types t), tl_sub = drop_stopwords (tl_sub t)\<rparr>"
  by (auto simp: well_typed_line_def drop_stopwords_def)

text \<open>
  C16. Whatever the type line of a card and of its faces say, the card gets known super types and known card types
  only, and subtypes that are single words without punctuation, none of them a stop word.
\<close>

theorem create_card_types_typed:
  "well_typed_line (create_card_types nfkc line faces) \<and>
   list_all (\<lambda>w. lower w \<notin> set stopwords) (tl_sub (create_card_types nfkc line faces))"
  by (simp add: create_card_types_def Let_def well_typed_drop process_type_line_typed)
    (simp add: well_typed_line_def empty_line_def drop_stopwords_def list_all_iff)

section \<open>Printing a type line and reading it back\<close>

definition type_text :: "type_line \<Rightarrow> ustr" where
  "type_text t =
     join [32] (tl_super t @ tl_types t) @ (if tl_sub t = [] then [] else [32, 8212, 32] @ join [32] (tl_sub t))"

definition spaceless :: "ustr \<Rightarrow> bool" where
  "spaceless w \<longleftrightarrow> w \<noteq> [] \<and> (\<forall>c \<in> set w. \<not> is_space c)"

lemma is_space_32 [simp]: "is_space 32"
  by (simp add: is_space_def)

lemma words_acc_word: "\<forall>c \<in> set w. \<not> is_space c \<Longrightarrow> words_acc acc (w @ s) = words_acc (rev w @ acc) s"
  by (induction w arbitrary: acc) auto

lemma words_of_join: "\<forall>w \<in> set ws. spaceless w \<Longrightarrow> words_of (join [32] ws) = ws"
proof (induction ws)
  case (Cons w ws)
  then have w: "w \<noteq> []" "\<forall>c \<in> set w. \<not> is_space c" by (auto simp: spaceless_def)
  show ?case
  proof (cases "ws = []")
    case True
    with w words_acc_word [of w "[]" "[]"] show ?thesis by (simp add: words_of_def)
  next
    case False
    have "words_of (join [32] (w # ws)) = words_acc [] (w @ 32 # join [32] ws)"
      using False by (simp add: words_of_def join_Cons)
    also have "\<dots> = w # words_of (join [32] ws)"
      using w by (simp add: words_acc_word words_of_def)
    finally show ?thesis using Cons by simp
  qed
qed (simp add: words_of_def)

lemma join_ends:
  assumes "ws \<noteq> []" "\<forall>w \<in> set ws. spaceless w"
  shows "join [32] ws \<noteq> [] \<and> \<not> is_space (hd (join [32] ws)) \<and> \<not> is_space (last (join [32] ws))"
  using assms
proof (induction ws)
  case (Cons w ws)
  from Cons.prems have w: "w \<noteq> []" "\<not> is_space (hd w)" "\<not> is_space (last w)"
    by (auto simp: spaceless_def)
  with Cons show ?case by (cases "ws = []") (auto simp: join_Cons)
qed simp

lemma strip_trimmed:
  assumes "s \<noteq> [] \<longrightarrow> \<not> is_space (hd s) \<and> \<not> is_space (last s)"
  shows "strip s = s"
proof (cases "s = []")
  case False
  with assms have "dropWhile is_space s = s" by (cases s) auto
  moreover have "dropWhile is_space (rev s) = rev s"
    using assms False by (cases "rev s") (auto simp: hd_rev [symmetric])
  ultimately show ?thesis by (simp add: strip_def)
qed (simp add: strip_def)

lemma set_join: "set (join [32] ws) \<subseteq> insert 32 (\<Union> (set ` set ws))"
  by (induction ws) (auto simp: join_Cons)

text \<open>The spaces at a position of a text: the star of spaces ends where only spaces were passed.\<close>

lemma star_space_passed:
  "j \<in> set (rm (Star space_cp) s i) \<Longrightarrow> i \<le> j \<and> (\<forall>k. i \<le> k \<and> k < j \<longrightarrow> k < length s \<and> is_space (s ! k))"
proof (induction "length s - i" arbitrary: i rule: less_induct)
  case less
  from less.prems consider "j = i" | "i < length s" "is_space (s ! i)" "j \<in> set (rm (Star space_cp) s (Suc i))"
    unfolding rm_Star_iff [of j space_cp s i] by (auto simp: space_cp_def split: if_splits)
  then show ?case
  proof cases
    case 2
    then have "Suc i \<le> j \<and> (\<forall>k. Suc i \<le> k \<and> k < j \<longrightarrow> k < length s \<and> is_space (s ! k))"
      by (intro less.hyps) auto
    with 2 show ?thesis by (metis Suc_leD le_neq_implies_less Suc_le_eq)
  qed auto
qed

lemma no_dash_rx:
  assumes "\<And>j. j \<in> set (rm (Star space_cp) s i) \<Longrightarrow> rm (Cls is_dash) s j = []"
  shows "rm dash_rx s i = []"
proof -
  have "rm dash_rx s i = concat (map (\<lambda>j. concat (map (rm (seqs [Star space_cp]) s) (rm (Cls is_dash) s j))) (rm (Star space_cp) s i))"
    unfolding dash_rx_def seqs.simps(2) [of "Star space_cp" "[Cls is_dash, Star space_cp]"]
      seqs.simps(2) [of "Cls is_dash" "[Star space_cp]"] rm.simps(3) ..
  then show ?thesis using assms by simp
qed

lemma no_dash_match:
  assumes "i < length m" "\<not> is_space (last m)" "\<forall>c \<in> set m. \<not> is_dash c"
  shows "rm dash_rx (m @ q) i = []"
proof -
  have "rm (Cls is_dash) (m @ q) j = []" if "j \<in> set (rm (Star space_cp) (m @ q) i)" for j
  proof -
    have "j < length m"
    proof (rule ccontr)
      assume "\<not> j < length m"
      with assms(1) have m: "m \<noteq> []" by auto
      from \<open>\<not> j < length m\<close> assms(1) have "i \<le> length m - 1" "length m - 1 < j" by (simp_all add: not_less)
      then have "is_space ((m @ q) ! (length m - 1))"
        using star_space_passed [OF that, THEN conjunct2, rule_format, of "length m - 1"] by blast
      with m assms(2) show False by (simp add: nth_append last_conv_nth)
    qed
    then have "(m @ q) ! j \<in> set m" by (simp add: nth_append)
    with assms(3) show ?thesis by auto
  qed
  then show ?thesis by (rule no_dash_rx)
qed

lemma dash_match:
  assumes "q \<noteq> []" "\<not> is_space (hd q)"
  shows "hd (rm dash_rx (m @ 32 # 8212 # 32 # q) (length m)) = length m + 3 \<and>
    rm dash_rx (m @ 32 # 8212 # 32 # q) (length m) \<noteq> []"
proof -
  let ?s = "m @ 32 # 8212 # 32 # q"
  obtain c cs where q: "q = c # cs" "\<not> is_space c" using assms by (cases q) auto
  have nth: "?s ! length m = 32" "?s ! Suc (length m) = 8212" "?s ! Suc (Suc (length m)) = 32"
    "?s ! Suc (Suc (Suc (length m))) = c"
    by (simp_all add: nth_append q)
  have "\<not> is_space 8212" by (simp add: is_space_def)
  then have 1: "rm (Star space_cp) ?s (Suc (length m)) = [Suc (length m)]"
    by (subst rm.simps(5)) (simp add: space_cp_def nth)
  have 2: "rm (Star space_cp) ?s (length m) = [Suc (length m), length m]"
    by (subst rm.simps(5)) (simp add: 1, simp add: space_cp_def nth 1 [unfolded space_cp_def])
  have 3: "rm (Star space_cp) ?s (Suc (Suc (Suc (length m)))) = [Suc (Suc (Suc (length m)))]"
    by (subst rm.simps(5)) (simp add: space_cp_def nth q(2))
  have 4: "rm (Star space_cp) ?s (Suc (Suc (length m))) = [Suc (Suc (Suc (length m))), Suc (Suc (length m))]"
    by (subst rm.simps(5)) (simp add: space_cp_def nth 3 [unfolded space_cp_def])
  show ?thesis
    by (simp add: dash_rx_def 2 4 nth is_dash_def)
qed

lemma dash_split_text:
  assumes "m \<noteq> []" "\<not> is_space (last m)" "\<forall>c \<in> set m. \<not> is_dash c" "q \<noteq> []" "\<not> is_space (hd q)"
  shows "dash_split (m @ 32 # 8212 # 32 # q) = (m, Some q)"
proof -
  let ?s = "m @ 32 # 8212 # 32 # q"
  have "find (\<lambda>i. rm dash_rx ?s i \<noteq> []) [0..<Suc (length ?s)] = Some (length m)"
    unfolding find_Some_iff
    using dash_match [OF assms(4,5), of m] no_dash_match [OF _ assms(2,3)]
    by (intro exI [of _ "length m"]) (auto simp del: upt_Suc)
  then have "search dash_rx ?s = Some (length m, length m + 3)"
    using dash_match [OF assms(4,5), of m] by (simp add: search_def)
  then show ?thesis by (simp add: dash_split_def)
qed

lemma dash_split_none:
  assumes "m \<noteq> [] \<longrightarrow> \<not> is_space (last m)" "\<forall>c \<in> set m. \<not> is_dash c"
  shows "dash_split m = (m, None)"
proof -
  have "rm dash_rx m i = []" if "i \<le> length m" for i
  proof (cases "i < length m")
    case True
    with assms show ?thesis using no_dash_match [of i m "[]"] by fastforce
  next
    case False
    then have "rm (Cls is_dash) m j = []" if "j \<in> set (rm (Star space_cp) m i)" for j
      using star_space_passed [OF that] by simp
    then show ?thesis by (rule no_dash_rx)
  qed
  then have "search dash_rx m = None" unfolding search_None_iff by blast
  then show ?thesis by (simp add: dash_split_def)
qed

definition parts_ok :: "type_line \<Rightarrow> bool" where
  "parts_ok t \<longleftrightarrow> set (tl_super t) \<subseteq> set super_types \<and> set (tl_types t) \<subseteq> set card_types \<and> tl_types t \<noteq> [] \<and>
     list_all subtype_word (tl_sub t)"

lemma known_words:
  "w \<in> set super_types \<union> set card_types \<Longrightarrow> spaceless w \<and> list_all (\<lambda>c. \<not> is_dash c \<and> \<not> type_punct c) w"
proof -
  have "list_all (\<lambda>w. spaceless w \<and> list_all (\<lambda>c. \<not> is_dash c \<and> \<not> type_punct c) w) (super_types @ card_types)"
    by code_simp
  then show "w \<in> set super_types \<union> set card_types \<Longrightarrow> spaceless w \<and> list_all (\<lambda>c. \<not> is_dash c \<and> \<not> type_punct c) w"
    by (auto simp: list_all_iff)
qed

lemma disjoint_types: "w \<in> set card_types \<Longrightarrow> w \<notin> set super_types"
proof -
  have "list_all (\<lambda>w. w \<notin> set super_types) card_types" by code_simp
  then show "w \<in> set card_types \<Longrightarrow> w \<notin> set super_types" by (auto simp: list_all_iff)
qed

lemma obsolete_unknown_word:
  "dget obsolete_map l \<noteq> None \<Longrightarrow> \<exists>w \<in> set (words_of l). w \<notin> set super_types \<union> set card_types"
proof -
  have "list_all (\<lambda>l. list_ex (\<lambda>w. w \<notin> set super_types \<union> set card_types) (words_of l)) (dkeys obsolete_map)"
    by code_simp
  then show "dget obsolete_map l \<noteq> None \<Longrightarrow> \<exists>w \<in> set (words_of l). w \<notin> set super_types \<union> set card_types"
    by (fastforce simp: list_all_iff list_ex_iff dest: map_of_SomeD)
qed

lemma fold_super: "set ws \<subseteq> set super_types \<Longrightarrow> fold main_token ws (sups, tys) = (sups @ ws, tys)"
  by (induction ws arbitrary: sups) auto

lemma fold_types: "set ws \<subseteq> set card_types \<Longrightarrow> fold main_token ws (sups, tys) = (sups, tys @ ws)"
  by (induction ws arbitrary: tys) (auto simp: disjoint_types)

lemma normalize_clean:
  assumes "nfkc s = s" "\<forall>c \<in> set s. \<not> type_punct c" "s \<noteq> []" "\<not> is_space (hd s)" "\<not> is_space (last s)"
  shows "normalize nfkc s = s"
  using assms by (simp add: normalize_def re_sub_Cls filter_id_conv strip_trimmed)

lemma type_text_main:
  assumes "parts_ok t"
  defines "m \<equiv> join [32] (tl_super t @ tl_types t)"
  shows "m \<noteq> []" "\<not> is_space (hd m)" "\<not> is_space (last m)" "\<forall>c \<in> set m. \<not> is_dash c \<and> \<not> type_punct c"
    "words_of m = tl_super t @ tl_types t"
proof -
  have ws: "\<forall>w \<in> set (tl_super t @ tl_types t). spaceless w \<and> list_all (\<lambda>c. \<not> is_dash c \<and> \<not> type_punct c) w"
    using assms(1) known_words by (auto simp: parts_ok_def)
  then show "words_of m = tl_super t @ tl_types t" unfolding m_def by (intro words_of_join) blast
  have "tl_super t @ tl_types t \<noteq> []" using assms(1) by (simp add: parts_ok_def)
  with ws show "m \<noteq> []" "\<not> is_space (hd m)" "\<not> is_space (last m)"
    using join_ends [of "tl_super t @ tl_types t"] unfolding m_def by blast+
  have "\<not> is_dash 32 \<and> \<not> type_punct 32" by (simp add: is_dash_def type_punct_def)
  with ws show "\<forall>c \<in> set m. \<not> is_dash c \<and> \<not> type_punct c"
    using set_join [of "tl_super t @ tl_types t"] unfolding m_def list_all_iff by blast
qed

lemma subtype_text:
  assumes "parts_ok t" "tl_sub t \<noteq> []"
  defines "q \<equiv> join [32] (tl_sub t)"
  shows "q \<noteq> []" "\<not> is_space (hd q)" "\<not> is_space (last q)" "\<forall>c \<in> set q. \<not> type_punct c" "words_of q = tl_sub t"
proof -
  have ws: "\<forall>w \<in> set (tl_sub t). spaceless w \<and> (\<forall>c \<in> set w. \<not> type_punct c)"
    using assms(1) by (auto simp: parts_ok_def list_all_iff subtype_word_def spaceless_def)
  then show "words_of q = tl_sub t" unfolding q_def by (intro words_of_join) blast
  from ws show "q \<noteq> []" "\<not> is_space (hd q)" "\<not> is_space (last q)"
    using join_ends [OF assms(2)] unfolding q_def by blast+
  have "\<not> type_punct 32" by (simp add: type_punct_def)
  with ws show "\<forall>c \<in> set q. \<not> type_punct c" using set_join [of "tl_sub t"] unfolding q_def by blast
qed

lemma obsolete_dash: "8212 \<in> set l \<Longrightarrow> dget obsolete_map l = None"
proof -
  have "list_all (\<lambda>l. list_all (\<lambda>c. c < 128) l) (dkeys obsolete_map)" by code_simp
  then show "8212 \<in> set l \<Longrightarrow> dget obsolete_map l = None"
    by (fastforce simp: list_all_iff map_of_eq_None_iff)
qed

text \<open>
  C17. A type line printed from known super types, known card types and clean subtypes is read back as these, provided
  that the Unicode normalisation leaves the line alone.
\<close>

theorem type_line_roundtrip:
  assumes "parts_ok t" "nfkc (type_text t) = type_text t" "nfkc (join [32] (tl_sub t)) = join [32] (tl_sub t)"
  shows "process_type_line nfkc (type_text t) = t"
proof -
  let ?m = "join [32] (tl_super t @ tl_types t)" and ?q = "join [32] (tl_sub t)"
  note m = type_text_main [OF assms(1)]
  have known: "set (tl_super t) \<subseteq> set super_types" "set (tl_types t) \<subseteq> set card_types"
    using assms(1) by (simp_all add: parts_ok_def)
  then have toks: "fold main_token (words_of ?m) ([], []) = (tl_super t, tl_types t)"
    by (simp add: m(5) fold_super fold_types)
  show ?thesis
  proof (cases "tl_sub t = []")
    case True
    then have printed: "type_text t = ?m" by (simp add: type_text_def)
    have norm: "normalize nfkc ?m = ?m" using assms(2) m printed by (intro normalize_clean) auto
    have "dash_split ?m = (?m, None)" using m by (intro dash_split_none) auto
    moreover have "dget obsolete_map ?m = None"
    proof (rule ccontr)
      assume "dget obsolete_map ?m \<noteq> None"
      from obsolete_unknown_word [OF this] known m(5) show False by auto
    qed
    ultimately show ?thesis
      using True by (simp add: process_type_line_def printed norm toks Let_def)
  next
    case False
    note q = subtype_text [OF assms(1) False]
    have printed: "type_text t = ?m @ 32 # 8212 # 32 # ?q" using False by (simp add: type_text_def)
    have "\<not> type_punct 32" "\<not> type_punct 8212" by (simp_all add: type_punct_def)
    then have "normalize nfkc (type_text t) = type_text t"
      using assms(2) m q unfolding printed by (intro normalize_clean) (auto simp: printed)
    then have norm: "normalize nfkc (?m @ 32 # 8212 # 32 # ?q) = ?m @ 32 # 8212 # 32 # ?q" by (simp add: printed)
    have norm_q: "normalize nfkc ?q = ?q" using assms(3) q by (intro normalize_clean) auto
    have "dash_split (?m @ 32 # 8212 # 32 # ?q) = (?m, Some ?q)" using m q by (intro dash_split_text) auto
    moreover have "dget obsolete_map (?m @ 32 # 8212 # 32 # ?q) = None" by (rule obsolete_dash) simp
    ultimately show ?thesis
      using q(1,5) by (simp add: process_type_line_def printed norm norm_q toks Let_def)
  qed
qed

definition demo_line :: type_line where
  "demo_line = \<lparr>tl_super = [lit ''Legendary''], tl_types = [lit ''Artifact'', lit ''Creature''], tl_sub = [lit ''Power-Plant'']\<rparr>"

theorem type_line_roundtrip_witness:
  "process_type_line id (type_text demo_line) = demo_line"
proof (rule type_line_roundtrip)
  show "parts_ok demo_line" by code_simp
qed simp_all

end
