(* ===== verification/Card_Import.thy ===== *)
theory Card_Import
  imports Ops_Runs
begin

text \<open>
  The import of the Scryfall bulk file: \<open>EnhancedCardImportService\<close> and the service
  \<open>card_catalog.card.process_large_json\<close> of \<open>card_catalog/card_service.py\<close>, with
  \<open>CardReferenceRepository.add_many\<close>.

  The body of a card is the type \<open>'b\<close>, the database the type \<open>'d\<close>. The validation by pydantic and the stored
  procedure \<open>insert_batch_card_versions\<close> are parameters, the fields \<open>cf_validate\<close> and \<open>cf_insert\<close> of the
  configuration. The text of an exception is a parameter too; log lines and times are dropped.
\<close>

section \<open>Data\<close>

text \<open>\<open>CreateCard\<close>, as far as the import looks into it, and a row of the stored procedure.\<close>

record 'b import_card =
  ic_body :: 'b
  ic_finishes :: "string list"

record card_batch_row =
  br_total :: nat
  br_ok :: nat
  br_failed :: nat
  br_errors :: "string list option"

record batch_response =
  rs_total :: nat
  rs_ok :: nat
  rs_failed :: nat
  rs_errors :: "string list"

text \<open>\<open>ProcessingStats\<close> without its times.\<close>

record import_stats =
  st_total :: nat
  st_ok :: nat
  st_failed :: nat
  st_batches :: nat
  st_errors :: nat
  st_skipped :: nat

definition new_stats :: import_stats where
  "new_stats = \<lparr>st_total = 0, st_ok = 0, st_failed = 0, st_batches = 0, st_errors = 0, st_skipped = 0\<rparr>"

definition stats_success_rate :: "import_stats \<Rightarrow> rat" where
  "stats_success_rate st = (if st_total st > 0 then of_nat (st_ok st) / of_nat (st_total st) * 100 else 0)"

definition response_success_rate :: "batch_response \<Rightarrow> rat" where
  "response_success_rate r = (if rs_total r > 0 then of_nat (rs_ok r) / of_nat (rs_total r) * 100 else 0)"

text \<open>Entries of the file of failed cards: a card that raised, or an error line of a batch.\<close>

datatype failure =
    Failed_Card nat "(string \<times> json) list" string
  | Failed_Insert nat string

record 'b failed_batch =
  fb_number :: nat
  fb_error :: string
  fb_cards :: "'b import_card list"

text \<open>The errors storage: absent, or there with its files; \<open>es_ok\<close> says whether it can be written.\<close>

record 'b errors_store =
  es_ok :: bool
  es_lines :: "failure list"
  es_batches :: "'b failed_batch list"

record ('b, 'd) importer =
  im_db :: 'd
  im_stats :: import_stats
  im_failed :: "failure list"
  im_errors :: "'b errors_store option"

record ('b, 'd) import_conf =
  cf_validate :: "(string \<times> json) list \<Rightarrow> 'b import_card res"
  cf_insert :: "'b import_card list \<Rightarrow> ('d, card_batch_row option) prog"
  cf_message :: "pyexc \<Rightarrow> string"
  cf_batch_size :: nat
  cf_max_retries :: nat
  cf_skip_errors :: bool

type_synonym ('b, 'd, 'a) imp = "(('b, 'd) importer, 'a) prog"

definition on_stats :: "(import_stats \<Rightarrow> import_stats) \<Rightarrow> ('b, 'd) importer \<Rightarrow> ('b, 'd) importer" where
  "on_stats f w = w\<lparr>im_stats := f (im_stats w)\<rparr>"

section \<open>Batches\<close>

text \<open>\<open>add_many\<close>: no row gives the empty response; a missing list of errors is empty.\<close>

definition add_many :: "('b, 'd) import_conf \<Rightarrow> 'b import_card list \<Rightarrow> ('d, batch_response) prog" where
  "add_many cf cards =
     bindp (cf_insert cf cards) (\<lambda>row. ret
       (case row of
          None \<Rightarrow> \<lparr>rs_total = 0, rs_ok = 0, rs_failed = 0, rs_errors = []\<rparr>
        | Some r \<Rightarrow> \<lparr>rs_total = br_total r, rs_ok = br_ok r, rs_failed = br_failed r,
                     rs_errors = (case br_errors r of None \<Rightarrow> [] | Some es \<Rightarrow> es)\<rparr>))"

definition save_failed_cards :: "('b, 'd, unit) imp" where
  "save_failed_cards w =
     (case im_errors w of
        None \<Rightarrow> (Inr (), w)
      | Some es \<Rightarrow>
          if im_failed w = [] \<or> \<not> es_ok es then (Inr (), w)
          else (Inr (), w\<lparr>im_errors := Some (es\<lparr>es_lines := es_lines es @ im_failed w\<rparr>), im_failed := []\<rparr>))"

definition save_failed_batch :: "'b import_card list \<Rightarrow> nat \<Rightarrow> string \<Rightarrow> ('b, 'd, unit) imp" where
  "save_failed_batch batch n err w =
     (case im_errors w of
        None \<Rightarrow> (Inr (), w)
      | Some es \<Rightarrow>
          if \<not> es_ok es then (Inr (), w)
          else (Inr (), w\<lparr>im_errors := Some (es\<lparr>es_batches := es_batches es @
                  [\<lparr>fb_number = n, fb_error = err, fb_cards = batch\<rparr>]\<rparr>)\<rparr>))"

text \<open>The bookkeeping of a batch that was answered.\<close>

definition count_batch :: "nat \<Rightarrow> batch_response \<Rightarrow> ('b, 'd) importer \<Rightarrow> ('b, 'd) importer" where
  "count_batch n r w =
     w\<lparr>im_stats := (im_stats w)\<lparr>st_ok := st_ok (im_stats w) + rs_ok r, st_failed := st_failed (im_stats w) + rs_failed r,
                                st_batches := Suc (st_batches (im_stats w))\<rparr>,
       im_failed := im_failed w @ map (Failed_Insert n) (rs_errors r)\<rparr>"

text \<open>\<open>_process_batch\<close>, with the number of retries that are left.\<close>

fun try_batch :: "('b, 'd) import_conf \<Rightarrow> 'b import_card list \<Rightarrow> nat \<Rightarrow> nat \<Rightarrow> ('b, 'd, unit) imp" where
  "try_batch cf batch n retries w =
     (case add_many cf batch (im_db w) of
        (Inr r, db) \<Rightarrow> (Inr (), count_batch n r (w\<lparr>im_db := db\<rparr>))
      | (Inl e, db) \<Rightarrow>
          (case retries of
             Suc left \<Rightarrow> try_batch cf batch n left (w\<lparr>im_db := db\<rparr>)
           | 0 \<Rightarrow>
               (case save_failed_batch batch n (cf_message cf e) (w\<lparr>im_db := db\<rparr>) of
                  (_, w') \<Rightarrow> (Inl CardInsertErr, on_stats (\<lambda>st. st\<lparr>st_failed := st_failed st + length batch\<rparr>) w'))))"

declare try_batch.simps [simp del]

definition process_batch :: "('b, 'd) import_conf \<Rightarrow> 'b import_card list \<Rightarrow> nat \<Rightarrow> ('b, 'd, unit) imp" where
  "process_batch cf batch n = try_batch cf batch n (cf_max_retries cf)"

section \<open>The stream\<close>

text \<open>\<open>card_json.get("lang", "en") in {"en", "ja"}\<close>.\<close>

definition wanted_language :: "(string \<times> json) list \<Rightarrow> bool" where
  "wanted_language j \<longleftrightarrow> (case dget j ''lang'' of None \<Rightarrow> True | Some l \<Rightarrow> l = JStr ''en'' \<or> l = JStr ''ja'')"

text \<open>One card per finish, and the plain finish for a card without any.\<close>

definition explode :: "'b import_card \<Rightarrow> 'b import_card list" where
  "explode c = map (\<lambda>f. c\<lparr>ic_finishes := [f]\<rparr>) (if ic_finishes c = [] then [''nonfoil''] else ic_finishes c)"

text \<open>The loop variables: the cards collected, and the batches counted.\<close>

type_synonym 'b loop = "'b import_card list \<times> nat"

text \<open>
  The body of the loop over the cards, up to the handler; an exception leaves the batch as it was when it was
  raised.
\<close>

definition card_body ::
  "('b, 'd) import_conf \<Rightarrow> nat \<Rightarrow> (string \<times> json) list \<Rightarrow> 'b loop \<Rightarrow> ('b, 'd) importer \<Rightarrow>
   unit res \<times> 'b loop \<times> ('b, 'd) importer" where
  "card_body cf resume j loop w =
     (let (batch, n) = loop in
      if \<not> wanted_language j then (Inr (), (batch, n), w)
      else if n < resume then
        (if length batch \<ge> cf_batch_size cf then (Inr (), ([], Suc n), w) else (Inr (), (batch, n), w))
      else (case cf_validate cf j of
              Inl e \<Rightarrow> (Inl e, (batch, n), w)
            | Inr c \<Rightarrow>
                let batch' = batch @ explode c;
                    w' = on_stats (\<lambda>st. st\<lparr>st_total := Suc (st_total st)\<rparr>) w
                in if length batch' \<ge> cf_batch_size cf
                   then (case process_batch cf batch' (Suc n) w' of
                           (Inl e, w'') \<Rightarrow> (Inl e, (batch', n), w'')
                         | (Inr _, w'') \<Rightarrow> (Inr (), ([], Suc n), snd (save_failed_cards w'')))
                   else (Inr (), (batch', n), w')))"

definition note_card_error ::
  "('b, 'd) import_conf \<Rightarrow> (string \<times> json) list \<Rightarrow> pyexc \<Rightarrow> ('b, 'd) importer \<Rightarrow> ('b, 'd) importer" where
  "note_card_error cf j e w =
     w\<lparr>im_stats := (im_stats w)\<lparr>st_errors := Suc (st_errors (im_stats w))\<rparr>,
       im_failed := im_failed w @ [Failed_Card (st_total (im_stats w)) j (cf_message cf e)]\<rparr>"

fun card_loop ::
  "('b, 'd) import_conf \<Rightarrow> nat \<Rightarrow> (string \<times> json) list list \<Rightarrow> 'b loop \<Rightarrow> ('b, 'd, 'b loop) imp" where
  "card_loop cf resume [] loop w = (Inr loop, w)"
| "card_loop cf resume (j # js) loop w =
     (case card_body cf resume j loop w of
        (Inr _, loop', w') \<Rightarrow> card_loop cf resume js loop' w'
      | (Inl e, loop', w') \<Rightarrow>
          let w'' = note_card_error cf j e w' in
          if cf_skip_errors cf then card_loop cf resume js loop' w'' else (Inl e, w''))"

text \<open>
  The file: whether it is there, the cards that the JSON reader yields, and whether it then fails
  (\<open>Some e\<close>) or ends.
\<close>

record card_file =
  fl_exists :: bool
  fl_cards :: "(string \<times> json) list list"
  fl_fault :: "pyexc option"

definition process_file_stream :: "('b, 'd) import_conf \<Rightarrow> card_file \<Rightarrow> nat \<Rightarrow> ('b, 'd, unit) imp" where
  "process_file_stream cf f resume =
     bindp (card_loop cf resume (fl_cards f) ([], 0)) (\<lambda>(batch, n).
       case fl_fault f of
         Some e \<Rightarrow> throw e
       | None \<Rightarrow> bindp (if batch = [] then ret () else process_batch cf batch (Suc n)) (\<lambda>_. save_failed_cards))"

definition process_large_cards_json :: "('b, 'd) import_conf \<Rightarrow> card_file \<Rightarrow> nat \<Rightarrow> ('b, 'd, import_stats) imp" where
  "process_large_cards_json cf f resume w =
     (case (if fl_exists f then process_file_stream cf f resume w else (Inl CardInsertErr, w)) of
        (Inl e, w') \<Rightarrow> (Inl CardInsertErr, w')
      | (Inr _, w') \<Rightarrow> (Inr (im_stats w'), w'))"

definition new_importer :: "'d \<Rightarrow> 'b errors_store option \<Rightarrow> ('b, 'd) importer" where
  "new_importer db errs = \<lparr>im_db = db, im_stats = new_stats, im_failed = [], im_errors = errs\<rparr>"

text \<open>The registered service: nothing to do without a file name, else a tracked step around the import.\<close>

datatype import_answer = No_Changes | Imported import_stats

definition process_json_service ::
  "nat option \<Rightarrow> ('b, 'd) import_conf \<Rightarrow> string \<Rightarrow> (string \<Rightarrow> card_file) \<Rightarrow> nat \<Rightarrow>
   (ops \<times> ('b, 'd) importer, import_answer) prog" where
  "process_json_service run cf file_name files resume =
     (if file_name = [] then ret No_Changes
      else bindp (track_world run ''process_large_cards_json'' ''processing_failed'' (cf_message cf)
                    (process_large_cards_json cf (files file_name) resume))
             (\<lambda>st. ret (Imported st)))"

section \<open>Resuming\<close>

lemma resume_loop:
  "0 < resume \<Longrightarrow> 0 < cf_batch_size cf \<Longrightarrow> card_loop cf resume js ([], 0) w = (Inr ([], 0), w)"
  by (induction js) (auto simp: card_body_def)

text \<open>
  A resumed import reads the file to its end and imports nothing: no card is ever counted towards the batches
  to be skipped. It reports success with empty statistics.
\<close>

theorem resume_imports_nothing:
  assumes "0 < resume" "0 < cf_batch_size cf" "fl_exists f" "fl_fault f = None"
  shows "process_large_cards_json cf f resume (new_importer db errs) = (Inr new_stats, new_importer db errs)"
  using assms
  by (simp add: process_large_cards_json_def process_file_stream_def bindp_def resume_loop new_importer_def
      save_failed_cards_def split: option.split)

section \<open>What a complete import sends\<close>

text \<open>The database after the batches, one statement each.\<close>

fun run_batches :: "('b, 'd) import_conf \<Rightarrow> 'b import_card list list \<Rightarrow> 'd \<Rightarrow> 'd" where
  "run_batches cf [] d = d"
| "run_batches cf (b # bs) d = run_batches cf bs (snd (cf_insert cf b d))"

lemma run_batches_append [simp]: "run_batches cf (bs @ cs) d = run_batches cf cs (run_batches cf bs d)"
  by (induction bs arbitrary: d) auto

text \<open>The cards of the file that are in a wanted language and valid, and the number of the invalid ones.\<close>

fun valid_cards :: "('b, 'd) import_conf \<Rightarrow> (string \<times> json) list list \<Rightarrow> 'b import_card list" where
  "valid_cards cf [] = []"
| "valid_cards cf (j # js) =
     (if wanted_language j then (case cf_validate cf j of Inr c \<Rightarrow> [c] | Inl _ \<Rightarrow> []) else []) @ valid_cards cf js"

fun invalid_cards :: "('b, 'd) import_conf \<Rightarrow> (string \<times> json) list list \<Rightarrow> nat" where
  "invalid_cards cf [] = 0"
| "invalid_cards cf (j # js) =
     (if wanted_language j \<and> \<not> is_ok (cf_validate cf j) then 1 else 0) + invalid_cards cf js"

definition answers :: "('b, 'd) import_conf \<Rightarrow> bool" where
  "answers cf \<longleftrightarrow> (\<forall>b d. is_ok (fst (cf_insert cf b d)))"

text \<open>Two importers that agree on the statistics and on the database.\<close>

definition counts :: "('b, 'd) importer \<Rightarrow> nat \<times> nat \<times> nat" where
  "counts w = (st_total (im_stats w), st_batches (im_stats w), st_errors (im_stats w))"

lemma process_batch_ok:
  assumes "answers cf"
  shows "\<exists>w'. process_batch cf b n w = (Inr (), w') \<and> im_db w' = snd (cf_insert cf b (im_db w)) \<and>
    st_total (im_stats w') = st_total (im_stats w) \<and> st_batches (im_stats w') = Suc (st_batches (im_stats w)) \<and>
    st_errors (im_stats w') = st_errors (im_stats w)"
proof -
  obtain r d where "cf_insert cf b (im_db w) = (Inr r, d)"
    using assms unfolding answers_def is_ok_iff by (metis prod.collapse)
  then show ?thesis
    by (cases "cf_max_retries cf") (simp_all add: process_batch_def try_batch.simps add_many_def count_batch_def)
qed

lemma save_failed_cards_keeps:
  "im_db (snd (save_failed_cards w)) = im_db w \<and> im_stats (snd (save_failed_cards w)) = im_stats w"
  "save_failed_cards w = (Inr (), snd (save_failed_cards w))"
  by (auto simp: save_failed_cards_def split: option.split)

text \<open>The loop, as a statement over the batches it has sent and the cards it still holds.\<close>

definition sent_by ::
  "('b, 'd) import_conf \<Rightarrow> (string \<times> json) list list \<Rightarrow> 'b loop \<Rightarrow> ('b, 'd) importer \<Rightarrow> 'b loop \<Rightarrow> ('b, 'd) importer \<Rightarrow>
   'b import_card list list \<Rightarrow> bool" where
  "sent_by cf js loop w loop' w' bs \<longleftrightarrow>
     concat bs @ fst loop' = fst loop @ concat (map explode (valid_cards cf js)) \<and> length (fst loop') < cf_batch_size cf \<and>
     list_all (\<lambda>b. cf_batch_size cf \<le> length b) bs \<and> im_db w' = run_batches cf bs (im_db w) \<and>
     st_total (im_stats w') = st_total (im_stats w) + length (valid_cards cf js) \<and>
     st_batches (im_stats w') = st_batches (im_stats w) + length bs \<and>
     st_errors (im_stats w') = st_errors (im_stats w) + invalid_cards cf js"

lemma sent_by_valid:
  assumes "wanted_language j" "cf_validate cf j = Inr c"
    and sent: "sent_by cf js (batch @ explode c, n) (on_stats (\<lambda>st. st\<lparr>st_total := Suc (st_total st)\<rparr>) w) loop' w' bs"
  shows "sent_by cf (j # js) (batch, n) w loop' w' bs"
proof -
  have "valid_cards cf (j # js) = c # valid_cards cf js" "invalid_cards cf (j # js) = invalid_cards cf js"
    by (simp_all add: assms)
  with sent show ?thesis unfolding sent_by_def on_stats_def by simp
qed

lemma sent_by_full:
  assumes "wanted_language j" "cf_validate cf j = Inr c" "cf_batch_size cf \<le> length (batch @ explode c)"
    and "im_db w1 = snd (cf_insert cf (batch @ explode c) (im_db w))" "st_total (im_stats w1) = Suc (st_total (im_stats w))"
      "st_batches (im_stats w1) = Suc (st_batches (im_stats w))" "st_errors (im_stats w1) = st_errors (im_stats w)"
    and sent: "sent_by cf js ([], Suc n) w1 loop' w' bs"
  shows "sent_by cf (j # js) (batch, n) w loop' w' ((batch @ explode c) # bs)"
proof -
  have "valid_cards cf (j # js) = c # valid_cards cf js" "invalid_cards cf (j # js) = invalid_cards cf js"
    by (simp_all add: assms(1,2))
  with sent assms(3-7) show ?thesis unfolding sent_by_def by (simp del: length_append)
qed

lemma body_valid:
  assumes "wanted_language j" "cf_validate cf j = Inr c"
  shows "card_body cf 0 j (batch, n) w =
    (let w' = on_stats (\<lambda>st. st\<lparr>st_total := Suc (st_total st)\<rparr>) w in
     if cf_batch_size cf \<le> length (batch @ explode c)
     then (case process_batch cf (batch @ explode c) (Suc n) w' of
             (Inl e, w'') \<Rightarrow> (Inl e, (batch @ explode c, n), w'')
           | (Inr _, w'') \<Rightarrow> (Inr (), ([], Suc n), snd (save_failed_cards w'')))
     else (Inr (), (batch @ explode c, n), w'))"
  unfolding card_body_def Let_def using assms by (simp del: length_append)

lemma card_loop_sends:
  assumes "answers cf" "cf_skip_errors cf" "length (fst loop) < cf_batch_size cf"
  shows "\<exists>loop' w' bs. card_loop cf 0 js loop w = (Inr loop', w') \<and> sent_by cf js loop w loop' w' bs"
  using assms(3)
proof (induction js arbitrary: loop w)
  case Nil
  then show ?case by (intro exI [of _ loop] exI [of _ w] exI [of _ "[]"]) (simp add: sent_by_def)
next
  case (Cons j js)
  obtain batch n where loop: "loop = (batch, n)" by (cases loop)
  show ?case
  proof (cases "wanted_language j")
    case False
    then have "card_loop cf 0 (j # js) loop w = card_loop cf 0 js loop w" by (simp add: loop card_body_def)
    moreover have "sent_by cf (j # js) loop w loop' w' bs" if "sent_by cf js loop w loop' w' bs" for loop' w' bs
      using that False by (simp add: sent_by_def)
    ultimately show ?thesis using Cons.IH [OF Cons.prems, of w] by metis
  next
    case True
    show ?thesis
    proof (cases "cf_validate cf j")
      case (Inl e)
      let ?w = "note_card_error cf j e w"
      have "card_loop cf 0 (j # js) loop w = card_loop cf 0 js loop ?w"
        using True Inl assms(2) by (simp add: loop card_body_def Let_def)
      moreover have "sent_by cf (j # js) loop w loop' w' bs" if "sent_by cf js loop ?w loop' w' bs" for loop' w' bs
        using that True Inl by (simp add: sent_by_def note_card_error_def)
      ultimately show ?thesis using Cons.IH [OF Cons.prems, of ?w] by metis
    next
      case (Inr c)
      let ?b = "batch @ explode c" and ?w = "on_stats (\<lambda>st. st\<lparr>st_total := Suc (st_total st)\<rparr>) w"
      show ?thesis
      proof (cases "cf_batch_size cf \<le> length ?b")
        case False
        then have small: "length (fst (?b, n)) < cf_batch_size cf" by simp
        have "card_loop cf 0 (j # js) loop w = card_loop cf 0 js (?b, n) ?w"
          using False by (simp add: loop body_valid [OF True Inr] Let_def del: length_append)
        moreover obtain loop' w' bs where "card_loop cf 0 js (?b, n) ?w = (Inr loop', w')" "sent_by cf js (?b, n) ?w loop' w' bs"
          using Cons.IH [OF small, of ?w] by blast
        ultimately show ?thesis
          unfolding loop by (intro exI [of _ loop'] exI [of _ w'] exI [of _ bs]) (simp add: sent_by_valid [OF True Inr] loop)
      next
        case full: True
        obtain w1 where w1: "process_batch cf ?b (Suc n) ?w = (Inr (), w1)" "im_db w1 = snd (cf_insert cf ?b (im_db ?w))"
          "st_total (im_stats w1) = st_total (im_stats ?w)" "st_batches (im_stats w1) = Suc (st_batches (im_stats ?w))"
          "st_errors (im_stats w1) = st_errors (im_stats ?w)"
          using process_batch_ok [OF assms(1)] by blast
        have small: "length (fst ([] :: 'a import_card list, Suc n)) < cf_batch_size cf" using Cons.prems by (auto simp: loop)
        from Cons.IH [OF small, of "snd (save_failed_cards w1)"] obtain loop' w' bs where
          run: "card_loop cf 0 js ([], Suc n) (snd (save_failed_cards w1)) = (Inr loop', w')" and
          sent: "sent_by cf js ([], Suc n) (snd (save_failed_cards w1)) loop' w' bs" by blast
        have "card_loop cf 0 (j # js) loop w = (Inr loop', w')"
          using full w1(1) run by (simp add: loop body_valid [OF True Inr] Let_def del: length_append)
        moreover have "sent_by cf (j # js) loop w loop' w' (?b # bs)"
          unfolding loop using w1 save_failed_cards_keeps(1) [of w1]
          by (intro sent_by_full [OF True Inr full _ _ _ _ sent]) (simp_all add: on_stats_def)
        ultimately show ?thesis by blast
      qed
    qed
  qed
qed

text \<open>
  C18. When the database answers every batch, the import of a file sends every finish of every valid card in a wanted
  language exactly once, in the order of the file, in batches that are full except for the last one; the statistics
  count these cards, the batches and the invalid cards.
\<close>

theorem import_sends_all:
  assumes "answers cf" "cf_skip_errors cf" "0 < cf_batch_size cf" "fl_exists f" "fl_fault f = None"
  shows "\<exists>st w' bs. process_large_cards_json cf f 0 (new_importer db errs) = (Inr st, w') \<and>
    concat bs = concat (map explode (valid_cards cf (fl_cards f))) \<and> im_db w' = run_batches cf bs db \<and>
    list_all (\<lambda>b. cf_batch_size cf \<le> length b) (butlast bs) \<and>
    st_total st = length (valid_cards cf (fl_cards f)) \<and> st_batches st = length bs \<and>
    st_errors st = invalid_cards cf (fl_cards f)"
proof -
  let ?w = "new_importer db errs"
  obtain batch n w1 bs where
    run: "card_loop cf 0 (fl_cards f) ([], 0) ?w = (Inr (batch, n), w1)" and
    sent: "sent_by cf (fl_cards f) ([], 0) ?w (batch, n) w1 bs"
    using card_loop_sends [OF assms(1,2), of "([], 0)" "fl_cards f" ?w] assms(3) by auto
  show ?thesis
  proof (cases "batch = []")
    case True
    obtain w' where saved: "save_failed_cards w1 = (Inr (), w')" "im_db w' = im_db w1" "im_stats w' = im_stats w1"
      using save_failed_cards_keeps [of w1] by blast
    have "process_large_cards_json cf f 0 ?w = (Inr (im_stats w'), w')"
      using run True assms(4,5) saved(1)
      by (simp add: process_large_cards_json_def process_file_stream_def bindp_def)
    moreover have "list_all (\<lambda>b. cf_batch_size cf \<le> length b) (butlast bs)"
      using sent by (auto simp: sent_by_def list_all_iff dest: in_set_butlastD)
    ultimately show ?thesis
      using sent True
      by (intro exI [of _ "im_stats w'"] exI [of _ w'] exI [of _ bs])
        (simp add: sent_by_def saved new_importer_def new_stats_def)
  next
    case False
    obtain w2 where w2: "process_batch cf batch (Suc n) w1 = (Inr (), w2)" "im_db w2 = snd (cf_insert cf batch (im_db w1))"
      "st_total (im_stats w2) = st_total (im_stats w1)" "st_batches (im_stats w2) = Suc (st_batches (im_stats w1))"
      "st_errors (im_stats w2) = st_errors (im_stats w1)"
      using process_batch_ok [OF assms(1)] by blast
    obtain w' where saved: "save_failed_cards w2 = (Inr (), w')" "im_db w' = im_db w2" "im_stats w' = im_stats w2"
      using save_failed_cards_keeps [of w2] by blast
    have "process_large_cards_json cf f 0 ?w = (Inr (im_stats w'), w')"
      using run False w2(1) assms(4,5) saved(1)
      by (simp add: process_large_cards_json_def process_file_stream_def bindp_def)
    then show ?thesis
      using sent w2
      by (intro exI [of _ "im_stats w'"] exI [of _ w'] exI [of _ "bs @ [batch]"])
        (simp add: sent_by_def saved new_importer_def new_stats_def)
  qed
qed

section \<open>A database that refuses\<close>

definition refuses :: "('b, 'd) import_conf \<Rightarrow> bool" where
  "refuses cf \<longleftrightarrow> (\<forall>b d. \<not> is_ok (fst (cf_insert cf b d)))"

lemma refusesD: "refuses cf \<Longrightarrow> \<exists>e d'. cf_insert cf b d = (Inl e, d')"
  unfolding refuses_def is_ok_iff by (metis prod.collapse sum.exhaust_sel)

lemma try_batch_refused:
  assumes "refuses cf"
  shows "\<exists>w'. try_batch cf b n r w = (Inl CardInsertErr, w') \<and>
    im_stats w' = (im_stats w)\<lparr>st_failed := st_failed (im_stats w) + length b\<rparr>"
proof (induction r arbitrary: w)
  case 0
  obtain e d where "cf_insert cf b (im_db w) = (Inl e, d)" using refusesD [OF assms] by blast
  then show ?case
    by (auto simp: try_batch.simps add_many_def bindp_def save_failed_batch_def on_stats_def split: option.split)
next
  case (Suc r)
  obtain e d where "cf_insert cf b (im_db w) = (Inl e, d)" using refusesD [OF assms] by blast
  with Suc [of "w\<lparr>im_db := d\<rparr>"] show ?case
    by (auto simp: try_batch.simps [of cf b n "Suc r"] add_many_def bindp_def)
qed

text \<open>Files of wanted, valid cards with one finish each.\<close>

definition plain_cards :: "('b, 'd) import_conf \<Rightarrow> (string \<times> json) list list \<Rightarrow> bool" where
  "plain_cards cf js \<longleftrightarrow> list_all (\<lambda>j. wanted_language j \<and>
     (case cf_validate cf j of Inl _ \<Rightarrow> False | Inr c \<Rightarrow> length (explode c) = 1)) js"

text \<open>
  What the loop counts as failed while it holds \<open>k\<close> cards: a refused batch stays, so the next card sends it again.
\<close>

lemma refused_loop:
  assumes "refuses cf" "cf_skip_errors cf" "plain_cards cf js"
  shows "\<exists>batch' w'. card_loop cf 0 js (batch, n) w = (Inr (batch', n), w') \<and> length batch' = length batch + length js \<and>
    st_total (im_stats w') = st_total (im_stats w) + length js \<and>
    st_failed (im_stats w') = st_failed (im_stats w) +
      sum_list (filter (\<lambda>k. cf_batch_size cf \<le> k) [Suc (length batch)..<Suc (length batch + length js)])"
  using assms(3)
proof (induction js arbitrary: batch w)
  case (Cons j js)
  from Cons.prems obtain c where c: "wanted_language j" "cf_validate cf j = Inr c" "length (explode c) = 1"
    and plain: "plain_cards cf js"
    by (auto simp: plain_cards_def split: sum.splits)
  let ?b = "batch @ explode c" and ?w = "on_stats (\<lambda>st. st\<lparr>st_total := Suc (st_total st)\<rparr>) w"
  have len: "length ?b = Suc (length batch)" using c(3) by simp
  have range: "filter P [Suc (length batch)..<Suc (length batch + length (j # js))] =
      (if P (Suc (length batch)) then [Suc (length batch)] else []) @
      filter P [Suc (length ?b)..<Suc (length ?b + length js)]" for P
    unfolding len by (subst upt_conv_Cons) simp_all
  show ?case
  proof (cases "cf_batch_size cf \<le> length ?b")
    case False
    have "card_loop cf 0 (j # js) (batch, n) w = card_loop cf 0 js (?b, n) ?w"
      using False by (simp add: body_valid [OF c(1,2)] Let_def del: length_append)
    moreover from False have "\<not> cf_batch_size cf \<le> Suc (length batch)" by (simp only: len not_False_eq_True)
    moreover obtain batch' w' where "card_loop cf 0 js (?b, n) ?w = (Inr (batch', n), w')"
      "length batch' = length ?b + length js" "st_total (im_stats w') = st_total (im_stats ?w) + length js"
      "st_failed (im_stats w') = st_failed (im_stats ?w) +
        sum_list (filter (\<lambda>k. cf_batch_size cf \<le> k) [Suc (length ?b)..<Suc (length ?b + length js)])"
      using Cons.IH [OF plain, of ?b ?w] by blast
    ultimately show ?thesis unfolding range by (intro exI [of _ batch'] exI [of _ w']) (simp add: on_stats_def c(3))
  next
    case True
    obtain w1 where w1: "process_batch cf ?b (Suc n) ?w = (Inl CardInsertErr, w1)"
      "im_stats w1 = (im_stats ?w)\<lparr>st_failed := st_failed (im_stats ?w) + length ?b\<rparr>"
      using try_batch_refused [OF assms(1)] unfolding process_batch_def by blast
    let ?w1 = "note_card_error cf j CardInsertErr w1"
    have "card_loop cf 0 (j # js) (batch, n) w = card_loop cf 0 js (?b, n) ?w1"
      using True w1(1) assms(2) by (simp add: body_valid [OF c(1,2)] Let_def del: length_append)
    moreover from True have "cf_batch_size cf \<le> Suc (length batch)" by (simp only: len)
    moreover obtain batch' w' where "card_loop cf 0 js (?b, n) ?w1 = (Inr (batch', n), w')"
      "length batch' = length ?b + length js" "st_total (im_stats w') = st_total (im_stats ?w1) + length js"
      "st_failed (im_stats w') = st_failed (im_stats ?w1) +
        sum_list (filter (\<lambda>k. cf_batch_size cf \<le> k) [Suc (length ?b)..<Suc (length ?b + length js)])"
      using Cons.IH [OF plain, of ?b ?w1] by blast
    ultimately show ?thesis
      unfolding range using w1(2) len
      by (intro exI [of _ batch'] exI [of _ w']) (simp add: on_stats_def c(3) note_card_error_def)
  qed
qed simp

lemma filter_ge_upt: "0 < m \<Longrightarrow> filter (\<lambda>k. m \<le> k) [Suc 0..<Suc n] = [m..<Suc n]"
proof (induction n)
  case (Suc n)
  then show ?case by (cases "m \<le> Suc n") (auto simp: upt_conv_Nil)
qed simp

text \<open>
  When the database refuses every batch, the import of \<open>n\<close> plain cards fails in the end, but not at the first
  full batch: the batch is kept, every further card sends it again, one card longer, and the failed inserts that are
  counted add up to the sizes of all these batches.
\<close>

theorem refused_batch_grows:
  assumes "refuses cf" "cf_skip_errors cf" "0 < cf_batch_size cf" "fl_exists f" "fl_fault f = None"
    and "plain_cards cf (fl_cards f)" "fl_cards f \<noteq> []"
  shows "\<exists>w'. process_large_cards_json cf f 0 (new_importer db errs) = (Inl CardInsertErr, w') \<and>
    st_total (im_stats w') = length (fl_cards f) \<and>
    st_failed (im_stats w') = sum_list [cf_batch_size cf..<Suc (length (fl_cards f))] + length (fl_cards f)"
proof -
  let ?w = "new_importer db errs"
  obtain batch w1 where loop: "card_loop cf 0 (fl_cards f) ([], 0) ?w = (Inr (batch, 0), w1)"
    "length batch = length (fl_cards f)" "st_total (im_stats w1) = length (fl_cards f)"
    "st_failed (im_stats w1) = sum_list [cf_batch_size cf..<Suc (length (fl_cards f))]"
    using refused_loop [OF assms(1,2,6), of "[]" 0 ?w] filter_ge_upt [OF assms(3), of "length (fl_cards f)"]
    by (auto simp: new_importer_def new_stats_def simp del: upt_Suc)
  have "batch \<noteq> []" using loop(2) assms(7) by auto
  moreover obtain w2 where "process_batch cf batch (Suc 0) w1 = (Inl CardInsertErr, w2)"
    "im_stats w2 = (im_stats w1)\<lparr>st_failed := st_failed (im_stats w1) + length batch\<rparr>"
    using try_batch_refused [OF assms(1)] unfolding process_batch_def by blast
  ultimately show ?thesis
    using loop assms(4,5) by (simp add: process_large_cards_json_def process_file_stream_def bindp_def)
qed

section \<open>The run of the service\<close>

text \<open>A failing import fails its run, with the error code of the step.\<close>

lemma failed_import_fails_run:
  assumes "i \<noteq> 0" "find_run db i \<noteq> None" "file_name \<noteq> []"
    and "process_large_cards_json cf (files file_name) resume w = (Inl e, w')"
  shows "\<exists>db' r. process_json_service (Some i) cf file_name files resume (db, w) = (Inl e, (db', w')) \<and>
    find_run db' i = Some r \<and> run_status r = Failed \<and> run_error r = Some ''processing_failed''"
proof -
  obtain db' r where "track_world (Some i) ''process_large_cards_json'' ''processing_failed'' (cf_message cf)
      (process_large_cards_json cf (files file_name) resume) (db, w) = (Inl e, (db', w'))"
    and "find_run db' i = Some r" "run_status r = Failed" "run_error r = Some ''processing_failed''"
    using track_world_fails [OF assms(1,2), of "process_large_cards_json cf (files file_name) resume", OF assms(4)] by blast
  with assms(3) show ?thesis by (simp add: process_json_service_def)
qed

section \<open>Samples\<close>

definition demo_cards :: "(string \<times> json) list list" where
  "demo_cards = [[(''name'', JStr ''A'')], [(''name'', JStr ''B''), (''lang'', JStr ''de'')], [(''name'', JStr ''C''), (''lang'', JStr ''ja'')]]"

definition demo_file :: "(string \<times> json) list list \<Rightarrow> card_file" where
  "demo_file js = \<lparr>fl_exists = True, fl_cards = js, fl_fault = None\<rparr>"

definition demo_conf :: "bool \<Rightarrow> (json, nat) import_conf" where
  "demo_conf ok =
     \<lparr>cf_validate = \<lambda>j. Inr \<lparr>ic_body = jget j ''name'', ic_finishes = []\<rparr>,
      cf_insert = \<lambda>b d. if ok then (Inr (Some \<lparr>br_total = length b, br_ok = length b, br_failed = 0, br_errors = None\<rparr>), d + length b)
                         else (Inl DbErr, d),
      cf_message = \<lambda>_. ''error'', cf_batch_size = 1, cf_max_retries = 3, cf_skip_errors = True\<rparr>"

theorem resume_imports_nothing_witness:
  "process_large_cards_json (demo_conf True) (demo_file demo_cards) 2 (new_importer 0 None) = (Inr new_stats, new_importer 0 None)"
  by (rule resume_imports_nothing) (simp_all add: demo_conf_def demo_file_def)

theorem import_sends_all_witness:
  "\<exists>st w' bs. process_large_cards_json (demo_conf True) (demo_file demo_cards) 0 (new_importer 0 None) = (Inr st, w') \<and>
     length (concat bs) = 2 \<and> im_db w' = run_batches (demo_conf True) bs 0 \<and> st_total st = 2"
proof -
  have valid: "map ic_body (concat (map explode (valid_cards (demo_conf True) demo_cards))) = [JStr ''A'', JStr ''C'']"
    "length (valid_cards (demo_conf True) demo_cards) = 2"
    by (simp_all add: demo_cards_def demo_conf_def wanted_language_def jget_def explode_def)
  have "answers (demo_conf True)" by (simp add: answers_def demo_conf_def)
  then obtain st w' bs where "process_large_cards_json (demo_conf True) (demo_file demo_cards) 0 (new_importer 0 None) = (Inr st, w')"
    "concat bs = concat (map explode (valid_cards (demo_conf True) demo_cards))" "im_db w' = run_batches (demo_conf True) bs 0"
    "st_total st = 2"
    using import_sends_all [of "demo_conf True" "demo_file demo_cards" 0 None] valid(2)
    by (auto simp: demo_file_def demo_conf_def)
  moreover have "length (concat (map explode (valid_cards (demo_conf True) demo_cards))) = 2"
    using arg_cong [OF valid(1), of length] by simp
  ultimately show ?thesis by metis
qed

theorem refused_batch_grows_witness:
  "\<exists>w'. process_large_cards_json (demo_conf False) (demo_file [hd demo_cards, last demo_cards]) 0 (new_importer 0 None) =
     (Inl CardInsertErr, w') \<and> st_total (im_stats w') = 2 \<and> st_failed (im_stats w') = 5"
  using refused_batch_grows [of "demo_conf False" "demo_file [hd demo_cards, last demo_cards]" 0 None]
  by (simp add: refuses_def plain_cards_def demo_conf_def demo_file_def demo_cards_def wanted_language_def explode_def numeral_eq_Suc)

end
