(* ===== verification/Card_Search.thy ===== *)
theory Card_Search
  imports Py_Text
begin

text \<open>
  The search of cards: the queries that \<open>CardReferenceRepository.search\<close> builds, the cache of prices behind
  \<open>_fetch_prices_for_cards\<close> and the price history of a card (\<open>card_catalog/card_repository.py\<close>).

  A condition is a constructor with the number of its placeholder; \<open>cond_sql\<close> is its text. The rows that the
  database returns for a query are parameters.
\<close>

section \<open>Conditions and values\<close>

datatype cond =
    Name_Similar nat | In_Identity nat | Multicolour | Rarity_Like nat | Set_Name_Like nat | Set_Code_Is nat
  | Card_Is nat | Cmc_Is nat | Digital_Is nat | Released_After nat | Released_Before nat | Has_Type nat
  | Finish_Is nat | Has_Frame nat | Oracle_Matches nat | Artist_Is nat | Legal_In nat | Layout_Is nat | No_Tokens
  | Promo_Overlaps nat

definition hole :: "nat \<Rightarrow> ustr" where
  "hole n = 36 # str_nat n"

fun cond_sql :: "cond \<Rightarrow> ustr" where
  "cond_sql (Name_Similar n) = lit ''word_similarity(LOWER('' @ hole n @ lit ''), LOWER(v.card_name)) > 0.6''"
| "cond_sql (In_Identity n) = hole n @ lit '' = ANY(v.color_identity)''"
| "cond_sql Multicolour = lit ''array_length(v.color_identity, 1) > 1''"
| "cond_sql (Rarity_Like n) = lit ''v.rarity_name ILIKE '' @ hole n"
| "cond_sql (Set_Name_Like n) = lit ''v.set_name ILIKE '' @ hole n"
| "cond_sql (Set_Code_Is n) = lit ''v.set_code = '' @ hole n"
| "cond_sql (Card_Is n) = lit ''v.unique_card_id = '' @ hole n"
| "cond_sql (Cmc_Is n) = lit ''v.cmc = '' @ hole n"
| "cond_sql (Digital_Is n) = lit ''v.is_digital = '' @ hole n"
| "cond_sql (Released_After n) = lit ''s.released_at > '' @ hole n"
| "cond_sql (Released_Before n) = lit ''s.released_at < '' @ hole n"
| "cond_sql (Has_Type n) = hole n @ lit '' = ANY(v.types)''"
| "cond_sql (Finish_Is n) =
     lit ''EXISTS (SELECT 1 FROM card_catalog.card_version_finish cvf '' @
     lit ''JOIN card_catalog.card_finished cf ON cvf.finish_id = cf.finish_id '' @
     lit ''WHERE cvf.card_version_id = v.card_version_id '' @ lit ''AND UPPER(cf.code) = '' @ hole n @ lit '')''"
| "cond_sql (Has_Frame n) = hole n @ lit '' = ANY(v.frame_effects)''"
| "cond_sql (Oracle_Matches n) = lit ''v.search_vector @@ websearch_to_tsquery('' @ [39] @ lit ''english'' @ [39] @ lit '', '' @ hole n @ lit '')''"
| "cond_sql (Artist_Is n) =
     lit ''EXISTS (SELECT 1 FROM jsonb_array_elements(v.illustrations) elem '' @
     lit ''WHERE elem->>'' @ [39] @ lit ''artist_name'' @ [39] @ lit '' = '' @ hole n @ lit '')''"
| "cond_sql (Legal_In n) = lit ''v.legalities->>'' @ hole n @ lit '' = '' @ [39] @ lit ''legal'' @ [39]"
| "cond_sql (Layout_Is n) = lit ''v.layout_name = '' @ hole n"
| "cond_sql No_Tokens =
     lit ''v.layout_name NOT IN ('' @ [39] @ lit ''token'' @ [39] @ lit '', '' @ [39] @ lit ''double_faced_token'' @ [39] @ lit '')''"
| "cond_sql (Promo_Overlaps n) = lit ''v.promo_types && '' @ hole n"

text \<open>The values bound to the placeholders.\<close>

datatype bound = B_Text ustr | B_Uuid ustr | B_Int int | B_Bool bool | B_Time int | B_Texts "ustr list"

section \<open>The builder\<close>

text \<open>The arguments; an optional text, identifier or list counts when it is not empty.\<close>

record filters =
  fi_name :: ustr
  fi_colors :: "ustr list"
  fi_rarity :: ustr
  fi_set_name :: ustr
  fi_set_code :: ustr
  fi_mana_cost :: "int option"
  fi_digital :: "bool option"
  fi_card_type :: ustr
  fi_finish :: ustr
  fi_frame_effects :: "ustr list"
  fi_released_after :: "int option"
  fi_released_before :: "int option"
  fi_oracle_text :: ustr
  fi_artist :: ustr
  fi_unique_card :: "ustr option"
  fi_format :: ustr
  fi_layout :: ustr
  fi_promo_type :: "ustr list"
  fi_collapse :: bool
  fi_limit :: int
  fi_offset :: int
  fi_sort_by :: ustr
  fi_sort_order :: ustr

record builder =
  bd_conds :: "cond list"
  bd_vals :: "bound list"
  bd_counter :: nat
  bd_rf_conds :: "cond list"
  bd_rf_vals :: "bound list"
  bd_rf_counter :: nat

definition new_builder :: builder where
  "new_builder = \<lparr>bd_conds = [], bd_vals = [], bd_counter = 1, bd_rf_conds = [], bd_rf_vals = [], bd_rf_counter = 1\<rparr>"

text \<open>A condition of the main query only, of both, and a condition without a value.\<close>

definition add_main :: "(nat \<Rightarrow> cond) \<Rightarrow> bound \<Rightarrow> builder \<Rightarrow> builder" where
  "add_main c v b = b\<lparr>bd_conds := bd_conds b @ [c (bd_counter b)], bd_vals := bd_vals b @ [v], bd_counter := Suc (bd_counter b)\<rparr>"

definition add_rf :: "(nat \<Rightarrow> cond) \<Rightarrow> bound \<Rightarrow> builder \<Rightarrow> builder" where
  "add_rf c v b = b\<lparr>bd_rf_conds := bd_rf_conds b @ [c (bd_rf_counter b)], bd_rf_vals := bd_rf_vals b @ [v],
                    bd_rf_counter := Suc (bd_rf_counter b)\<rparr>"

definition add_both :: "(nat \<Rightarrow> cond) \<Rightarrow> bound \<Rightarrow> builder \<Rightarrow> builder" where
  "add_both c v b = add_rf c v (add_main c v b)"

definition add_plain :: "cond \<Rightarrow> builder \<Rightarrow> builder" where
  "add_plain c b = b\<lparr>bd_conds := bd_conds b @ [c], bd_rf_conds := bd_rf_conds b @ [c]\<rparr>"

definition add_text :: "(nat \<Rightarrow> cond) \<Rightarrow> ustr \<Rightarrow> builder \<Rightarrow> builder" where
  "add_text c t b = (if t = [] then b else add_both c (B_Text t) b)"

definition add_opt :: "(nat \<Rightarrow> cond) \<Rightarrow> ('a \<Rightarrow> bound) \<Rightarrow> 'a option \<Rightarrow> builder \<Rightarrow> builder" where
  "add_opt c f x b = (case x of None \<Rightarrow> b | Some v \<Rightarrow> add_both c (f v) b)"

definition like_text :: "ustr \<Rightarrow> ustr" where
  "like_text t = 37 # t @ [37]"

definition add_color :: "ustr \<Rightarrow> builder \<Rightarrow> builder" where
  "add_color c b = (if c = lit ''Multi'' then add_plain Multicolour b else add_both In_Identity (B_Text c) b)"

text \<open>The filters up to the snapshot for the facets, in the order of the code.\<close>

definition base_filters :: "filters \<Rightarrow> builder \<Rightarrow> builder" where
  "base_filters f b0 =
     (let b1 = add_text Name_Similar (fi_name f) b0;
          b2 = fold add_color (fi_colors f) b1;
          b3 = (if fi_rarity f = [] then b2 else add_main Rarity_Like (B_Text (like_text (fi_rarity f))) b2);
          b4 = (if fi_set_name f = [] then b3 else add_both Set_Name_Like (B_Text (like_text (fi_set_name f))) b3);
          b5 = add_text Set_Code_Is (fi_set_code f) b4;
          b6 = add_opt Card_Is B_Uuid (fi_unique_card f) b5;
          b7 = add_opt Cmc_Is B_Int (fi_mana_cost f) b6;
          b8 = add_opt Digital_Is B_Bool (fi_digital f) b7;
          b9 = add_opt Released_After B_Time (fi_released_after f) b8;
          b10 = add_opt Released_Before B_Time (fi_released_before f) b9;
          b11 = add_text Has_Type (fi_card_type f) b10;
          b12 = add_text Finish_Is (upper (fi_finish f)) b11;
          b13 = fold (\<lambda>fe. add_both Has_Frame (B_Text fe)) (fi_frame_effects f) b12;
          b14 = add_text Oracle_Matches (fi_oracle_text f) b13;
          b15 = add_text Artist_Is (fi_artist f) b14;
          b16 = add_text Legal_In (fi_format f) b15
      in if fi_layout f = [] then add_plain No_Tokens b16 else add_both Layout_Is (B_Text (fi_layout f)) b16)"

definition all_filters :: "filters \<Rightarrow> builder \<Rightarrow> builder" where
  "all_filters f b =
     (let b' = base_filters f b in
      if fi_promo_type f = [] then b' else add_both Promo_Overlaps (B_Texts (fi_promo_type f)) b')"

text \<open>The placeholders that the order refers to again: the name is the first value, the rules text where it was added.\<close>

definition name_idx :: "filters \<Rightarrow> nat option" where
  "name_idx f = (if fi_name f = [] then None else Some 1)"

fun oracle_hole :: "cond list \<Rightarrow> nat option" where
  "oracle_hole [] = None"
| "oracle_hole (c # cs) = (case c of Oracle_Matches n \<Rightarrow> Some n | _ \<Rightarrow> oracle_hole cs)"

definition where_sql :: "cond list \<Rightarrow> ustr" where
  "where_sql cs = (if cs = [] then [] else lit ''WHERE '' @ join (lit '' AND '') (map cond_sql cs))"

section \<open>The order\<close>

definition view_cols :: "ustr list" where
  "view_cols = map lit [''card_name'', ''cmc'', ''rarity_name'', ''set_name'', ''set_code'']"

definition sort_dir :: "ustr \<Rightarrow> ustr" where
  "sort_dir o' = (if upper o' = lit ''DESC'' then lit ''DESC'' else lit ''ASC'')"

definition rank_name :: "ustr \<Rightarrow> nat \<Rightarrow> ustr" where
  "rank_name pre n = lit ''word_similarity(LOWER('' @ hole n @ lit ''), LOWER('' @ pre @ lit ''card_name))''"

definition rank_oracle :: "ustr \<Rightarrow> nat \<Rightarrow> ustr" where
  "rank_oracle pre n =
     lit ''ts_rank_cd('' @ pre @ lit ''search_vector, websearch_to_tsquery('' @ [39] @ lit ''english'' @ [39] @ lit '', '' @ hole n @ lit ''))''"

definition order_body :: "bool \<Rightarrow> nat option \<Rightarrow> nat option \<Rightarrow> ustr \<Rightarrow> ustr \<Rightarrow> ustr" where
  "order_body outer name oracle sort_by sort_order =
     (let v = (if outer then [] else lit ''v.''); s = (if outer then [] else lit ''s.''); dir = sort_dir sort_order in
      case (name, oracle) of
        (Some n, Some m) \<Rightarrow> lit ''('' @ rank_name v n @ lit '' + '' @ rank_oracle v m @ lit '') DESC''
      | (Some n, None) \<Rightarrow> rank_name v n @ lit '' DESC''
      | (None, Some m) \<Rightarrow> rank_oracle v m @ lit '' DESC''
      | (None, None) \<Rightarrow>
          if sort_by = lit ''released_at'' then s @ sort_by @ lit '' '' @ dir
          else if sort_by = lit ''price''
               then (if outer then lit ''sort_price'' else lit ''psp.price'') @ lit '' '' @ dir @ lit '' NULLS LAST''
          else v @ (if sort_by \<in> set view_cols then sort_by else lit ''card_name'') @ lit '' '' @ dir)"

definition order_sql :: "bool \<Rightarrow> nat option \<Rightarrow> nat option \<Rightarrow> ustr \<Rightarrow> ustr \<Rightarrow> ustr" where
  "order_sql outer name oracle sort_by sort_order = lit ''ORDER BY '' @ order_body outer name oracle sort_by sort_order"

section \<open>The four queries\<close>

text \<open>A query as the text that varies and the values bound to it.\<close>

record query =
  qy_where :: "cond list"
  qy_order :: ustr
  qy_limit :: "nat option"
  qy_offset :: "nat option"
  qy_collapse :: bool
  qy_args :: "bound list"

definition plain_query :: "cond list \<Rightarrow> bool \<Rightarrow> bound list \<Rightarrow> query" where
  "plain_query cs collapse args =
     \<lparr>qy_where = cs, qy_order = [], qy_limit = None, qy_offset = None, qy_collapse = collapse, qy_args = args\<rparr>"

definition cards_query :: "filters \<Rightarrow> query" where
  "cards_query f =
     (let b = all_filters f new_builder in
      \<lparr>qy_where = bd_conds b,
       qy_order = order_sql (fi_collapse f) (name_idx f) (oracle_hole (bd_conds b)) (fi_sort_by f) (fi_sort_order f),
       qy_limit = Some (bd_counter b), qy_offset = Some (Suc (bd_counter b)), qy_collapse = fi_collapse f,
       qy_args = bd_vals b @ [B_Int (fi_limit f), B_Int (fi_offset f)]\<rparr>)"

definition count_query :: "filters \<Rightarrow> query" where
  "count_query f =
     (let b = all_filters f new_builder in
      plain_query (bd_conds b) (fi_collapse f)
        (take (length (bd_vals b @ [B_Int (fi_limit f), B_Int (fi_offset f)]) - 2) (bd_vals b @ [B_Int (fi_limit f), B_Int (fi_offset f)])))"

definition promo_facet_query :: "filters \<Rightarrow> query" where
  "promo_facet_query f =
     (let base = base_filters f new_builder; b = all_filters f new_builder in
      plain_query (take (length (bd_conds base)) (bd_conds b)) False
        (take (length (bd_vals base)) (bd_vals b @ [B_Int (fi_limit f), B_Int (fi_offset f)])))"

definition rarity_facet_query :: "filters \<Rightarrow> query" where
  "rarity_facet_query f = (let b = all_filters f new_builder in plain_query (bd_rf_conds b) False (bd_rf_vals b))"

section \<open>Every query is well typed\<close>

datatype bound_type = T_Text | T_Uuid | T_Int | T_Bool | T_Time | T_Texts

fun type_of :: "bound \<Rightarrow> bound_type" where
  "type_of (B_Text _) = T_Text"
| "type_of (B_Uuid _) = T_Uuid"
| "type_of (B_Int _) = T_Int"
| "type_of (B_Bool _) = T_Bool"
| "type_of (B_Time _) = T_Time"
| "type_of (B_Texts _) = T_Texts"

text \<open>The placeholder of a condition and the type of value that the condition needs there.\<close>

fun wants :: "cond \<Rightarrow> (nat \<times> bound_type) list" where
  "wants Multicolour = []"
| "wants No_Tokens = []"
| "wants (Card_Is n) = [(n, T_Uuid)]"
| "wants (Cmc_Is n) = [(n, T_Int)]"
| "wants (Digital_Is n) = [(n, T_Bool)]"
| "wants (Released_After n) = [(n, T_Time)]"
| "wants (Released_Before n) = [(n, T_Time)]"
| "wants (Promo_Overlaps n) = [(n, T_Texts)]"
| "wants (Name_Similar n) = [(n, T_Text)]"
| "wants (In_Identity n) = [(n, T_Text)]"
| "wants (Rarity_Like n) = [(n, T_Text)]"
| "wants (Set_Name_Like n) = [(n, T_Text)]"
| "wants (Set_Code_Is n) = [(n, T_Text)]"
| "wants (Has_Type n) = [(n, T_Text)]"
| "wants (Finish_Is n) = [(n, T_Text)]"
| "wants (Has_Frame n) = [(n, T_Text)]"
| "wants (Oracle_Matches n) = [(n, T_Text)]"
| "wants (Artist_Is n) = [(n, T_Text)]"
| "wants (Legal_In n) = [(n, T_Text)]"
| "wants (Layout_Is n) = [(n, T_Text)]"

text \<open>The conditions use the placeholders 1, 2, ... in order, each once, and each for a value of the right type.\<close>

definition typed :: "cond list \<Rightarrow> bound list \<Rightarrow> bool" where
  "typed cs vs \<longleftrightarrow> concat (map wants cs) = zip [1..<Suc (length vs)] (map type_of vs)"

definition query_typed :: "query \<Rightarrow> bool" where
  "query_typed q \<longleftrightarrow>
     (let extra = (case qy_limit q of None \<Rightarrow> [] | Some l \<Rightarrow> [(l, T_Int)]) @ (case qy_offset q of None \<Rightarrow> [] | Some l \<Rightarrow> [(l, T_Int)])
      in concat (map wants (qy_where q)) @ extra = zip [1..<Suc (length (qy_args q))] (map type_of (qy_args q)))"

lemma typed_Nil: "typed [] []"
  by (simp add: typed_def)

lemma zip_snoc:
  "zip [1..<Suc (length (vs @ [v]))] (map type_of (vs @ [v])) =
   zip [1..<Suc (length vs)] (map type_of vs) @ [(Suc (length vs), type_of v)]"
proof -
  have "[1..<Suc (length (vs @ [v]))] = [1..<Suc (length vs)] @ [Suc (length vs)]" by simp
  then show ?thesis by (simp only: map_append list.map zip_append length_map length_upt diff_Suc_1 zip.simps) simp
qed

lemma typed_snoc:
  "typed cs vs \<Longrightarrow> wants c = [(Suc (length vs), type_of v)] \<Longrightarrow> typed (cs @ [c]) (vs @ [v])"
  unfolding typed_def zip_snoc by simp

text \<open>The invariant of the builder.\<close>

definition builder_ok :: "builder \<Rightarrow> bool" where
  "builder_ok b \<longleftrightarrow> typed (bd_conds b) (bd_vals b) \<and> bd_counter b = Suc (length (bd_vals b)) \<and>
     typed (bd_rf_conds b) (bd_rf_vals b) \<and> bd_rf_counter b = Suc (length (bd_rf_vals b))"

definition takes :: "(nat \<Rightarrow> cond) \<Rightarrow> bound \<Rightarrow> bool" where
  "takes c v \<longleftrightarrow> (\<forall>n. wants (c n) = [(n, type_of v)])"

lemma builder_ok_new: "builder_ok new_builder"
  by (simp add: builder_ok_def new_builder_def typed_Nil)

lemma builder_ok_main: "builder_ok b \<Longrightarrow> takes c v \<Longrightarrow> builder_ok (add_main c v b)"
  by (simp add: builder_ok_def add_main_def takes_def typed_snoc)

lemma builder_ok_both: "builder_ok b \<Longrightarrow> takes c v \<Longrightarrow> builder_ok (add_both c v b)"
  by (simp add: builder_ok_def add_both_def add_main_def add_rf_def takes_def typed_snoc)

lemma builder_ok_plain: "builder_ok b \<Longrightarrow> wants c = [] \<Longrightarrow> builder_ok (add_plain c b)"
  by (simp add: builder_ok_def add_plain_def typed_def)

lemma builder_ok_text: "builder_ok b \<Longrightarrow> (\<And>t. takes c (B_Text t)) \<Longrightarrow> builder_ok (add_text c t b)"
  by (simp add: add_text_def builder_ok_both)

lemma builder_ok_opt: "builder_ok b \<Longrightarrow> (\<And>x. takes c (g x)) \<Longrightarrow> builder_ok (add_opt c g x b)"
  by (simp add: add_opt_def builder_ok_both split: option.split)

lemma builder_ok_fold: "builder_ok b \<Longrightarrow> (\<And>x b. builder_ok b \<Longrightarrow> builder_ok (g x b)) \<Longrightarrow> builder_ok (fold g xs b)"
  by (induction xs arbitrary: b) auto

lemma builder_ok_if: "(P \<Longrightarrow> builder_ok a) \<Longrightarrow> (\<not> P \<Longrightarrow> builder_ok b) \<Longrightarrow> builder_ok (if P then a else b)"
  by simp

lemma builder_ok_color: "builder_ok b \<Longrightarrow> builder_ok (add_color c b)"
  by (simp add: add_color_def builder_ok_both builder_ok_plain takes_def)

lemma builder_ok_base: "builder_ok b \<Longrightarrow> builder_ok (base_filters f b)"
  unfolding base_filters_def Let_def
  by (intro builder_ok_text builder_ok_opt builder_ok_fold builder_ok_color builder_ok_both builder_ok_main builder_ok_plain
      builder_ok_if) (simp_all add: takes_def)

lemma builder_ok_all: "builder_ok b \<Longrightarrow> builder_ok (all_filters f b)"
  by (simp add: all_filters_def Let_def builder_ok_base builder_ok_both takes_def)

lemma all_filters_base:
  "\<exists>cs vs. bd_conds (all_filters f b) = bd_conds (base_filters f b) @ cs \<and> bd_vals (all_filters f b) = bd_vals (base_filters f b) @ vs"
  by (simp add: all_filters_def Let_def add_both_def add_main_def add_rf_def)

lemma query_typed_plain: "query_typed (plain_query cs c vs) \<longleftrightarrow> typed cs vs"
  by (simp add: query_typed_def plain_query_def typed_def)

lemma promo_facet_query_base:
  "promo_facet_query f = plain_query (bd_conds (base_filters f new_builder)) False (bd_vals (base_filters f new_builder))"
proof -
  obtain cs vs where "bd_conds (all_filters f new_builder) = bd_conds (base_filters f new_builder) @ cs"
    "bd_vals (all_filters f new_builder) = bd_vals (base_filters f new_builder) @ vs"
    using all_filters_base by blast
  then show ?thesis by (simp add: promo_facet_query_def Let_def)
qed

lemma count_query_all:
  "count_query f = plain_query (bd_conds (all_filters f new_builder)) (fi_collapse f) (bd_vals (all_filters f new_builder))"
  by (simp add: count_query_def Let_def)


section \<open>The facets leave out their own filter\<close>

text \<open>The second list of a builder as the first one of another.\<close>

definition follows :: "builder \<Rightarrow> builder \<Rightarrow> bool" where
  "follows b b' \<longleftrightarrow> bd_rf_conds b = bd_conds b' \<and> bd_rf_vals b = bd_vals b' \<and> bd_rf_counter b = bd_counter b'"

lemma follows_both: "follows b b' \<Longrightarrow> follows (add_both c v b) (add_both c v b')"
  by (simp add: follows_def add_both_def add_main_def add_rf_def)

lemma follows_main: "follows b b' \<Longrightarrow> follows (add_main c v b) b'"
  by (simp add: follows_def add_main_def)

lemma follows_plain: "follows b b' \<Longrightarrow> follows (add_plain c b) (add_plain c b')"
  by (simp add: follows_def add_plain_def)

lemma follows_text: "follows b b' \<Longrightarrow> follows (add_text c t b) (add_text c t b')"
  by (simp add: add_text_def follows_both)

lemma follows_opt: "follows b b' \<Longrightarrow> follows (add_opt c g x b) (add_opt c g x b')"
  by (simp add: add_opt_def follows_both split: option.split)

lemma follows_fold: "follows b b' \<Longrightarrow> (\<And>x b b'. follows b b' \<Longrightarrow> follows (g x b) (g x b')) \<Longrightarrow> follows (fold g xs b) (fold g xs b')"
  by (induction xs arbitrary: b b') auto

lemma follows_color: "follows b b' \<Longrightarrow> follows (add_color c b) (add_color c b')"
  by (simp add: add_color_def follows_both follows_plain)

lemma follows_if: "(P \<Longrightarrow> follows a a') \<Longrightarrow> (\<not> P \<Longrightarrow> follows b b') \<Longrightarrow> follows (if P then a else b) (if P then a' else b')"
  by simp

lemma follows_if_main: "follows b b' \<Longrightarrow> follows (if P then b else add_main c v b) b'"
  by (simp add: follows_main)

lemma follows_base: "follows b b' \<Longrightarrow> follows (base_filters f b) (base_filters (f\<lparr>fi_rarity := []\<rparr>) b')"
  by (cases f, simp only: base_filters_def Let_def filters.simps if_True simp_thms)
    (intro follows_if follows_text follows_opt follows_fold follows_color follows_both follows_plain follows_if_main)

lemma follows_all: "follows (all_filters f new_builder) (all_filters (f\<lparr>fi_rarity := []\<rparr>) new_builder)"
proof -
  have "follows new_builder new_builder" by (simp add: follows_def new_builder_def)
  then show ?thesis
    using follows_base [of new_builder new_builder f] by (simp add: all_filters_def Let_def follows_both)
qed

text \<open>
  Each facet query is the count query of the same search without the filter of the facet, so choosing a promo
  type or a rarity never hides the others.
\<close>

theorem facets_ignore_own_filter:
  "promo_facet_query f = count_query (f\<lparr>fi_promo_type := [], fi_collapse := False\<rparr>) \<and>
   rarity_facet_query f = count_query (f\<lparr>fi_rarity := [], fi_collapse := False\<rparr>)"
proof
  have "base_filters (f\<lparr>fi_promo_type := [], fi_collapse := False\<rparr>) b = base_filters f b" for b
    by (cases f) (simp only: base_filters_def filters.simps)
  then show "promo_facet_query f = count_query (f\<lparr>fi_promo_type := [], fi_collapse := False\<rparr>)"
    by (simp add: promo_facet_query_base count_query_all all_filters_def Let_def)
  have "base_filters (f\<lparr>fi_rarity := [], fi_collapse := False\<rparr>) b = base_filters (f\<lparr>fi_rarity := []\<rparr>) b" for b
    by (cases f) (simp only: base_filters_def filters.simps)
  then have "all_filters (f\<lparr>fi_rarity := [], fi_collapse := False\<rparr>) b = all_filters (f\<lparr>fi_rarity := []\<rparr>) b" for b
    by (simp add: all_filters_def Let_def)
  then show "rarity_facet_query f = count_query (f\<lparr>fi_rarity := [], fi_collapse := False\<rparr>)"
    using follows_all [of f] by (simp add: rarity_facet_query_def count_query_all Let_def follows_def)
qed

section \<open>The order never quotes the caller\<close>

definition sortable :: "ustr list" where
  "sortable = lit ''released_at'' # lit ''price'' # view_cols"

lemma order_sanitised:
  "order_sql outer name oracle s d =
   order_sql outer name oracle (if s \<in> set sortable then s else lit ''card_name'') (sort_dir d)"
proof -
  have "sort_dir (sort_dir d) = sort_dir d"
    by (simp add: sort_dir_def upper_def upper_cp_def)
  moreover have "lit ''card_name'' \<in> set view_cols" "lit ''card_name'' \<noteq> lit ''released_at''" "lit ''card_name'' \<noteq> lit ''price''"
    by (simp_all add: view_cols_def del: lit_simps)
  ultimately show ?thesis
    by (auto simp: order_sql_def order_body_def sortable_def Let_def simp del: lit_simps split: option.split)
qed

end
