(* ===== verification/Card_Prices.thy ===== *)
theory Card_Prices
  imports Py_Text
begin

text \<open>
  Prices of cards: the Redis cache in front of the price view
  (\<open>CardReferenceRepository._fetch_prices_for_cards\<close>), and the price history of a card
  (\<open>get_price_history\<close> and the service \<open>card_catalog.card.get_price_history\<close>).

  Dates are proleptic ordinals as in Python's \<open>date.toordinal\<close>; day 1 is a Monday. Expiry of the cache is not
  modelled.
\<close>

section \<open>The cache of prices\<close>

record view_price_row =
  pw_price :: "rat option"
  pw_1d :: "rat option"
  pw_7d :: "rat option"
  pw_30d :: "rat option"
  pw_spark :: "rat list option"

record spark =
  sp_price :: "rat option"
  sp_1d :: rat
  sp_7d :: rat
  sp_30d :: rat
  sp_spark :: "rat list"
  sp_finish :: ustr

definition or_zero :: "rat option \<Rightarrow> rat" where
  "or_zero x = (case x of None \<Rightarrow> 0 | Some r \<Rightarrow> r)"

definition format_price :: "view_price_row \<Rightarrow> spark" where
  "format_price r =
     \<lparr>sp_price = pw_price r, sp_1d = or_zero (pw_1d r), sp_7d = or_zero (pw_7d r), sp_30d = or_zero (pw_30d r),
      sp_spark = (case pw_spark r of None \<Rightarrow> [] | Some xs \<Rightarrow> xs), sp_finish = lit ''non-foil''\<rparr>"

definition price_defaults :: spark where
  "price_defaults = \<lparr>sp_price = None, sp_1d = 0, sp_7d = 0, sp_30d = 0, sp_spark = [], sp_finish = lit ''non-foil''\<rparr>"

text \<open>An entry is readable or not; the server answers reads and writes or not.\<close>

datatype entry = Entry spark | Broken

record price_cache =
  ch_entries :: "(ustr, entry) dict"
  ch_readable :: bool
  ch_writable :: bool

text \<open>
  The loop over the answer of \<open>mget\<close>. A broken entry raises: what was read stays, and every card counts as missed.
\<close>

fun read_entries ::
  "ustr list \<Rightarrow> (ustr, entry) dict \<Rightarrow> ustr list \<Rightarrow> (ustr, spark) dict \<times> ustr list \<Rightarrow> (ustr, spark) dict \<times> ustr list" where
  "read_entries allids cache [] (res, miss) = (res, miss)"
| "read_entries allids cache (cid # cids) (res, miss) =
     (case dget cache cid of
        None \<Rightarrow> read_entries allids cache cids (res, miss @ [cid])
      | Some (Entry d) \<Rightarrow> read_entries allids cache cids (dset cid d res, miss)
      | Some Broken \<Rightarrow> (res, allids))"

definition cached_prices :: "price_cache \<Rightarrow> ustr list \<Rightarrow> (ustr, spark) dict \<times> ustr list" where
  "cached_prices c cids = (if ch_readable c then read_entries cids (ch_entries c) cids ([], []) else ([], cids))"

definition fresh_prices :: "(ustr, view_price_row) dict \<Rightarrow> ustr list \<Rightarrow> (ustr, spark) dict" where
  "fresh_prices view miss =
     fold (\<lambda>(cid, r). dset cid (format_price r)) (filter (\<lambda>(cid, _). cid \<in> set miss) view) []"

definition fetch_prices_for_cards ::
  "(ustr, view_price_row) dict \<Rightarrow> ustr list \<Rightarrow> price_cache \<Rightarrow> (ustr, spark) dict \<times> price_cache" where
  "fetch_prices_for_cards view cids c =
     (if cids = [] then ([], c)
      else case cached_prices c cids of (res, miss) \<Rightarrow>
        if miss = [] then (res, c)
        else let fresh = fresh_prices view miss in
          (dmerge res fresh,
           if fresh \<noteq> [] \<and> ch_writable c
           then c\<lparr>ch_entries := dmerge (ch_entries c) (map (\<lambda>(cid, d). (cid, Entry d)) fresh)\<rparr> else c))"

text \<open>\<open>{**row, **price_data.get(id, defaults)}\<close>: the prices that go with a row.\<close>

definition price_of_card :: "(ustr, spark) dict \<Rightarrow> ustr \<Rightarrow> spark" where
  "price_of_card prices cid = (case dget prices cid of None \<Rightarrow> price_defaults | Some d \<Rightarrow> d)"

text \<open>A cache is coherent with the view when each readable entry is what the view says.\<close>

definition coherent :: "(ustr, view_price_row) dict \<Rightarrow> price_cache \<Rightarrow> bool" where
  "coherent view c \<longleftrightarrow>
     (\<forall>cid d. dget (ch_entries c) cid = Some (Entry d) \<longrightarrow> map_option format_price (dget view cid) = Some d)"

definition agrees :: "(ustr, view_price_row) dict \<Rightarrow> (ustr, spark) dict \<Rightarrow> bool" where
  "agrees view res \<longleftrightarrow> (\<forall>cid d. dget res cid = Some d \<longrightarrow> map_option format_price (dget view cid) = Some d)"

definition priced :: "(ustr, spark) dict \<Rightarrow> ustr \<Rightarrow> bool" where
  "priced res cid \<longleftrightarrow> dget res cid \<noteq> None"

lemma priced_dset [simp]: "priced (dset x d res) cid \<longleftrightarrow> cid = x \<or> priced res cid"
  by (simp add: priced_def dget_dset)

lemma agrees_dset:
  "agrees view r \<Longrightarrow> map_option format_price (dget view x) = Some d \<Longrightarrow> agrees view (dset x d r)"
  unfolding agrees_def dget_dset by (metis option.inject)

lemma read_entries_spec:
  assumes "coherent view c" "agrees view (fst acc)" "read_entries allids (ch_entries c) cids acc = (res, miss)"
  shows "agrees view res \<and>
    (miss = allids \<or>
     (\<forall>cid. cid \<in> set cids \<union> set (snd acc) \<or> priced (fst acc) cid \<longrightarrow> cid \<in> set miss \<or> priced res cid))"
  using assms(2,3)
proof (induction cids arbitrary: acc)
  case Nil
  then show ?case by (cases acc) auto
next
  case (Cons x xs)
  obtain r m where acc: "acc = (r, m)" by (cases acc)
  show ?case
  proof (cases "dget (ch_entries c) x")
    case None
    then show ?thesis using Cons.IH [of "(r, m @ [x])"] Cons.prems by (auto simp: acc)
  next
    case (Some e)
    show ?thesis
    proof (cases e)
      case (Entry d)
      have "dget (ch_entries c) x = Some (Entry d)" using Some Entry by simp
      then have "map_option format_price (dget view x) = Some d" by (rule assms(1) [unfolded coherent_def, rule_format])
      with Cons.prems(1) have agree: "agrees view (fst (dset x d r, m))" by (simp add: agrees_dset acc)
      have "read_entries allids (ch_entries c) xs (dset x d r, m) = (res, miss)" using Cons.prems(2) Some Entry by (simp add: acc)
      from Cons.IH [OF agree this] show ?thesis unfolding acc fst_conv snd_conv priced_dset by fastforce
    next
      case Broken
      then show ?thesis using Cons.prems Some by (auto simp: acc)
    qed
  qed
qed

lemma fresh_fold:
  "dict_ok view \<Longrightarrow> dget (fold (\<lambda>(cid, r). dset cid (format_price r)) view d) cid =
     (case dget view cid of None \<Rightarrow> dget d cid | Some r \<Rightarrow> Some (format_price r))"
proof (induction view arbitrary: d)
  case (Cons p view)
  obtain k r where p: "p = (k, r)" by (cases p)
  from Cons.prems have "dict_ok view" "k \<notin> fst ` set view" by (simp_all add: p dict_ok_def)
  moreover from this have "dget view k = None" by (simp add: map_of_eq_None_iff)
  ultimately show ?case using Cons.IH [of "dset k (format_price r) d"] by (auto simp: p dget_dset split: option.splits)
qed simp

lemma dict_ok_filter: "dict_ok d \<Longrightarrow> dict_ok (filter P d)"
  by (induction d) (auto simp: dict_ok_def)

lemma dget_filter_key: "dict_ok d \<Longrightarrow> dget (filter (\<lambda>(k, _). Q k) d) k = (if Q k then dget d k else None)"
  by (induction d) (auto simp: dict_ok_def)

lemma dget_fresh:
  assumes "dict_ok view"
  shows "dget (fresh_prices view miss) cid = (if cid \<in> set miss then map_option format_price (dget view cid) else None)"
  using fresh_fold [OF dict_ok_filter [OF assms], of "\<lambda>(cid, _). cid \<in> set miss" "[]" cid]
    dget_filter_key [OF assms, of "\<lambda>cid. cid \<in> set miss" cid]
  by (auto simp: fresh_prices_def split: option.split)

lemma dict_ok_fresh: "dict_ok (fresh_prices view miss)"
proof -
  have "dict_ok (fold (\<lambda>(cid, r). dset cid (format_price r)) rows d)" if "dict_ok d" for rows d
    using that by (induction rows arbitrary: d) auto
  from this [of "[]"] show ?thesis by (simp add: fresh_prices_def)
qed

lemma dget_map_entry: "dget (map (\<lambda>(cid, d). (cid, Entry d)) d) cid = map_option Entry (dget d cid)"
  by (induction d) auto

lemma dict_ok_map_entry: "dict_ok d \<Longrightarrow> dict_ok (map (\<lambda>(cid, d). (cid, Entry d)) d)"
proof -
  have "dkeys (map (\<lambda>(cid, d). (cid, Entry d)) d) = dkeys d" by (induction d) auto
  then show "dict_ok d \<Longrightarrow> dict_ok (map (\<lambda>(cid, d). (cid, Entry d)) d)" by (simp only: dict_ok_def)
qed

text \<open>The three steps of a lookup: what the cache gives, the merge with the rows of the view, and the entries written back.\<close>

lemma cached_prices_agree:
  assumes "coherent view c" "cached_prices c cids = (hits, miss)"
  shows "agrees view hits \<and> (\<forall>cid \<in> set cids. cid \<in> set miss \<or> dget hits cid \<noteq> None)"
proof (cases "ch_readable c")
  case True
  then have run: "read_entries cids (ch_entries c) cids ([], []) = (hits, miss)" using assms(2) by (simp add: cached_prices_def)
  have "agrees view (fst ([] :: (ustr, spark) dict, [] :: ustr list))" by (simp add: agrees_def)
  from read_entries_spec [OF assms(1) this run] show ?thesis by (auto simp: priced_def)
next
  case False
  with assms(2) show ?thesis by (auto simp: cached_prices_def agrees_def)
qed

lemma agrees_look: "agrees view hits \<Longrightarrow> dget hits cid = None \<or> dget hits cid = map_option format_price (dget view cid)"
  unfolding agrees_def by (cases "dget hits cid") (simp, metis)

lemma merged_prices:
  assumes "dict_ok view" "agrees view hits" "cid \<in> set miss \<or> dget hits cid \<noteq> None"
  shows "dget (dmerge hits (fresh_prices view miss)) cid = map_option format_price (dget view cid)"
proof (cases "dget (fresh_prices view miss) cid")
  case None
  with assms(3) agrees_look [OF assms(2), of cid] show ?thesis
    using dget_fresh [OF assms(1), of miss cid] by (auto simp: dget_dmerge [OF dict_ok_fresh] split: if_splits)
next
  case (Some d)
  then show ?thesis using dget_fresh [OF assms(1), of miss cid]
    by (auto simp: dget_dmerge [OF dict_ok_fresh] split: if_splits)
qed

lemma written_coherent:
  assumes "dict_ok view" "coherent view c"
  shows "coherent view (c\<lparr>ch_entries := dmerge (ch_entries c) (map (\<lambda>(cid, d). (cid, Entry d)) (fresh_prices view miss))\<rparr>)"
proof (unfold coherent_def, intro allI impI)
  let ?fresh = "fresh_prices view miss"
  fix cid d
  assume "dget (ch_entries (c\<lparr>ch_entries := dmerge (ch_entries c) (map (\<lambda>(cid, d). (cid, Entry d)) ?fresh)\<rparr>)) cid =
    Some (Entry d)"
  then have e: "dget (dmerge (ch_entries c) (map (\<lambda>(cid, d). (cid, Entry d)) ?fresh)) cid = Some (Entry d)" by simp
  show "map_option format_price (dget view cid) = Some d"
  proof (cases "dget ?fresh cid")
    case None
    with e have "dget (ch_entries c) cid = Some (Entry d)"
      by (simp add: dget_dmerge [OF dict_ok_map_entry [OF dict_ok_fresh]] dget_map_entry)
    with assms(2) show ?thesis unfolding coherent_def by blast
  next
    case (Some d')
    with e have "d' = d" by (simp add: dget_dmerge [OF dict_ok_map_entry [OF dict_ok_fresh]] dget_map_entry)
    with Some show ?thesis by (simp add: dget_fresh [OF assms(1)] split: if_splits)
  qed
qed

text \<open>
  C20. Behind a cache that is coherent with the price view, every card gets the prices of the view, also when the
  server does not answer or holds broken entries, and the cache stays coherent.
\<close>

theorem fetch_prices_coherent:
  assumes "dict_ok view" "coherent view c" "fetch_prices_for_cards view cids c = (res, c')"
  shows "list_all (\<lambda>cid. dget res cid = map_option format_price (dget view cid)) cids \<and> coherent view c'"
proof (cases "cids = []")
  case True
  with assms show ?thesis by (simp add: fetch_prices_for_cards_def)
next
  case False
  obtain hits miss where cached: "cached_prices c cids = (hits, miss)" by fastforce
  from cached_prices_agree [OF assms(2) cached] have ag: "agrees view hits"
    and found: "\<forall>cid \<in> set cids. cid \<in> set miss \<or> dget hits cid \<noteq> None" by auto
  show ?thesis
  proof (cases "miss = []")
    case True
    then have "res = hits" "c' = c" using assms(3) False cached by (simp_all add: fetch_prices_for_cards_def)
    moreover have "dget hits cid = map_option format_price (dget view cid)" if "cid \<in> set cids" for cid
      using found that True agrees_look [OF ag, of cid] by fastforce
    ultimately show ?thesis using assms(2) by (simp add: list_all_iff)
  next
    case miss: False
    then have "res = dmerge hits (fresh_prices view miss)" "coherent view c'"
      using assms(3) False cached assms(2) written_coherent [OF assms(1,2), of miss]
      by (auto simp: fetch_prices_for_cards_def Let_def split: if_splits)
    with merged_prices [OF assms(1) ag] found show ?thesis by (simp add: list_all_iff)
  qed
qed

definition demo_view :: "(ustr, view_price_row) dict" where
  "demo_view = [(lit ''a'', \<lparr>pw_price = Some 3, pw_1d = None, pw_7d = Some 1, pw_30d = None, pw_spark = None\<rparr>)]"

definition demo_cache :: price_cache where
  "demo_cache = \<lparr>ch_entries = [(lit ''b'', Broken)], ch_readable = True, ch_writable = True\<rparr>"

lemma demo_coherent: "coherent demo_view demo_cache" "dict_ok demo_view"
  by (auto simp: coherent_def demo_cache_def demo_view_def dict_ok_def split: if_splits)

theorem fetch_prices_coherent_witness:
  "dget (fst (fetch_prices_for_cards demo_view [lit ''a'', lit ''b''] demo_cache)) (lit ''a'') =
     map_option format_price (dget demo_view (lit ''a'')) \<and>
   coherent demo_view (snd (fetch_prices_for_cards demo_view [lit ''a'', lit ''b''] demo_cache))"
proof -
  obtain res c' where run: "fetch_prices_for_cards demo_view [lit ''a'', lit ''b''] demo_cache = (res, c')" by fastforce
  from fetch_prices_coherent [OF demo_coherent(2,1) run] run show ?thesis by simp
qed

section \<open>Price history\<close>

text \<open>
  A row of the daily table (with the code of its finish and the currency of its source), and one of the weekly table.
\<close>

record daily_price =
  dp_version :: ustr
  dp_date :: int
  dp_finish :: ustr
  dp_currency :: ustr
  dp_list :: "rat option"
  dp_sold :: "rat option"

record history_tables =
  ht_daily :: "daily_price list"
  ht_weekly :: "daily_price list"

text \<open>SQL's \<open>AVG\<close> skips nulls; \<open>COALESCE\<close>; \<open>date_trunc('week', d)\<close>.\<close>

definition sql_avg :: "rat option list \<Rightarrow> rat option" where
  "sql_avg xs = (let ys = map the (filter (\<lambda>x. x \<noteq> None) xs)
                 in if ys = [] then None else Some (sum_list ys / of_nat (length ys)))"

definition coalesce :: "'a option \<Rightarrow> 'a option \<Rightarrow> 'a option" where
  "coalesce x y = (case x of None \<Rightarrow> y | Some v \<Rightarrow> Some v)"

definition week_of :: "int \<Rightarrow> int" where
  "week_of d = d - (d - 1) mod 7"

definition cents :: "rat option \<Rightarrow> rat option" where
  "cents = map_option (\<lambda>c. c / 100)"

text \<open>The aggregated row of a group; the left join gives nulls for an empty one.\<close>

definition group_row :: "daily_price list \<Rightarrow> rat option \<times> rat option" where
  "group_row rs = (cents (coalesce (sql_avg (map dp_list rs)) (sql_avg (map dp_sold rs))), cents (sql_avg (map dp_sold rs)))"

definition scoped :: "ustr \<Rightarrow> int \<Rightarrow> int \<Rightarrow> ustr option \<Rightarrow> ustr \<Rightarrow> daily_price list \<Rightarrow> daily_price list" where
  "scoped v start stop finish currency rows =
     filter (\<lambda>r. dp_version r = v \<and> start \<le> dp_date r \<and> dp_date r \<le> stop \<and>
        (case finish of None \<Rightarrow> True | Some f \<Rightarrow> f = [] \<or> dp_finish r = upper f) \<and> dp_currency r = upper currency) rows"

definition daily_history ::
  "history_tables \<Rightarrow> ustr \<Rightarrow> int \<Rightarrow> int \<Rightarrow> ustr option \<Rightarrow> ustr \<Rightarrow> (int \<times> rat option \<times> rat option) list" where
  "daily_history t v start stop finish currency =
     (let rows = scoped v start stop finish currency (ht_daily t)
      in map (\<lambda>d. (d, group_row (filter (\<lambda>r. dp_date r = d) rows))) [start..stop])"

definition weekly_history ::
  "history_tables \<Rightarrow> ustr \<Rightarrow> int \<Rightarrow> int \<Rightarrow> ustr option \<Rightarrow> ustr \<Rightarrow> (int \<times> rat option \<times> rat option) list" where
  "weekly_history t v start stop finish currency =
     (let tier2 = scoped v start stop finish currency (ht_daily t);
          tier3 = scoped v start stop finish currency (ht_weekly t)
      in map (\<lambda>w. let rs = filter (\<lambda>r. week_of (dp_date r) = w) tier2
                  in (w, group_row (if rs \<noteq> [] then rs else filter (\<lambda>r. dp_date r = w) tier3)))
           (filter (\<lambda>w. week_of w = w) [week_of start..stop]))"

definition get_price_history ::
  "history_tables \<Rightarrow> ustr \<Rightarrow> int \<Rightarrow> int \<Rightarrow> ustr option \<Rightarrow> string \<Rightarrow> ustr \<Rightarrow>
   rat option list \<times> rat option list \<times> int list" where
  "get_price_history t v start stop finish aggregation currency =
     (let rows = (if aggregation = ''weekly'' then weekly_history t v start stop finish currency
                  else daily_history t v start stop finish currency)
      in (map (\<lambda>(_, l, _). l) rows, map (\<lambda>(_, _, s). s) rows, map fst rows))"

text \<open>The service; its cache maps the arguments to the stored answer.\<close>

record history_answer =
  ha_list :: "rat option list"
  ha_sold :: "rat option list"
  ha_start :: int
  ha_stop :: int
  ha_days :: "int option"

type_synonym history_key = "ustr \<times> ustr option \<times> int option \<times> string \<times> ustr"

definition first_day :: int where
  "first_day = 730120"

definition get_card_price_history ::
  "history_tables \<Rightarrow> int \<Rightarrow> ustr \<Rightarrow> int option \<Rightarrow> ustr option \<Rightarrow> string \<Rightarrow> ustr \<Rightarrow>
   (history_key, history_answer) dict \<Rightarrow> history_answer \<times> (history_key, history_answer) dict" where
  "get_card_price_history t today v days_back finish aggregation currency cache =
     (let key = (v, finish, days_back, aggregation, currency) in
      case dget cache key of
        Some a \<Rightarrow> (a, cache)
      | None \<Rightarrow>
          let start = (case days_back of None \<Rightarrow> first_day | Some n \<Rightarrow> today - n);
              (ls, ss, _) = get_price_history t v start today finish aggregation currency;
              a = \<lparr>ha_list = ls, ha_sold = ss, ha_start = start, ha_stop = today, ha_days = days_back\<rparr>
          in (a, dset key a cache))"

text \<open>
  A price history that is not cached has one entry for each of the days from the first to today, both included;
  the entry of a day averages the rows of that day in the currency asked for, and a later request with the same
  arguments gets the same answer, whatever the tables say by then.
\<close>

theorem price_history_dense:
  assumes "dget cache (v, finish, Some n, ''daily'', currency) = None" "0 \<le> n"
    and "get_card_price_history t today v (Some n) finish ''daily'' currency cache = (a, cache')"
  shows "length (ha_list a) = nat n + 1 \<and> ha_start a = today - n \<and> ha_stop a = today \<and>
    (\<forall>k \<le> nat n. (ha_list a ! k, ha_sold a ! k) =
       group_row (filter (\<lambda>r. dp_date r = today - n + int k) (scoped v (today - n) today finish currency (ht_daily t)))) \<and>
    get_card_price_history t' later v (Some n) finish ''daily'' currency cache' = (a, cache')"
proof -
  have nth: "[today - n..today] ! k = today - n + int k" if "k \<le> nat n" for k
    using that assms(2) by (intro nth_upto) auto
  show ?thesis
    using assms nth
    by (auto simp: get_card_price_history_def get_price_history_def daily_history_def Let_def dget_dset case_prod_beta)
qed

definition demo_history :: history_tables where
  "demo_history =
     \<lparr>ht_daily = [\<lparr>dp_version = lit ''a'', dp_date = 9, dp_finish = lit ''FOIL'', dp_currency = lit ''USD'',
                   dp_list = Some 250, dp_sold = None\<rparr>], ht_weekly = []\<rparr>"

lemma demo_group:
  "group_row (filter (\<lambda>r. dp_date r = 9) (scoped (lit ''a'') 8 10 None (lit ''usd'') (ht_daily demo_history))) = (Some (5/2), None)"
  by (simp add: demo_history_def scoped_def upper_def upper_cp_def group_row_def sql_avg_def coalesce_def cents_def)

theorem price_history_dense_witness:
  "ha_list (fst (get_card_price_history demo_history 10 (lit ''a'') (Some 2) None ''daily'' (lit ''usd'') [])) ! 1 = Some (5/2)"
proof -
  obtain a cache' where run: "get_card_price_history demo_history 10 (lit ''a'') (Some 2) None ''daily'' (lit ''usd'') [] = (a, cache')"
    by fastforce
  have "(ha_list a ! 1, ha_sold a ! 1) =
      group_row (filter (\<lambda>r. dp_date r = 10 - 2 + int 1) (scoped (lit ''a'') (10 - 2) 10 None (lit ''usd'') (ht_daily demo_history)))"
    using price_history_dense [OF _ _ run, of demo_history 10] by (auto simp del: lit_simps)
  with demo_group have "ha_list a ! 1 = Some (5/2)" by (simp del: lit_simps)
  with run show ?thesis by simp
qed

section \<open>The first week of a weekly history\<close>

text \<open>
  The weekly series starts with the week of the first day, but the weekly table is read from the first day on: unless
  that day is a Monday, the first week has no price without daily rows, whatever the weekly table holds.
\<close>

lemma week_of_le: "week_of d \<le> d"
  by (simp add: week_of_def)

lemma week_of_idem: "week_of (week_of d) = week_of d"
proof -
  have "week_of d - 1 = 7 * ((d - 1) div 7)"
    using minus_mod_eq_mult_div [of "d - 1" 7] by (simp add: week_of_def)
  then have "(week_of d - 1) mod 7 = 0" by simp
  then show ?thesis by (simp add: week_of_def [of "week_of d"])
qed

lemma weekly_first_week_lost:
  assumes "week_of start \<noteq> start" "start \<le> stop" "scoped v start stop finish currency (ht_daily t) = []"
  shows "hd (weekly_history t v start stop finish currency) = (week_of start, None, None)"
proof -
  have lt: "week_of start < start" using assms(1) week_of_le [of start] by simp
  have hd: "filter (\<lambda>w. week_of w = w) [week_of start..stop] = week_of start # filter (\<lambda>w. week_of w = w) [week_of start + 1..stop]"
    using lt assms(2) week_of_idem [of start] by (subst upto.simps) simp
  have "filter (\<lambda>r. dp_date r = week_of start) (scoped v start stop finish currency (ht_weekly t)) = []"
    using lt by (auto simp: scoped_def filter_empty_conv)
  then show ?thesis
    unfolding weekly_history_def Let_def hd assms(3)
    by (simp add: group_row_def sql_avg_def coalesce_def cents_def)
qed

end
