(* ===== verification/Collections.thy ===== *)
theory Collections
  imports Prelude
begin

text \<open>
  The collections of a user: \<open>CollectionRepository\<close> (\<open>card_catalog/collection_repository.py\<close>) on its two tables
  and the services of \<open>card_catalog/collection_service.py\<close>, with the models of \<open>models/collections/collection.py\<close>.

  The card catalog, the prices and the eBay listings are read-only and a parameter (\<open>catalog\<close>). A fresh identifier
  is the counter \<open>us_next\<close>. Columns that the services only hand through are the type \<open>'m\<close>.
\<close>

section \<open>Tables\<close>

record collection =
  cl_id :: nat
  cl_user :: nat
  cl_name :: string
  cl_description :: string
  cl_active :: "bool option"

datatype entry_status = Purchased | Listed | Stashed | Sold

record 'm item =
  it_id :: nat
  it_collection :: nat
  it_version :: nat
  it_finish :: int
  it_status :: entry_status
  it_ebay :: "string option"
  it_wishlist :: bool
  it_more :: 'm

record 'm user_tables =
  us_collections :: "collection list"
  us_items :: "'m item list"
  us_next :: nat

text \<open>
  The catalog: the version of a Scryfall id and of a set and collector number, the versions that exist, the one-day
  price change in the price view (absent for a card without a price), whether an eBay listing is known and has ended.
\<close>

record catalog =
  ct_scryfall :: "string \<Rightarrow> nat option"
  ct_number :: "string option \<Rightarrow> string option \<Rightarrow> nat option"
  ct_known :: "nat \<Rightarrow> bool"
  ct_change :: "nat \<Rightarrow> rat option"
  ct_listing :: "string \<Rightarrow> bool option"

section \<open>Collections\<close>

definition get_coll :: "nat \<Rightarrow> nat \<Rightarrow> 'm user_tables \<Rightarrow> collection option" where
  "get_coll cid u s = find (\<lambda>c. cl_user c = u \<and> cl_active c = Some True \<and> cl_id c = cid) (us_collections s)"

definition repo_add_collection :: "string \<Rightarrow> string \<Rightarrow> nat \<Rightarrow> ('m user_tables, collection) prog" where
  "repo_add_collection name desc u s =
     (if \<exists>c \<in> set (us_collections s). cl_name c = name \<and> cl_user c = u then (Inl DbErr, s)
      else let c = \<lparr>cl_id = us_next s, cl_user = u, cl_name = name, cl_description = desc, cl_active = Some True\<rparr>
           in (Inr c, s\<lparr>us_collections := us_collections s @ [c], us_next := Suc (us_next s)\<rparr>))"

definition repo_get_all :: "nat \<Rightarrow> 'm user_tables \<Rightarrow> collection list" where
  "repo_get_all u s = filter (\<lambda>c. cl_user c = u \<and> cl_active c = Some True) (us_collections s)"

definition repo_get_many :: "nat \<Rightarrow> nat list \<Rightarrow> 'm user_tables \<Rightarrow> collection list" where
  "repo_get_many u cids s = filter (\<lambda>c. cl_id c \<in> set cids) (repo_get_all u s)"

definition repo_delete_collection :: "nat \<Rightarrow> nat \<Rightarrow> ('m user_tables, unit) prog" where
  "repo_delete_collection cid u s =
     (Inr (), s\<lparr>us_collections :=
        map (\<lambda>c. if cl_id c = cid \<and> cl_user c = u then c\<lparr>cl_active := Some False\<rparr> else c) (us_collections s)\<rparr>)"

text \<open>The fields of an update that were set, possibly to null.\<close>

record update_collection =
  uc_name :: "string option option"
  uc_description :: "string option option"
  uc_active :: "bool option option"

definition no_fields :: "update_collection \<Rightarrow> bool" where
  "no_fields f \<longleftrightarrow> uc_name f = None \<and> uc_description f = None \<and> uc_active f = None"

definition apply_fields :: "update_collection \<Rightarrow> collection \<Rightarrow> collection" where
  "apply_fields f c =
     c\<lparr>cl_name := (case uc_name f of Some (Some n) \<Rightarrow> n | _ \<Rightarrow> cl_name c),
       cl_description := (case uc_description f of Some (Some d) \<Rightarrow> d | _ \<Rightarrow> cl_description c),
       cl_active := (case uc_active f of None \<Rightarrow> cl_active c | Some a \<Rightarrow> a)\<rparr>"

text \<open>The update is refused when it sets a name or a description to null, or takes a name of the user a second time.\<close>

definition repo_update_collection :: "update_collection \<Rightarrow> nat \<Rightarrow> nat \<Rightarrow> ('m user_tables, unit) prog" where
  "repo_update_collection f cid u s =
     (let hit = (\<lambda>c. cl_id c = cid \<and> cl_user c = u) in
      if list_ex hit (us_collections s) \<and>
         (uc_name f = Some None \<or> uc_description f = Some None \<or>
          (case uc_name f of Some (Some n) \<Rightarrow> \<exists>c \<in> set (us_collections s). cl_user c = u \<and> cl_name c = n \<and> cl_id c \<noteq> cid | _ \<Rightarrow> False))
      then (Inl DbErr, s)
      else (Inr (), s\<lparr>us_collections := map (\<lambda>c. if hit c then apply_fields f c else c) (us_collections s)\<rparr>))"

text \<open>The services.\<close>

definition wrap :: "pyexc list \<Rightarrow> pyexc \<Rightarrow> ('s, 'a) prog \<Rightarrow> ('s, 'a) prog" where
  "wrap through e m = catchp m (\<lambda>x. throw (if x \<in> set through then x else e))"

definition add_collection :: "string \<Rightarrow> string \<Rightarrow> nat \<Rightarrow> ('m user_tables, collection) prog" where
  "add_collection name desc u = wrap [CollectionCreationErr] CollectionCreationErr (repo_add_collection name desc u)"

definition get_collection :: "nat \<Rightarrow> nat \<Rightarrow> ('m user_tables, collection) prog" where
  "get_collection cid u s =
     (case get_coll cid u s of None \<Rightarrow> (Inl CollectionNotFoundErr, s) | Some c \<Rightarrow> (Inr c, s))"

definition get_all_collections :: "nat \<Rightarrow> ('m user_tables, collection list) prog" where
  "get_all_collections u s = (Inr (repo_get_all u s), s)"

definition get_many :: "nat \<Rightarrow> nat list \<Rightarrow> ('m user_tables, collection list) prog" where
  "get_many u cids s =
     (if cids = [] then (Inl CollectionRetrievalErr, s)
      else if repo_get_many u cids s = [] then (Inl CollectionNotFoundErr, s) else (Inr (repo_get_many u cids s), s))"

definition update_coll :: "update_collection \<Rightarrow> nat \<Rightarrow> nat \<Rightarrow> ('m user_tables, unit) prog" where
  "update_coll f cid u =
     (if no_fields f then throw CollectionUpdateErr
      else wrap [CollectionNotFoundErr] CollectionUpdateErr (repo_update_collection f cid u))"

definition delete_collection :: "nat \<Rightarrow> nat \<Rightarrow> ('m user_tables, bool) prog" where
  "delete_collection cid u =
     wrap [CollectionNotFoundErr] CollectionDeleteErr (bindp (repo_delete_collection cid u) (\<lambda>_. ret True))"

section \<open>Entries\<close>

definition owns :: "nat \<Rightarrow> nat \<Rightarrow> 'm user_tables \<Rightarrow> bool" where
  "owns u cid s \<longleftrightarrow> (\<exists>c \<in> set (us_collections s). cl_id c = cid \<and> cl_user c = u)"

text \<open>A row of \<open>get_entry\<close>: the item with its price change and its status.\<close>

record 'm entry_row =
  er_item :: "'m item"
  er_change :: "rat option"
  er_status :: entry_status

definition entry_row_of :: "catalog \<Rightarrow> 'm item \<Rightarrow> 'm entry_row" where
  "entry_row_of ct i =
     \<lparr>er_item = i, er_change = ct_change ct (it_version i),
      er_status = (case it_ebay i of
                     None \<Rightarrow> it_status i
                   | Some e \<Rightarrow> if ct_listing ct e = Some False then Listed else it_status i)\<rparr>"

definition visible :: "catalog \<Rightarrow> nat \<Rightarrow> nat \<Rightarrow> 'm user_tables \<Rightarrow> 'm item \<Rightarrow> bool" where
  "visible ct cid u s i \<longleftrightarrow> it_collection i = cid \<and> owns u cid s \<and> ct_known ct (it_version i)"

definition repo_get_entry :: "catalog \<Rightarrow> nat \<Rightarrow> nat \<Rightarrow> nat \<Rightarrow> 'm user_tables \<Rightarrow> 'm entry_row option" where
  "repo_get_entry ct iid cid u s =
     map_option (entry_row_of ct) (find (\<lambda>i. it_id i = iid \<and> visible ct cid u s i) (us_items s))"

text \<open>The order of the rows is the parameter \<open>srt\<close> (purchase date and identifier).\<close>

definition repo_get_all_entries ::
  "catalog \<Rightarrow> ('m item list \<Rightarrow> 'm item list) \<Rightarrow> nat \<Rightarrow> nat \<Rightarrow> nat \<Rightarrow> nat \<Rightarrow> bool option \<Rightarrow> 'm user_tables \<Rightarrow> 'm entry_row list" where
  "repo_get_all_entries ct srt cid u limit offset wish s =
     map (entry_row_of ct) (take limit (drop offset (srt
       (filter (\<lambda>i. visible ct cid u s i \<and> (case wish of None \<Rightarrow> True | Some b \<Rightarrow> it_wishlist i = b)) (us_items s)))))"

record 'm new_entry =
  ne_version :: "nat option"
  ne_scryfall :: "string option"
  ne_set :: "string option"
  ne_number :: "string option"
  ne_finish :: string
  ne_status :: entry_status
  ne_ebay :: "string option"
  ne_wishlist :: bool
  ne_more :: 'm

text \<open>\<open>AddCollectionEntryRequest.check_identifier\<close>.\<close>

definition check_identifier :: "'m new_entry \<Rightarrow> 'm new_entry res" where
  "check_identifier r =
     (if ne_version r \<noteq> None \<or> ne_scryfall r \<noteq> None \<or> (ne_set r \<noteq> None \<and> ne_number r \<noteq> None)
      then Inr r else Inl ValidationErr)"

definition finish_ids :: "(string, int) dict" where
  "finish_ids = [(''NONFOIL'', 1), (''FOIL'', 2), (''ETCHED'', 3)]"

definition repo_add_entry ::
  "catalog \<Rightarrow> nat \<Rightarrow> nat \<Rightarrow> nat \<Rightarrow> int \<Rightarrow> 'm new_entry \<Rightarrow> ('m user_tables, 'm item option) prog" where
  "repo_add_entry ct cid u v finish r s =
     (if \<not> owns u cid s then (Inr None, s)
      else if \<not> ct_known ct v then (Inl DbErr, s)
      else let i = \<lparr>it_id = us_next s, it_collection = cid, it_version = v, it_finish = finish, it_status = ne_status r,
                    it_ebay = ne_ebay r, it_wishlist = ne_wishlist r, it_more = ne_more r\<rparr>
           in (Inr (Some i), s\<lparr>us_items := us_items s @ [i], us_next := Suc (us_next s)\<rparr>))"

definition repo_update_entry_status :: "nat \<Rightarrow> nat \<Rightarrow> nat \<Rightarrow> entry_status \<Rightarrow> ('m user_tables, bool) prog" where
  "repo_update_entry_status iid cid u st s =
     (let hit = (\<lambda>i. it_id i = iid \<and> it_collection i = cid \<and> owns u cid s)
      in (Inr (list_ex hit (us_items s)), s\<lparr>us_items := map (\<lambda>i. if hit i then i\<lparr>it_status := st\<rparr> else i) (us_items s)\<rparr>))"

definition repo_delete_entry :: "nat \<Rightarrow> nat \<Rightarrow> nat \<Rightarrow> ('m user_tables, bool) prog" where
  "repo_delete_entry iid cid u s =
     (let hit = (\<lambda>i. it_id i = iid \<and> it_collection i = cid \<and> owns u cid s)
      in (Inr (list_ex hit (us_items s)), s\<lparr>us_items := filter (\<lambda>i. \<not> hit i) (us_items s)\<rparr>))"

text \<open>
  \<open>PublicCollectionEntry.model_validate\<close>: no row is no entry, and the price change of an entry is a number.
\<close>

definition validate_entry :: "'m entry_row option \<Rightarrow> 'm entry_row res" where
  "validate_entry r =
     (case r of None \<Rightarrow> Inl ValidationErr | Some e \<Rightarrow> if er_change e = None then Inl ValidationErr else Inr e)"

definition resolve_version :: "catalog \<Rightarrow> 'm new_entry \<Rightarrow> nat res" where
  "resolve_version ct r =
     (case ne_version r of
        Some v \<Rightarrow> Inr v
      | None \<Rightarrow>
          (case (if ne_scryfall r \<noteq> None \<and> ne_scryfall r \<noteq> Some [] then ct_scryfall ct (the (ne_scryfall r))
                 else ct_number ct (ne_set r) (ne_number r)) of
             None \<Rightarrow> Inl CollectionCreationErr
           | Some v \<Rightarrow> Inr v))"

definition add_entry :: "catalog \<Rightarrow> nat \<Rightarrow> nat \<Rightarrow> 'm new_entry \<Rightarrow> ('m user_tables, 'm entry_row) prog" where
  "add_entry ct cid u r s =
     (case resolve_version ct r of
        Inl e \<Rightarrow> (Inl e, s)
      | Inr v \<Rightarrow>
          if get_coll cid u s = None then (Inl CollectionNotFoundErr, s)
          else (case dget finish_ids (ne_finish r) of
             None \<Rightarrow> (Inl CollectionCreationErr, s)
           | Some f \<Rightarrow>
               bindp (repo_add_entry ct cid u v f r) (\<lambda>row s'.
                 case row of
                   None \<Rightarrow> (Inl CollectionNotFoundErr, s')
                 | Some i \<Rightarrow> (validate_entry (repo_get_entry ct (it_id i) cid u s'), s')) s))"

definition update_entry_status ::
  "catalog \<Rightarrow> nat \<Rightarrow> nat \<Rightarrow> entry_status \<Rightarrow> nat \<Rightarrow> ('m user_tables, 'm entry_row) prog" where
  "update_entry_status ct cid iid st u =
     bindp (repo_update_entry_status iid cid u st) (\<lambda>done s'.
       if \<not> done then (Inl CollectionNotFoundErr, s') else (validate_entry (repo_get_entry ct iid cid u s'), s'))"

fun validate_all :: "'m entry_row list \<Rightarrow> 'm entry_row list res" where
  "validate_all [] = Inr []"
| "validate_all (r # rs) = bind_res (validate_entry (Some r)) (\<lambda>e. bind_res (validate_all rs) (\<lambda>es. Inr (e # es)))"

definition list_entries ::
  "catalog \<Rightarrow> ('m item list \<Rightarrow> 'm item list) \<Rightarrow> nat \<Rightarrow> nat \<Rightarrow> nat \<Rightarrow> nat \<Rightarrow> bool option \<Rightarrow> ('m user_tables, 'm entry_row list) prog" where
  "list_entries ct srt cid u limit offset wish s =
     (if get_coll cid u s = None then (Inl CollectionNotFoundErr, s)
      else (validate_all (repo_get_all_entries ct srt cid u limit offset wish s), s))"

definition get_entry :: "catalog \<Rightarrow> nat \<Rightarrow> nat \<Rightarrow> nat \<Rightarrow> ('m user_tables, 'm entry_row) prog" where
  "get_entry ct cid iid u s =
     (case repo_get_entry ct iid cid u s of
        None \<Rightarrow> (Inl CollectionNotFoundErr, s)
      | Some r \<Rightarrow> (validate_entry (Some r), s))"

definition delete_entry :: "nat \<Rightarrow> nat \<Rightarrow> nat \<Rightarrow> ('m user_tables, unit) prog" where
  "delete_entry cid iid u =
     bindp (repo_delete_entry iid cid u) (\<lambda>done. if done then ret () else throw CollectionNotFoundErr)"

section \<open>Requests\<close>

text \<open>The requests that change the tables, with their user. The service manager rolls back a service that raises.\<close>

datatype 'm request =
    AddColl string string
  | UpdateColl update_collection nat
  | DeleteColl nat
  | AddEntry nat "'m new_entry"
  | SetStatus nat nat entry_status
  | DeleteEntry nat nat

definition outcome :: "('s, 'a) prog \<Rightarrow> 's \<Rightarrow> 's" where
  "outcome m s = (case m s of (Inl _, _) \<Rightarrow> s | (Inr _, s') \<Rightarrow> s')"

fun serve :: "catalog \<Rightarrow> nat \<times> 'm request \<Rightarrow> 'm user_tables \<Rightarrow> 'm user_tables" where
  "serve ct (u, AddColl n d) = outcome (add_collection n d u)"
| "serve ct (u, UpdateColl f cid) = outcome (update_coll f cid u)"
| "serve ct (u, DeleteColl cid) = outcome (delete_collection cid u)"
| "serve ct (u, AddEntry cid r) = outcome (add_entry ct cid u r)"
| "serve ct (u, SetStatus cid iid st) = outcome (update_entry_status ct cid iid st u)"
| "serve ct (u, DeleteEntry cid iid) = outcome (delete_entry cid iid u)"

definition no_tables :: "'m user_tables" where
  "no_tables = \<lparr>us_collections = [], us_items = [], us_next = 0\<rparr>"

text \<open>What belongs to a user.\<close>

definition colls_of :: "nat \<Rightarrow> 'm user_tables \<Rightarrow> collection list" where
  "colls_of u s = filter (\<lambda>c. cl_user c = u) (us_collections s)"

definition items_of :: "nat \<Rightarrow> 'm user_tables \<Rightarrow> 'm item list" where
  "items_of u s = filter (\<lambda>i. owns u (it_collection i) s) (us_items s)"

text \<open>Collection identifiers are fresh and unique, and every item is in a collection.\<close>

definition tables_ok :: "'m user_tables \<Rightarrow> bool" where
  "tables_ok s \<longleftrightarrow>
     distinct (map cl_id (us_collections s)) \<and> (\<forall>c \<in> set (us_collections s). cl_id c < us_next s) \<and>
     (\<forall>i \<in> set (us_items s). \<exists>u. owns u (it_collection i) s)"

text \<open>One statement of a user: a new collection, new values for an own one, a new or changed item of an own one.\<close>

inductive own_write :: "nat \<Rightarrow> 'm user_tables \<Rightarrow> 'm user_tables \<Rightarrow> bool" for u where
  same: "own_write u s s"
| new_coll: "cl_user c = u \<Longrightarrow> cl_id c = us_next s \<Longrightarrow>
    own_write u s (s\<lparr>us_collections := us_collections s @ [c], us_next := Suc (us_next s)\<rparr>)"
| set_coll: "(\<And>c. cl_id (f c) = cl_id c \<and> cl_user (f c) = cl_user c) \<Longrightarrow> (\<And>c. cl_user c \<noteq> u \<Longrightarrow> f c = c) \<Longrightarrow>
    own_write u s (s\<lparr>us_collections := map f (us_collections s)\<rparr>)"
| new_item: "owns u (it_collection i) s \<Longrightarrow>
    own_write u s (s\<lparr>us_items := us_items s @ [i], us_next := Suc (us_next s)\<rparr>)"
| set_item: "(\<And>i. it_collection (f i) = it_collection i) \<Longrightarrow> (\<And>i. \<not> owns u (it_collection i) s \<Longrightarrow> f i = i) \<Longrightarrow>
    own_write u s (s\<lparr>us_items := map f (us_items s)\<rparr>)"
| drop_item: "(\<And>i. \<not> owns u (it_collection i) s \<Longrightarrow> P i) \<Longrightarrow>
    own_write u s (s\<lparr>us_items := filter P (us_items s)\<rparr>)"

lemma owns_cong: "us_collections s' = us_collections s \<Longrightarrow> owns u cid s' = owns u cid s"
  by (simp add: owns_def)

lemma owns_set_coll:
  "(\<And>c. cl_id (f c) = cl_id c \<and> cl_user (f c) = cl_user c) \<Longrightarrow>
   owns v cid (s\<lparr>us_collections := map f (us_collections s)\<rparr>) = owns v cid s"
  by (simp add: owns_def)

text \<open>An item has one owner.\<close>

lemma owns_unique:
  assumes "distinct (map cl_id (us_collections s))" "owns u cid s" "owns v cid s"
  shows "u = v"
  using assms unfolding owns_def distinct_map by (metis inj_onD)

lemma own_write_ok:
  assumes "own_write u s s'" "tables_ok s"
  shows "tables_ok s'"
  using assms
proof (induction rule: own_write.induct)
  case (new_coll c s)
  then show ?case by (fastforce simp: tables_ok_def owns_def)
next
  case (set_coll f s)
  then have "map cl_id (map f (us_collections s)) = map cl_id (us_collections s)" by simp
  with set_coll show ?case unfolding tables_ok_def by (simp add: owns_set_coll del: map_map)
next
  case (new_item i s)
  then show ?case unfolding tables_ok_def owns_def by (auto simp: less_Suc_eq)
next
  case (set_item f s)
  then show ?case unfolding tables_ok_def owns_def by auto
next
  case (drop_item s P)
  then show ?case unfolding tables_ok_def owns_def by auto
qed

lemma own_write_other:
  assumes "own_write u s s'" "tables_ok s" "v \<noteq> u"
  shows "colls_of v s' = colls_of v s \<and> items_of v s' = items_of v s"
  using assms
proof (induction rule: own_write.induct)
  case (same s)
  then show ?case by simp
next
  case (new_coll c s)
  then have "owns v cid (s\<lparr>us_collections := us_collections s @ [c], us_next := Suc (us_next s)\<rparr>) = owns v cid s" for cid
    by (auto simp: owns_def)
  with new_coll show ?case by (auto simp: colls_of_def items_of_def)
next
  case (set_coll f s)
  have "filter (\<lambda>c. cl_user c = v) (map f cs) = filter (\<lambda>c. cl_user c = v) cs" for cs
    using set_coll.hyps \<open>v \<noteq> u\<close> by (induction cs) auto
  with set_coll show ?case by (simp add: colls_of_def items_of_def owns_set_coll)
next
  case (new_item i s)
  then have "\<not> owns v (it_collection i) s" using owns_unique unfolding tables_ok_def by metis
  then show ?case by (simp add: colls_of_def items_of_def owns_cong [of "s\<lparr>us_items := _, us_next := _\<rparr>" s])
next
  case (set_item f s)
  have "filter (\<lambda>i. owns v (it_collection i) s) (map f xs) = filter (\<lambda>i. owns v (it_collection i) s) xs" for xs
  proof (induction xs)
    case (Cons i xs)
    have "f i = i" if "owns v (it_collection i) s"
      using that set_item owns_unique unfolding tables_ok_def by metis
    with Cons set_item.hyps(1) show ?case by auto
  qed simp
  then show ?case by (simp add: colls_of_def items_of_def owns_cong [of "s\<lparr>us_items := _\<rparr>" s])
next
  case (drop_item s P)
  have "P i" if "owns v (it_collection i) s" for i
    using that drop_item owns_unique unfolding tables_ok_def by metis
  then have "filter (\<lambda>i. owns v (it_collection i) s) (filter P xs) = filter (\<lambda>i. owns v (it_collection i) s) xs" for xs
    by (induction xs) auto
  then show ?case by (simp add: colls_of_def items_of_def owns_cong [of "s\<lparr>us_items := _\<rparr>" s])
qed

subsection \<open>Every request is such a statement\<close>

lemma outcome_cases: "outcome m s = s \<or> (\<exists>x. m s = (Inr x, outcome m s))"
  by (simp add: outcome_def split: prod.split sum.split)

lemma wrap_Inr [simp]: "wrap xs e m s = (Inr x, s') \<longleftrightarrow> m s = (Inr x, s')"
  by (auto simp: wrap_def catchp_def split: prod.splits sum.splits)

lemma own_write_add_collection:
  "add_collection n d u s = (Inr c, s') \<Longrightarrow> own_write u s s'"
  by (auto simp: add_collection_def repo_add_collection_def Let_def intro!: new_coll split: if_splits)

lemma own_write_update_coll:
  assumes "update_coll f cid u s = (Inr x, s')"
  shows "own_write u s s'"
proof -
  let ?g = "\<lambda>c. if cl_id c = cid \<and> cl_user c = u then apply_fields f c else c"
  from assms have "s' = s\<lparr>us_collections := map ?g (us_collections s)\<rparr>"
    by (auto simp: update_coll_def repo_update_collection_def Let_def split: if_splits)
  moreover have "own_write u s (s\<lparr>us_collections := map ?g (us_collections s)\<rparr>)"
    by (rule set_coll) (auto simp: apply_fields_def)
  ultimately show ?thesis by simp
qed

lemma own_write_delete_collection:
  assumes "delete_collection cid u s = (Inr x, s')"
  shows "own_write u s s'"
proof -
  let ?g = "\<lambda>c. if cl_id c = cid \<and> cl_user c = u then c\<lparr>cl_active := Some False\<rparr> else c"
  from assms have "s' = s\<lparr>us_collections := map ?g (us_collections s)\<rparr>"
    by (auto simp: delete_collection_def repo_delete_collection_def)
  moreover have "own_write u s (s\<lparr>us_collections := map ?g (us_collections s)\<rparr>)"
    by (rule set_coll) auto
  ultimately show ?thesis by simp
qed

lemma own_write_add_entry:
  assumes "add_entry ct cid u r s = (Inr x, s')"
  shows "own_write u s s'"
  using assms
  by (auto simp: add_entry_def bindp_def repo_add_entry_def Let_def split: sum.splits if_splits option.splits intro!: new_item)

lemma own_write_update_entry_status:
  assumes "update_entry_status ct cid iid st u s = (Inr x, s')"
  shows "own_write u s s'"
proof -
  let ?g = "\<lambda>i. if it_id i = iid \<and> it_collection i = cid \<and> owns u cid s then i\<lparr>it_status := st\<rparr> else i"
  from assms have "s' = s\<lparr>us_items := map ?g (us_items s)\<rparr>"
    by (auto simp: update_entry_status_def bindp_def repo_update_entry_status_def Let_def split: if_splits)
  moreover have "own_write u s (s\<lparr>us_items := map ?g (us_items s)\<rparr>)"
    by (rule set_item) auto
  ultimately show ?thesis by simp
qed

lemma own_write_delete_entry:
  assumes "delete_entry cid iid u s = (Inr x, s')"
  shows "own_write u s s'"
proof -
  let ?P = "\<lambda>i. \<not> (it_id i = iid \<and> it_collection i = cid \<and> owns u cid s)"
  from assms have "s' = s\<lparr>us_items := filter ?P (us_items s)\<rparr>"
    by (auto simp: delete_entry_def bindp_def repo_delete_entry_def Let_def split: if_splits)
  moreover have "own_write u s (s\<lparr>us_items := filter ?P (us_items s)\<rparr>)"
    by (rule drop_item) auto
  ultimately show ?thesis by simp
qed

lemmas own_writes = own_write_add_collection own_write_update_coll own_write_delete_collection own_write_add_entry
  own_write_update_entry_status own_write_delete_entry

lemma own_write_outcome:
  "(\<And>x s'. m s = (Inr x, s') \<Longrightarrow> own_write u s s') \<Longrightarrow> own_write u s (outcome m s)"
  using outcome_cases [of m s] own_write.same by metis

lemma own_write_serve: "own_write u s (serve ct (u, r) s)"
  by (cases r) (auto intro: own_write_outcome own_writes)

lemma serve_all:
  assumes "tables_ok s"
  shows "tables_ok (fold (serve ct) rs s) \<and>
         (v \<notin> fst ` set rs \<longrightarrow> colls_of v (fold (serve ct) rs s) = colls_of v s \<and> items_of v (fold (serve ct) rs s) = items_of v s)"
  using assms
proof (induction rs arbitrary: s)
  case Nil
  then show ?case by simp
next
  case (Cons p rs)
  obtain u r where p: "p = (u, r)" by (cases p)
  have ok: "tables_ok (serve ct p s)" using own_write_ok [OF own_write_serve Cons.prems] p by simp
  have "v \<noteq> u \<Longrightarrow> colls_of v (serve ct p s) = colls_of v s \<and> items_of v (serve ct p s) = items_of v s"
    using own_write_other [OF own_write_serve Cons.prems] p by simp
  with Cons.IH [OF ok] p show ?case by auto
qed

lemma no_tables_ok [simp]: "tables_ok no_tables"
  by (simp add: tables_ok_def no_tables_def)

text \<open>What a user reads is determined by what belongs to the user.\<close>

lemma owns_colls_of: "owns u cid s \<longleftrightarrow> (\<exists>c \<in> set (colls_of u s). cl_id c = cid)"
  by (auto simp: owns_def colls_of_def)

lemma find_filter: "find P (filter Q xs) = find (\<lambda>x. Q x \<and> P x) xs"
  by (induction xs) auto

lemma get_coll_colls_of: "get_coll cid u s = find (\<lambda>c. cl_active c = Some True \<and> cl_id c = cid) (colls_of u s)"
  by (simp add: get_coll_def colls_of_def find_filter)

lemma entries_items_of:
  "filter (\<lambda>i. visible ct cid u s i \<and> Q i) (us_items s) =
   filter (\<lambda>i. it_collection i = cid \<and> ct_known ct (it_version i) \<and> Q i) (items_of u s)"
  unfolding items_of_def filter_filter by (rule filter_cong) (auto simp: visible_def)

lemma list_entries_view:
  assumes "colls_of u s' = colls_of u s" "items_of u s' = items_of u s"
  shows "fst (list_entries ct srt cid u limit offset wish s') = fst (list_entries ct srt cid u limit offset wish s)"
  using assms by (simp add: list_entries_def get_coll_colls_of repo_get_all_entries_def entries_items_of)

lemma get_all_view:
  fixes s s' :: "'m user_tables"
  assumes "colls_of u s' = colls_of u s"
  shows "fst (get_all_collections u s') = fst (get_all_collections u s)"
proof -
  have "repo_get_all u t = filter (\<lambda>c. cl_active c = Some True) (colls_of u t)" for t :: "'m user_tables"
    unfolding repo_get_all_def colls_of_def filter_filter by (rule filter_cong) auto
  from this [of s] this [of s'] assms show ?thesis by (simp add: get_all_collections_def)
qed

section \<open>Properties\<close>

text \<open>
  C21. Users are isolated: after any requests of any users, further requests of other users leave the collections of a
  user, their items and the answers of the lists as they are.
\<close>

theorem requests_isolated:
  assumes "v \<notin> fst ` set rs'"
  shows "fst (get_all_collections v (fold (serve ct) (rs @ rs') no_tables)) = fst (get_all_collections v (fold (serve ct) rs no_tables))
       \<and> items_of v (fold (serve ct) (rs @ rs') no_tables) = items_of v (fold (serve ct) rs no_tables)
       \<and> fst (list_entries ct' srt cid v limit offset wish (fold (serve ct) (rs @ rs') no_tables)) =
         fst (list_entries ct' srt cid v limit offset wish (fold (serve ct) rs no_tables))"
proof -
  let ?s = "fold (serve ct) rs no_tables"
  have ok: "tables_ok ?s" using serve_all [OF no_tables_ok] by blast
  have same: "colls_of v (fold (serve ct) (rs @ rs') no_tables) = colls_of v ?s"
    "items_of v (fold (serve ct) (rs @ rs') no_tables) = items_of v ?s"
    using serve_all [OF ok, where v = v and ct = ct and rs = rs'] assms by simp_all
  then show ?thesis using get_all_view list_entries_view by blast
qed

definition the_catalog :: catalog where
  "the_catalog = \<lparr>ct_scryfall = (\<lambda>_. None), ct_number = (\<lambda>_ _. None), ct_known = (\<lambda>v. v = 7 \<or> v = 8),
     ct_change = (\<lambda>v. if v = 7 then Some 0 else None), ct_listing = (\<lambda>_. None)\<rparr>"

definition an_entry :: "nat \<Rightarrow> unit new_entry" where
  "an_entry v = \<lparr>ne_version = Some v, ne_scryfall = None, ne_set = None, ne_number = None, ne_finish = ''FOIL'',
     ne_status = Purchased, ne_ebay = None, ne_wishlist = False, ne_more = ()\<rparr>"

lemma requests_isolated_witness:
  "length (items_of 1 (fold (serve the_catalog)
      ([(1, AddColl ''m'' ''''), (1, AddEntry 0 (an_entry 7))] @ [(2, DeleteEntry 0 1), (2, DeleteColl 0)]) no_tables)) = 1"
proof -
  have "items_of 1 (fold (serve the_catalog)
      ([(1, AddColl ''m'' ''''), (1, AddEntry 0 (an_entry 7))] @ [(2, DeleteEntry 0 1), (2, DeleteColl 0)]) no_tables) =
    items_of 1 (fold (serve the_catalog) [(1, AddColl ''m'' ''''), (1, AddEntry 0 (an_entry 7))] no_tables)"
    using requests_isolated [of 1 "[(2, DeleteEntry 0 1), (2, DeleteColl 0)]"] by fastforce
  moreover have "length (items_of 1 (fold (serve the_catalog) [(1, AddColl ''m'' ''''), (1, AddEntry 0 (an_entry 7))] no_tables)) = 1"
    by code_simp
  ultimately show ?thesis by simp
qed

lemma validate_all_unpriced:
  "r \<in> set rs \<Longrightarrow> er_change r = None \<Longrightarrow> validate_all rs = Inl ValidationErr"
  by (induction rs) (auto simp: validate_entry_def)

lemma find_last_fresh: "\<forall>x \<in> set xs. \<not> P x \<Longrightarrow> P y \<Longrightarrow> find P (xs @ [y]) = Some y"
  by (induction xs) auto

lemma get_coll_owns: "get_coll cid u s \<noteq> None \<Longrightarrow> owns u cid s"
  by (auto simp: get_coll_def owns_def find_None_iff)

lemma unpriced_card_breaks_list:
  assumes coll: "get_coll cid u s \<noteq> None"
    and i: "i \<in> set (us_items s)" "it_collection i = cid" "ct_known ct (it_version i)" "ct_change ct (it_version i) = None"
    and srt: "\<And>xs. mset (srt xs) = mset xs" and len: "length (us_items s) \<le> limit"
  shows "list_entries ct srt cid u limit 0 None s = (Inl ValidationErr, s)"
proof -
  let ?xs = "filter (visible ct cid u s) (us_items s)"
  have "set (srt ?xs) = set ?xs" "length (srt ?xs) = length ?xs"
    using srt [of ?xs] by (metis mset_eq_setD, metis mset_eq_length)
  moreover have "length ?xs \<le> limit" using len length_filter_le le_trans by blast
  moreover have "i \<in> set ?xs" using i get_coll_owns [OF coll] by (simp add: visible_def)
  ultimately have "entry_row_of ct i \<in> set (repo_get_all_entries ct srt cid u limit 0 None s)"
    by (simp add: repo_get_all_entries_def)
  moreover have "er_change (entry_row_of ct i) = None" using i by (simp add: entry_row_of_def)
  ultimately have "validate_all (repo_get_all_entries ct srt cid u limit 0 None s) = Inl ValidationErr"
    by (rule validate_all_unpriced)
  then show ?thesis using coll by (simp add: list_entries_def)
qed

text \<open>
  A card without a price cannot be added to a collection: the entry that was inserted does not validate, the
  service raises and the service manager takes the insert back.
\<close>

theorem unpriced_card_refused:
  assumes coll: "get_coll cid u s \<noteq> None"
    and r: "ne_version r = Some v" "dget finish_ids (ne_finish r) \<noteq> None" "ct_known ct v" "ct_change ct v = None"
    and fresh: "list_all (\<lambda>i. it_id i < us_next s) (us_items s)"
  shows "fst (add_entry ct cid u r s) = Inl ValidationErr \<and>
         length (us_items (snd (add_entry ct cid u r s))) = length (us_items s) + 1 \<and> serve ct (u, AddEntry cid r) s = s"
proof -
  have own: "owns u cid s" using coll by (rule get_coll_owns)
  obtain f where f: "dget finish_ids (ne_finish r) = Some f" using r(2) by blast
  let ?i = "\<lparr>it_id = us_next s, it_collection = cid, it_version = v, it_finish = f, it_status = ne_status r,
             it_ebay = ne_ebay r, it_wishlist = ne_wishlist r, it_more = ne_more r\<rparr>"
  let ?s = "s\<lparr>us_items := us_items s @ [?i], us_next := Suc (us_next s)\<rparr>"
  have "owns u cid ?s" using own owns_cong [of ?s s] by simp
  then have "find (\<lambda>i. it_id i = us_next s \<and> visible ct cid u ?s i) (us_items s @ [?i]) = Some ?i"
    using fresh r(3) by (intro find_last_fresh) (auto simp: visible_def list_all_iff)
  then have "repo_get_entry ct (us_next s) cid u ?s = Some (entry_row_of ct ?i)"
    by (simp add: repo_get_entry_def)
  then have "validate_entry (repo_get_entry ct (us_next s) cid u ?s) = Inl ValidationErr"
    using r(4) by (simp add: validate_entry_def entry_row_of_def)
  then have "add_entry ct cid u r s = (Inl ValidationErr, ?s)"
    using coll own r f by (simp add: add_entry_def resolve_version_def repo_add_entry_def Let_def bindp_def)
  then show ?thesis by (simp add: outcome_def)
qed

lemma unpriced_card_refused_witness:
  "fst (add_entry the_catalog 0 1 (an_entry 8) (serve the_catalog (1, AddColl ''m'' '''') no_tables)) = Inl ValidationErr"
  using unpriced_card_refused [of 0 1 "serve the_catalog (1, AddColl ''m'' '''') no_tables" "an_entry 8" 8 the_catalog]
  by (simp add: the_catalog_def an_entry_def no_tables_def outcome_def add_collection_def wrap_def catchp_def
      repo_add_collection_def Let_def get_coll_def finish_ids_def)

text \<open>
  A deleted collection stays: its user cannot give its name to a new collection, and its items can still be read
  one by one, although the collection is gone from the lists.
\<close>

theorem deleted_collection_lingers:
  assumes c: "c \<in> set (us_collections s)" "cl_user c = u" "cl_id c = cid"
    and del: "s' = serve ct (u, DeleteColl cid) s"
  shows "add_collection (cl_name c) d u s' = (Inl CollectionCreationErr, s')
       \<and> get_coll cid u s' = None
       \<and> list_entries ct srt cid u limit offset wish s' = (Inl CollectionNotFoundErr, s')
       \<and> fst (get_entry ct cid iid u s') = fst (get_entry ct cid iid u s)"
proof -
  let ?g = "\<lambda>c. if cl_id c = cid \<and> cl_user c = u then c\<lparr>cl_active := Some False\<rparr> else c"
  have s': "s' = s\<lparr>us_collections := map ?g (us_collections s)\<rparr>"
    by (simp add: del outcome_def delete_collection_def wrap_def catchp_def repo_delete_collection_def)
  have "?g c \<in> set (us_collections s')" using c(1) by (simp add: s')
  moreover have "cl_name (?g c) = cl_name c \<and> cl_user (?g c) = u" using c by simp
  ultimately have name: "\<exists>c' \<in> set (us_collections s'). cl_name c' = cl_name c \<and> cl_user c' = u" by blast
  have "find (\<lambda>c. cl_user c = u \<and> cl_active c = Some True \<and> cl_id c = cid) (map ?g cs) = None" for cs
    by (induction cs) auto
  moreover have "us_collections s' = map ?g (us_collections s)" by (simp add: s')
  ultimately have gone: "get_coll cid u s' = None" by (simp only: get_coll_def)
  have "owns u cid s' = owns u cid s" unfolding s' by (rule owns_set_coll) simp
  then have "visible ct cid u s' i = visible ct cid u s i" for i by (simp add: visible_def)
  then have "repo_get_entry ct iid cid u s' = repo_get_entry ct iid cid u s" by (simp add: repo_get_entry_def s')
  with name gone show ?thesis
    by (simp add: add_collection_def wrap_def catchp_def repo_add_collection_def list_entries_def get_entry_def split: option.split)
qed

lemma deleted_collection_lingers_witness:
  "is_ok (fst (get_entry the_catalog 0 1 1 (serve the_catalog (1, DeleteColl 0)
     (fold (serve the_catalog) [(1, AddColl ''m'' ''''), (1, AddEntry 0 (an_entry 7))] no_tables))))"
proof -
  let ?s = "fold (serve the_catalog) [(1, AddColl ''m'' ''''), (1, AddEntry 0 (an_entry 7))] no_tables"
  let ?c = "\<lparr>cl_id = 0, cl_user = 1, cl_name = ''m'', cl_description = '''', cl_active = Some True\<rparr>"
  have c: "us_collections ?s = [?c]" by code_simp
  have "fst (get_entry the_catalog 0 1 1 (serve the_catalog (1, DeleteColl 0) ?s)) = fst (get_entry the_catalog 0 1 1 ?s)"
    using deleted_collection_lingers [of ?c ?s 1 0 _ the_catalog] c by simp
  moreover have "is_ok (fst (get_entry the_catalog 0 1 1 ?s))" by code_simp
  ultimately show ?thesis by simp
qed

end
