(* ===== verification/Xz_Stream.thy ===== *)
theory Xz_Stream
  imports Prelude
begin

text \<open>
  \<open>StorageService.iter_xz_json_kvitems\<close> (\<open>core/storage/storage.py\<close>): a producer thread parses a compressed JSON map and
  puts its pairs into a bounded queue, a consumer on the event loop takes and yields them. Both are a step relation on
  one state, so that every interleaving is a path of it.

  The parser is the list of the pairs it yields and the exception with which it ends, if any.
\<close>

datatype 'a cell = Item 'a | Sentinel

datatype producer = Parsing | Ending | Ended

datatype reader = Reading | Finished "pyexc option" | Abandoned

record 'a stream_state =
  sm_todo :: "'a list"
  sm_queue :: "'a cell list"
  sm_err :: "pyexc option"
  sm_phase :: producer
  sm_reader :: reader
  sm_out :: "'a list"

definition start :: "'a list \<Rightarrow> 'a stream_state" where
  "start xs = \<lparr>sm_todo = xs, sm_queue = [], sm_err = None, sm_phase = Parsing, sm_reader = Reading, sm_out = []\<rparr>"

text \<open>\<open>Queue(maxsize=m)\<close> is unbounded for \<open>m \<le> 0\<close>; \<open>put\<close> blocks while there is no room.\<close>

definition has_room :: "int \<Rightarrow> 'a stream_state \<Rightarrow> bool" where
  "has_room m s \<longleftrightarrow> m \<le> 0 \<or> int (length (sm_queue s)) < m"

inductive work :: "int \<Rightarrow> pyexc option \<Rightarrow> 'a stream_state \<Rightarrow> 'a stream_state \<Rightarrow> bool" for m fault where
  put_item: "sm_phase s = Parsing \<Longrightarrow> sm_todo s = x # xs \<Longrightarrow> has_room m s \<Longrightarrow>
    work m fault s (s\<lparr>sm_todo := xs, sm_queue := sm_queue s @ [Item x]\<rparr>)"
| parser_ends: "sm_phase s = Parsing \<Longrightarrow> sm_todo s = [] \<Longrightarrow>
    work m fault s (s\<lparr>sm_phase := Ending, sm_err := fault\<rparr>)"
| put_sentinel: "sm_phase s = Ending \<Longrightarrow> has_room m s \<Longrightarrow>
    work m fault s (s\<lparr>sm_queue := sm_queue s @ [Sentinel], sm_phase := Ended\<rparr>)"
| take_item: "sm_reader s = Reading \<Longrightarrow> sm_queue s = Item x # q \<Longrightarrow>
    work m fault s (s\<lparr>sm_queue := q, sm_out := sm_out s @ [x]\<rparr>)"
| take_sentinel: "sm_reader s = Reading \<Longrightarrow> sm_queue s = Sentinel # q \<Longrightarrow>
    work m fault s (s\<lparr>sm_queue := q, sm_reader := Finished (sm_err s)\<rparr>)"

text \<open>A step of the stream, or the caller closing the generator.\<close>

inductive stream_step :: "int \<Rightarrow> pyexc option \<Rightarrow> 'a stream_state \<Rightarrow> 'a stream_state \<Rightarrow> bool" for m fault where
  works: "work m fault s t \<Longrightarrow> stream_step m fault s t"
| closes: "sm_reader s = Reading \<Longrightarrow> stream_step m fault s (s\<lparr>sm_reader := Abandoned\<rparr>)"

inductive_cases stream_stepE [elim]: "stream_step m fault s t"

section \<open>The invariant\<close>

definition cells :: "'a list \<Rightarrow> bool \<Rightarrow> 'a cell list" where
  "cells ys b = map Item ys @ (if b then [Sentinel] else [])"

lemma cells_Cons_iff:
  "cells ys b = Item x # q \<longleftrightarrow> (\<exists>zs. ys = x # zs \<and> q = cells zs b)"
  "cells ys b = Sentinel # q \<longleftrightarrow> ys = [] \<and> b \<and> q = []"
  "cells ys b = [] \<longleftrightarrow> ys = [] \<and> \<not> b"
  "Item x # q = cells ys b \<longleftrightarrow> (\<exists>zs. ys = x # zs \<and> q = cells zs b)"
  "Sentinel # q = cells ys b \<longleftrightarrow> ys = [] \<and> b \<and> q = []"
  "[] = cells ys b \<longleftrightarrow> ys = [] \<and> \<not> b"
  by (cases ys; auto simp: cells_def)+

lemma cells_snoc: "cells ys False @ [Item x] = cells (ys @ [x]) False" "cells ys False @ [Sentinel] = cells ys True"
  by (simp_all add: cells_def)

lemma length_cells [simp]: "length (cells ys b) = length ys + (if b then 1 else 0)"
  by (simp add: cells_def)

definition read_off :: "reader \<Rightarrow> bool" where
  "read_off r = (case r of Finished _ \<Rightarrow> True | _ \<Rightarrow> False)"

lemma read_off_simps [simp]: "\<not> read_off Reading" "\<not> read_off Abandoned" "read_off (Finished e)"
  by (simp_all add: read_off_def)

definition stream_inv :: "int \<Rightarrow> pyexc option \<Rightarrow> 'a list \<Rightarrow> 'a stream_state \<Rightarrow> bool" where
  "stream_inv m fault xs s \<longleftrightarrow>
     (\<exists>ys. sm_queue s = cells ys (sm_phase s = Ended \<and> \<not> read_off (sm_reader s)) \<and> sm_out s @ ys @ sm_todo s = xs \<and>
        (read_off (sm_reader s) \<longrightarrow> ys = [])) \<and>
     (sm_phase s \<noteq> Parsing \<longrightarrow> sm_todo s = [] \<and> sm_err s = fault) \<and>
     (read_off (sm_reader s) \<longrightarrow> sm_phase s = Ended \<and> sm_reader s = Finished fault) \<and>
     (0 < m \<longrightarrow> int (length (sm_queue s)) \<le> m)"

lemma stream_inv_start: "stream_inv m fault xs (start xs)"
  by (simp add: stream_inv_def start_def cells_def)

lemma stream_inv_work: "work m fault s t \<Longrightarrow> stream_inv m fault xs s \<Longrightarrow> stream_inv m fault xs t"
proof (induction rule: work.induct)
  case (put_item s x zs)
  then obtain ys where "sm_queue s = cells ys False" "sm_out s @ ys @ x # zs = xs" "\<not> read_off (sm_reader s)"
    by (auto simp: stream_inv_def)
  with put_item show ?case
    by (auto simp: stream_inv_def has_room_def cells_snoc intro!: exI [of _ "ys @ [x]"])
next
  case (parser_ends s)
  then show ?case by (auto simp: stream_inv_def)
next
  case (put_sentinel s)
  then obtain ys where "sm_queue s = cells ys False" "sm_out s @ ys @ sm_todo s = xs" "\<not> read_off (sm_reader s)"
    by (auto simp: stream_inv_def)
  with put_sentinel show ?case
    by (auto simp: stream_inv_def has_room_def cells_snoc intro!: exI [of _ ys])
next
  case (take_item s x q)
  then show ?case by (auto simp: stream_inv_def cells_Cons_iff)
next
  case (take_sentinel s q)
  then show ?case by (auto simp: stream_inv_def cells_Cons_iff)
qed

lemma stream_inv_step: "stream_step m fault s t \<Longrightarrow> stream_inv m fault xs s \<Longrightarrow> stream_inv m fault xs t"
  by (elim stream_stepE) (auto simp: stream_inv_work, auto simp: stream_inv_def)

lemma stream_inv_reach: "(stream_step m fault)\<^sup>*\<^sup>* (start xs) s \<Longrightarrow> stream_inv m fault xs s"
  by (induction rule: rtranclp_induct) (auto simp: stream_inv_start intro: stream_inv_step)

text \<open>
  C24. Whatever the order of the steps of the two sides, the consumer has received a prefix of the pairs of the file in
  order, the queue never holds more than its bound, and a consumer that came to the end has received all pairs and the
  exception of the parser, if it had one.
\<close>

theorem stream_delivers:
  assumes "(stream_step m fault)\<^sup>*\<^sup>* (start xs) s"
  shows "prefix (sm_out s) xs \<and> (m \<le> 0 \<or> int (length (sm_queue s)) \<le> m) \<and>
         (case sm_reader s of Finished e \<Rightarrow> sm_out s = xs \<and> e = fault | _ \<Rightarrow> True)"
  using stream_inv_reach [OF assms] by (auto simp: stream_inv_def prefix_def split: reader.split)

section \<open>Every run ends\<close>

definition weight :: "'a stream_state \<Rightarrow> nat" where
  "weight s = 3 * length (sm_todo s) + length (sm_queue s) +
     (case sm_phase s of Parsing \<Rightarrow> 4 | Ending \<Rightarrow> 2 | Ended \<Rightarrow> 0) + (if sm_reader s = Reading then 1 else 0)"

lemma weight_work: "work m fault s t \<Longrightarrow> weight t < weight s"
  by (induction rule: work.induct) (auto simp: weight_def)

lemma weight_step: "stream_step m fault s t \<Longrightarrow> weight t < weight s"
  by (elim stream_stepE) (auto simp: weight_work, simp add: weight_def)

lemma weight_steps: "(stream_step m fault ^^ n) s t \<Longrightarrow> n + weight t \<le> weight s"
proof (induction n arbitrary: t)
  case (Suc n)
  then obtain u where "(stream_step m fault ^^ n) s u" "stream_step m fault u t" by auto
  with Suc.IH [of u] weight_step [of m fault u t] show ?case by simp
qed simp

lemma reading_works:
  assumes "stream_inv m fault xs s" "sm_reader s = Reading"
  shows "\<exists>t. work m fault s t"
proof (cases "sm_queue s")
  case Nil
  then have room: "has_room m s" by (auto simp: has_room_def)
  with assms Nil show ?thesis
    by (cases "sm_phase s"; cases "sm_todo s")
      (auto simp: stream_inv_def cells_Cons_iff intro: work.intros)
next
  case (Cons c q)
  then show ?thesis using assms(2) by (cases c) (auto intro: work.intros)
qed

text \<open>
  C25. The stream never hangs: a run has at most three steps per pair and five more, and as long as the consumer reads
  one of the two sides can go on.
\<close>

theorem stream_ends:
  assumes "(stream_step m fault ^^ n) (start xs) s"
  shows "n \<le> 3 * length xs + 5 \<and> (sm_reader s \<noteq> Reading \<or> (\<exists>t. work m fault s t))"
proof -
  have "n \<le> 3 * length xs + 5" using weight_steps [OF assms] by (simp add: weight_def start_def)
  moreover have "stream_inv m fault xs s" using stream_inv_reach relpowp_imp_rtranclp [OF assms] by blast
  ultimately show ?thesis using reading_works by blast
qed

section \<open>An abandoned stream\<close>

definition pending :: "'a stream_state \<Rightarrow> nat" where
  "pending s = length (sm_queue s) + length (sm_todo s) + (if sm_phase s = Ended then 0 else 1)"

lemma abandoned_step:
  assumes "stream_step m fault s t" "sm_reader s = Abandoned"
  shows "sm_reader t = Abandoned \<and> pending t = pending s"
  using assms(1)
proof (rule stream_stepE)
  assume "work m fault s t"
  then show ?thesis using assms(2) by (induction rule: work.induct) (auto simp: pending_def)
qed (use assms(2) in simp)

text \<open>
  C26. A consumer that stops early (its generator is closed at a yield) leaves the producer behind: with more pairs to come than the queue has room for, the
  thread never ends, and the join of the consumer can only time out.
\<close>

theorem abandoned_producer_stuck:
  assumes reach: "(stream_step m fault)\<^sup>*\<^sup>* (start xs) s" and "sm_reader s = Abandoned" "0 < m" "sm_phase s \<noteq> Ended"
    and more: "m \<le> int (length (sm_queue s) + length (sm_todo s))"
    and later: "(stream_step m fault)\<^sup>*\<^sup>* s t"
  shows "sm_phase t \<noteq> Ended"
proof
  assume ended: "sm_phase t = Ended"
  from later have "sm_reader t = Abandoned \<and> pending t = pending s"
    by (induction rule: rtranclp_induct) (use assms(2) abandoned_step in fastforce)+
  moreover have "stream_inv m fault xs t" using stream_inv_reach rtranclp_trans [OF reach later] by blast
  then have "int (length (sm_queue t)) \<le> m" "sm_todo t = []" using ended \<open>0 < m\<close> by (auto simp: stream_inv_def)
  ultimately show False using ended more assms(4) by (simp add: pending_def)
qed

section \<open>Witnesses\<close>

lemma one_step:
  "stream_step m fault (start (x # xs)) ((start xs)\<lparr>sm_queue := [Item x]\<rparr>)"
proof (rule works)
  have "has_room m (start (x # xs))" by (auto simp: start_def has_room_def)
  then show "work m fault (start (x # xs)) ((start xs)\<lparr>sm_queue := [Item x]\<rparr>)"
    using put_item [of "start (x # xs)" x xs m fault] by (simp add: start_def)
qed

lemma stream_delivers_witness:
  "prefix (sm_out ((start [2])\<lparr>sm_queue := [Item 1]\<rparr>)) [1, 2 :: nat]"
proof -
  have "(stream_step 1 None)\<^sup>*\<^sup>* (start [1, 2 :: nat]) ((start [2])\<lparr>sm_queue := [Item 1]\<rparr>)"
    by (rule r_into_rtranclp [of "stream_step 1 None", OF one_step])
  from stream_delivers [OF this] show ?thesis by blast
qed

lemma stream_ends_witness:
  "\<exists>t. work 1 None ((start [2 :: nat])\<lparr>sm_queue := [Item 1]\<rparr>) t"
proof -
  have "(stream_step 1 None ^^ 1) (start [1, 2 :: nat]) ((start [2])\<lparr>sm_queue := [Item 1]\<rparr>)"
    unfolding relpowp_1 by (rule one_step)
  from stream_ends [OF this] show ?thesis by (simp add: start_def)
qed

lemma abandoned_producer_stuck_witness:
  "sm_phase ((start [2 :: nat])\<lparr>sm_queue := [Item 1], sm_reader := Abandoned\<rparr>) \<noteq> Ended"
proof -
  let ?t = "(start [2 :: nat])\<lparr>sm_queue := [Item 1], sm_reader := Abandoned\<rparr>"
  have "stream_step 1 None ((start [2 :: nat])\<lparr>sm_queue := [Item 1]\<rparr>) ?t"
    using closes [of "(start [2 :: nat])\<lparr>sm_queue := [Item 1]\<rparr>" 1 None] by (simp add: start_def)
  with one_step [of 1 None 1 "[2 :: nat]"] have "(stream_step 1 None)\<^sup>*\<^sup>* (start [1, 2 :: nat]) ?t"
    by (meson converse_rtranclp_into_rtranclp r_into_rtranclp)
  from abandoned_producer_stuck [OF this _ _ _ _ rtranclp.rtrancl_refl] show ?thesis
    by (simp add: start_def)
qed

end
