(* ===== verification/Shopify_Promote.thy ===== *)
theory Shopify_Promote
  imports Ops_Runs Py_Text
begin

text \<open>
  The last step of the Shopify pipeline: staged prices become price observations
  (\<open>promote_observations\<close> and \<open>_build_obs_dataframe\<close> in \<open>shopify/pipeline_service.py\<close>, with \<open>pipeline_repository.py\<close>).

  The card of a TCGplayer id is a parameter, as is the order in which a Python set of source ids is walked. A missing
  variation is the empty text. Dates and times are texts.
\<close>

section \<open>Rows\<close>

record staged_row =
  sr_product :: int
  sr_date :: ustr
  sr_variation :: ustr
  sr_price :: "rat option"
  sr_scraped :: ustr
  sr_tcg :: "int option"
  sr_source :: "int option"

record observation =
  ob_date :: ustr
  ob_price_type :: int
  ob_finish :: int
  ob_condition :: int
  ob_language :: int
  ob_list_avg :: "int option"
  ob_product :: nat
  ob_provider :: int
  ob_scraped :: ustr

text \<open>The reference ids: conditions and finishes by code, the finishes in lower case.\<close>

record reference_ids =
  rf_sell_type :: int
  rf_provider :: int
  rf_language :: int
  rf_conditions :: "(ustr, int) dict"
  rf_finishes :: "(ustr, int) dict"

text \<open>
  The tables: the product of a card version, the source product of a product at a source, the observations and the
  staging table.
\<close>

record shop_db =
  sd_products :: "(nat, nat) dict"
  sd_sources :: "(nat \<times> int, nat) dict"
  sd_next :: nat
  sd_obs :: "observation list"
  sd_staging :: "staged_row list"
  sd_refs :: reference_ids

section \<open>Variations and prices\<close>

definition variation_conditions :: "(ustr, ustr) dict" where
  "variation_conditions = map (\<lambda>(k, v). (lit k, lit v))
     [(''near mint'', ''NM''), (''lightly played'', ''LP''), (''slightly played'', ''LP''), (''moderately played'', ''MP''),
      (''heavily played'', ''HP''), (''damaged'', ''DMG'')]"

definition map_variation :: "ustr \<Rightarrow> ustr \<times> ustr" where
  "map_variation v =
     (let low = strip (lower v); is_foil = suffix (lit '' foil'') low;
          base = (if is_foil then strip (take (length low - 5) low) else low)
      in (case dget variation_conditions base of Some c \<Rightarrow> c | None \<Rightarrow> lit ''NM'',
          if is_foil then lit ''foil'' else lit ''nonfoil''))"

text \<open>\<open>_price_to_cents\<close>: \<open>ROUND_HALF_UP\<close> rounds a half away from zero.\<close>

definition half_up :: "rat \<Rightarrow> int" where
  "half_up x = (if x < 0 then - \<lfloor>- x + 1/2\<rfloor> else \<lfloor>x + 1/2\<rfloor>)"

definition to_cents :: "rat option \<Rightarrow> int option" where
  "to_cents = map_option (\<lambda>p. half_up (p * 100))"

section \<open>Observations\<close>

definition obs_row :: "(int \<Rightarrow> nat option) \<Rightarrow> (nat, nat) dict \<Rightarrow> reference_ids \<Rightarrow> staged_row \<Rightarrow> observation option" where
  "obs_row cv_of sp refs r =
     (case sr_tcg r of
        None \<Rightarrow> None
      | Some t \<Rightarrow>
          (case cv_of t of
             None \<Rightarrow> None
           | Some cv \<Rightarrow>
               (case dget sp cv of
                  None \<Rightarrow> None
                | Some p \<Rightarrow>
                    (let (cond, fin) = map_variation (if sr_variation r = [] then lit ''Near Mint'' else sr_variation r) in
                     case (dget (rf_conditions refs) cond, dget (rf_finishes refs) fin) of
                       (Some c, Some f) \<Rightarrow>
                         Some \<lparr>ob_date = take 10 (sr_date r), ob_price_type = rf_sell_type refs, ob_finish = f,
                               ob_condition = c, ob_language = rf_language refs, ob_list_avg = to_cents (sr_price r),
                               ob_product = p, ob_provider = rf_provider refs, ob_scraped = sr_scraped r\<rparr>
                     | _ \<Rightarrow> None))))"

definition build_obs :: "(int \<Rightarrow> nat option) \<Rightarrow> (nat, nat) dict \<Rightarrow> reference_ids \<Rightarrow> staged_row list \<Rightarrow> observation list" where
  "build_obs cv_of sp refs = List.map_filter (obs_row cv_of sp refs)"

text \<open>The statements of the repository.\<close>

definition get_staging_rows :: "shop_db \<Rightarrow> staged_row list" where
  "get_staging_rows s = filter (\<lambda>r. sr_tcg r \<noteq> None \<and> sr_source r \<noteq> None) (sd_staging s)"

definition add_product :: "nat \<Rightarrow> shop_db \<Rightarrow> shop_db" where
  "add_product cv s =
     (if dget (sd_products s) cv \<noteq> None then s
      else s\<lparr>sd_products := dset cv (sd_next s) (sd_products s), sd_next := Suc (sd_next s)\<rparr>)"

definition add_source_product :: "int \<Rightarrow> nat \<Rightarrow> shop_db \<Rightarrow> shop_db" where
  "add_source_product src cv s =
     (case dget (sd_products s) cv of
        None \<Rightarrow> s
      | Some p \<Rightarrow>
          if dget (sd_sources s) (p, src) \<noteq> None then s
          else s\<lparr>sd_sources := dset (p, src) (sd_next s) (sd_sources s), sd_next := Suc (sd_next s)\<rparr>)"

definition source_product :: "shop_db \<Rightarrow> int \<Rightarrow> nat \<Rightarrow> nat option" where
  "source_product s src cv =
     (case dget (sd_products s) cv of None \<Rightarrow> None | Some p \<Rightarrow> dget (sd_sources s) (p, src))"

definition product_mapping :: "shop_db \<Rightarrow> int \<Rightarrow> nat list \<Rightarrow> (nat, nat) dict" where
  "product_mapping s src cvs =
     List.map_filter (\<lambda>cv. map_option (Pair cv) (source_product s src cv)) (remdups cvs)"

definition bootstrap_source_products :: "nat list \<Rightarrow> int \<Rightarrow> shop_db \<Rightarrow> (nat, nat) dict \<times> shop_db" where
  "bootstrap_source_products cvs src s =
     (if cvs = [] then ([], s)
      else let s' = fold (add_source_product src) cvs (fold add_product cvs s) in (product_mapping s' src cvs, s'))"

text \<open>The primary key of an observation; a row whose key is there already is skipped.\<close>

definition shop_obs_key :: "observation \<Rightarrow> ustr \<times> nat \<times> int \<times> int \<times> int \<times> int \<times> int" where
  "shop_obs_key o' = (ob_date o', ob_product o', ob_price_type o', ob_finish o', ob_condition o', ob_language o', ob_provider o')"

definition insert_obs :: "observation \<Rightarrow> observation list \<Rightarrow> observation list" where
  "insert_obs o' t = (if shop_obs_key o' \<in> set (map shop_obs_key t) then t else t @ [o'])"

text \<open>A negative price is refused, and nothing of the batch is written.\<close>

definition bulk_copy_observations :: "observation list \<Rightarrow> (shop_db, nat) prog" where
  "bulk_copy_observations os s =
     (if list_ex (\<lambda>o'. case ob_list_avg o' of None \<Rightarrow> False | Some c \<Rightarrow> c < 0) os then (Inl DbErr, s)
      else (Inr (length os), s\<lparr>sd_obs := fold insert_obs os (sd_obs s)\<rparr>))"

definition truncate_staging :: "shop_db \<Rightarrow> shop_db" where
  "truncate_staging s = s\<lparr>sd_staging := []\<rparr>"

section \<open>The step\<close>

text \<open>The id 0 counts as missing when the cards are looked up, so that it has none.\<close>

definition row_source :: "staged_row \<Rightarrow> int" where
  "row_source r = (case sr_source r of None \<Rightarrow> 0 | Some i \<Rightarrow> i)"

text \<open>The cards that a source has staged.\<close>

definition cards_of_source :: "(int \<Rightarrow> nat option) \<Rightarrow> staged_row list \<Rightarrow> int \<Rightarrow> nat list" where
  "cards_of_source cv_of rows src =
     remdups (List.map_filter (\<lambda>r. if sr_source r = Some src
                                   then (case sr_tcg r of None \<Rightarrow> None | Some t \<Rightarrow> cv_of t) else None) rows)"

text \<open>The loop over the sources: the mapping of a later source overrides the one of an earlier source.\<close>

fun map_sources ::
  "(int \<Rightarrow> nat option) \<Rightarrow> staged_row list \<Rightarrow> int list \<Rightarrow> (nat, nat) dict \<Rightarrow> shop_db \<Rightarrow> (nat, nat) dict \<times> shop_db" where
  "map_sources cv_of rows [] sp s = (sp, s)"
| "map_sources cv_of rows (src # srcs) sp s =
     (case bootstrap_source_products (cards_of_source cv_of rows src) src s of
        (m, s') \<Rightarrow> map_sources cv_of rows srcs (dmerge sp m) s')"

datatype promote_answer = Nothing_Staged | Promoted nat

definition promote_body :: "(int \<Rightarrow> nat option) \<Rightarrow> (int list \<Rightarrow> int list) \<Rightarrow> (shop_db, promote_answer) prog" where
  "promote_body cv_of order s =
     (let rows = get_staging_rows s; cv = (\<lambda>t. if t = 0 then None else cv_of t) in
      if rows = [] then (Inr Nothing_Staged, s)
      else
        (case map_sources cv rows (order (remdups (filter (\<lambda>i. i \<noteq> 0) (map row_source rows)))) [] s of
           (sp, s') \<Rightarrow>
             bindp (bulk_copy_observations (build_obs cv sp (sd_refs s) rows)) (\<lambda>n s''.
               (Inr (Promoted n), truncate_staging s'')) s'))"

definition promote_observations ::
  "(int \<Rightarrow> nat option) \<Rightarrow> (int list \<Rightarrow> int list) \<Rightarrow> (pyexc \<Rightarrow> string) \<Rightarrow> nat option \<Rightarrow> (ops \<times> shop_db, promote_answer) prog" where
  "promote_observations cv_of order msg run =
     track_world run ''promote_observations'' ''step_failed'' msg (promote_body cv_of order)"

section \<open>The tables grow, and ids stay unique\<close>

definition shop_ok :: "shop_db \<Rightarrow> bool" where
  "shop_ok s \<longleftrightarrow>
     (\<forall>c p. dget (sd_products s) c = Some p \<longrightarrow> p < sd_next s) \<and> (\<forall>k q. dget (sd_sources s) k = Some q \<longrightarrow> q < sd_next s) \<and>
     (\<forall>c c' p. dget (sd_products s) c = Some p \<longrightarrow> dget (sd_products s) c' = Some p \<longrightarrow> c = c') \<and>
     (\<forall>k k' q. dget (sd_sources s) k = Some q \<longrightarrow> dget (sd_sources s) k' = Some q \<longrightarrow> k = k')"

definition grows :: "shop_db \<Rightarrow> shop_db \<Rightarrow> bool" where
  "grows s t \<longleftrightarrow> (\<forall>c p. dget (sd_products s) c = Some p \<longrightarrow> dget (sd_products t) c = Some p) \<and>
                (\<forall>k q. dget (sd_sources s) k = Some q \<longrightarrow> dget (sd_sources t) k = Some q) \<and>
                sd_obs t = sd_obs s \<and> sd_staging t = sd_staging s \<and> sd_refs t = sd_refs s"

lemma grows_refl [simp, intro]: "grows s s"
  by (simp add: grows_def)

lemma grows_trans: "grows s t \<Longrightarrow> grows t u \<Longrightarrow> grows s u"
  by (simp add: grows_def)

lemma grows_source_product: "grows s t \<Longrightarrow> source_product s src c = Some p \<Longrightarrow> source_product t src c = Some p"
  by (auto simp: grows_def source_product_def split: option.splits)

lemma add_product_ok: "shop_ok s \<Longrightarrow> shop_ok (add_product c s) \<and> grows s (add_product c s)"
  by (auto simp: shop_ok_def grows_def add_product_def dget_dset less_Suc_eq)

lemma add_source_product_ok: "shop_ok s \<Longrightarrow> shop_ok (add_source_product src c s) \<and> grows s (add_source_product src c s)"
  unfolding add_source_product_def
  by (auto simp: shop_ok_def grows_def dget_dset less_Suc_eq split: option.split) blast+

lemma fold_ok:
  assumes "\<And>x s. shop_ok s \<Longrightarrow> shop_ok (f x s) \<and> grows s (f x s)" "shop_ok s"
  shows "shop_ok (fold f xs s) \<and> grows s (fold f xs s)"
  using assms(2)
proof (induction xs arbitrary: s)
  case (Cons x xs)
  from assms(1) [OF Cons.prems, of x] Cons.IH [of "f x s"] show ?case by (auto intro: grows_trans)
qed simp

lemma add_product_there: "dget (sd_products (add_product c s)) c \<noteq> None"
  by (simp add: add_product_def dget_dset)

lemma add_source_product_there:
  "dget (sd_products s) c \<noteq> None \<Longrightarrow> source_product (add_source_product src c s) src c \<noteq> None"
  by (auto simp: add_source_product_def source_product_def dget_dset split: option.split)

lemma fold_add_product_there:
  assumes "shop_ok s" "c \<in> set cs"
  shows "dget (sd_products (fold add_product cs s)) c \<noteq> None"
  using assms
proof (induction cs arbitrary: s)
  case (Cons x cs)
  have ok: "shop_ok (add_product x s)" using add_product_ok [OF Cons.prems(1)] by blast
  have "grows (add_product x s) (fold add_product cs (add_product x s))"
    using fold_ok [of add_product, OF add_product_ok ok] by blast
  with Cons.IH [OF ok] Cons.prems(2) add_product_there [of x s] show ?case by (cases "c = x") (auto simp: grows_def)
qed simp

lemma fold_add_source_product_there:
  assumes "shop_ok t" "dget (sd_products t) c \<noteq> None" "c \<in> set cs"
  shows "source_product (fold (add_source_product src) cs t) src c \<noteq> None"
  using assms
proof (induction cs arbitrary: t)
  case (Cons y ys)
  let ?t = "add_source_product src y t"
  have y: "shop_ok ?t" "grows t ?t" using add_source_product_ok [OF Cons.prems(1)] by blast+
  have later: "grows ?t (fold (add_source_product src) ys ?t)"
    using fold_ok [of "add_source_product src", OF add_source_product_ok y(1)] by blast
  have "dget (sd_products ?t) c \<noteq> None" using y(2) Cons.prems(2) by (auto simp: grows_def)
  with Cons.IH [OF y(1)] Cons.prems grows_source_product [OF later, of src c]
    add_source_product_there [of t c src] show ?case by (cases "c = y") auto
qed simp

text \<open>The mapping that a source returns.\<close>

lemma map_filter_pairs:
  "dget (List.map_filter (\<lambda>c. map_option (Pair c) (g c)) cs) c = (if c \<in> set cs then g c else None)"
  "set (map fst (List.map_filter (\<lambda>c. map_option (Pair c) (g c)) cs)) \<subseteq> set cs"
  "distinct cs \<Longrightarrow> dict_ok (List.map_filter (\<lambda>c. map_option (Pair c) (g c)) cs)"
proof -
  show "dget (List.map_filter (\<lambda>c. map_option (Pair c) (g c)) cs) c = (if c \<in> set cs then g c else None)"
    by (induction cs) (auto simp: map_filter_simps split: option.split)
  show sub: "set (map fst (List.map_filter (\<lambda>c. map_option (Pair c) (g c)) cs)) \<subseteq> set cs" for cs
    by (induction cs) (auto simp: map_filter_simps split: option.splits)
  show "distinct cs \<Longrightarrow> dict_ok (List.map_filter (\<lambda>c. map_option (Pair c) (g c)) cs)"
  proof (induction cs)
    case (Cons a cs)
    with sub [of cs] show ?case by (auto simp: map_filter_simps dict_ok_def split: option.split)
  qed (simp add: map_filter_simps)
qed

lemma dget_product_mapping: "dget (product_mapping s src cvs) c = (if c \<in> set cvs then source_product s src c else None)"
  "dict_ok (product_mapping s src cvs)"
  by (simp_all add: product_mapping_def map_filter_pairs)

lemma bootstrap_spec:
  assumes "shop_ok s" "bootstrap_source_products cvs src s = (m, s')"
  shows "shop_ok s' \<and> grows s s' \<and> dict_ok m \<and>
         (\<forall>c. dget m c = (if c \<in> set cvs then source_product s' src c else None)) \<and>
         (\<forall>c \<in> set cvs. source_product s' src c \<noteq> None)"
proof (cases "cvs = []")
  case True
  with assms show ?thesis by (simp add: bootstrap_source_products_def)
next
  case False
  define s1 where "s1 = fold add_product cvs s"
  have s1: "shop_ok s1" "grows s s1"
    using fold_ok [of add_product, OF add_product_ok assms(1)] by (simp_all add: s1_def)
  have s': "s' = fold (add_source_product src) cvs s1" "m = product_mapping s' src cvs"
    using assms(2) False by (auto simp: bootstrap_source_products_def Let_def s1_def)
  have ok: "shop_ok s'" "grows s1 s'"
    using fold_ok [of "add_source_product src", OF add_source_product_ok s1(1)] by (simp_all add: s'(1))
  have "source_product s' src c \<noteq> None" if "c \<in> set cvs" for c
    using fold_add_source_product_there [OF s1(1) _ that] fold_add_product_there [OF assms(1) that]
    by (simp add: s'(1) s1_def)
  with ok s1 s'(2) show ?thesis by (auto simp: dget_product_mapping intro: grows_trans)
qed

definition some_source :: "(nat, nat) dict \<Rightarrow> shop_db \<Rightarrow> bool" where
  "some_source sp s \<longleftrightarrow> (\<forall>c p. dget sp c = Some p \<longrightarrow> (\<exists>src. source_product s src c = Some p))"

lemma some_source_grows: "some_source sp s \<Longrightarrow> grows s t \<Longrightarrow> some_source sp t"
  unfolding some_source_def using grows_source_product by blast

lemma some_source_step:
  assumes "shop_ok s" "some_source sp s" "bootstrap_source_products cvs src s = (m, s')"
  shows "some_source (dmerge sp m) s'"
proof -
  have m: "grows s s'" "dict_ok m" "\<And>c. dget m c = (if c \<in> set cvs then source_product s' src c else None)"
    using bootstrap_spec [OF assms(1,3)] by blast+
  show ?thesis
    using some_source_grows [OF assms(2) m(1)]
    by (auto simp: some_source_def dget_dmerge [OF m(2)] m(3) split: option.splits if_splits)
qed

lemma map_sources_ok:
  "shop_ok s \<Longrightarrow> some_source sp s \<Longrightarrow> map_sources cv rows srcs sp s = (sp', s') \<Longrightarrow>
   shop_ok s' \<and> grows s s' \<and> some_source sp' s'"
proof (induction srcs arbitrary: sp s)
  case Nil
  then show ?case by simp
next
  case (Cons src srcs)
  obtain m s1 where b: "bootstrap_source_products (cards_of_source cv rows src) src s = (m, s1)" by fastforce
  have s1: "shop_ok s1" "grows s s1" using bootstrap_spec [OF Cons.prems(1) b] by blast+
  from Cons.prems(3) b have "map_sources cv rows srcs (dmerge sp m) s1 = (sp', s')" by simp
  from Cons.IH [OF s1(1) some_source_step [OF Cons.prems(1,2) b] this] s1(2) show ?case by (blast intro: grows_trans)
qed

lemma map_sources_append:
  "map_sources cv rows (xs @ ys) sp s = (case map_sources cv rows xs sp s of (sp', s') \<Rightarrow> map_sources cv rows ys sp' s')"
  by (induction xs arbitrary: sp s) (auto split: prod.split)

lemma map_sources_last:
  assumes ok: "shop_ok s" "some_source sp s" and run: "map_sources cv rows (srcs @ [src]) sp s = (sp', s')"
    and c: "c \<in> set (cards_of_source cv rows src)"
  shows "dget sp' c = source_product s' src c"
proof -
  obtain sp1 s1 where first: "map_sources cv rows srcs sp s = (sp1, s1)" by fastforce
  have s1: "shop_ok s1" using map_sources_ok [OF ok first] by blast
  obtain m s2 where b: "bootstrap_source_products (cards_of_source cv rows src) src s1 = (m, s2)" by fastforce
  from run first b have "sp' = dmerge sp1 m" "s' = s2" by (simp_all add: map_sources_append)
  moreover obtain p where "dict_ok m" "dget m c = Some p" "source_product s2 src c = Some p"
    using bootstrap_spec [OF s1 b] c by (metis option.exhaust)
  ultimately show ?thesis by (simp add: dget_dmerge)
qed

section \<open>Two shops with one card\<close>

lemma obs_row_product: "obs_row cv sp refs r = Some o' \<Longrightarrow> \<exists>c. dget sp c = Some (ob_product o')"
  by (auto simp: obs_row_def split: option.splits prod.splits)

lemma fold_insert_obs: "o' \<in> set (fold insert_obs os t) \<Longrightarrow> o' \<in> set os \<or> o' \<in> set t"
  by (induction os arbitrary: t) (fastforce simp: insert_obs_def split: if_splits)+

lemma build_obs_product:
  "o' \<in> set (build_obs cv sp refs rows) \<Longrightarrow> \<exists>c. dget sp c = Some (ob_product o')"
  unfolding build_obs_def by (induction rows) (auto simp: map_filter_simps dest: obs_row_product split: option.splits)

lemma source_product_inject:
  assumes "shop_ok s" "source_product s a c = Some p" "source_product s b d = Some p"
  shows "a = b \<and> c = d"
proof -
  obtain pc pd where pc: "dget (sd_products s) c = Some pc" "dget (sd_sources s) (pc, a) = Some p"
    and pd: "dget (sd_products s) d = Some pd" "dget (sd_sources s) (pd, b) = Some p"
    using assms(2,3) unfolding source_product_def by (auto split: option.splits)
  have "(pc, a) = (pd, b)" using assms(1) pc(2) pd(2) unfolding shop_ok_def by blast
  moreover from this have "c = d" using assms(1) pc(1) pd(1) unfolding shop_ok_def by (metis prod.inject)
  ultimately show ?thesis by simp
qed

lemma promote_body_Promoted:
  assumes "promote_body cv_of order s = (Inr (Promoted n), s')"
  obtains sp s1 where
    "map_sources (\<lambda>t. if t = 0 then None else cv_of t) (get_staging_rows s)
       (order (remdups (filter (\<lambda>i. i \<noteq> 0) (map row_source (get_staging_rows s))))) [] s = (sp, s1)"
    "n = length (build_obs (\<lambda>t. if t = 0 then None else cv_of t) sp (sd_refs s) (get_staging_rows s))"
    "s' = s1\<lparr>sd_obs := fold insert_obs (build_obs (\<lambda>t. if t = 0 then None else cv_of t) sp (sd_refs s) (get_staging_rows s)) (sd_obs s1),
            sd_staging := []\<rparr>"
proof -
  let ?rows = "get_staging_rows s" and ?cv = "\<lambda>t. if t = 0 then None else cv_of t"
  obtain sp s1 where run: "map_sources ?cv ?rows (order (remdups (filter (\<lambda>i. i \<noteq> 0) (map row_source ?rows)))) [] s = (sp, s1)"
    by (rule prod.exhaust)
  let ?os = "build_obs ?cv sp (sd_refs s) ?rows"
  have "?rows \<noteq> []" using assms by (auto simp: promote_body_def)
  then have body: "promote_body cv_of order s =
      bindp (bulk_copy_observations ?os) (\<lambda>n t. (Inr (Promoted n), truncate_staging t)) s1"
    by (simp add: promote_body_def run)
  obtain r t where copy: "bulk_copy_observations ?os s1 = (r, t)" by (rule prod.exhaust)
  have r: "r = Inr n" and "s' = truncate_staging t"
    using assms unfolding body bindp_def copy by (cases r; simp)+
  moreover have "n = length ?os \<and> t = s1\<lparr>sd_obs := fold insert_obs ?os (sd_obs s1)\<rparr>"
    using copy unfolding r bulk_copy_observations_def by (simp split: if_splits)
  ultimately show ?thesis using run that by (simp add: truncate_staging_def)
qed

text \<open>
  When two shops have staged prices of one card, the promotion files the prices of both under the shop that comes
  last in the order of the ids: the other shop gets no observation of the card, and the staged rows are gone.
\<close>

theorem promote_files_under_last_source:
  assumes ok: "shop_ok s" and run: "promote_body cv_of order s = (Inr (Promoted n), s')"
    and last: "order (remdups (filter (\<lambda>i. i \<noteq> 0) (map row_source (get_staging_rows s)))) = srcs @ [b]" and ab: "a \<noteq> b"
    and staged: "c \<in> set (cards_of_source (\<lambda>t. if t = 0 then None else cv_of t) (get_staging_rows s) b)"
    and other: "source_product s' a c = Some pa"
  shows "list_all (\<lambda>o'. o' \<in> set (sd_obs s) \<or> ob_product o' \<noteq> pa) (sd_obs s') \<and> sd_staging s' = []"
proof -
  let ?cv = "\<lambda>t. if t = 0 then None else cv_of t" and ?rows = "get_staging_rows s"
  obtain sp s1
    where m: "map_sources ?cv ?rows (order (remdups (filter (\<lambda>i. i \<noteq> 0) (map row_source ?rows)))) [] s = (sp, s1)"
      and s': "s' = s1\<lparr>sd_obs := fold insert_obs (build_obs ?cv sp (sd_refs s) ?rows) (sd_obs s1), sd_staging := []\<rparr>"
    by (rule promote_body_Promoted [OF run])
  have none: "some_source [] s" by (simp add: some_source_def)
  have s1: "shop_ok s1" "grows s s1" "some_source sp s1" using map_sources_ok [OF ok none m] by blast+
  have sp_c: "dget sp c = source_product s1 b c"
    using map_sources_last [OF ok none _ staged] m last by simp
  have src: "source_product s' x y = source_product s1 x y" for x y
    by (simp add: s' source_product_def split: option.split)
  have "ob_product o' \<noteq> pa" if built: "o' \<in> set (build_obs ?cv sp (sd_refs s) ?rows)" for o'
  proof
    assume "ob_product o' = pa"
    then obtain d where d: "dget sp d = Some pa" using build_obs_product [OF built] by blast
    then obtain x where "source_product s1 x d = Some pa" using s1(3) unfolding some_source_def by blast
    with other src have "d = c" using source_product_inject [OF s1(1)] by metis
    with d sp_c other src ab show False using source_product_inject [OF s1(1)] by metis
  qed
  with fold_insert_obs s1(2) show ?thesis by (fastforce simp: s' list_all_iff grows_def)
qed

definition demo_refs :: reference_ids where
  "demo_refs = \<lparr>rf_sell_type = 1, rf_provider = 2, rf_language = 3, rf_conditions = [(lit ''NM'', 4)],
                rf_finishes = [(lit ''nonfoil'', 5)]\<rparr>"

definition demo_row :: "int \<Rightarrow> rat \<Rightarrow> staged_row" where
  "demo_row src price = \<lparr>sr_product = 1, sr_date = [], sr_variation = [], sr_price = Some price, sr_scraped = [],
                         sr_tcg = Some 7, sr_source = Some src\<rparr>"

definition demo_shops :: shop_db where
  "demo_shops = \<lparr>sd_products = [], sd_sources = [], sd_next = 0, sd_obs = [], sd_staging = [demo_row 1 2, demo_row 2 3],
                 sd_refs = demo_refs\<rparr>"

text \<open>The price 2 of shop 1 is filed under shop 2 (source product 2), the price 3 of shop 2 is dropped.\<close>

lemma promote_files_under_last_source_witness:
  "\<exists>s'. promote_body (\<lambda>t. if t = 7 then Some 9 else None) (\<lambda>xs. xs) demo_shops = (Inr (Promoted 2), s') \<and>
     source_product s' 1 9 = Some 1 \<and> map ob_product (sd_obs s') = [2] \<and> map ob_list_avg (sd_obs s') = [Some 200] \<and>
     list_all (\<lambda>o'. o' \<in> set (sd_obs demo_shops) \<or> ob_product o' \<noteq> 1) (sd_obs s') \<and> sd_staging s' = []"
proof -
  let ?cv = "\<lambda>t :: int. if t = 7 then Some (9 :: nat) else None"
  let ?s = "snd (promote_body ?cv (\<lambda>xs. xs) demo_shops)"
  have ok: "shop_ok demo_shops" by (simp add: shop_ok_def demo_shops_def)
  have "fst (promote_body ?cv (\<lambda>xs. xs) demo_shops) = Inr (Promoted 2)" by code_simp
  then have run: "promote_body ?cv (\<lambda>xs. xs) demo_shops = (Inr (Promoted 2), ?s)" by (simp add: prod_eq_iff)
  have last: "(\<lambda>xs. xs) (remdups (filter (\<lambda>i. i \<noteq> 0) (map row_source (get_staging_rows demo_shops)))) = [1] @ [2 :: int]"
    by code_simp
  have staged: "9 \<in> set (cards_of_source (\<lambda>t. if t = 0 then None else ?cv t) (get_staging_rows demo_shops) 2)" by code_simp
  have other: "source_product ?s 1 9 = Some 1" by code_simp
  have "map ob_product (sd_obs ?s) = [2] \<and> map ob_list_avg (sd_obs ?s) = [Some 200]" by code_simp
  with promote_files_under_last_source [OF ok run last _ staged other] run other show ?thesis by auto
qed

end
