(* ===== verification/Shopify_Staging.thy ===== *)
theory Shopify_Staging
  imports Prelude "HOL-Library.Multiset"
begin

text \<open>
  Shopify products to price rows per product (\<open>shopify/data_staging_service.py\<close>): the rows of an item, the buffers of
  \<open>process_json_dir_to_parquet\<close> with their flushes, the removal of duplicates, and the staging of the collected rows in
  batches.

  Parsing of dates, prices and HTML and the sort of pandas are parameters; a day is a number, a parquet file the list of
  its rows.
\<close>

section \<open>Rows\<close>

record price_line =
  pn_product :: int
  pn_date :: "int option"
  pn_variation :: "json"
  pn_price :: "rat option"
  pn_scraped :: int
  pn_tier :: nat
  pn_card :: "string option"
  pn_tcg :: "string option"

record html_meta =
  hm_card :: "string option"
  hm_tcg :: "string option"
  hm_type :: "string option"

record staging_env =
  se_date :: "json \<Rightarrow> int option"
  se_price :: "json \<Rightarrow> rat res"
  se_int :: "string \<Rightarrow> int option"
  se_today :: int
  se_meta :: "json \<Rightarrow> html_meta"
  se_sort :: "price_line list \<Rightarrow> price_line list"

text \<open>\<open>_to_utc(v.get("updated_at"))\<close>: nothing for a missing or empty text.\<close>

definition to_utc :: "staging_env \<Rightarrow> json \<Rightarrow> int option" where
  "to_utc env x = (if x = JNull \<or> x = JStr '''' then None else se_date env x)"

text \<open>\<open>int(item["id"])\<close>.\<close>

definition item_id :: "staging_env \<Rightarrow> (string, json) dict \<Rightarrow> int res" where
  "item_id env item =
     (case dget item ''id'' of
        None \<Rightarrow> Inl KeyErr
      | Some (JInt i) \<Rightarrow> Inr i
      | Some (JBool b) \<Rightarrow> Inr (if b then 1 else 0)
      | Some (JStr t) \<Rightarrow> (case se_int env t of None \<Rightarrow> Inl ValueErr | Some i \<Rightarrow> Inr i)
      | Some _ \<Rightarrow> Inl TypeErr)"

definition variant_line :: "staging_env \<Rightarrow> int \<Rightarrow> json \<Rightarrow> price_line res" where
  "variant_line env pid v =
     (case v of
        JObj d \<Rightarrow>
          bind_res (if jget d ''price'' = JNull then Inr None
                    else bind_res (se_price env (jget d ''price'')) (\<lambda>p. Inr (Some p))) (\<lambda>price.
            Inr \<lparr>pn_product = pid, pn_date = to_utc env (jget d ''updated_at''), pn_variation = jget d ''title'',
                 pn_price = price, pn_scraped = se_today env, pn_tier = 0, pn_card = None, pn_tcg = None\<rparr>)
      | _ \<Rightarrow> Inl AttrErr)"

fun all_res :: "('a \<Rightarrow> 'b res) \<Rightarrow> 'a list \<Rightarrow> 'b list res" where
  "all_res f [] = Inr []"
| "all_res f (x # xs) = bind_res (f x) (\<lambda>y. bind_res (all_res f xs) (\<lambda>ys. Inr (y # ys)))"

definition df_from_item :: "staging_env \<Rightarrow> int \<Rightarrow> (string, json) dict \<Rightarrow> price_line list res" where
  "df_from_item env pid item =
     (let vs = jget item ''variants'' in
      if \<not> truthy vs then Inr []
      else (case vs of
              JList xs \<Rightarrow> all_res (variant_line env pid) xs
            | JInt _ \<Rightarrow> Inl TypeErr
            | JBool _ \<Rightarrow> Inl TypeErr
            | _ \<Rightarrow> Inl AttrErr))"

section \<open>Duplicates\<close>

definition line_key :: "price_line \<Rightarrow> int \<times> int option \<times> json" where
  "line_key l = (pn_product l, pn_date l, pn_variation l)"

text \<open>\<open>drop_duplicates(keep="last")\<close>.\<close>

fun keep_last :: "price_line list \<Rightarrow> price_line list" where
  "keep_last [] = []"
| "keep_last (l # ls) = (if line_key l \<in> set (map line_key ls) then keep_last ls else l # keep_last ls)"

definition dedupe_batch :: "staging_env \<Rightarrow> price_line list \<Rightarrow> price_line list" where
  "dedupe_batch env ls = keep_last (se_sort env ls)"

section \<open>Buffers and files\<close>

record parquet_state =
  ps_buffers :: "(int, price_line list) dict"
  ps_files :: "(int, price_line list) dict"
  ps_info :: "(int, html_meta \<times> (string, json) dict) dict"

definition rows_of :: "(int, price_line list) dict \<Rightarrow> int \<Rightarrow> price_line list" where
  "rows_of d pid = (case dget d pid of None \<Rightarrow> [] | Some ls \<Rightarrow> ls)"

definition max_rows :: nat where
  "max_rows = 100000"

definition flush_product :: "staging_env \<Rightarrow> int \<Rightarrow> parquet_state \<Rightarrow> parquet_state" where
  "flush_product env pid s =
     (if rows_of (ps_buffers s) pid = [] then s
      else s\<lparr>ps_files := dset pid (rows_of (ps_files s) pid @ dedupe_batch env (rows_of (ps_buffers s) pid)) (ps_files s),
             ps_buffers := dset pid [] (ps_buffers s)\<rparr>)"

text \<open>One item of a file: its rows are buffered, its info file is written once, and a full buffer is flushed.\<close>

definition put_info :: "int \<Rightarrow> html_meta \<Rightarrow> (string, json) dict \<Rightarrow> parquet_state \<Rightarrow> parquet_state" where
  "put_info pid m item s =
     (if dget (ps_info s) pid \<noteq> None then s else s\<lparr>ps_info := dset pid (m, item) (ps_info s)\<rparr>)"

definition item_lines :: "staging_env \<Rightarrow> nat \<Rightarrow> json \<Rightarrow> (int \<times> html_meta \<times> (string, json) dict \<times> price_line list) option res" where
  "item_lines env tier j =
     (case j of
        JObj item \<Rightarrow>
          bind_res (item_id env item) (\<lambda>pid.
          bind_res (df_from_item env pid item) (\<lambda>ls.
            if ls = [] then Inr None
            else let m = se_meta env (jget item ''body_html'') in
              Inr (Some (pid, m, item, map (\<lambda>l. l\<lparr>pn_tier := tier, pn_card := hm_card m, pn_tcg := hm_tcg m\<rparr>) ls))))
      | _ \<Rightarrow> Inr None)"

definition add_lines :: "staging_env \<Rightarrow> int \<Rightarrow> html_meta \<Rightarrow> (string, json) dict \<Rightarrow> price_line list \<Rightarrow> parquet_state \<Rightarrow> parquet_state" where
  "add_lines env pid m item ls s =
     (let s1 = put_info pid m item (s\<lparr>ps_buffers := dset pid (rows_of (ps_buffers s) pid @ ls) (ps_buffers s)\<rparr>)
      in if length (rows_of (ps_buffers s1) pid) \<ge> max_rows then flush_product env pid s1 else s1)"

text \<open>The loop over the items; an item that raises ends the file.\<close>

fun process_items :: "staging_env \<Rightarrow> nat \<Rightarrow> json list \<Rightarrow> parquet_state \<Rightarrow> parquet_state" where
  "process_items env tier [] s = s"
| "process_items env tier (j # js) s =
     (case item_lines env tier j of
        Inl e \<Rightarrow> s
      | Inr None \<Rightarrow> process_items env tier js s
      | Inr (Some (pid, m, item, ls)) \<Rightarrow> process_items env tier js (add_lines env pid m item ls s))"

text \<open>
  A file: the events of its parser, the collection handle in it, and the items that the reader yields before it ends or
  fails.
\<close>

record json_file =
  jf_events :: "(string \<times> string) list"
  jf_handle :: string
  jf_items :: "json list"

text \<open>\<open>get_total_items_in_json\<close>: the inner loop never looks at the new events, so that it counts all that follow.\<close>

fun total_items :: "(string \<times> string) list \<Rightarrow> nat" where
  "total_items [] = 0"
| "total_items (e # es) = (if e = (''items'', ''start_array'') then length es else total_items es)"

definition collection_tier :: "string \<Rightarrow> nat" where
  "collection_tier h = (if sublist ''in-stock'' h \<or> sublist ''instock'' h then 1 else 0)"

fun process_files :: "staging_env \<Rightarrow> json_file list \<Rightarrow> parquet_state \<Rightarrow> parquet_state" where
  "process_files env [] s = s"
| "process_files env (f # fs) s =
     process_files env fs
       (if total_items (jf_events f) = 0 then s else process_items env (collection_tier (jf_handle f)) (jf_items f) s)"

definition process_json_dir :: "staging_env \<Rightarrow> json_file list \<Rightarrow> parquet_state \<Rightarrow> parquet_state" where
  "process_json_dir env fs s =
     (let s1 = process_files env fs (s\<lparr>ps_buffers := []\<rparr>) in fold (flush_product env) (dkeys (ps_buffers s1)) s1)"

text \<open>With the lookup of the market: a code without a market, or a failing lookup, ends the step.\<close>

definition process_json_dir_to_parquet ::
  "staging_env \<Rightarrow> (string \<Rightarrow> int option res) \<Rightarrow> (int \<Rightarrow> json_file list) \<Rightarrow> string \<Rightarrow> (parquet_state, unit) prog" where
  "process_json_dir_to_parquet env markets files code s =
     (case markets code of
        Inr (Some i) \<Rightarrow> if i = - 1 then (Inl ValueErr, s) else (Inr (), process_json_dir env (files i) s)
      | _ \<Rightarrow> (Inl ValueErr, s))"

section \<open>Staging\<close>

text \<open>
  \<open>stage_data_from_parquet\<close>: the rows of all files, in batches of \<open>n > 0\<close> rows; a batch that the database refuses ends
  the staging, with the earlier batches in place.
\<close>

fun stage_batches :: "nat \<Rightarrow> nat \<Rightarrow> ('r list \<Rightarrow> ('d, unit) prog) \<Rightarrow> 'r list \<Rightarrow> ('d, unit) prog" where
  "stage_batches 0 n copy rows = ret ()"
| "stage_batches (Suc k) n copy rows =
     (if rows = [] then ret ()
      else bindp (copy (take n rows)) (\<lambda>_. stage_batches k n copy (drop n rows)))"

definition stage_data_from_parquet ::
  "(price_line list \<Rightarrow> ('d, unit) prog) \<Rightarrow> nat \<Rightarrow> (int, price_line list) dict \<Rightarrow> ('d, unit) prog" where
  "stage_data_from_parquet copy n files =
     (let rows = concat (map snd files) in
      if n = 0 then (if rows = [] then ret () else throw ZeroDivErr) else stage_batches (length rows) n copy rows)"

section \<open>What reaches the files\<close>

text \<open>The rows of a product in the items of a file, up to the item that raises, and in all files.\<close>

fun lines_of_items :: "staging_env \<Rightarrow> nat \<Rightarrow> int \<Rightarrow> json list \<Rightarrow> price_line list" where
  "lines_of_items env tier pid [] = []"
| "lines_of_items env tier pid (j # js) =
     (case item_lines env tier j of
        Inl e \<Rightarrow> []
      | Inr None \<Rightarrow> lines_of_items env tier pid js
      | Inr (Some (i, m, item, ls)) \<Rightarrow> (if i = pid then ls else []) @ lines_of_items env tier pid js)"

definition collected :: "staging_env \<Rightarrow> json_file list \<Rightarrow> int \<Rightarrow> price_line list" where
  "collected env fs pid =
     concat (map (\<lambda>f. lines_of_items env (collection_tier (jf_handle f)) pid (jf_items f))
       (filter (\<lambda>f. total_items (jf_events f) \<noteq> 0) fs))"

text \<open>From one state to another a product was fed these rows: flushed ones are in batches that were full.\<close>

definition fed :: "staging_env \<Rightarrow> int \<Rightarrow> price_line list \<Rightarrow> parquet_state \<Rightarrow> parquet_state \<Rightarrow> bool" where
  "fed env pid ls s t \<longleftrightarrow>
     (\<exists>bs. rows_of (ps_files t) pid = rows_of (ps_files s) pid @ concat (map (dedupe_batch env) bs) \<and>
           concat bs @ rows_of (ps_buffers t) pid = rows_of (ps_buffers s) pid @ ls \<and>
           list_all (\<lambda>b. max_rows \<le> length b) bs)"

lemma rows_of_dset: "rows_of (dset k v d) k' = (if k' = k then v else rows_of d k')"
  by (simp add: rows_of_def dget_dset)

lemma fed_refl: "fed env pid [] s s"
  unfolding fed_def by (rule exI [of _ "[]"]) simp

lemma fed_trans: "fed env pid l1 s t \<Longrightarrow> fed env pid l2 t u \<Longrightarrow> fed env pid (l1 @ l2) s u"
  unfolding fed_def
proof (elim exE conjE)
  fix bs cs
  assume a: "rows_of (ps_files t) pid = rows_of (ps_files s) pid @ concat (map (dedupe_batch env) bs)"
    "concat bs @ rows_of (ps_buffers t) pid = rows_of (ps_buffers s) pid @ l1" "list_all (\<lambda>b. max_rows \<le> length b) bs"
    "rows_of (ps_files u) pid = rows_of (ps_files t) pid @ concat (map (dedupe_batch env) cs)"
    "concat cs @ rows_of (ps_buffers u) pid = rows_of (ps_buffers t) pid @ l2" "list_all (\<lambda>b. max_rows \<le> length b) cs"
  have "concat (bs @ cs) @ rows_of (ps_buffers u) pid = rows_of (ps_buffers s) pid @ l1 @ l2"
    using a(2,5) by (metis append.assoc concat_append)
  with a show "\<exists>bs. rows_of (ps_files u) pid = rows_of (ps_files s) pid @ concat (map (dedupe_batch env) bs) \<and>
      concat bs @ rows_of (ps_buffers u) pid = rows_of (ps_buffers s) pid @ l1 @ l2 \<and> list_all (\<lambda>b. max_rows \<le> length b) bs"
    by (intro exI [of _ "bs @ cs"]) simp
qed

lemma put_info_rows [simp]:
  "ps_buffers (put_info pid m item s) = ps_buffers s" "ps_files (put_info pid m item s) = ps_files s"
  by (simp_all add: put_info_def)

lemma fed_add: "fed env pid (if i = pid then ls else []) s (add_lines env i m item ls s)"
proof (cases "max_rows \<le> length (rows_of (ps_buffers s) i @ ls) \<and> i = pid \<and> rows_of (ps_buffers s) i @ ls \<noteq> []")
  case True
  then show ?thesis unfolding fed_def
    by (intro exI [of _ "[rows_of (ps_buffers s) i @ ls]"])
      (auto simp: add_lines_def Let_def flush_product_def rows_of_dset max_rows_def)
next
  case False
  then show ?thesis unfolding fed_def
    by (intro exI [of _ "[]"]) (auto simp: add_lines_def Let_def flush_product_def rows_of_dset)
qed

lemma fed_items: "fed env pid (lines_of_items env tier pid js) s (process_items env tier js s)"
proof (induction js arbitrary: s)
  case Nil
  then show ?case by (simp add: fed_refl)
next
  case (Cons j js)
  show ?case
  proof (cases "item_lines env tier j")
    case (Inl e)
    then show ?thesis by (simp add: fed_refl)
  next
    case (Inr r)
    show ?thesis
    proof (cases r)
      case None
      with Inr Cons.IH [of s] show ?thesis by simp
    next
      case (Some p)
      then obtain i m item ls where p: "r = Some (i, m, item, ls)" by (cases p) auto
      have "fed env pid ((if i = pid then ls else []) @ lines_of_items env tier pid js) s
          (process_items env tier js (add_lines env i m item ls s))"
        by (rule fed_trans [OF fed_add Cons.IH])
      then show ?thesis by (simp add: Inr p)
    qed
  qed
qed

lemma fed_files: "fed env pid (collected env fs pid) s (process_files env fs s)"
proof (induction fs arbitrary: s)
  case Nil
  then show ?case by (simp add: collected_def fed_refl)
next
  case (Cons f fs)
  let ?l = "lines_of_items env (collection_tier (jf_handle f)) pid (jf_items f)"
  show ?case
  proof (cases "total_items (jf_events f) = 0")
    case True
    with Cons.IH [of s] show ?thesis by (simp add: collected_def)
  next
    case False
    have "fed env pid (?l @ collected env fs pid) s (process_files env fs (process_items env (collection_tier (jf_handle f)) (jf_items f) s))"
      by (rule fed_trans [OF fed_items Cons.IH])
    with False show ?thesis by (simp add: collected_def)
  qed
qed

text \<open>The final flush.\<close>

lemma flush_other: "i \<noteq> pid \<Longrightarrow> rows_of (ps_files (flush_product env i s)) pid = rows_of (ps_files s) pid \<and>
    rows_of (ps_buffers (flush_product env i s)) pid = rows_of (ps_buffers s) pid"
  by (simp add: flush_product_def rows_of_dset)

lemma flush_same: "rows_of (ps_buffers (flush_product env pid s)) pid = [] \<and>
    rows_of (ps_files (flush_product env pid s)) pid =
      rows_of (ps_files s) pid @ (if rows_of (ps_buffers s) pid = [] then [] else dedupe_batch env (rows_of (ps_buffers s) pid))"
  by (simp add: flush_product_def rows_of_dset)

lemma flush_all:
  "rows_of (ps_files (fold (flush_product env) ks s)) pid =
     rows_of (ps_files s) pid @ (if pid \<in> set ks \<and> rows_of (ps_buffers s) pid \<noteq> [] then dedupe_batch env (rows_of (ps_buffers s) pid) else [])"
proof (induction ks arbitrary: s)
  case (Cons k ks)
  from Cons.IH [of "flush_product env k s"] flush_other [of k pid env s] flush_same [of env pid s]
  show ?case by (cases "k = pid") auto
qed simp

lemma rows_of_key: "rows_of d pid \<noteq> [] \<Longrightarrow> pid \<in> set (dkeys d)"
  by (force simp: rows_of_def dest: map_of_SomeD split: option.splits)

lemma process_json_dir_batches:
  "\<exists>bs. rows_of (ps_files (process_json_dir env fs s)) pid = rows_of (ps_files s) pid @ concat (map (dedupe_batch env) bs) \<and>
        concat bs = collected env fs pid \<and> list_all (\<lambda>b. max_rows \<le> length b) (butlast bs)"
proof -
  let ?s = "s\<lparr>ps_buffers := []\<rparr>" and ?t = "process_files env fs (s\<lparr>ps_buffers := []\<rparr>)"
  obtain bs where bs: "rows_of (ps_files ?t) pid = rows_of (ps_files s) pid @ concat (map (dedupe_batch env) bs)"
    "concat bs @ rows_of (ps_buffers ?t) pid = collected env fs pid" "list_all (\<lambda>b. max_rows \<le> length b) bs"
    using fed_files [of env pid fs ?s] by (auto simp: fed_def rows_of_def)
  show ?thesis
  proof (cases "rows_of (ps_buffers ?t) pid = []")
    case True
    have "list_all (\<lambda>b. max_rows \<le> length b) (butlast bs)" using bs(3) by (auto simp: list_all_iff dest: in_set_butlastD)
    with True bs show ?thesis by (intro exI [of _ bs]) (simp add: process_json_dir_def Let_def flush_all)
  next
    case False
    with bs rows_of_key [OF False] show ?thesis
      by (intro exI [of _ "bs @ [rows_of (ps_buffers ?t) pid]"]) (simp add: process_json_dir_def Let_def flush_all)
  qed
qed

section \<open>Duplicates\<close>

lemma keep_last_keys: "set (map line_key (keep_last ls)) = set (map line_key ls) \<and> distinct (map line_key (keep_last ls))"
proof (induction ls)
  case (Cons l ls)
  then show ?case by (cases "line_key l \<in> set (map line_key ls)") auto
qed simp

lemma keep_last_subset: "set (keep_last ls) \<subseteq> set ls"
  by (induction ls) auto

lemma keep_last_best:
  assumes "sorted_wrt (\<lambda>a b. line_key a = line_key b \<longrightarrow> pn_tier a \<le> pn_tier b) ls"
    "l \<in> set (keep_last ls)" "l' \<in> set ls" "line_key l' = line_key l"
  shows "pn_tier l' \<le> pn_tier l"
  using assms
proof (induction ls)
  case (Cons a ls)
  show ?case
  proof (cases "line_key a \<in> set (map line_key ls)")
    case True
    with Cons.prems(2) have l: "l \<in> set (keep_last ls)" by simp
    then have "l \<in> set ls" using keep_last_subset by blast
    with Cons l show ?thesis by auto
  next
    case False
    then have "l' = a \<longleftrightarrow> l = a" using Cons.prems(2,3,4) keep_last_subset by (auto simp: image_iff)
    with Cons False show ?thesis by auto
  qed
qed simp


definition demo_env :: staging_env where
  "demo_env = \<lparr>se_date = (\<lambda>_. None), se_price = (\<lambda>_. Inr 1), se_int = (\<lambda>_. None), se_today = 0,
               se_meta = (\<lambda>_. \<lparr>hm_card = None, hm_tcg = None, hm_type = None\<rparr>), se_sort = sort_key pn_tier\<rparr>"

definition demo_files :: "json_file list" where
  "demo_files = map (\<lambda>h. \<lparr>jf_events = [(''items'', ''start_array''), (''items'', ''end_array'')], jf_handle = h,
     jf_items = [JObj [(''id'', JInt 5), (''variants'', JList [JObj [(''title'', JStr ''NM'')]])]]\<rparr>) [''in-stock'', ''all'']"

lemma demo_sorted: "sorted_wrt (\<lambda>a b. line_key a = line_key b \<longrightarrow> pn_tier a \<le> pn_tier b) (se_sort demo_env ls)"
proof -
  have "sorted_wrt (\<lambda>a b. pn_tier a \<le> pn_tier b) (sort_key pn_tier ls)"
    using sorted_sort_key [of pn_tier ls] by (simp add: sorted_map)
  then have "sorted_wrt (\<lambda>a b. line_key a = line_key b \<longrightarrow> pn_tier a \<le> pn_tier b) (sort_key pn_tier ls)"
    by (rule sorted_wrt_mono_rel [rotated]) simp
  then show ?thesis by (simp add: demo_env_def)
qed


end
