(* ===== verification/Shopify_Fetch.thy ===== *)
theory Shopify_Fetch
  imports Ops_Runs Py_Text Storage Shopify_Staging
begin

text \<open>
  The first steps of the Shopify pipeline (\<open>shopify/pipeline_service.py\<close>): the collections of the shops and their
  classification, the download of the products page by page, and the hand-over to the parquet files and the staging
  table. The tasks are linked by Celery messages, which are JSON.

  The shop is a parameter: the answer of \<open>get_collection_products_page\<close> (which retries on its own) for a collection, a
  last id and a limit. The collections of one shop are fetched one after the other here.
\<close>

definition dec :: "int \<Rightarrow> string" where
  "dec i = map char_of (str_int i)"

section \<open>Tables\<close>

record market =
  mk_id :: int
  mk_source :: int
  mk_code :: string
  mk_url :: string

text \<open>
  The game of a collection by market and name, the parquet files of a market, the product handles by product id (with
  their market, handle and title), and the staging table with the source of a row.
\<close>

record shop_world =
  sw_handles :: "(int \<times> string, string option) dict"
  sw_parquet :: "(int, parquet_state) dict"
  sw_products :: "(int, int \<times> json \<times> json) dict"
  sw_staging :: "(price_line \<times> int option) list"

fun for_each :: "('a \<Rightarrow> ('s, 'b) prog) \<Rightarrow> 'a list \<Rightarrow> ('s, 'b list) prog" where
  "for_each f [] = ret []"
| "for_each f (x # xs) = bindp (f x) (\<lambda>y. bindp (for_each f xs) (\<lambda>ys. ret (y # ys)))"

section \<open>Collections\<close>

definition add_handles :: "int \<Rightarrow> string list \<Rightarrow> shop_world \<Rightarrow> shop_world" where
  "add_handles m names w =
     w\<lparr>sw_handles := fold (\<lambda>n d. if dget d (m, n) \<noteq> None then d else dset (m, n) None d) names (sw_handles w)\<rparr>"

definition fetch_collections ::
  "(string \<Rightarrow> string list res) \<Rightarrow> (pyexc \<Rightarrow> string) \<Rightarrow> nat option \<Rightarrow> market list \<Rightarrow> (ops \<times> shop_world, nat) prog" where
  "fetch_collections sitemap msg run ms =
     bindp (for_each (\<lambda>m. track_world run (''fetch_collections_'' @ dec (mk_id m)) ''step_failed'' msg (\<lambda>w.
              case sitemap (mk_url m) of
                Inl e \<Rightarrow> (Inl e, w)
              | Inr names \<Rightarrow> (Inr (length names), add_handles (mk_id m) names w))) ms)
       (\<lambda>ns. ret (sum_list ns))"

definition unclassified :: "int \<Rightarrow> shop_world \<Rightarrow> string list" where
  "unclassified m w = map (snd \<circ> fst) (filter (\<lambda>((m', n), g). m' = m \<and> g = None) (sw_handles w))"

definition mtg_handles :: "int \<Rightarrow> shop_world \<Rightarrow> string list" where
  "mtg_handles m w = map (snd \<circ> fst) (filter (\<lambda>((m', n), g). m' = m \<and> g = Some ''mtg'') (sw_handles w))"

text \<open>\<open>re.search(r'data-tcgid="([0-9]+)"', s)\<close> with the digits read as a number.\<close>

definition is_num :: "char \<Rightarrow> bool" where
  "is_num c \<longleftrightarrow> 48 \<le> (of_char c :: nat) \<and> (of_char c :: nat) \<le> 57"

definition tcg_mark :: string where
  "tcg_mark = ''data-tcgid='' @ [CHR 0x22]"

definition mtg_mark :: string where
  "mtg_mark = ''data-cardtype='' @ [CHR 0x22] @ ''mtg'' @ [CHR 0x22]"

definition digits_value :: "string \<Rightarrow> int" where
  "digits_value ds = int (nat_of_digits (map of_char ds))"

fun search_tcgid :: "string \<Rightarrow> int option" where
  "search_tcgid [] = None"
| "search_tcgid (c # s) =
     (let rest = drop (length tcg_mark) (c # s); ds = takeWhile is_num rest in
      if prefix tcg_mark (c # s) \<and> ds \<noteq> [] \<and> take 1 (drop (length ds) rest) = [CHR 0x22]
      then Some (digits_value ds) else search_tcgid s)"

definition html_of :: "json \<Rightarrow> string" where
  "html_of p = (case p of JObj d \<Rightarrow> (case jget d ''body_html'' of JStr s \<Rightarrow> s | _ \<Rightarrow> []) | _ \<Rightarrow> [])"

definition sample_ids :: "json list \<Rightarrow> int list" where
  "sample_ids ps = List.map_filter (\<lambda>p. if sublist mtg_mark (html_of p) then search_tcgid (html_of p) else None) ps"

type_synonym site = "string \<Rightarrow> string \<Rightarrow> json \<Rightarrow> nat \<Rightarrow> json list res"

definition classify_handle :: "site \<Rightarrow> (int list \<Rightarrow> bool) \<Rightarrow> market \<Rightarrow> string \<Rightarrow> shop_world \<Rightarrow> nat \<times> shop_world" where
  "classify_handle site known m h w =
     (case site (mk_url m) h (JInt 0) 10 of
        Inl _ \<Rightarrow> (0, w)
      | Inr ps \<Rightarrow>
          let ids = sample_ids ps; game = (if ids \<noteq> [] \<and> known ids then ''mtg'' else ''other'')
          in (1, w\<lparr>sw_handles := dset (mk_id m, h) (Some game) (sw_handles w)\<rparr>))"

fun classify_handles :: "site \<Rightarrow> (int list \<Rightarrow> bool) \<Rightarrow> market \<Rightarrow> string list \<Rightarrow> shop_world \<Rightarrow> nat \<times> shop_world" where
  "classify_handles site known m [] w = (0, w)"
| "classify_handles site known m (h # hs) w =
     (case classify_handle site known m h w of (n, w') \<Rightarrow>
        case classify_handles site known m hs w' of (k, w'') \<Rightarrow> (n + k, w''))"

definition classify_collections ::
  "site \<Rightarrow> (int list \<Rightarrow> bool) \<Rightarrow> (pyexc \<Rightarrow> string) \<Rightarrow> nat option \<Rightarrow> market list \<Rightarrow> (ops \<times> shop_world, nat) prog" where
  "classify_collections site known msg run ms =
     bindp (for_each (\<lambda>m s.
              if unclassified (mk_id m) (snd s) = [] then (Inr 0, s)
              else track_world run (''classify_collections_'' @ dec (mk_id m)) ''step_failed'' msg (\<lambda>w.
                case classify_handles site known m (unclassified (mk_id m) w) w of (n, w') \<Rightarrow> (Inr n, w')) s) ms)
       (\<lambda>ns. ret (sum_list ns))"

section \<open>Products page by page\<close>

definition product_id :: "json \<Rightarrow> json res" where
  "product_id p = (case p of JObj d \<Rightarrow> (case dget d ''id'' of None \<Rightarrow> Inl KeyErr | Some i \<Rightarrow> Inr i) | _ \<Rightarrow> Inl TypeErr)"

definition page_file :: "int \<Rightarrow> string \<Rightarrow> nat \<Rightarrow> string" where
  "page_file src h k = dec src @ ''_fetch/'' @ h @ ''_page_'' @ dec (int k) @ ''_products.json''"

definition page_json :: "string \<Rightarrow> json list \<Rightarrow> json" where
  "page_json h ps = JObj [(''_collection_handle'', JStr h), (''items'', JList ps)]"

text \<open>\<open>fetch_one\<close>: pages until an empty one; there is no bound on their number.\<close>

partial_function (option) fetch_pages ::
  "'s backend \<Rightarrow> (json \<Rightarrow> json list res) \<Rightarrow> int \<Rightarrow> string \<Rightarrow> nat \<Rightarrow> json \<Rightarrow> 's \<Rightarrow> (nat res \<times> 's) option" where
  "fetch_pages B site src h k since s =
     (case site since of
        Inl e \<Rightarrow> Some (Inl e, s)
      | Inr ps \<Rightarrow>
          if ps = [] then Some (Inr k, s)
          else (case save_json B (page_file src h k) (page_json h ps) s of
                  (Inl e, s') \<Rightarrow> Some (Inl e, s')
                | (Inr _, s') \<Rightarrow>
                    (case product_id (last ps) of
                       Inl e \<Rightarrow> Some (Inl e, s')
                     | Inr i \<Rightarrow> fetch_pages B site src h (Suc k) i s')))"

definition fetch_one :: "'s backend \<Rightarrow> site \<Rightarrow> market \<Rightarrow> string \<Rightarrow> 's \<Rightarrow> (nat res \<times> 's) option" where
  "fetch_one B site m h = fetch_pages B (\<lambda>i. site (mk_url m) h i 250) (mk_source m) h 0 (JInt 0)"

fun fetch_handles :: "'s backend \<Rightarrow> site \<Rightarrow> market \<Rightarrow> string list \<Rightarrow> 's \<Rightarrow> (nat res \<times> 's) option" where
  "fetch_handles B site m [] s = Some (Inr 0, s)"
| "fetch_handles B site m (h # hs) s =
     Option.bind (fetch_one B site m h s) (\<lambda>(r, s').
       case r of
         Inl e \<Rightarrow> Some (Inl e, s')
       | Inr n \<Rightarrow> map_option (\<lambda>(r', s''). (bind_res r' (\<lambda>k. Inr (n + k)), s'')) (fetch_handles B site m hs s'))"

section \<open>Messages between tasks\<close>

text \<open>A key of a Python dict; a message is JSON, in which every key is a text.\<close>

datatype pykey = Int_Key int | Text_Key string

fun wire_key :: "pykey \<Rightarrow> pykey" where
  "wire_key (Int_Key i) = Text_Key (dec i)"
| "wire_key (Text_Key s) = Text_Key s"

type_synonym dirs = "(pykey, string) dict"

definition wire :: "dirs \<Rightarrow> dirs" where
  "wire d = fold (\<lambda>(k, v). dset (wire_key k) v) d []"

text \<open>
  \<open>fetch_all_markets\<close>: the directory of every market that has collections, under its number; nothing if the download of
  a shop never ends.
\<close>

fun fetch_all_markets ::
  "'s backend \<Rightarrow> site \<Rightarrow> (string \<Rightarrow> string) \<Rightarrow> shop_world \<Rightarrow> market list \<Rightarrow> 's \<Rightarrow> (dirs res \<times> 's) option" where
  "fetch_all_markets B site place_of w [] s = Some (Inr [], s)"
| "fetch_all_markets B site place_of w (m # ms) s =
     (if mtg_handles (mk_id m) w = [] then fetch_all_markets B site place_of w ms s
      else Option.bind (fetch_handles B site m (mtg_handles (mk_id m) w) s) (\<lambda>(r, s').
        case r of
          Inl e \<Rightarrow> Some (Inl e, s')
        | Inr _ \<Rightarrow> map_option (\<lambda>(r', s''). (bind_res r' (\<lambda>d. Inr (dset (Int_Key (mk_id m)) (place_of (dec (mk_source m) @ ''_fetch'')) d)), s''))
                     (fetch_all_markets B site place_of w ms s')))"

section \<open>Parquet files and staging\<close>

definition no_parquet :: parquet_state where
  "no_parquet = \<lparr>ps_buffers = [], ps_files = [], ps_info = []\<rparr>"

definition parquet_of :: "int \<Rightarrow> shop_world \<Rightarrow> parquet_state" where
  "parquet_of m w = (case dget (sw_parquet w) m of None \<Rightarrow> no_parquet | Some p \<Rightarrow> p)"

definition upsert_product_handles :: "int \<Rightarrow> (int, html_meta \<times> (string, json) dict) dict \<Rightarrow> shop_world \<Rightarrow> shop_world" where
  "upsert_product_handles m infos w =
     w\<lparr>sw_products := fold (\<lambda>(pid, (_, item)) d.
         dset pid (case dget d pid of None \<Rightarrow> (m, jget item ''handle'', jget item ''title'')
                   | Some (m', _, _) \<Rightarrow> (m', jget item ''handle'', jget item ''title'')) d) infos (sw_products w)\<rparr>"

definition process_market ::
  "staging_env \<Rightarrow> (string \<Rightarrow> int option res) \<Rightarrow> (int \<Rightarrow> json_file list) \<Rightarrow> market \<Rightarrow> (shop_world, unit) prog" where
  "process_market env markets files m w =
     (case process_json_dir_to_parquet env markets files (mk_code m) (parquet_of (mk_id m) w) of
        (Inl e, p) \<Rightarrow> (Inl e, w\<lparr>sw_parquet := dset (mk_id m) p (sw_parquet w)\<rparr>)
      | (Inr _, p) \<Rightarrow> (Inr (), upsert_product_handles (mk_id m) (ps_info p) (w\<lparr>sw_parquet := dset (mk_id m) p (sw_parquet w)\<rparr>)))"

text \<open>A market without a directory under its number is passed over.\<close>

fun process_to_parquet ::
  "staging_env \<Rightarrow> (string \<Rightarrow> int option res) \<Rightarrow> (int \<Rightarrow> json_file list) \<Rightarrow> (string \<Rightarrow> string) \<Rightarrow> (pyexc \<Rightarrow> string) \<Rightarrow> nat option \<Rightarrow>
   dirs \<Rightarrow> market list \<Rightarrow> (ops \<times> shop_world, dirs) prog" where
  "process_to_parquet env markets files out msg run ds [] = ret []"
| "process_to_parquet env markets files out msg run ds (m # ms) =
     (case dget ds (Int_Key (mk_id m)) of
        None \<Rightarrow> process_to_parquet env markets files out msg run ds ms
      | Some d \<Rightarrow>
          bindp (track_world run (''process_to_parquet_'' @ dec (mk_id m)) ''step_failed'' msg (process_market env markets files m)) (\<lambda>_.
          bindp (process_to_parquet env markets files out msg run ds ms) (\<lambda>ps.
            ret (dset (Int_Key (mk_id m)) (out d) ps))))"

definition stage_market :: "market \<Rightarrow> (shop_world, unit) prog" where
  "stage_market m w =
     bindp (stage_data_from_parquet (\<lambda>rows. \<lambda>w. (Inr (), w\<lparr>sw_staging := sw_staging w @ map (\<lambda>r. (r, None)) rows\<rparr>)) 10000
              (ps_files (parquet_of (mk_id m) w)))
       (\<lambda>_ w. (Inr (), w\<lparr>sw_staging := map (\<lambda>(r, src).
           if src = None \<and> (case dget (sw_products w) (pn_product r) of None \<Rightarrow> False | Some (m', _, _) \<Rightarrow> m' = mk_id m)
           then (r, Some (mk_source m)) else (r, src)) (sw_staging w)\<rparr>)) w"

fun stage_raw :: "(pyexc \<Rightarrow> string) \<Rightarrow> nat option \<Rightarrow> dirs \<Rightarrow> market list \<Rightarrow> (ops \<times> shop_world, unit) prog" where
  "stage_raw msg run ds [] = ret ()"
| "stage_raw msg run ds (m # ms) =
     (case dget ds (Int_Key (mk_id m)) of
        None \<Rightarrow> stage_raw msg run ds ms
      | Some d \<Rightarrow>
          bindp (track_world run (''stage_raw_'' @ dec (mk_id m)) ''step_failed'' msg (stage_market m)) (\<lambda>_.
            stage_raw msg run ds ms))"

section \<open>The download is complete\<close>

lemma filter_after_page:
  fixes f :: "'a \<Rightarrow> int"
  assumes "sorted_wrt (<) (map f ys)" "ys \<noteq> []" "0 < n"
  shows "filter (\<lambda>p. f (last (take n ys)) < f p) ys = drop n ys"
proof -
  have split: "sorted_wrt (<) (map f (take n ys @ drop n ys))" using assms(1) by simp
  have ne: "take n ys \<noteq> []" using assms by simp
  have le: "f p \<le> f (last (take n ys))" if "p \<in> set (take n ys)" for p
  proof -
    have "take n ys = butlast (take n ys) @ [last (take n ys)]" using ne by simp
    moreover have "sorted_wrt (<) (map f (take n ys))" using split by (simp add: sorted_wrt_append del: append_take_drop_id)
    ultimately have "sorted_wrt (<) (map f (butlast (take n ys)) @ [f (last (take n ys))])"
      by (metis list.simps(8,9) map_append)
    moreover have "p \<in> set (butlast (take n ys)) \<or> p = last (take n ys)"
      using that ne by (metis append_butlast_last_id in_set_conv_decomp insert_iff list.set(2) set_append Un_iff empty_iff empty_set)
    ultimately show ?thesis by (auto simp: sorted_wrt_append)
  qed
  have gt: "f (last (take n ys)) < f p" if "p \<in> set (drop n ys)" for p
    using split that last_in_set [OF ne] by (simp add: sorted_wrt_append del: append_take_drop_id)
  have "filter (\<lambda>p. f (last (take n ys)) < f p) (take n ys @ drop n ys) = drop n ys"
    unfolding filter_append using le gt by (subst filter_False, fastforce, subst filter_True, auto)
  then show ?thesis by simp
qed

text \<open>A shop that honours the last id: the products are listed by ascending id, a page is the next ones after it.\<close>

definition lists_products :: "(json \<Rightarrow> json list res) \<Rightarrow> nat \<Rightarrow> (json \<Rightarrow> int) \<Rightarrow> json list \<Rightarrow> bool" where
  "lists_products site limit pid xs \<longleftrightarrow>
     0 < limit \<and> sorted_wrt (<) (map pid xs) \<and> list_all (\<lambda>p. 0 < pid p \<and> product_id p = Inr (JInt (pid p))) xs \<and>
     (\<forall>i. site (JInt i) = Inr (take limit (filter (\<lambda>p. i < pid p) xs)))"

definition saves :: "'s backend \<Rightarrow> bool" where
  "saves B \<longleftrightarrow> (\<forall>n d f s. is_ok (fst (be_save B n d f s)))"

fun save_pages :: "'s backend \<Rightarrow> int \<Rightarrow> string \<Rightarrow> nat \<Rightarrow> json list list \<Rightarrow> 's \<Rightarrow> 's" where
  "save_pages B src h k [] s = s"
| "save_pages B src h k (p # ps) s = save_pages B src h (Suc k) ps (snd (save_json B (page_file src h k) (page_json h p) s))"

lemma fetch_pages_rest:
  assumes site: "lists_products site limit pid xs" and B: "saves B"
  shows "\<exists>pages. concat pages = filter (\<lambda>p. i < pid p) xs \<and> [] \<notin> set pages \<and> list_all (\<lambda>p. length p \<le> limit) pages \<and>
           fetch_pages B site src h k (JInt i) s = Some (Inr (k + length pages), save_pages B src h k pages s)"
proof (induction "length (filter (\<lambda>p. i < pid p) xs)" arbitrary: i k s rule: less_induct)
  case less
  let ?ys = "filter (\<lambda>p. i < pid p) xs"
  have page: "site (JInt i) = Inr (take limit ?ys)" and pos: "0 < limit"
    using site by (simp_all add: lists_products_def)
  show ?case
  proof (cases "?ys = []")
    case True
    then show ?thesis using page by (intro exI [of _ "[]"]) (simp add: fetch_pages.simps)
  next
    case False
    let ?p = "take limit ?ys" and ?j = "pid (last (take limit ?ys))"
    have "last ?p \<in> set ?p" using False pos by (simp add: last_in_set)
    then have last: "last ?p \<in> set ?ys" by (rule in_set_takeD)
    then have ij: "i < ?j" and id: "product_id (last ?p) = Inr (JInt ?j)"
      using site by (auto simp: lists_products_def list_all_iff)
    have sorted: "sorted_wrt (<) (map pid ?ys)"
      using site unfolding lists_products_def sorted_wrt_map by (blast intro: sorted_wrt_filter)
    have "filter (\<lambda>p. ?j < pid p) xs = filter (\<lambda>p. ?j < pid p) ?ys" using ij by (auto intro: filter_cong)
    also have "\<dots> = drop limit ?ys" by (rule filter_after_page [OF sorted False pos])
    finally have rest: "filter (\<lambda>p. ?j < pid p) xs = drop limit ?ys" .
    obtain name s' where saved: "save_json B (page_file src h k) (page_json h ?p) s = (Inr name, s')"
      using B unfolding saves_def save_json_def is_ok_iff by (metis prod.collapse)
    have "length (filter (\<lambda>p. ?j < pid p) xs) < length ?ys" using rest False pos by simp
    from less [OF this, of "Suc k" s'] obtain pages where pages: "concat pages = drop limit ?ys" "[] \<notin> set pages"
      "list_all (\<lambda>p. length p \<le> limit) pages"
      "fetch_pages B site src h (Suc k) (JInt ?j) s' = Some (Inr (Suc k + length pages), save_pages B src h (Suc k) pages s')"
      unfolding rest by blast
    have "?p \<noteq> []" using False pos by simp
    then have "fetch_pages B site src h k (JInt i) s = Some (Inr (Suc k + length pages), save_pages B src h (Suc k) pages s')"
      using page saved id pages(4) by (simp add: fetch_pages.simps [of B site src h k])
    with pages \<open>?p \<noteq> []\<close> saved show ?thesis
      by (intro exI [of _ "?p # pages"]) simp
  qed
qed

text \<open>
  C29. The download of a collection ends and is complete, however many products the shop has: the saved pages, none of
  them empty, are the products in order.
\<close>

theorem fetch_one_complete:
  assumes "lists_products (\<lambda>i. site (mk_url m) h i 250) 250 pid xs" "saves B"
  shows "\<exists>pages. concat pages = xs \<and> [] \<notin> set pages \<and> list_all (\<lambda>p. length p \<le> 250) pages \<and>
           fetch_one B site m h s = Some (Inr (length pages), save_pages B (mk_source m) h 0 pages s)"
proof -
  have "filter (\<lambda>p. 0 < pid p) xs = xs" using assms(1) by (simp add: lists_products_def list_all_iff filter_id_conv)
  with fetch_pages_rest [OF assms, of 0 "mk_source m" h 0 s] show ?thesis by (simp add: fetch_one_def)
qed

text \<open>A shop that ignores the last id and has a product is downloaded for ever.\<close>

lemma fetch_pages_endless:
  assumes site: "\<And>i. site i = Inr ps" "ps \<noteq> []" and B: "saves B" and id: "is_ok (product_id (last ps))"
  shows "fetch_pages B site src h k i s = None"
proof -
  have "B' = B \<longrightarrow> site' = site \<longrightarrow> False" if "fetch_pages B' site' src h k i s = Some r" for B' site' src h k i s r
  proof (rule fetch_pages.raw_induct [where P = "\<lambda>B' site' src h k i s r. B' = B \<longrightarrow> site' = site \<longrightarrow> False",
      OF _ that], goal_cases)
    case (1 go B' site' src h k i s r)
    show ?case
    proof (intro impI)
      assume eq: "B' = B" "site' = site"
      obtain j where j: "product_id (last ps) = Inr j" using id by (auto simp: is_ok_iff)
      obtain n s' where saved: "save_json B (page_file src h k) (page_json h ps) s = (Inr n, s')"
        using B unfolding saves_def save_json_def is_ok_iff by (metis prod.collapse)
      from 1(2) have "go B site src h (Suc k) j s' = Some r"
        by (simp add: eq site j saved)
      from 1(1) [OF this] show False by simp
    qed
  qed
  from this [of B site] show ?thesis by (cases "fetch_pages B site src h k i s") auto
qed

section \<open>The chain of tasks\<close>

lemma wire_no_number: "dget (wire d) (Int_Key i) = None"
proof -
  have "dget (fold (\<lambda>(k, v). dset (wire_key k) v) d e) (Int_Key i) = dget e (Int_Key i)" for e :: dirs
  proof (induction d arbitrary: e)
    case (Cons p d)
    obtain k v where p: "p = (k, v)" by (cases p)
    have "wire_key k \<noteq> Int_Key i" by (cases k) simp_all
    then have "dget (dset (wire_key k) v e) (Int_Key i) = dget e (Int_Key i)" by (simp add: dget_dset)
    with Cons.IH [of "dset (wire_key k) v e"] show ?case by (simp add: p)
  qed simp
  then show ?thesis by (simp add: wire_def)
qed

lemma process_nothing: "process_to_parquet env markets files out msg run (wire d) ms = ret []"
  by (induction ms) (simp_all add: wire_no_number)

lemma stage_nothing: "stage_raw msg run (wire d) ms = ret ()"
  by (induction ms) (simp_all add: wire_no_number)

text \<open>
  The pipeline stages nothing: the directories go from the download to the next task as JSON, which turns the
  numbers of the markets into texts; none of them is found again, every market is passed over, and neither the parquet
  files nor the staging table nor the run change.
\<close>

theorem chain_stages_nothing:
  "\<exists>ps. process_to_parquet env markets files out msg run (wire ds) ms (db, w) = (Inr ps, (db, w)) \<and>
        stage_raw msg run (wire ps) ms (db, w) = (Inr (), (db, w))"
  by (simp add: process_nothing stage_nothing)

lemma chain_stages_nothing_demo:
  "process_to_parquet demo_env (\<lambda>_. Inr (Some 3)) (\<lambda>_. demo_files) (\<lambda>d. d) (\<lambda>_. []) None [(Int_Key 1, ''3_fetch'')]
     [\<lparr>mk_id = 1, mk_source = 3, mk_code = ''gg'', mk_url = []\<rparr>] s = (Inr [(Int_Key 1, ''3_fetch'')], snd (
   process_to_parquet demo_env (\<lambda>_. Inr (Some 3)) (\<lambda>_. demo_files) (\<lambda>d. d) (\<lambda>_. []) None [(Int_Key 1, ''3_fetch'')]
     [\<lparr>mk_id = 1, mk_source = 3, mk_code = ''gg'', mk_url = []\<rparr>] s))"
  by (cases s) (simp add: track_world_def process_market_def process_json_dir_to_parquet_def bindp_def)

section \<open>Classified collections\<close>

lemma keeps_track_world:
  assumes "keeps I body"
  shows "keeps (\<lambda>s. I (snd s)) (track_world run name code msg body)"
proof (rule keepsI)
  fix s :: "ops \<times> 'a"
  assume "I (snd s)"
  moreover obtain db w where "s = (db, w)" by (cases s)
  moreover have "I (snd (body w))" if "I w" for w using assms that by (simp add: keeps_def)
  ultimately show "I (snd (snd (track_world run name code msg body s)))"
    by (auto simp: track_world_def Let_def split: prod.split sum.split) (metis snd_conv)+
qed

lemma keeps_for_each: "(\<And>x. keeps I (f x)) \<Longrightarrow> keeps I (for_each f xs)"
  by (induction xs) (auto intro!: keeps_bindp)

definition classified :: "int \<times> string \<Rightarrow> string \<Rightarrow> shop_world \<Rightarrow> bool" where
  "classified k g w \<longleftrightarrow> dict_ok (sw_handles w) \<and> dget (sw_handles w) k = Some (Some g)"

lemma unclassified_other: "classified (m, n) g w \<Longrightarrow> n \<notin> set (unclassified m w)"
  by (auto simp: classified_def unclassified_def dget_in_set [symmetric])

lemma classify_handles_keeps:
  "classified k g w \<Longrightarrow> fst k \<noteq> mk_id m \<or> snd k \<notin> set hs \<Longrightarrow> classified k g (snd (classify_handles site known m hs w))"
proof (induction hs arbitrary: w)
  case (Cons h hs)
  have "classified k g (snd (classify_handle site known m h w))"
    using Cons.prems by (auto simp: classify_handle_def classified_def Let_def dget_dset split: sum.split)
  with Cons.IH [of "snd (classify_handle site known m h w)"] Cons.prems(2) show ?case
    by (auto simp: case_prod_beta)
qed simp

text \<open>
  The classification never changes a collection that has a game already, set by an operator or by an earlier run,
  whatever the shops answer and whichever steps fail.
\<close>

theorem classification_keeps_marks:
  assumes "classified k g w" "classify_collections site known msg run ms (db, w) = (r, (db', w'))"
  shows "classified k g w'"
proof -
  let ?I = "\<lambda>s :: ops \<times> shop_world. classified k g (snd s)"
  have body: "keeps (classified k g) (\<lambda>w. case classify_handles site known m (unclassified (mk_id m) w) w of (n, w') \<Rightarrow> (Inr n, w'))" for m
  proof (rule keepsI)
    fix w assume w: "classified k g w"
    have "fst k \<noteq> mk_id m \<or> snd k \<notin> set (unclassified (mk_id m) w)" using unclassified_other w by (cases k) auto
    from classify_handles_keeps [OF w this]
    show "classified k g (snd (case classify_handles site known m (unclassified (mk_id m) w) w of (n, w') \<Rightarrow> (Inr n, w')))"
      by (auto split: prod.split) (metis snd_conv)
  qed
  have each: "keeps ?I (\<lambda>s. if unclassified (mk_id m) (snd s) = [] then (Inr 0, s)
      else track_world run (''classify_collections_'' @ dec (mk_id m)) ''step_failed'' msg (\<lambda>w.
        case classify_handles site known m (unclassified (mk_id m) w) w of (n, w') \<Rightarrow> (Inr n, w')) s)" for m
    using keeps_track_world [OF body] by (simp add: keeps_def)
  have "keeps ?I (classify_collections site known msg run ms)"
    unfolding classify_collections_def by (intro keeps_bindp keeps_for_each each keeps_ret)
  from keepsD [OF this _ assms(2)] assms(1) show ?thesis by simp
qed

definition demo_market :: market where
  "demo_market = \<lparr>mk_id = 1, mk_source = 3, mk_code = ''gg'', mk_url = []\<rparr>"

definition demo_world :: shop_world where
  "demo_world = \<lparr>sw_handles = [((1, ''a''), Some ''other''), ((1, ''b''), None)], sw_parquet = [], sw_products = [], sw_staging = []\<rparr>"

lemma classification_keeps_marks_witness:
  "\<exists>w'. snd (snd (classify_collections (\<lambda>_ _ _ _. Inr []) (\<lambda>_. True) (\<lambda>_. []) None [demo_market] (db, demo_world))) = w' \<and>
        classified (1, ''a'') ''other'' w'"
proof -
  obtain r db' w' where run: "classify_collections (\<lambda>_ _ _ _. Inr []) (\<lambda>_. True) (\<lambda>_. []) None [demo_market] (db, demo_world) = (r, (db', w'))"
    by (metis surj_pair)
  have "classified (1, ''a'') ''other'' demo_world" by (simp add: classified_def demo_world_def dict_ok_def)
  from classification_keeps_marks [OF this run] run show ?thesis by simp
qed

text \<open>A shop with two products and a storage that counts its files.\<close>

definition demo_backend :: "nat backend" where
  "demo_backend = \<lparr>be_save = (\<lambda>_ _ _ s. (Inr [], Suc s)), be_load = (\<lambda>_ _ _. Inl FileNotFoundErr), be_exists = (\<lambda>_ _. False),
                   be_delete = (\<lambda>_ s. (Inr False, s))\<rparr>"

definition demo_products :: "json list" where
  "demo_products = [JObj [(''id'', JInt 4)], JObj [(''id'', JInt 6)]]"

definition demo_pid :: "json \<Rightarrow> int" where
  "demo_pid p = (case p of JObj ((k, JInt i) # d) \<Rightarrow> i | _ \<Rightarrow> 1)"

definition demo_site :: site where
  "demo_site u h i n = (case i of JInt j \<Rightarrow> Inr (take n (filter (\<lambda>p. j < demo_pid p) demo_products)) | _ \<Rightarrow> Inl ValueErr)"

lemma fetch_one_complete_witness:
  "\<exists>pages. concat pages = demo_products \<and>
     fetch_one demo_backend demo_site demo_market ''all'' 0 = Some (Inr (length pages), save_pages demo_backend 3 ''all'' 0 pages 0)"
proof -
  have site: "lists_products (\<lambda>i. demo_site (mk_url demo_market) ''all'' i 250) 250 demo_pid demo_products"
    by (simp add: lists_products_def demo_products_def demo_pid_def demo_site_def product_id_def jget_def)
  have "saves demo_backend" by (simp add: saves_def demo_backend_def)
  from fetch_one_complete [of demo_site demo_market "''all''" demo_pid demo_products demo_backend 0, OF site this]
  show ?thesis by (auto simp: demo_market_def)
qed

end
