(* ===== verification/Spec2Isabelle.thy ===== *)
theory Spec2Isabelle
  imports Card_Sets Trading_Xml Batches Price_Load Scryfall Mtgjson Sealed_Catalog Pc_Sales Api_Client Prelude Py_Text Regex Ops_Runs Service_Manager Worker Metrics Health Auth_Sessions Ebay_Auth Ebay_Listings Market_Price Ebay_Sales Recommendation Mtgstock_Staging
    Listing_Builder Match_Catalog Card_Types Card_Import Card_Search Card_Prices Collections
    Storage Xz_Stream Shopify_Promote Shopify_Staging Shopify_Fetch
begin

text \<open>
  AutoMana, a platform for trading cards: a Python backend (\<open>src/src/automana/\<close>) that imports the catalog of cards and
  their prices, keeps the collections of its users and sells cards on eBay. This development models its core: the
  services with the statements of their repositories, the worker that runs them, and the helpers they share.

  \<^bold>\<open>How the program is put together.\<close> A service is a registered coroutine. The API and the Celery worker call it through
  the service manager, which gives it a database connection (in a transaction unless it is registered otherwise), its
  repositories and its storages. The worker runs the scheduled pipelines, which are chains of services: each writes its run
  and its steps to the tables of the operations schema. Loaders read a file or an API in batches into staging tables, and
  promotions move them to the price observations. The eBay services resolve a token, send a request and keep the answer
  in the database and in Redis.

  \<^bold>\<open>Theories and sources\<close> (paths below \<open>src/src/automana/\<close>; \<open>ebay/\<close>, \<open>mtgjson/\<close> and the like are the folders of
  \<open>core/services/app_integration/\<close>).

  Shared: \<open>Prelude\<close> has exceptions, results, programs on a state, insertion-ordered dictionaries, JSON and rounding;
  \<open>Py_Text\<close> the methods of strings; \<open>Regex\<close> the matcher of \<open>re\<close>; \<open>Batches\<close> the loop of a loader that writes full batches,
  with the contract of a bulk write.

  Operations: \<open>Ops_Runs\<close> (\<open>ops_repository.py\<close>, \<open>pipeline_services.py\<close>), \<open>Service_Manager\<close> (\<open>framework/registry.py\<close>,
  \<open>service_manager.py\<close>), \<open>Db_Session\<close> (\<open>db/query_executor.py\<close>, \<open>AbstractDBRepository.py\<close>), \<open>Worker\<close> (\<open>worker/main.py\<close>,
  \<open>tasks/pipelines.py\<close>), \<open>Metrics\<close> (\<open>core/metrics/\<close>, \<open>celery_metrics.py\<close>, the metrics middleware), \<open>Health\<close> (integrity
  reports, alerts, log digest), \<open>Storage\<close> and \<open>Xz_Stream\<close> (\<open>core/storage/storage.py\<close>), \<open>Api_Client\<close> (rate limiter and HTTP clients).

  Users and eBay: \<open>Auth_Sessions\<close> (\<open>api/services/auth/\<close>), \<open>Ebay_Auth\<close> (tokens and OAuth), \<open>Ebay_Listings\<close> (commands, reads,
  pending actions), \<open>Listing_Builder\<close> (\<open>listing_builder.py\<close>), \<open>Trading_Xml\<close> (\<open>xml_utils.py\<close>, \<open>EbayXmlBuilder.py\<close>),
  \<open>Market_Price\<close>, \<open>Ebay_Sales\<close> and \<open>Recommendation\<close> (\<open>analytics/\<close>).

  Catalog: \<open>Card_Types\<close> (\<open>type_parser.py\<close>, \<open>card_face_parser.py\<close>), \<open>Card_Import\<close>, \<open>Card_Search\<close> and \<open>Card_Prices\<close>
  (\<open>card_service.py\<close>, \<open>card_repository.py\<close>), \<open>Card_Sets\<close> (\<open>set_service.py\<close>, \<open>set_repository.py\<close> and the procedure behind
  them), \<open>Collections\<close>.

  Prices: \<open>Mtgstock_Api\<close>, \<open>Mtgstock_Loader\<close> and \<open>Mtgstock_Staging\<close> (\<open>mtg_stock/\<close>), \<open>Card_Matching\<close>, \<open>Match_Catalog\<close> and
  \<open>Pc_Sales\<close> (\<open>pricecharting/\<close>), \<open>Shopify_Fetch\<close>, \<open>Shopify_Staging\<close> and \<open>Shopify_Promote\<close> (\<open>shopify/\<close>), \<open>Mtgjson\<close>
  (\<open>mtgjson/\<close>), \<open>Sealed_Catalog\<close> (\<open>sealed_pricing_service.py\<close>), \<open>Scryfall\<close> and \<open>Price_Load\<close> (\<open>scryfall/\<close>, \<open>open_tcg/\<close>).

  \<^bold>\<open>How code and model correspond.\<close> A class with state is a record, a table a list of records or a dictionary with its keys,
  and a method or statement one definition under its Python name where that is free. A program is a function from the
  state to a result and the new state, and a result is \<open>Inl\<close> of an exception class or \<open>Inr\<close> of a value: state written before an
  exception is kept unless the code undoes it. Services are modelled on the tables themselves, their SQL as list functions
  with the conflicts and defaults of the schema. Where a transaction matters it is explicit: \<open>Service_Manager\<close> takes a snapshot
  around a service as a whole, and \<open>Db_Session\<close> looks at the single statements on the connection.

  \<^bold>\<open>What is shown.\<close> Invariants of the tables of runs, sales, sets and prices; atomicity of a transactional service, and where the
  retry of the executor breaks it; refinement of the idempotency stores by a map of first writes; isolation of the
  collections of users; confinement of the storage; round trips of type lines and of the XML of requests; typing of the
  generated search queries; equivalence of batched loads with direct ones; exactness of slices, staging and
  promotions; termination of searches, downloads and streams; rates and lengths; and flaws of the code, as theorems that
  exhibit them. The lemmas before a property carry its proof; each theory groups them by operation.

  \<^bold>\<open>Interfaces.\<close> The locale \<open>idempotency_store\<close> is interpreted on the stores in memory, in Redis and on both, \<open>pricing_strategy\<close>
  on the three strategies, \<open>storage_backend\<close> on the local backend, \<open>bulk_write\<close> and \<open>two_writes\<close> on the three price writers
  and on the load that feeds two of them.

  \<^bold>\<open>Parameters and bounds.\<close> Code that is not in the repository is an argument: HTTP answers, parsers of HTML, parquet and numbers,
  pydantic's validation, hashes, clocks, and the database procedures whose effect a service only calls. Floats and decimals are exact
  rationals, so binary rounding, infinities and NaN are not covered; case mapping of text is that of the first 256
  code points. The loops that may not end are partial functions that give \<open>None\<close> then, and properties state when
  they give a value: \<open>double_up\<close> (search for the last print id), \<open>fetch_pages\<close> (pages of a shop) and \<open>acquire\<close> (waiting for a token).
  The reader of XML in \<open>Trading_Xml\<close> recurses on a fuel, for which the length of the document is shown to be enough. Batch sizes are
  those of the code or arbitrary.

  \<^bold>\<open>Not modelled.\<close> The routers, dependencies and schemas of the API (declarations of the web framework); users, roles and mails
  (single statements and libraries); the reading queries, dashboards and reports, whose only behaviour is their SQL;
  the assistant and its prompts; the scraper of the PriceCharting catalog, which drives a browser; order pages and the retired eBay
  clients; settings, wiring, connection pools, logging and Celery configuration; and the operator tools and scripts. Concurrency is
  modelled where the code has it to itself (the threaded stream, the idempotency stores); statements of different
  services are not interleaved.
\<close>

end
